(* ===== verification/Go_Prelude.thy ===== *)
theory Go_Prelude
  imports Main "HOL-Library.Char_ord" "HOL-Library.List_Lexorder"
begin

text \<open>
  The part of Go and of its standard library that the program uses, and the list lemmas its
  components share.
  \<^item> Integers: Go's \<open>int\<close> and \<open>int64\<close> are HOL's \<open>int\<close> with the two's complement wrap-around
    \<open>i64\<close> written where an operation can overflow; \<open>/\<close> truncates towards zero (\<open>go_div\<close>).
  \<^item> Strings are lists of bytes. \<open>ToUpper\<close>, \<open>ToLower\<close> and \<open>TrimSpace\<close> are the ASCII part of
    the functions of package \<open>strings\<close>: bytes above 127 are left alone (Go maps them by code point).
  \<^item> \<open>float64\<close> values are opaque bit patterns: no modelled function computes with one.
  \<^item> A Go map read \<open>m[k]\<close> of a missing key gives the zero value: \<open>map_get\<close>.
\<close>

named_theorems go_str "evaluation of the string functions"

section \<open>Integers\<close>

definition i64 :: "int \<Rightarrow> int" where
  "i64 x = (x + 9223372036854775808) mod 18446744073709551616 - 9223372036854775808"

definition in_i64 :: "int \<Rightarrow> bool" where
  "in_i64 x \<longleftrightarrow> - 9223372036854775808 \<le> x \<and> x < 9223372036854775808"

lemma in_i64_i64 [simp, intro]: "in_i64 (i64 x)"
  by (auto simp: in_i64_def i64_def)

lemma i64_id [simp]: "in_i64 x \<Longrightarrow> i64 x = x"
  by (simp add: in_i64_def i64_def)

lemma i64_add_left: "i64 (i64 a + b) = i64 (a + b)"
proof -
  have "(i64 a + b) + 9223372036854775808 = (a + 9223372036854775808) mod 18446744073709551616 + b"
    by (simp add: i64_def)
  then have "i64 (i64 a + b) = ((a + 9223372036854775808) mod 18446744073709551616 + b) mod 18446744073709551616 - 9223372036854775808"
    by (simp only: i64_def [of "i64 a + b"])
  then show ?thesis unfolding mod_add_left_eq by (simp add: i64_def algebra_simps)
qed

lemma i64_add_right: "i64 (a + i64 b) = i64 (a + b)"
  using i64_add_left [of b a] by (simp add: add.commute)

lemma in_i64_nonneg: "0 \<le> x \<Longrightarrow> x < 9223372036854775808 \<Longrightarrow> in_i64 x"
  by (simp add: in_i64_def)

definition go_div :: "int \<Rightarrow> int \<Rightarrow> int" where
  "go_div a b = (if (a < 0) = (b < 0) then \<bar>a\<bar> div \<bar>b\<bar> else - (\<bar>a\<bar> div \<bar>b\<bar>))"

definition go_mod :: "int \<Rightarrow> int \<Rightarrow> int" where
  "go_mod a b = a - go_div a b * b"

lemma go_div_nonneg: "0 \<le> a \<Longrightarrow> 0 < b \<Longrightarrow> go_div a b = a div b"
  by (simp add: go_div_def)

lemma go_mod_nonneg: "0 \<le> a \<Longrightarrow> 0 < b \<Longrightarrow> go_mod a b = a mod b"
  by (simp add: go_mod_def go_div_nonneg minus_div_mult_eq_mod)

type_synonym float64_bits = nat \<comment> \<open>an IEEE 754 bit pattern, never computed with\<close>

section \<open>Maps\<close>

definition map_get :: "'v \<Rightarrow> ('k \<rightharpoonup> 'v) \<Rightarrow> 'k \<Rightarrow> 'v" where
  "map_get z m k = (case m k of None \<Rightarrow> z | Some v \<Rightarrow> v)"

lemma map_get_None [simp]: "m k = None \<Longrightarrow> map_get z m k = z"
  by (simp add: map_get_def)

lemma map_get_Some [simp]: "m k = Some v \<Longrightarrow> map_get z m k = v"
  by (simp add: map_get_def)

section \<open>Characters\<close>

definition byte :: "char \<Rightarrow> nat" where
  "byte c = of_char c"

lemma byte_inj: "byte c = byte d \<longleftrightarrow> c = d"
  by (simp add: byte_def)

lemma byte_char_of: "n < 256 \<Longrightarrow> byte (char_of n) = n"
  by (simp add: byte_def)

lemma byte_less [simp]: "byte c < 256"
  by (simp add: byte_def)

definition upper_char :: "char \<Rightarrow> char" where
  "upper_char c = (if 97 \<le> byte c \<and> byte c \<le> 122 then char_of (byte c - 32) else c)"

definition lower_char :: "char \<Rightarrow> char" where
  "lower_char c = (if 65 \<le> byte c \<and> byte c \<le> 90 then char_of (byte c + 32) else c)"

lemma byte_upper_char:
  "byte (upper_char c) = (if 97 \<le> byte c \<and> byte c \<le> 122 then byte c - 32 else byte c)"
  by (auto simp: upper_char_def byte_char_of)

lemma byte_lower_char:
  "byte (lower_char c) = (if 65 \<le> byte c \<and> byte c \<le> 90 then byte c + 32 else byte c)"
  by (auto simp: lower_char_def byte_char_of)

text \<open>Evaluation on the bits of a character: the case bit is bit 5, the letters are 1 to 26 in the low bits.\<close>

definition letter_bits :: "bool \<Rightarrow> bool \<Rightarrow> bool \<Rightarrow> bool \<Rightarrow> bool \<Rightarrow> bool" where
  "letter_bits b0 b1 b2 b3 b4 \<longleftrightarrow> (b0 \<or> b1 \<or> b2 \<or> b3 \<or> b4) \<and> \<not> (b4 \<and> b3 \<and> (b2 \<or> (b1 \<and> b0)))"

lemma upper_char_bits [code]:
  "upper_char (Char b0 b1 b2 b3 b4 b5 b6 b7) =
     Char b0 b1 b2 b3 b4 (b5 \<and> \<not> (\<not> b7 \<and> b6 \<and> letter_bits b0 b1 b2 b3 b4)) b6 b7"
  by (cases b0; cases b1; cases b2; cases b3; cases b4; cases b5; cases b6; cases b7;
      simp add: byte_inj [symmetric] byte_upper_char letter_bits_def; simp add: byte_def)

lemma lower_char_bits [code]:
  "lower_char (Char b0 b1 b2 b3 b4 b5 b6 b7) =
     Char b0 b1 b2 b3 b4 (b5 \<or> \<not> b7 \<and> b6 \<and> letter_bits b0 b1 b2 b3 b4) b6 b7"
  by (cases b0; cases b1; cases b2; cases b3; cases b4; cases b5; cases b6; cases b7;
      simp add: byte_inj [symmetric] byte_lower_char letter_bits_def; simp add: byte_def)

lemma upper_upper_char [simp]: "upper_char (upper_char c) = upper_char c"
  by (auto simp: byte_inj [symmetric] byte_upper_char)

lemma lower_lower_char [simp]: "lower_char (lower_char c) = lower_char c"
  by (auto simp: byte_inj [symmetric] byte_lower_char)

lemma upper_lower_char [simp]: "upper_char (lower_char c) = upper_char c"
  by (auto simp: byte_inj [symmetric] byte_lower_char byte_upper_char)

lemma lower_upper_char [simp]: "lower_char (upper_char c) = lower_char c"
  by (auto simp: byte_inj [symmetric] byte_lower_char byte_upper_char)

definition ToUpper :: "string \<Rightarrow> string" where
  "ToUpper s = map upper_char s"

definition ToLower :: "string \<Rightarrow> string" where
  "ToLower s = map lower_char s"

lemma ToUpper_append [simp]: "ToUpper (s @ t) = ToUpper s @ ToUpper t"
  by (simp add: ToUpper_def)

lemma ToLower_append [simp]: "ToLower (s @ t) = ToLower s @ ToLower t"
  by (simp add: ToLower_def)

lemma ToUpper_ToLower [simp]: "ToUpper (ToLower s) = ToUpper s"
  by (simp add: ToUpper_def ToLower_def)

lemma ToLower_ToUpper [simp]: "ToLower (ToUpper s) = ToLower s"
  by (simp add: ToUpper_def ToLower_def)

lemma ToLower_ToLower [simp]: "ToLower (ToLower s) = ToLower s"
  by (simp add: ToLower_def)

lemma ToUpper_ToUpper [simp]: "ToUpper (ToUpper s) = ToUpper s"
  by (simp add: ToUpper_def)

lemma length_ToUpper [simp]: "length (ToUpper s) = length s"
  by (simp add: ToUpper_def)

lemma length_ToLower [simp]: "length (ToLower s) = length s"
  by (simp add: ToLower_def)

section \<open>Strings\<close>

definition HasPrefix :: "string \<Rightarrow> string \<Rightarrow> bool" where
  "HasPrefix s p \<longleftrightarrow> take (length p) s = p"

lemma HasPrefix_append [simp]: "HasPrefix (p @ s) p"
  by (simp add: HasPrefix_def)

lemma HasPrefix_Nil [simp]: "HasPrefix s []"
  by (simp add: HasPrefix_def)

lemma HasPrefix_iff: "HasPrefix s p \<longleftrightarrow> (\<exists>r. s = p @ r)"
  by (metis HasPrefix_append HasPrefix_def append_take_drop_id)

lemma HasPrefix_shorter: "length p \<le> length x \<Longrightarrow> HasPrefix (x @ y) p = HasPrefix x p"
  by (simp add: HasPrefix_def)

definition HasSuffix :: "string \<Rightarrow> string \<Rightarrow> bool" where
  "HasSuffix s p \<longleftrightarrow> HasPrefix (rev s) (rev p)"

definition TrimPrefix :: "string \<Rightarrow> string \<Rightarrow> string" where
  "TrimPrefix s p = (if HasPrefix s p then drop (length p) s else s)"

definition TrimSuffix :: "string \<Rightarrow> string \<Rightarrow> string" where
  "TrimSuffix s p = (if HasSuffix s p then take (length s - length p) s else s)"

fun IndexOf :: "string \<Rightarrow> string \<Rightarrow> nat option" where
  "IndexOf [] sub = (if sub = [] then Some 0 else None)"
| "IndexOf (c # s) sub = (if HasPrefix (c # s) sub then Some 0 else map_option Suc (IndexOf s sub))"

definition Contains :: "string \<Rightarrow> string \<Rightarrow> bool" where
  "Contains s sub \<longleftrightarrow> IndexOf s sub \<noteq> None"

lemma IndexOf_iff: "IndexOf s sub \<noteq> None \<longleftrightarrow> (\<exists>p r. s = p @ sub @ r)"
proof (induction s)
  case Nil
  then show ?case by simp
next
  case (Cons c s)
  show ?case
  proof
    assume "IndexOf (c # s) sub \<noteq> None"
    then consider "HasPrefix (c # s) sub" | "IndexOf s sub \<noteq> None"
      by (auto split: if_splits)
    then show "\<exists>p r. c # s = p @ sub @ r"
    proof cases
      case 1
      then show ?thesis by (metis HasPrefix_iff append_Nil)
    next
      case 2
      then show ?thesis using Cons.IH by (metis append_Cons)
    qed
  next
    assume "\<exists>p r. c # s = p @ sub @ r"
    then obtain p r where eq: "c # s = p @ sub @ r" by blast
    show "IndexOf (c # s) sub \<noteq> None"
    proof (cases p)
      case Nil
      with eq have "HasPrefix (c # s) sub" by simp
      then show ?thesis by simp
    next
      case (Cons d p')
      with eq have "\<exists>p r. s = p @ sub @ r" by auto
      with Cons.IH show ?thesis by auto
    qed
  qed
qed

lemma Contains_iff: "Contains s sub \<longleftrightarrow> (\<exists>p r. s = p @ sub @ r)"
  unfolding Contains_def by (rule IndexOf_iff)

lemma Contains_infix: "Contains (p @ s @ r) s"
  by (auto simp: Contains_iff)

lemma Contains_append: "Contains s t \<Longrightarrow> Contains (s @ r) t"
  unfolding Contains_iff by (metis append_assoc)

text \<open>\<open>strings.LastIndex\<close>.\<close>

fun LastIndexOf :: "string \<Rightarrow> string \<Rightarrow> nat option" where
  "LastIndexOf [] sub = (if sub = [] then Some 0 else None)"
| "LastIndexOf (c # s) sub =
     (case LastIndexOf s sub of
        Some i \<Rightarrow> Some (Suc i)
      | None \<Rightarrow> if HasPrefix (c # s) sub then Some 0 else None)"

text \<open>\<open>strings.Replace(s, old, new, 1)\<close>.\<close>

definition Replace1 :: "string \<Rightarrow> string \<Rightarrow> string \<Rightarrow> string" where
  "Replace1 s old new =
     (case IndexOf s old of None \<Rightarrow> s | Some i \<Rightarrow> take i s @ new @ drop (i + length old) s)"

definition EqualFold :: "string \<Rightarrow> string \<Rightarrow> bool" where
  "EqualFold s t \<longleftrightarrow> ToLower s = ToLower t"

fun Join :: "string list \<Rightarrow> string \<Rightarrow> string" where
  "Join [] sep = []"
| "Join [x] sep = x"
| "Join (x # y # xs) sep = x @ sep @ Join (y # xs) sep"

text \<open>\<open>strings.Split\<close> with a one-byte separator.\<close>

fun Split :: "string \<Rightarrow> char \<Rightarrow> string list" where
  "Split [] c = [[]]"
| "Split (d # s) c =
     (if d = c then [] # Split s c
      else (case Split s c of [] \<Rightarrow> [[d]] | w # ws \<Rightarrow> (d # w) # ws))"

lemma Split_nonempty [simp]: "Split s c \<noteq> []"
  by (induction s) (auto split: list.splits)

lemma Join_Split: "Join (Split s c) [c] = s"
proof (induction s)
  case Nil
  then show ?case by simp
next
  case (Cons d s)
  obtain w ws where w: "Split s c = w # ws"
    by (meson Split_nonempty neq_Nil_conv)
  show ?case
    using Cons.IH by (cases ws) (auto simp: w)
qed

text \<open>\<open>strings.ReplaceAll\<close>; every call site passes a non-empty \<open>old\<close>.\<close>

function ReplaceAll :: "string \<Rightarrow> string \<Rightarrow> string \<Rightarrow> string" where
  "ReplaceAll s old new =
     (if s = [] \<or> old = [] then s
      else if HasPrefix s old then new @ ReplaceAll (drop (length old) s) old new
      else hd s # ReplaceAll (tl s) old new)"
  by pat_completeness auto
termination
  by (relation "measure (\<lambda>(s, old, new). length s)") auto

declare ReplaceAll.simps [simp del]

lemma ReplaceAll_Nil [simp, go_str]: "ReplaceAll [] old new = []"
  by (subst ReplaceAll.simps) simp

lemma ReplaceAll_char [simp]:
  "ReplaceAll s [c] new = concat (map (\<lambda>d. if d = c then new else [d]) s)"
proof (induction s)
  case Nil
  then show ?case by simp
next
  case (Cons d s)
  then show ?case by (subst ReplaceAll.simps) (simp add: HasPrefix_def)
qed

lemma ReplaceAll_Cons [go_str]:
  "old \<noteq> [] \<Longrightarrow> ReplaceAll (d # s) old new =
     (if HasPrefix (d # s) old then new @ ReplaceAll (drop (length old) (d # s)) old new
      else d # ReplaceAll s old new)"
  by (subst ReplaceAll.simps) simp

text \<open>White space of \<open>strings.TrimSpace\<close> (ASCII): tab, newline, vertical tab, form feed, return, space.\<close>

definition is_space :: "char \<Rightarrow> bool" where
  "is_space c \<longleftrightarrow> byte c = 32 \<or> (9 \<le> byte c \<and> byte c \<le> 13)"

definition trim_by :: "(char \<Rightarrow> bool) \<Rightarrow> string \<Rightarrow> string" where
  "trim_by p s = rev (dropWhile p (rev (dropWhile p s)))"

definition TrimSpace :: "string \<Rightarrow> string" where
  "TrimSpace s = trim_by is_space s"

definition Trim :: "string \<Rightarrow> string \<Rightarrow> string" where
  "Trim s cutset = trim_by (\<lambda>c. c \<in> set cutset) s"

definition TrimRight :: "string \<Rightarrow> string \<Rightarrow> string" where
  "TrimRight s cutset = rev (dropWhile (\<lambda>c. c \<in> set cutset) (rev s))"

lemma dropWhile_idem: "dropWhile p (dropWhile p xs) = dropWhile p xs"
  by (induction xs) auto

lemma trim_by_ends:
  assumes "trim_by p s \<noteq> []"
  shows "\<not> p (hd (trim_by p s))" and "\<not> p (last (trim_by p s))"
proof -
  define t where "t = dropWhile p s"
  define u where "u = dropWhile p (rev t)"
  have trim: "trim_by p s = rev u" by (simp add: trim_by_def u_def t_def)
  with assms have "u \<noteq> []" by simp
  then have "\<not> p (hd u)" unfolding u_def by (rule hd_dropWhile)
  then show "\<not> p (last (trim_by p s))"
    using \<open>u \<noteq> []\<close> by (simp add: trim last_rev)
  have t: "t = rev u @ rev (takeWhile p (rev t))"
    unfolding u_def by (metis rev_append rev_rev_ident takeWhile_dropWhile_id)
  with \<open>u \<noteq> []\<close> have "t \<noteq> []" by auto
  then have "\<not> p (hd t)" unfolding t_def by (rule hd_dropWhile)
  then show "\<not> p (hd (trim_by p s))"
    using t \<open>u \<noteq> []\<close> trim by (metis hd_append rev_is_Nil_conv)
qed

lemma trim_by_idem [simp]: "trim_by p (trim_by p s) = trim_by p s"
proof (cases "trim_by p s = []")
  case True
  show ?thesis unfolding True by (simp add: trim_by_def)
next
  case False
  let ?t = "trim_by p s"
  from False have "\<not> p (hd ?t)" "\<not> p (last ?t)" by (rule trim_by_ends)+
  with False have "dropWhile p ?t = ?t" "dropWhile p (rev ?t) = rev ?t"
    by (metis dropWhile_eq_self_iff, metis dropWhile_eq_self_iff hd_rev)
  then show ?thesis by (simp add: trim_by_def)
qed

lemma TrimSpace_Nil [simp]: "TrimSpace [] = []"
  by (simp add: TrimSpace_def trim_by_def)

lemma TrimSpace_idem [simp]: "TrimSpace (TrimSpace s) = TrimSpace s"
  by (simp add: TrimSpace_def)

section \<open>Decimal formatting (\<open>%d\<close>)\<close>

definition digit_char :: "nat \<Rightarrow> char" where
  "digit_char n = char_of (48 + n)"

fun utoa :: "nat \<Rightarrow> string" where
  "utoa n = (if n < 10 then [digit_char n] else utoa (n div 10) @ [digit_char (n mod 10)])"

declare utoa.simps [simp del]

definition itoa :: "int \<Rightarrow> string" where
  "itoa i = (if i < 0 then CHR ''-'' # utoa (nat (- i)) else utoa (nat i))"

text \<open>Reading the digits back, used to show that formatting loses nothing.\<close>

definition read_dec :: "string \<Rightarrow> nat" where
  "read_dec s = foldl (\<lambda>a c. 10 * a + (byte c - 48)) 0 s"

lemma byte_digit_char: "n < 10 \<Longrightarrow> byte (digit_char n) = 48 + n"
  by (simp add: digit_char_def byte_char_of)

lemma read_dec_snoc [simp]: "read_dec (s @ [c]) = 10 * read_dec s + (byte c - 48)"
  by (simp add: read_dec_def)

lemma read_dec_utoa [simp]: "read_dec (utoa n) = n"
proof (induction n rule: utoa.induct)
  case (1 n)
  show ?case
  proof (cases "n < 10")
    case True
    then show ?thesis by (subst utoa.simps) (simp add: read_dec_def byte_digit_char)
  next
    case False
    with 1 show ?thesis by (subst utoa.simps) (simp add: byte_digit_char)
  qed
qed

lemma utoa_inj [simp]: "utoa m = utoa n \<longleftrightarrow> m = n"
  by (metis read_dec_utoa)

definition is_digit :: "char \<Rightarrow> bool" where
  "is_digit c \<longleftrightarrow> 48 \<le> byte c \<and> byte c \<le> 57"

lemma utoa_digits: "c \<in> set (utoa n) \<Longrightarrow> is_digit c"
proof (induction n rule: utoa.induct)
  case (1 n)
  show ?case
  proof (cases "n < 10")
    case True
    with 1 show ?thesis
      by (auto simp: utoa.simps [of n] is_digit_def byte_digit_char)
  next
    case False
    with 1 show ?thesis
      by (auto simp: utoa.simps [of n] is_digit_def byte_digit_char)
  qed
qed

lemma utoa_nonempty [simp]: "utoa n \<noteq> []"
  by (subst utoa.simps) simp

lemma itoa_inj: "itoa i = itoa j \<longleftrightarrow> i = j"
proof
  assume eq: "itoa i = itoa j"
  have minus: "CHR ''-'' \<notin> set (utoa n)" for n
    using utoa_digits [of "CHR ''-''" n] by (auto simp: is_digit_def byte_def)
  have "(i < 0) = (j < 0)"
    using eq minus by (metis itoa_def list.set_intros(1))
  with eq show "i = j"
    by (auto simp: itoa_def eq_nat_nat_iff split: if_splits)
qed simp

lemma itoa_nonempty [simp]: "itoa i \<noteq> []"
  by (simp add: itoa_def)

section \<open>Lists\<close>

text \<open>\<open>append(xs[:i], append(ys, xs[i+n:]...)...)\<close> on a fresh slice.\<close>

definition splice_at :: "nat \<Rightarrow> nat \<Rightarrow> 'a list \<Rightarrow> 'a list \<Rightarrow> 'a list" where
  "splice_at i n ys xs = take i xs @ ys @ drop (i + n) xs"

lemma splice_at_append:
  "length as = i \<Longrightarrow> length bs = n \<Longrightarrow> splice_at i n ys (as @ bs @ cs) = as @ ys @ cs"
  by (auto simp: splice_at_def)

lemma length_splice_at:
  "i + n \<le> length xs \<Longrightarrow> length (splice_at i n ys xs) = length xs - n + length ys"
  by (simp add: splice_at_def)

lemma list_all2_right: "list_all2 P xs ys \<Longrightarrow> y \<in> set ys \<Longrightarrow> \<exists>x \<in> set xs. P x y"
  by (induction rule: list_all2_induct) auto

lemma list_all2_left: "list_all2 P xs ys \<Longrightarrow> x \<in> set xs \<Longrightarrow> \<exists>y \<in> set ys. P x y"
  by (induction rule: list_all2_induct) auto

section \<open>Errors\<close>

text \<open>A call that fails returns \<open>Inl\<close>; \<open>wrap_err\<close> is \<open>fmt.Errorf("...: %w", err)\<close>.\<close>

definition chain :: "string + 'a \<Rightarrow> ('a \<Rightarrow> string + 'b) \<Rightarrow> string + 'b" where
  "chain r k = (case r of Inl e \<Rightarrow> Inl e | Inr x \<Rightarrow> k x)"

lemma chain_simps [simp]: "chain (Inl e) k = Inl e" "chain (Inr x) k = k x"
  by (simp_all add: chain_def)

lemma chain_Inr: "chain r k = Inr y \<longleftrightarrow> (\<exists>x. r = Inr x \<and> k x = Inr y)"
  by (cases r) simp_all

definition wrap_err :: "string \<Rightarrow> string + 'a \<Rightarrow> string + 'a" where
  "wrap_err msg r = (case r of Inl e \<Rightarrow> Inl (msg @ '': '' @ e) | Inr x \<Rightarrow> Inr x)"

lemma wrap_err_Inr [simp]: "wrap_err msg r = Inr x \<longleftrightarrow> r = Inr x"
  by (cases r) (simp_all add: wrap_err_def)

lemma wrap_err_simps [simp]: "wrap_err msg (Inl e) = Inl (msg @ '': '' @ e)" "wrap_err msg (Inr x) = Inr x"
  by (simp_all add: wrap_err_def)

fun fold_err :: "('s \<Rightarrow> 'a \<Rightarrow> string + 's) \<Rightarrow> 's \<Rightarrow> 'a list \<Rightarrow> string + 's" where
  "fold_err f s [] = Inr s"
| "fold_err f s (x # xs) = chain (f s x) (\<lambda>s'. fold_err f s' xs)"

fun map_err :: "('a \<Rightarrow> string + 'b) \<Rightarrow> 'a list \<Rightarrow> string + 'b list" where
  "map_err f [] = Inr []"
| "map_err f (x # xs) = chain (f x) (\<lambda>y. chain (map_err f xs) (\<lambda>ys. Inr (y # ys)))"

lemma map_err_Inr: "map_err f xs = Inr ys \<longleftrightarrow> list_all2 (\<lambda>x y. f x = Inr y) xs ys"
  by (induction xs arbitrary: ys) (auto simp: chain_Inr list_all2_Cons1)

lemma fold_err_invariant:
  assumes "fold_err f s xs = Inr s'" and "P s" and "\<And>s x s'. x \<in> set xs \<Longrightarrow> P s \<Longrightarrow> f s x = Inr s' \<Longrightarrow> P s'"
  shows "P s'"
  using assms by (induction xs arbitrary: s) (auto simp: chain_Inr)

section \<open>Loops\<close>

text \<open>A loop \<open>for x in xs\<close> over a state is a \<open>foldl\<close>; these are its invariant rules.\<close>

lemma foldl_invariant:
  assumes "P s" and "\<And>s x. x \<in> set xs \<Longrightarrow> P s \<Longrightarrow> P (f s x)"
  shows "P (foldl f s xs)"
  using assms by (induction xs arbitrary: s) auto

lemma foldl_each:
  assumes "P s"
    and step: "\<And>s x. x \<in> set xs \<Longrightarrow> P s \<Longrightarrow> P (f s x) \<and> Q x (f s x)"
    and keep: "\<And>s x y. x \<in> set xs \<Longrightarrow> P s \<Longrightarrow> Q y s \<Longrightarrow> Q y (f s x)"
    and "x \<in> set xs"
  shows "Q x (foldl f s xs)"
  using assms
proof (induction xs arbitrary: s)
  case Nil
  then show ?case by simp
next
  case (Cons z zs)
  show ?case
  proof (cases "x \<in> set zs")
    case True
    then show ?thesis using Cons.IH [of "f s z"] Cons.prems by simp
  next
    case False
    then have "x = z" using Cons.prems(4) by simp
    then have start: "P (f s z) \<and> Q x (f s z)" using Cons.prems(1,2) by simp
    have "P (foldl f (f s z) zs) \<and> Q x (foldl f (f s z) zs)"
      by (rule foldl_invariant [where P = "\<lambda>s. P s \<and> Q x s"]) (use start Cons.prems(2,3) in auto)
    then show ?thesis by simp
  qed
qed

end
