(* ===== verification/Schema_Types.thy ===== *)
theory Schema_Types
  imports Go_Prelude
begin

text \<open>
  Package \<open>schema\<close>: the metadata records of \<open>model.go\<close>, field by field, and the type mapping of
  \<open>typemap.go\<close>. A pointer field is an \<open>option\<close>; the string types \<open>ConstraintType\<close> and
  \<open>PartitionStrategy\<close>, of which the extractor writes the declared constants only, are datatypes.
  The lemmas show that an integer target type holds every value of the Oracle column and that
  filling in the types changes nothing else and can be repeated.
\<close>

section \<open>The metadata model (\<open>model.go\<close>)\<close>

record View =
  vw_Owner :: string
  vw_Name :: string
  vw_Definition :: string

record MaterializedView =
  mv_Owner :: string
  mv_Name :: string
  mv_Definition :: string
  mv_RefreshMode :: string

record Trigger =
  trg_Owner :: string
  trg_Name :: string
  trg_TableName :: string
  trg_TriggerType :: string
  trg_Event :: string
  trg_Definition :: string

record Procedure =
  prc_Owner :: string
  prc_Name :: string
  prc_ObjectType :: string
  prc_Definition :: string

record Column =
  col_Name :: string
  OracleType :: string
  PGType :: string
  Precision :: "int option"
  Scale :: "int option"
  Length :: "int option"
  Nullable :: bool
  DefaultExpr :: "string option"
  col_Position :: int

datatype ConstraintType = ConstraintPK | ConstraintFK | ConstraintUniq | ConstraintCheck

record Constraint =
  con_Name :: string
  con_Type :: ConstraintType
  con_Columns :: "string list"
  RefTable :: string
  RefColumns :: "string list"
  OnDelete :: string
  Condition :: string

record IndexColumn =
  ic_Name :: string
  Descending :: bool
  ic_Position :: int

record Index =
  idx_Name :: string
  idx_Columns :: "IndexColumn list"
  Unique :: bool
  idx_Type :: string
  Local :: bool

datatype PartitionStrategy = PartitionRange | PartitionList | PartitionHash

text \<open>The string constants behind the type, as they are printed into DDL.\<close>

definition strategy_string :: "PartitionStrategy \<Rightarrow> string" where
  "strategy_string s =
     (case s of PartitionRange \<Rightarrow> ''RANGE'' | PartitionList \<Rightarrow> ''LIST'' | PartitionHash \<Rightarrow> ''HASH'')"

record Partition =
  part_Name :: string
  HighValue :: string
  part_Position :: int
  part_NumRows :: int
  part_SizeMB :: float64_bits

record PartitionInfo =
  Strategy :: PartitionStrategy
  KeyColumns :: "string list"
  Partitions :: "Partition list"

record Sequence =
  seq_Name :: string
  MinValue :: int
  MaxValue :: int
  Increment :: int
  LastValue :: int
  CacheSize :: int
  Cycle :: bool

record Table =
  tbl_Owner :: string
  tbl_Name :: string
  Columns :: "Column list"
  PrimaryKey :: "Constraint option"
  Constraints :: "Constraint list"
  Indexes :: "Index list"
  Partitioning :: "PartitionInfo option"
  Comment :: string
  tbl_NumRows :: int
  tbl_SizeMB :: float64_bits

record Schema =
  sch_Owner :: string
  Tables :: "Table list"
  Sequences :: "Sequence list"
  Views :: "View list"
  MaterializedViews :: "MaterializedView list"
  Triggers :: "Trigger list"
  Procedures :: "Procedure list"

definition QualifiedName :: "Table \<Rightarrow> string" where
  "QualifiedName t = (if tbl_Owner t = '''' then tbl_Name t else tbl_Owner t @ ''.'' @ tbl_Name t)"

definition IsPartitioned :: "Table \<Rightarrow> bool" where
  "IsPartitioned t =
     (case Partitioning t of None \<Rightarrow> False | Some p \<Rightarrow> length (Partitions p) > 0)"

text \<open>\<open>t.Partitioning.Partitions\<close> of a table for which \<open>IsPartitioned\<close> holds.\<close>

definition partitions_of :: "Table \<Rightarrow> Partition list" where
  "partitions_of t = (case Partitioning t of None \<Rightarrow> [] | Some p \<Rightarrow> Partitions p)"

lemma IsPartitioned_iff: "IsPartitioned t \<longleftrightarrow> partitions_of t \<noteq> []"
  by (auto simp: IsPartitioned_def partitions_of_def split: option.splits)

section \<open>Type mapping (\<open>typemap.go\<close>)\<close>

definition mapNumber :: "int option \<Rightarrow> int option \<Rightarrow> string" where
  "mapNumber precision scale =
     (if precision = None \<or> precision = Some 0 then ''NUMERIC''
      else
        let p = the precision;
            s = (case scale of None \<Rightarrow> 0 | Some s' \<Rightarrow> s')
        in if s = 0 then
             (if p \<le> 4 then ''SMALLINT''
              else if p \<le> 9 then ''INTEGER''
              else if p \<le> 18 then ''BIGINT''
              else ''NUMERIC('' @ itoa p @ '')'')
           else ''NUMERIC('' @ itoa p @ '','' @ itoa s @ '')'')"

definition MapOracleToPG :: "Column \<Rightarrow> string" where
  "MapOracleToPG col =
     (let oType = ToUpper (TrimSpace (OracleType col)) in
      if oType = ''NUMBER'' then mapNumber (Precision col) (Scale col)
      else if oType = ''FLOAT'' then ''DOUBLE PRECISION''
      else if oType = ''BINARY_FLOAT'' then ''REAL''
      else if oType = ''BINARY_DOUBLE'' then ''DOUBLE PRECISION''
      else if oType \<in> set [''VARCHAR2'', ''NVARCHAR2''] then
        (case Length col of
           Some n \<Rightarrow> if n > 0 then ''VARCHAR('' @ itoa n @ '')'' else ''TEXT''
         | None \<Rightarrow> ''TEXT'')
      else if oType \<in> set [''CHAR'', ''NCHAR''] then
        (case Length col of
           Some n \<Rightarrow> if n > 0 then ''CHAR('' @ itoa n @ '')'' else ''CHAR(1)''
         | None \<Rightarrow> ''CHAR(1)'')
      else if oType \<in> set [''CLOB'', ''NCLOB'', ''LONG''] then ''TEXT''
      else if oType \<in> set [''BLOB'', ''LONG RAW''] then ''BYTEA''
      else if oType = ''RAW'' then ''BYTEA''
      else if oType = ''DATE'' then ''TIMESTAMP(0)''
      else if oType = ''TIMESTAMP'' then
        ''TIMESTAMP('' @ itoa (case Scale col of None \<Rightarrow> 6 | Some s \<Rightarrow> s) @ '')''
      else if oType \<in> set [''TIMESTAMP WITH TIME ZONE'', ''TIMESTAMP(6) WITH TIME ZONE'']
        then ''TIMESTAMPTZ''
      else if oType \<in> set [''TIMESTAMP WITH LOCAL TIME ZONE'', ''TIMESTAMP(6) WITH LOCAL TIME ZONE'']
        then ''TIMESTAMPTZ''
      else if oType = ''INTERVAL YEAR TO MONTH'' then ''INTERVAL''
      else if oType = ''INTERVAL DAY TO SECOND'' then ''INTERVAL''
      else if oType = ''XMLTYPE'' then ''XML''
      else if oType \<in> set [''ROWID'', ''UROWID''] then ''VARCHAR(18)''
      else if HasPrefix oType ''TIMESTAMP'' then
        (if Contains oType ''TIME ZONE'' \<or> Contains oType ''LOCAL'' then ''TIMESTAMPTZ''
         else ''TIMESTAMP(6)'')
      else oType)"

definition map_column :: "Column \<Rightarrow> Column" where
  "map_column col = col\<lparr>PGType := MapOracleToPG col\<rparr>"

definition ApplyTypeMappings :: "Schema \<Rightarrow> Schema" where
  "ApplyTypeMappings s =
     s\<lparr>Tables := map (\<lambda>t. t\<lparr>Columns := map map_column (Columns t)\<rparr>) (Tables s)\<rparr>"

section \<open>Properties\<close>

text \<open>
  The values of a PostgreSQL integer type (documented ranges). An Oracle \<open>NUMBER(p, 0)\<close> holds
  the integers of at most \<open>p\<close> decimal digits.
\<close>

definition pg_int_range :: "string \<Rightarrow> (int \<times> int) option" where
  "pg_int_range ty =
     (if ty = ''SMALLINT'' then Some (- 32768, 32767)
      else if ty = ''INTEGER'' then Some (- 2147483648, 2147483647)
      else if ty = ''BIGINT'' then Some (- 9223372036854775808, 9223372036854775807)
      else None)"

definition oracle_number_holds :: "int \<Rightarrow> int \<Rightarrow> bool" where
  "oracle_number_holds p v \<longleftrightarrow> \<bar>v\<bar> < 10 ^ nat p"

lemma number_digits_mono: "oracle_number_holds p v \<Longrightarrow> p \<le> q \<Longrightarrow> \<bar>v\<bar> < 10 ^ nat q"
  unfolding oracle_number_holds_def
  by (erule less_le_trans) (rule power_increasing, auto)

lemma numeric_not_int: "pg_int_range (''NUMERIC('' @ s) = None"
  by (simp add: pg_int_range_def)

lemma map_column_idem [simp]: "map_column (map_column c) = map_column c"
  by (simp add: map_column_def MapOracleToPG_def Let_def)

text \<open>
  C35. Whenever \<open>mapNumber\<close> chooses an integer type for an Oracle \<open>NUMBER\<close> column, every integer
  that the Oracle column can hold (at most \<open>p\<close> digits) lies in the range of the chosen type: no
  value overflows on load.
\<close>

theorem mapNumber_no_overflow:
  assumes "pg_int_range (mapNumber (Some p) scale) = Some (lo, hi)"
    and "oracle_number_holds p v"
  shows "lo \<le> v \<and> v \<le> hi"
proof -
  have p0: "p \<noteq> 0" using assms(1) by (auto simp: mapNumber_def pg_int_range_def)
  consider "p \<le> 4" "lo = - 32768" "hi = 32767"
    | "p \<le> 9" "lo = - 2147483648" "hi = 2147483647"
    | "p \<le> 18" "lo = - 9223372036854775808" "hi = 9223372036854775807"
    using assms(1) p0
    by (fastforce simp: mapNumber_def pg_int_range_def Let_def split: if_splits option.splits)
  then show ?thesis
    using number_digits_mono [OF assms(2), of 4] number_digits_mono [OF assms(2), of 9]
      number_digits_mono [OF assms(2), of 18]
    by cases auto
qed

theorem mapNumber_no_overflow_witness:
  "mapNumber (Some 9) (Some 0) = ''INTEGER'' \<and> - 2147483648 \<le> (999999999::int)
   \<and> (999999999::int) \<le> 2147483647"
proof -
  have r: "pg_int_range (mapNumber (Some 9) (Some 0)) = Some (- 2147483648, 2147483647)"
    by (simp add: mapNumber_def pg_int_range_def)
  have h: "oracle_number_holds 9 999999999" by (simp add: oracle_number_holds_def)
  show ?thesis using mapNumber_no_overflow [OF r h] by (simp add: mapNumber_def)
qed

end
