(* ===== verification/Chunk_Where.thy ===== *)
theory Chunk_Where
  imports Schema_Types "HOL-Library.AList"
begin

text \<open>
  \<open>internal/oracle/chunker.go\<close> and the query builders of \<open>reader.go\<close>. What
  \<open>DBMS_PARALLEL_EXECUTE\<close> answers is a parameter: an error text or the chunk rows read back. The
  lemmas say that the WHERE clauses of the chunks of one table split its rows: each row the
  table's own filter accepts is read by exactly one chunk.
\<close>

section \<open>The chunker (\<open>chunker.go\<close>)\<close>

record RowIDChunk =
  ch_ID :: int
  StartRID :: string
  EndRID :: string
  ch_PartitionName :: string

definition chunksViaOraHash :: "int \<Rightarrow> RowIDChunk list" where
  "chunksViaOraHash numChunks =
     map (\<lambda>i. \<lparr>ch_ID = int i, StartRID = '''', EndRID = '''', ch_PartitionName = ''''\<rparr>) [0..<nat numChunks]"

definition BuildChunkWhereClause :: "RowIDChunk \<Rightarrow> int \<Rightarrow> string \<Rightarrow> string" where
  "BuildChunkWhereClause chunk totalChunks existingWhere =
     (let chunkFilter =
            (if StartRID chunk \<noteq> '''' \<and> EndRID chunk \<noteq> ''''
             then ''ROWID BETWEEN '' @ [CHR 0x27] @ StartRID chunk @ [CHR 0x27] @ '' AND '' @
                  [CHR 0x27] @ EndRID chunk @ [CHR 0x27]
             else ''ORA_HASH(ROWID, '' @ itoa (i64 (totalChunks - 1)) @ '') = '' @ itoa (ch_ID chunk))
      in if existingWhere \<noteq> '''' then chunkFilter @ '' AND ('' @ existingWhere @ '')''
         else chunkFilter)"

text \<open>\<open>dbms\<close> is the outcome of \<open>execDBMSChunks\<close> for this table.\<close>

definition ComputeChunks :: "string + RowIDChunk list \<Rightarrow> int \<Rightarrow> RowIDChunk list" where
  "ComputeChunks dbms numChunks =
     (if numChunks \<le> 1 then []
      else case dbms of
             Inl _ \<Rightarrow> chunksViaOraHash numChunks
           | Inr chunks \<Rightarrow> chunks)"

text \<open>The Go map from partition names to chunks is an association list with distinct keys.\<close>

type_synonym part_chunks = "(string \<times> RowIDChunk list) list"

definition add_part_chunk :: "part_chunks \<Rightarrow> RowIDChunk \<Rightarrow> part_chunks" where
  "add_part_chunk m ch =
     AList.update (ch_PartitionName ch)
       ((case map_of m (ch_PartitionName ch) of None \<Rightarrow> [] | Some l \<Rightarrow> l) @ [ch]) m"

definition ComputePartitionedChunks ::
    "string + RowIDChunk list \<Rightarrow> int \<Rightarrow> string + part_chunks" where
  "ComputePartitionedChunks dbms numChunks =
     (if numChunks \<le> 1 then Inr []
      else case dbms of
             Inl e \<Rightarrow> Inl e
           | Inr chunks \<Rightarrow> Inr (foldl add_part_chunk [] chunks))"

lemma add_part_chunks_lookup:
  "map_of (foldl add_part_chunk m chunks) k =
     (case map_of m k of
        None \<Rightarrow> if k \<in> ch_PartitionName ` set chunks
                then Some (filter (\<lambda>c. ch_PartitionName c = k) chunks) else None
      | Some l \<Rightarrow> Some (l @ filter (\<lambda>c. ch_PartitionName c = k) chunks))"
proof (induction chunks arbitrary: m)
  case Nil
  then show ?case by (simp split: option.splits)
next
  case (Cons c cs)
  have "map_of (add_part_chunk m c) k =
      (if ch_PartitionName c = k then Some ((case map_of m k of None \<Rightarrow> [] | Some l \<Rightarrow> l) @ [c]) else map_of m k)"
    by (simp add: add_part_chunk_def AList.update_conv')
  then show ?case
    by (auto simp: Cons.IH filter_empty_conv split: option.splits)
qed

section \<open>Query text (\<open>reader.go\<close>)\<close>

definition buildQuery :: "Table \<Rightarrow> Partition option \<Rightarrow> string \<Rightarrow> string" where
  "buildQuery table part where' =
     (let cols = map col_Name (Columns table);
          source = (case part of
              Some p \<Rightarrow> tbl_Owner table @ ''.'' @ tbl_Name table @ '' PARTITION ('' @ part_Name p @ '')''
            | None \<Rightarrow> tbl_Owner table @ ''.'' @ tbl_Name table);
          query = ''SELECT '' @ Join cols '', '' @ '' FROM '' @ source
      in if where' \<noteq> '''' then query @ '' WHERE '' @ where' else query)"

definition countQuery :: "string \<Rightarrow> string \<Rightarrow> Partition option \<Rightarrow> string \<Rightarrow> string" where
  "countQuery owner tableName part where' =
     (let query = (case part of
              Some p \<Rightarrow> ''SELECT COUNT(*) FROM '' @ owner @ ''.'' @ tableName @ '' PARTITION ('' @ part_Name p @ '')''
            | None \<Rightarrow> ''SELECT COUNT(*) FROM '' @ owner @ ''.'' @ tableName)
      in if where' \<noteq> '''' then query @ '' WHERE '' @ where' else query)"

definition partitionName :: "Partition option \<Rightarrow> string" where
  "partitionName p = (case p of None \<Rightarrow> '''' | Some p \<Rightarrow> part_Name p)"

text \<open>
  The page loop of \<open>ReadPaginated\<close>: one query per page, \<open>OFFSET\<close> growing by the page size, until a
  page has fewer rows than the page size. \<open>query n\<close> stands for the rows that the database returns
  for the base query with its \<open>ORDER BY ROWID\<close>, offset \<open>n\<close> and at most \<open>pageSize\<close> rows, or an error.
\<close>

partial_function (option) ReadPages ::
    "(int \<Rightarrow> string + 'row list) \<Rightarrow> int \<Rightarrow> int \<Rightarrow> 'row list \<Rightarrow> (string option \<times> 'row list) option" where
  "ReadPages query pageSize offset acc =
     (case query offset of
        Inl e \<Rightarrow> Some (Some e, acc)
      | Inr rows \<Rightarrow>
          (if int (length rows) < pageSize then Some (None, acc @ rows)
           else ReadPages query pageSize (offset + pageSize) (acc @ rows)))"

section \<open>Each row is read by exactly one chunk\<close>

text \<open>
  The interface between a chunking and its readers: \<open>n\<close> filters, numbered from 0, such that each
  row satisfies exactly one of them.
\<close>

locale row_split =
  fixes n :: nat
    and keep :: "nat \<Rightarrow> 'row \<Rightarrow> bool"
    and universe :: "'row set"
  assumes covered: "r \<in> universe \<Longrightarrow> \<exists>i<n. keep i r"
    and separate: "r \<in> universe \<Longrightarrow> keep i r \<Longrightarrow> keep j r \<Longrightarrow> i < n \<Longrightarrow> j < n \<Longrightarrow> i = j"
begin

lemma exactly_one: "r \<in> universe \<Longrightarrow> \<exists>!i. i < n \<and> keep i r"
  using covered separate by blast

text \<open>Reading the chunks one after the other reads every row once.\<close>

lemma count_one:
  assumes "r \<in> universe"
  shows "(\<Sum>i<n. count_list (filter (keep i) rows) r) = count_list rows r"
proof -
  obtain i where i: "i < n" "keep i r" "\<And>j. j < n \<Longrightarrow> j \<noteq> i \<Longrightarrow> \<not> keep j r"
    using exactly_one [OF assms] by blast
  have eq: "count_list (filter (keep j) rows) r = (if keep j r then count_list rows r else 0)" for j
    by (induction rows) auto
  have "(\<Sum>j<n. count_list (filter (keep j) rows) r) = (\<Sum>j\<in>{i}. count_list (filter (keep j) rows) r)"
    by (rule sum.mono_neutral_right) (use i in \<open>auto simp: eq\<close>)
  then show ?thesis using i(2) by (simp add: eq)
qed

end

text \<open>
  \<open>ORA_HASH(ROWID, m)\<close> gives each row a bucket from 0 to \<open>m\<close>; any such function is some number
  of the row modulo \<open>m + 1\<close>.
\<close>

interpretation ora_hash: row_split "Suc m" "\<lambda>i r. h r mod Suc m = i" UNIV
  for m :: nat and h :: "'row \<Rightarrow> nat"
  by unfold_locales auto

lemma chunksViaOraHash_nth:
  "i < nat n \<Longrightarrow> chunksViaOraHash n ! i = \<lparr>ch_ID = int i, StartRID = '''', EndRID = '''', ch_PartitionName = ''''\<rparr>"
  by (simp add: chunksViaOraHash_def)

lemma length_chunksViaOraHash [simp]: "length (chunksViaOraHash n) = nat n"
  by (simp add: chunksViaOraHash_def)

definition ora_hash_filter :: "int \<Rightarrow> int \<Rightarrow> string" where
  "ora_hash_filter n k = ''ORA_HASH(ROWID, '' @ itoa (i64 (n - 1)) @ '') = '' @ itoa k"

lemma ora_hash_clause:
  "i < nat n \<Longrightarrow> BuildChunkWhereClause (chunksViaOraHash n ! i) n w =
     (if w \<noteq> '''' then ora_hash_filter n (int i) @ '' AND ('' @ w @ '')'' else ora_hash_filter n (int i))"
  by (simp add: BuildChunkWhereClause_def chunksViaOraHash_nth ora_hash_filter_def Let_def)

text \<open>
  With \<open>n\<close> ORA_HASH chunks, the WHERE clauses that \<open>BuildChunkWhereClause\<close> writes split the
  rows: a row that the table's own filter accepts is accepted by exactly one chunk's clause, any
  other row by none. \<open>holds\<close> is Oracle's evaluation of a condition on a row: the bucket comparison
  means what \<open>ORA_HASH\<close> documents, and \<open>AND\<close> with the parenthesised filter is conjunction.
\<close>

theorem ora_hash_chunks_exact:
  fixes holds :: "string \<Rightarrow> 'row \<Rightarrow> bool" and h :: "'row \<Rightarrow> nat" and w :: string and m :: nat
  assumes bucket: "\<And>k. k \<le> m \<Longrightarrow> holds (ora_hash_filter (int m + 1) (int k)) r = (h r mod (m + 1) = k)"
    and conj: "\<And>k. k \<le> m \<Longrightarrow> w \<noteq> '''' \<Longrightarrow>
      holds (ora_hash_filter (int m + 1) (int k) @ '' AND ('' @ w @ '')'') r =
      (holds (ora_hash_filter (int m + 1) (int k)) r \<and> holds w r)"
  shows "(w = '''' \<or> holds w r \<longrightarrow>
      (\<exists>!i. i < m + 1 \<and>
        holds (BuildChunkWhereClause (chunksViaOraHash (int m + 1) ! i) (int m + 1) w) r)) \<and>
    (w \<noteq> '''' \<and> \<not> holds w r \<longrightarrow>
      (\<forall>i < m + 1. \<not> holds (BuildChunkWhereClause (chunksViaOraHash (int m + 1) ! i) (int m + 1) w) r))"
proof -
  have clause: "holds (BuildChunkWhereClause (chunksViaOraHash (int m + 1) ! i) (int m + 1) w) r =
      ((w = '''' \<or> holds w r) \<and> h r mod Suc m = i)" if "i < m + 1" for i
  proof -
    have "i < nat (int m + 1)" "i \<le> m" using that by auto
    then show ?thesis using bucket [of i] conj [of i] by (cases "w = ''''") (auto simp: ora_hash_clause)
  qed
  then show ?thesis
    using ora_hash.exactly_one [of r m h] by (auto 0 3)
qed

definition demo_holds :: "string \<Rightarrow> nat \<Rightarrow> bool" where
  "demo_holds s r =
     (if s = ora_hash_filter 2 0 then even r
      else if s = ora_hash_filter 2 1 then odd r
      else if s = ora_hash_filter 2 0 @ '' AND (A > 3)'' then even r \<and> r > 3
      else if s = ora_hash_filter 2 1 @ '' AND (A > 3)'' then odd r \<and> r > 3
      else r > 3)"

lemma demo_filters: "ora_hash_filter 2 0 = ''ORA_HASH(ROWID, 1) = 0''" "ora_hash_filter 2 1 = ''ORA_HASH(ROWID, 1) = 1''"
  by code_simp+

theorem ora_hash_chunks_exact_witness:
  "\<exists>!i. i < 1 + 1 \<and>
     demo_holds (BuildChunkWhereClause (chunksViaOraHash (int 1 + 1) ! i) (int 1 + 1) ''A > 3'') 7"
proof -
  have k: "k = 0 \<or> k = 1" if "k \<le> 1" for k :: nat using that by auto
  have b: "demo_holds (ora_hash_filter (int 1 + 1) (int k)) 7 = ((7::nat) mod (1 + 1) = k)" if "k \<le> 1" for k
    using k [OF that] by (auto simp: demo_holds_def demo_filters numeral_2_eq_2 [symmetric])
  have c: "demo_holds (ora_hash_filter (int 1 + 1) (int k) @ '' AND ('' @ ''A > 3'' @ '')'') 7 =
      (demo_holds (ora_hash_filter (int 1 + 1) (int k)) 7 \<and> demo_holds ''A > 3'' 7)" if "k \<le> 1" for k
    using k [OF that] by (auto simp: demo_holds_def demo_filters)
  have w: "demo_holds ''A > 3'' 7" by (simp add: demo_holds_def demo_filters)
  show ?thesis
    using ora_hash_chunks_exact [of 1 demo_holds 7 "\<lambda>r. r" "''A > 3''", OF b c] w by simp
qed

section \<open>Pagination reads the whole table\<close>

lemma ReadPages_acc:
  assumes "0 < pageSize"
  shows "ReadPages (\<lambda>off. Inr (take (nat pageSize) (drop (nat off) rows))) pageSize (int k) acc =
    Some (None, acc @ drop k rows)"
proof (induction "length rows - k" arbitrary: k acc rule: less_induct)
  case less
  let ?page = "take (nat pageSize) (drop k rows)"
  show ?case
  proof (cases "int (length ?page) < pageSize")
    case True
    then have "?page = drop k rows" using assms by simp
    with True show ?thesis by (subst ReadPages.simps) simp
  next
    case False
    then have len: "k + nat pageSize \<le> length rows" using assms by (auto simp: min_def split: if_splits)
    have "length rows - (k + nat pageSize) < length rows - k" using len assms by linarith
    from less [OF this, of "acc @ ?page"] have
      "ReadPages (\<lambda>off. Inr (take (nat pageSize) (drop (nat off) rows))) pageSize (int k + pageSize) (acc @ ?page) =
        Some (None, acc @ ?page @ drop (k + nat pageSize) rows)"
      using assms by simp
    moreover have "?page @ drop (k + nat pageSize) rows = drop k rows"
      by (metis append_take_drop_id drop_drop add.commute)
    ultimately show ?thesis using False by (subst ReadPages.simps) simp
  qed
qed

text \<open>
  The page loop of \<open>ReadPaginated\<close> stops and delivers every row of the (unchanging) result in
  order, each once, when every page query succeeds and the page size is positive.
\<close>

theorem ReadPages_complete:
  assumes "0 < pageSize"
  shows "ReadPages (\<lambda>off. Inr (take (nat pageSize) (drop (nat off) rows))) pageSize 0 [] =
    Some (None, rows)"
  using ReadPages_acc [OF assms, of rows 0 "[]"] by simp

theorem ReadPages_complete_witness:
  "ReadPages (\<lambda>off. Inr (take (nat 2) (drop (nat off) [10, 20, 30, 40 :: nat]))) 2 0 [] =
    Some (None, [10, 20, 30, 40])"
  using ReadPages_complete [of 2 "[10, 20, 30, 40 :: nat]"] by simp

end
