(* ===== verification/Config_Model.thy ===== *)
theory Config_Model
  imports Go_Prelude
begin

text \<open>
  \<open>internal/config/config.go\<close>: the configuration records, the resolution of per-table modes, the
  defaults and the validation. Reading the file and parsing YAML (\<open>gopkg.in/yaml.v3\<close>, not part of
  the repository) is the parameter \<open>parsed\<close> of \<open>Load\<close>; the number of CPUs is a parameter too.
  Modes and strategies stay strings: the code lets an unknown one through.
\<close>

section \<open>Records\<close>

definition DefaultMaxWorkers :: int where [simp]: "DefaultMaxWorkers = 8"

definition DefaultBatchSize :: int where [simp]: "DefaultBatchSize = 50000"

definition DefaultFetchSize :: int where [simp]: "DefaultFetchSize = 5000"

record OracleConfig =
  ora_DSN :: string
  ora_Schema :: string
  ora_MaxConns :: int

record PostgresConfig =
  pg_DSN :: string
  pg_Schema :: string
  pg_MaxConns :: int
  DropTarget :: bool
  Unlogged :: bool

type_synonym ChunkStrategy = string

definition ChunkStrategyOraHash :: ChunkStrategy where [simp]: "ChunkStrategyOraHash = ''ora_hash''"

definition ChunkStrategyRowID :: ChunkStrategy where [simp]: "ChunkStrategyRowID = ''rowid''"

definition ChunkStrategyOffset :: ChunkStrategy where [simp]: "ChunkStrategyOffset = ''offset''"

definition ChunkStrategyAuto :: ChunkStrategy where [simp]: "ChunkStrategyAuto = ''auto''"

type_synonym TargetMode = string

definition TargetModeRecreate :: TargetMode where [simp]: "TargetModeRecreate = ''recreate''"

definition TargetModeTruncate :: TargetMode where [simp]: "TargetModeTruncate = ''truncate''"

definition TargetModeAppend :: TargetMode where [simp]: "TargetModeAppend = ''append''"

definition TargetModeSkip :: TargetMode where [simp]: "TargetModeSkip = ''skip''"

definition TargetModeTruncatePartition :: TargetMode where
  [simp]: "TargetModeTruncatePartition = ''truncate_partition''"

record RangeFilter =
  From :: string
  To :: string

record TableOverride =
  o_Where :: string
  PartitionFilter :: "string list"
  o_PartitionRange :: "RangeFilter option"
  TargetName :: string
  o_TargetMode :: TargetMode
  SkipIndexes :: bool
  IndexMode :: string
  SkipConstraints :: bool
  SkipValidation :: bool
  o_BatchSize :: int
  o_FetchSize :: int
  o_MaxParallel :: int
  o_ChunkSize :: int
  o_ChunkStrategy :: ChunkStrategy

text \<open>The zero value, which a read of a missing map key gives.\<close>

definition zeroOverride :: TableOverride where
  "zeroOverride = \<lparr>o_Where = '''', PartitionFilter = [], o_PartitionRange = None, TargetName = '''',
     o_TargetMode = '''', SkipIndexes = False, IndexMode = '''', SkipConstraints = False,
     SkipValidation = False, o_BatchSize = 0, o_FetchSize = 0, o_MaxParallel = 0, o_ChunkSize = 0,
     o_ChunkStrategy = ''''\<rparr>"

record MigrationConfig =
  Workers :: int
  m_BatchSize :: int
  MaxBatchBytes :: int
  m_FetchSize :: int
  m_ChunkStrategy :: ChunkStrategy
  IncludeTables :: "string list"
  ExcludeTables :: "string list"
  IncludeSequences :: "string list"
  TableOverrides :: "string \<rightharpoonup> TableOverride"
  StateDBPath :: string
  m_Resume :: bool
  ValidateAfter :: bool
  ChecksumCols :: bool
  NamingConvention :: string
  m_TypeOverrides :: "string \<rightharpoonup> string"
  m_NameOverrides :: "string \<rightharpoonup> string"

record LoggingConfig =
  Level :: string
  Format :: string
  log_File :: string

record Config =
  Oracle :: OracleConfig
  Postgres :: PostgresConfig
  Migration :: MigrationConfig
  Logging :: LoggingConfig

definition override_of :: "MigrationConfig \<Rightarrow> string \<Rightarrow> TableOverride" where
  "override_of cfg name = map_get zeroOverride (TableOverrides cfg) name"

section \<open>Modes\<close>

definition ResolveTargetMode :: "TableOverride \<Rightarrow> bool \<Rightarrow> TargetMode" where
  "ResolveTargetMode o' globalDropTarget =
     (if o_TargetMode o' \<noteq> '''' then o_TargetMode o'
      else if globalDropTarget then TargetModeRecreate
      else TargetModeRecreate)"

definition IndexModeCreate :: string where [simp]: "IndexModeCreate = ''create''"

definition IndexModeSkip :: string where [simp]: "IndexModeSkip = ''skip''"

definition IndexModeConcurrent :: string where [simp]: "IndexModeConcurrent = ''concurrent''"

definition ResolveIndexMode :: "TableOverride \<Rightarrow> string" where
  "ResolveIndexMode o' =
     (if IndexMode o' \<noteq> '''' then IndexMode o'
      else if SkipIndexes o' then IndexModeSkip
      else IndexModeCreate)"

section \<open>Defaults and validation\<close>

definition applyDefaults :: "int \<Rightarrow> Config \<Rightarrow> Config" where
  "applyDefaults numCPU cfg0 =
     (let m0 = Migration cfg0;
          w = (if Workers m0 \<le> 0
               then (if numCPU > DefaultMaxWorkers then DefaultMaxWorkers else numCPU)
               else Workers m0);
          m = m0\<lparr>Workers := w,
            m_BatchSize := (if m_BatchSize m0 \<le> 0 then DefaultBatchSize else m_BatchSize m0),
            m_FetchSize := (if m_FetchSize m0 \<le> 0 then DefaultFetchSize else m_FetchSize m0),
            MaxBatchBytes := (if MaxBatchBytes m0 \<le> 0 then 67108864 else MaxBatchBytes m0),
            StateDBPath := (if StateDBPath m0 = '''' then ''./existora2pg_state.db'' else StateDBPath m0),
            m_ChunkStrategy :=
              (if m_ChunkStrategy m0 = '''' then ChunkStrategyAuto else m_ChunkStrategy m0)\<rparr>;
          ora = (Oracle cfg0)\<lparr>ora_MaxConns :=
            (if ora_MaxConns (Oracle cfg0) \<le> 0 then i64 (w + 4) else ora_MaxConns (Oracle cfg0))\<rparr>;
          pg = (Postgres cfg0)\<lparr>pg_MaxConns :=
            (if pg_MaxConns (Postgres cfg0) \<le> 0 then i64 (i64 (w * 2) + 4)
             else pg_MaxConns (Postgres cfg0))\<rparr>;
          lg = (Logging cfg0)\<lparr>
            Level := (if Level (Logging cfg0) = '''' then ''info'' else Level (Logging cfg0)),
            Format := (if Format (Logging cfg0) = '''' then ''text'' else Format (Logging cfg0))\<rparr>
      in cfg0\<lparr>Oracle := ora, Postgres := pg, Migration := m, Logging := lg\<rparr>)"

text \<open>\<open>None\<close> is the \<open>nil\<close> error.\<close>

definition validate :: "Config \<Rightarrow> string option" where
  "validate cfg =
     (if ora_DSN (Oracle cfg) = '''' then Some ''oracle.dsn is required''
      else if ora_Schema (Oracle cfg) = '''' then Some ''oracle.schema is required''
      else if pg_DSN (Postgres cfg) = '''' then Some ''postgres.dsn is required''
      else if Workers (Migration cfg) < 1 \<or> Workers (Migration cfg) > 64 then
        Some (''migration.workers must be between 1 and 64, got '' @ itoa (Workers (Migration cfg)))
      else None)"

text \<open>\<open>parsed\<close> is what reading and parsing the file gives: an error text or the parsed record.\<close>

definition Load :: "int \<Rightarrow> string + Config \<Rightarrow> string + Config" where
  "Load numCPU parsed =
     (case parsed of
        Inl e \<Rightarrow> Inl e
      | Inr cfg0 \<Rightarrow>
          let cfg = applyDefaults numCPU cfg0
          in case validate cfg of
               Some e \<Rightarrow> Inl (''validate config: '' @ e)
             | None \<Rightarrow> Inr cfg)"

section \<open>Properties\<close>

text \<open>What the rest of the program relies on in a loaded configuration.\<close>

definition config_ok :: "Config \<Rightarrow> bool" where
  "config_ok cfg \<longleftrightarrow>
     ora_DSN (Oracle cfg) \<noteq> '''' \<and> ora_Schema (Oracle cfg) \<noteq> '''' \<and> pg_DSN (Postgres cfg) \<noteq> '''' \<and>
     1 \<le> Workers (Migration cfg) \<and> Workers (Migration cfg) \<le> 64 \<and>
     0 < m_BatchSize (Migration cfg) \<and> 0 < m_FetchSize (Migration cfg) \<and>
     0 < MaxBatchBytes (Migration cfg) \<and> StateDBPath (Migration cfg) \<noteq> '''' \<and>
     m_ChunkStrategy (Migration cfg) \<noteq> '''' \<and>
     0 < ora_MaxConns (Oracle cfg) \<and> 0 < pg_MaxConns (Postgres cfg)"

lemma validate_None:
  "validate cfg = None \<longleftrightarrow>
     ora_DSN (Oracle cfg) \<noteq> '''' \<and> ora_Schema (Oracle cfg) \<noteq> '''' \<and> pg_DSN (Postgres cfg) \<noteq> '''' \<and>
     1 \<le> Workers (Migration cfg) \<and> Workers (Migration cfg) \<le> 64"
  by (auto simp: validate_def)

lemma default_conns_pos: "1 \<le> w \<Longrightarrow> w \<le> 64 \<Longrightarrow> 0 < i64 (w + 4) \<and> 0 < i64 (i64 (w * 2) + 4)"
  by (simp add: in_i64_nonneg)

lemma applyDefaults_fixed: "config_ok cfg \<Longrightarrow> Level (Logging cfg) \<noteq> '''' \<Longrightarrow> Format (Logging cfg) \<noteq> ''''
  \<Longrightarrow> applyDefaults n cfg = cfg"
  by (simp add: config_ok_def applyDefaults_def Let_def)

text \<open>
  A configuration that \<open>Load\<close> returns satisfies everything the rest of the program relies on:
  the connection strings are there, 1 to 64 workers, positive batch, fetch and byte limits,
  positive pool sizes and a chunk strategy; and loading it again changes nothing.
\<close>

theorem Load_ok:
  assumes "Load numCPU parsed = Inr cfg"
  shows "config_ok cfg \<and> Load numCPU' (Inr cfg) = Inr cfg"
proof -
  obtain cfg0 where cfg: "cfg = applyDefaults numCPU cfg0" and val: "validate cfg = None"
    using assms by (auto simp: Load_def Let_def split: sum.splits option.splits)
  have w: "1 \<le> Workers (Migration cfg)" "Workers (Migration cfg) \<le> 64"
    using val by (auto simp: validate_None)
  have "config_ok cfg"
    using val default_conns_pos [OF w] unfolding validate_None config_ok_def
    by (auto simp: cfg applyDefaults_def Let_def split: if_splits)
  moreover have "Level (Logging cfg) \<noteq> ''''" "Format (Logging cfg) \<noteq> ''''"
    by (simp_all add: cfg applyDefaults_def Let_def)
  ultimately show ?thesis using val by (simp add: Load_def applyDefaults_fixed)
qed

definition sample_config :: Config where
  "sample_config = \<lparr>
     Oracle = \<lparr>ora_DSN = ''o'', ora_Schema = ''S'', ora_MaxConns = 0\<rparr>,
     Postgres = \<lparr>pg_DSN = ''p'', pg_Schema = ''public'', pg_MaxConns = 0, DropTarget = False, Unlogged = False\<rparr>,
     Migration = \<lparr>Workers = 0, m_BatchSize = 0, MaxBatchBytes = 0, m_FetchSize = 0, m_ChunkStrategy = '''',
       IncludeTables = [], ExcludeTables = [], IncludeSequences = [], TableOverrides = Map.empty,
       StateDBPath = '''', m_Resume = False, ValidateAfter = True, ChecksumCols = False,
       NamingConvention = '''', m_TypeOverrides = Map.empty, m_NameOverrides = Map.empty\<rparr>,
     Logging = \<lparr>Level = '''', Format = '''', log_File = ''''\<rparr>\<rparr>"

theorem Load_ok_witness:
  "Load 16 (Inr sample_config) = Inr (applyDefaults 16 sample_config)
   \<and> config_ok (applyDefaults 16 sample_config)"
proof -
  have h: "Load 16 (Inr sample_config) = Inr (applyDefaults 16 sample_config)"
    by (simp add: Load_def sample_config_def applyDefaults_def validate_def)
  show ?thesis using h Load_ok [OF h] by simp
qed

text \<open>
  The global \<open>drop_target\<close> setting never influences a table's target mode: a table without a
  mode of its own is recreated (dropped and created again) whether \<open>drop_target\<close> is true or false.
\<close>

theorem drop_target_ignored:
  "ResolveTargetMode o' True = ResolveTargetMode o' False \<and>
   (o_TargetMode o' = '''' \<longrightarrow> ResolveTargetMode o' False = TargetModeRecreate)"
  by (simp add: ResolveTargetMode_def)

theorem drop_target_ignored_witness:
  "ResolveTargetMode zeroOverride False = ''recreate''"
proof -
  have "o_TargetMode zeroOverride = ''''" by (simp add: zeroOverride_def)
  then show ?thesis using drop_target_ignored [of zeroOverride] by simp
qed

end
