(* ===== verification/Plan_Tasks.thy ===== *)
theory Plan_Tasks
  imports Chunk_Where Config_Model "HOL-Library.Multiset"
begin

text \<open>
  The unit of work of a migration (\<open>TableTask\<close> of \<open>internal/migration/plan.go\<close>), the names under
  which the engine files it (\<open>partName\<close>, \<open>jobPartitionKey\<close>, \<open>taskKey\<close> of \<open>engine.go\<close>) and
  \<open>interleaveTasksByTable\<close>, which deals the tasks out round-robin. The maps of Go pointers to
  buckets become a map of lists that is updated; the outer \<open>for\<close> loop is a partial function, and a
  lemma shows that it ends. The result is a permutation that keeps each bucket's order and starts
  with one task of every bucket.
\<close>

section \<open>Tasks\<close>

record TableTask =
  t_Table :: Table
  t_Partition :: "Partition option"
  t_Chunk :: "RowIDChunk option"
  TotalChunks :: int
  t_Where :: string
  t_FetchSize :: int
  t_BatchSize :: int
  t_MaxParallel :: int
  t_TargetMode :: TargetMode

definition partName :: "TableTask \<Rightarrow> string" where
  "partName task =
     (let name = (case t_Partition task of None \<Rightarrow> '''' | Some p \<Rightarrow> part_Name p)
      in case t_Chunk task of
           None \<Rightarrow> name
         | Some ch \<Rightarrow>
             if name \<noteq> '''' then name @ '':chunk:'' @ itoa (ch_ID ch)
             else ''chunk:'' @ itoa (ch_ID ch))"

definition jobPartitionKey :: "TableTask \<Rightarrow> string" where
  "jobPartitionKey task =
     (let prt = (case t_Partition task of None \<Rightarrow> '''' | Some p \<Rightarrow> part_Name p)
      in case t_Chunk task of
           None \<Rightarrow> prt
         | Some ch \<Rightarrow>
             if prt \<noteq> '''' then prt @ '':chunk:'' @ itoa (ch_ID ch)
             else ''chunk:'' @ itoa (ch_ID ch))"

definition taskKey :: "TableTask \<Rightarrow> string" where
  "taskKey task =
     (let key = tbl_Name (t_Table task) @
            (case t_Partition task of None \<Rightarrow> '''' | Some p \<Rightarrow> '':'' @ part_Name p)
      in key @ (case t_Chunk task of None \<Rightarrow> '''' | Some ch \<Rightarrow> '':'' @ ''chunk:'' @ itoa (ch_ID ch)))"

text \<open>The key that \<open>executeDataMigration\<close> builds from a stored job.\<close>

definition jobKey :: "string \<Rightarrow> string \<Rightarrow> string" where
  "jobKey tableName prt = (if prt \<noteq> '''' then tableName @ '':'' @ prt else tableName)"

definition named_task :: "TableTask \<Rightarrow> bool" where
  "named_task task \<longleftrightarrow> (case t_Partition task of None \<Rightarrow> True | Some p \<Rightarrow> part_Name p \<noteq> '''')"

lemma jobKey_task: "named_task task \<Longrightarrow> jobKey (tbl_Name (t_Table task)) (jobPartitionKey task) = taskKey task"
  by (auto simp: named_task_def jobKey_def jobPartitionKey_def taskKey_def Let_def split: option.splits)

section \<open>Round-robin over the buckets\<close>

definition bucket_key :: "TableTask \<Rightarrow> string" where
  "bucket_key t =
     tbl_Name (t_Table t) @ (case t_Partition t of None \<Rightarrow> '''' | Some p \<Rightarrow> '':'' @ part_Name p)"

type_synonym buckets = "string \<rightharpoonup> TableTask list"

definition group_step :: "buckets \<times> string list \<Rightarrow> TableTask \<Rightarrow> buckets \<times> string list" where
  "group_step st t =
     (let (bucketMap, order) = st; key = bucket_key t
      in case bucketMap key of
           None \<Rightarrow> (bucketMap(key \<mapsto> [t]), order @ [key])
         | Some ts \<Rightarrow> (bucketMap(key \<mapsto> ts @ [t]), order))"

definition take_step :: "buckets \<times> TableTask list \<Rightarrow> string \<Rightarrow> buckets \<times> TableTask list" where
  "take_step st key =
     (let (bucketMap, result) = st
      in case bucketMap key of
           Some (t # ts) \<Rightarrow> (bucketMap(key \<mapsto> ts), result @ [t])
         | _ \<Rightarrow> (bucketMap, result))"

partial_function (option) rounds ::
    "nat \<Rightarrow> string list \<Rightarrow> buckets \<times> TableTask list \<Rightarrow> TableTask list option" where
  "rounds n order st =
     (if length (snd st) < n then rounds n order (foldl take_step st order) else Some (snd st))"

declare rounds.simps [code]

lemma rounds_more: "length (snd st) < n \<Longrightarrow> rounds n order st = rounds n order (foldl take_step st order)"
  by (subst rounds.simps) simp

lemma rounds_done: "\<not> length (snd st) < n \<Longrightarrow> rounds n order st = Some (snd st)"
  by (subst rounds.simps) simp

definition interleaveTasksByTable :: "TableTask list \<Rightarrow> TableTask list option" where
  "interleaveTasksByTable tasks =
     (if length tasks \<le> 1 then Some tasks
      else let (bucketMap, order) = foldl group_step (Map.empty, []) tasks
           in rounds (length tasks) order (bucketMap, []))"

section \<open>Grouping\<close>

abbreviation of_key :: "string \<Rightarrow> TableTask list \<Rightarrow> TableTask list" where
  "of_key k ts \<equiv> filter (\<lambda>t. bucket_key t = k) ts"

lemma of_key_none: "k \<notin> bucket_key ` set ts \<Longrightarrow> of_key k ts = []"
  by (metis (mono_tags, lifting) filter_False image_eqI)

definition grouped :: "TableTask list \<Rightarrow> buckets \<times> string list" where
  "grouped tasks =
     (\<lambda>k. if k \<in> bucket_key ` set tasks then Some (of_key k tasks) else None,
      rev (remdups (rev (map bucket_key tasks))))"

lemma group_step_grouped: "group_step (grouped ts) t = grouped (ts @ [t])"
proof (cases "bucket_key t \<in> bucket_key ` set ts")
  case True
  then show ?thesis by (auto simp: grouped_def group_step_def Let_def fun_eq_iff)
next
  case False
  then have "of_key (bucket_key t) ts = []" by (rule of_key_none)
  with False show ?thesis by (auto simp: grouped_def group_step_def Let_def fun_eq_iff)
qed

lemma group_step_result: "foldl group_step (Map.empty, []) tasks = grouped tasks"
proof (induction tasks rule: rev_induct)
  case Nil
  then show ?case by (simp add: grouped_def)
next
  case (snoc t ts)
  then show ?case by (simp add: group_step_grouped)
qed

lemma robin_keys: "set (snd (grouped tasks)) = bucket_key ` set tasks" "distinct (snd (grouped tasks))"
  by (simp_all add: grouped_def)

section \<open>The rounds\<close>

definition robin_inv :: "TableTask list \<Rightarrow> string list \<Rightarrow> buckets \<times> TableTask list \<Rightarrow> bool" where
  "robin_inv tasks order st \<longleftrightarrow>
     set order = bucket_key ` set tasks \<and> dom (fst st) = set order \<and>
     (\<forall>k. of_key k (snd st) @ map_get [] (fst st) k = of_key k tasks)"

lemma take_step_Cons:
  "fst st k = Some (t # ts) \<Longrightarrow> take_step st k = ((fst st)(k \<mapsto> ts), snd st @ [t])"
  by (cases st) (simp add: take_step_def)

lemma take_step_other: "map_get [] (fst st) k = [] \<Longrightarrow> take_step st k = st"
  by (auto simp: take_step_def map_get_def split: option.splits list.splits prod.splits)

lemma bucket_tasks:
  assumes "robin_inv tasks order st" and "fst st k = Some (t # ts)"
  shows "bucket_key t = k"
proof -
  have "of_key k (snd st) @ map_get [] (fst st) k = of_key k tasks"
    using assms(1) unfolding robin_inv_def by blast
  then have "t \<in> set (of_key k tasks)" using assms(2) by (metis in_set_conv_decomp map_get_Some)
  then show ?thesis by simp
qed

lemma take_step_inv:
  assumes "robin_inv tasks order st"
  shows "robin_inv tasks order (take_step st k)"
proof (cases "map_get [] (fst st) k")
  case Nil
  then show ?thesis using assms by (simp add: take_step_other)
next
  case (Cons t ts)
  then have k: "fst st k = Some (t # ts)" by (simp add: map_get_def split: option.splits)
  have key: "bucket_key t = k" using bucket_tasks [OF assms k] .
  have "of_key j (snd st @ [t]) @ map_get [] ((fst st)(k \<mapsto> ts)) j = of_key j (snd st) @ map_get [] (fst st) j" for j
    using k key by (auto simp: map_get_def)
  moreover have "dom ((fst st)(k \<mapsto> ts)) = dom (fst st)" using k by auto
  ultimately show ?thesis using assms unfolding robin_inv_def take_step_Cons [of st, OF k] fst_conv snd_conv by metis
qed

lemma round_inv:
  "robin_inv tasks order st \<Longrightarrow> robin_inv tasks order (foldl take_step st ks)"
  by (rule foldl_invariant [where P = "robin_inv tasks order"]) (auto intro: take_step_inv)

lemma take_step_length: "length (snd st) \<le> length (snd (take_step st k))"
  by (auto simp: take_step_def split: option.splits list.splits prod.splits)

lemma round_length: "length (snd st) \<le> length (snd (foldl take_step st ks))"
proof (induction ks arbitrary: st)
  case (Cons k ks)
  show ?case using take_step_length [of st k] Cons [of "take_step st k"] by simp
qed simp

lemma round_progress:
  "k \<in> set ks \<Longrightarrow> map_get [] (fst st) k \<noteq> [] \<Longrightarrow> length (snd st) < length (snd (foldl take_step st ks))"
proof (induction ks arbitrary: st)
  case (Cons j ks)
  show ?case
  proof (cases "map_get [] (fst st) j")
    case Nil
    then have "take_step st j = st"
      by (auto simp: take_step_def map_get_def split: option.splits list.splits prod.splits)
    moreover have "k \<noteq> j" using Nil Cons.prems(2) by auto
    ultimately show ?thesis using Cons by simp
  next
    case (Cons t ts)
    then have "length (snd st) < length (snd (take_step st j))"
      by (auto simp: take_step_def map_get_def split: option.splits prod.splits)
    then show ?thesis using round_length [of "take_step st j" ks] by simp
  qed
qed simp

lemma mset_from_keys: "(\<And>k. of_key k xs = of_key k ys) \<Longrightarrow> mset xs = mset ys"
proof (rule multiset_eqI)
  fix t
  assume eq: "\<And>k. of_key k xs = of_key k ys"
  have "count (mset zs) t = count (mset (of_key (bucket_key t) zs)) t" for zs by simp
  then show "count (mset xs) t = count (mset ys) t" using eq by metis
qed

lemma robin_sub: "robin_inv tasks order st \<Longrightarrow> mset (snd st) \<subseteq># mset tasks"
proof (rule mset_subset_eqI)
  fix t
  assume "robin_inv tasks order st"
  then have "of_key (bucket_key t) (snd st) @ map_get [] (fst st) (bucket_key t) = of_key (bucket_key t) tasks"
    by (simp add: robin_inv_def)
  then have "count (mset (of_key (bucket_key t) (snd st))) t \<le> count (mset (of_key (bucket_key t) tasks)) t"
    by (metis count_union le_add1 mset_append)
  then show "count (mset (snd st)) t \<le> count (mset tasks) t" by simp
qed

lemma robin_unfinished:
  assumes "robin_inv tasks order st" and "length (snd st) < length tasks"
  shows "\<exists>k \<in> set order. map_get [] (fst st) k \<noteq> []"
proof (rule ccontr)
  assume none: "\<not> (\<exists>k \<in> set order. map_get [] (fst st) k \<noteq> [])"
  have "map_get [] (fst st) k = []" for k
  proof (cases "k \<in> set order")
    case False
    then have "fst st k = None" using assms(1) by (auto simp: robin_inv_def)
    then show ?thesis by simp
  qed (use none in blast)
  then have "of_key k (snd st) = of_key k tasks" for k using assms(1) by (simp add: robin_inv_def)
  then have "mset (snd st) = mset tasks" by (rule mset_from_keys)
  then show False using assms(2) mset_eq_length by fastforce
qed

lemma robin_finished:
  assumes "robin_inv tasks order st" and "\<not> length (snd st) < length tasks"
  shows "mset (snd st) = mset tasks \<and> (\<forall>k. of_key k (snd st) = of_key k tasks)"
proof -
  have eq: "mset (snd st) = mset tasks"
    using robin_sub [OF assms(1)] assms(2)
    by (metis mset_subset_size not_le size_mset subset_mset.le_imp_less_or_eq linorder_not_less)
  have "length (of_key k (snd st)) = length (of_key k tasks)" for k
    using eq by (metis mset_eq_length mset_filter)
  then show ?thesis using eq assms(1) unfolding robin_inv_def
    by (metis append_Nil2 append_eq_conv_conj append_take_drop_id take_all order_refl)
qed

lemma rounds_end:
  assumes "robin_inv tasks order st"
  shows "\<exists>m r. rounds (length tasks) order st = Some r \<and> robin_inv tasks order (m, r) \<and>
    length tasks \<le> length r \<and> (\<exists>rest. r = snd st @ rest)"
  using assms
proof (induction "length tasks - length (snd st)" arbitrary: st rule: less_induct)
  case less
  show ?case
  proof (cases "length (snd st) < length tasks")
    case True
    let ?st = "foldl take_step st order"
    have "length (snd st) < length (snd ?st)"
      using robin_unfinished [OF less.prems True] round_progress by blast
    then have "length tasks - length (snd ?st) < length tasks - length (snd st)" using True by linarith
    from less.hyps [OF this round_inv [OF less.prems]] obtain m r rest where
      "rounds (length tasks) order ?st = Some r" "robin_inv tasks order (m, r)" "length tasks \<le> length r"
      "r = snd ?st @ rest" by blast
    moreover have "\<exists>new. snd ?st = snd st @ new"
      by (rule foldl_invariant [where P = "\<lambda>s. \<exists>new. snd s = snd st @ new"])
        (auto simp: take_step_def split: option.splits list.splits prod.splits)
    ultimately show ?thesis using True by (subst rounds.simps) auto
  next
    case False
    then show ?thesis using less.prems by (subst rounds.simps) (metis append_Nil2 leI prod.collapse)
  qed
qed

lemma robin_start: "robin_inv tasks (snd (grouped tasks)) (fst (grouped tasks), [])"
proof -
  have "dom (fst (grouped tasks)) = bucket_key ` set tasks"
    by (auto simp: grouped_def split: if_splits)
  moreover have "map_get [] (fst (grouped tasks)) k = of_key k tasks" for k
    by (cases "k \<in> bucket_key ` set tasks") (simp_all add: grouped_def map_get_def of_key_none)
  ultimately show ?thesis by (simp add: robin_inv_def robin_keys)
qed

lemma interleave_rounds:
  "\<not> length tasks \<le> 1 \<Longrightarrow> interleaveTasksByTable tasks =
     rounds (length tasks) (snd (grouped tasks)) (fst (grouped tasks), [])"
  by (simp add: interleaveTasksByTable_def group_step_result Let_def case_prod_beta)

text \<open>The first round takes the first task of each bucket.\<close>

lemma first_round:
  assumes "distinct ks" and "\<And>k. k \<in> set ks \<Longrightarrow> \<exists>t ts. fst st k = Some (t # ts) \<and> bucket_key t = k"
  shows "\<exists>new. snd (foldl take_step st ks) = snd st @ new \<and> map bucket_key new = ks"
  using assms
proof (induction ks arbitrary: st)
  case Nil
  then show ?case by simp
next
  case (Cons k ks)
  obtain t ts where t: "fst st k = Some (t # ts)" "bucket_key t = k" using Cons.prems(2) [of k] by auto
  have "\<exists>new. snd (foldl take_step (take_step st k) ks) = snd (take_step st k) @ new \<and> map bucket_key new = ks"
  proof (rule Cons.IH)
    show "distinct ks" using Cons.prems(1) by simp
    fix j assume j: "j \<in> set ks"
    then have "j \<noteq> k" using Cons.prems(1) by auto
    then show "\<exists>t ts. fst (take_step st k) j = Some (t # ts) \<and> bucket_key t = j"
      using Cons.prems(2) [of j] j by (simp add: take_step_Cons [OF t(1)])
  qed
  then show ?case using t by (auto simp: take_step_Cons [OF t(1)])
qed

section \<open>Properties\<close>

text \<open>
  \<open>interleaveTasksByTable\<close> ends on every task list and returns a permutation of it in which
  the tasks of one table and partition keep their order.
\<close>

theorem interleave_permutes:
  "\<exists>r. interleaveTasksByTable tasks = Some r \<and> mset r = mset tasks \<and> (\<forall>k. of_key k r = of_key k tasks)"
proof (cases "length tasks \<le> 1")
  case True
  then show ?thesis by (simp add: interleaveTasksByTable_def)
next
  case False
  obtain m r where "rounds (length tasks) (snd (grouped tasks)) (fst (grouped tasks), []) = Some r"
    "robin_inv tasks (snd (grouped tasks)) (m, r)" "length tasks \<le> length r"
    using rounds_end [OF robin_start] by blast
  then show ?thesis using robin_finished [of tasks _ "(m, r)"] interleave_rounds [OF False] by auto
qed

text \<open>
  The result starts with one task of every table and partition: as many workers as there are
  buckets start on different ones.
\<close>

theorem interleave_spreads:
  assumes "interleaveTasksByTable tasks = Some r" and "n \<le> card (bucket_key ` set tasks)"
  shows "distinct (map bucket_key (take n r))"
proof (cases "length tasks \<le> 1")
  case True
  then have "length r \<le> 1" using assms(1) by (simp add: interleaveTasksByTable_def)
  then consider "r = []" | t where "r = [t]" by (cases r) auto
  then show ?thesis by cases (simp, cases n, simp_all)
next
  case False
  let ?st = "(fst (grouped tasks), [] :: TableTask list)" and ?ks = "snd (grouped tasks)"
  have heads: "\<exists>t ts. fst ?st k = Some (t # ts) \<and> bucket_key t = k" if "k \<in> set ?ks" for k
  proof -
    have k: "k \<in> bucket_key ` set tasks" using that by (simp add: robin_keys)
    then have "of_key k tasks \<noteq> []" by (auto simp: filter_empty_conv)
    then obtain t ts where "of_key k tasks = t # ts" by (meson neq_Nil_conv)
    then show ?thesis using k bucket_tasks [OF robin_start, of tasks k t ts] by (simp add: grouped_def)
  qed
  obtain new where new: "snd (foldl take_step ?st ?ks) = new" "map bucket_key new = ?ks"
    using first_round [OF robin_keys(2) heads] by auto
  have "tasks \<noteq> []" using False by auto
  then have "rounds (length tasks) ?ks (foldl take_step ?st ?ks) = Some r"
    using assms(1) False by (simp add: interleave_rounds rounds.simps [of _ _ ?st])
  then obtain rest where "r = new @ rest"
    using rounds_end [OF round_inv [OF robin_start], of tasks ?ks] new(1) by auto
  moreover have "n \<le> length new"
    using assms(2) new(2) robin_keys by (metis distinct_card length_map)
  ultimately have "map bucket_key (take n r) = take n ?ks" using new(2) by (simp add: take_map [symmetric])
  then show ?thesis using robin_keys(2) by (simp add: distinct_take)
qed

definition plain_task :: "Table \<Rightarrow> TableTask" where
  "plain_task t = \<lparr>t_Table = t, t_Partition = None, t_Chunk = None, TotalChunks = 0, t_Where = '''',
     t_FetchSize = 0, t_BatchSize = 0, t_MaxParallel = 0, t_TargetMode = ''''\<rparr>"

definition bare_table :: "string \<Rightarrow> int \<Rightarrow> Table" where
  "bare_table n rows = \<lparr>tbl_Owner = ''HR'', tbl_Name = n, Columns = [], PrimaryKey = None,
     Constraints = [], Indexes = [], Partitioning = None, Comment = '''', tbl_NumRows = rows, tbl_SizeMB = 0\<rparr>"

definition chunk_task :: "string \<Rightarrow> int \<Rightarrow> TableTask" where
  "chunk_task n i = (plain_task (bare_table n 0))\<lparr>t_Chunk := Some \<lparr>ch_ID = i, StartRID = '''', EndRID = '''', ch_PartitionName = ''''\<rparr>\<rparr>"

theorem interleave_spreads_witness:
  "distinct (map bucket_key (take 2 [chunk_task ''A'' 0, chunk_task ''B'' 0, chunk_task ''A'' 1]))"
proof -
  have r: "interleaveTasksByTable [chunk_task ''A'' 0, chunk_task ''A'' 1, chunk_task ''B'' 0] =
      Some [chunk_task ''A'' 0, chunk_task ''B'' 0, chunk_task ''A'' 1]"
    by (simp add: interleaveTasksByTable_def group_step_def take_step_def Let_def bucket_key_def
        chunk_task_def plain_task_def bare_table_def rounds_more rounds_done)
  have n: "2 \<le> card (bucket_key ` set [chunk_task ''A'' 0, chunk_task ''A'' 1, chunk_task ''B'' 0])"
    by (simp add: bucket_key_def chunk_task_def plain_task_def bare_table_def)
  show ?thesis by (rule interleave_spreads [OF r n])
qed

end
