(* ===== verification/Topo_Sort.thy ===== *)
theory Topo_Sort
  imports Schema_Types "HOL-Library.Multiset"
begin

text \<open>
  \<open>topoSortTables\<close> of \<open>internal/migration/plan.go\<close>: the depth-first search that orders the tables
  by their foreign keys. The two lookup maps are built by the same loops as in the code. The map
  \<open>visiting\<close> is set on entry of \<open>visit\<close> and reset on exit, so it is passed down as the list of the
  names on the call stack; \<open>visited\<close> and \<open>sorted\<close> are the state. The search stops because the call
  stack never repeats a name. The lemmas show that each table comes out once and that, when the
  foreign keys have no cycle through different tables, every table comes after the tables it
  references.
\<close>

section \<open>The code\<close>

definition fk_refs :: "Table \<Rightarrow> string list" where
  "fk_refs t = map RefTable (filter (\<lambda>c. con_Type c = ConstraintFK) (Constraints t))"

definition buildDeps :: "Table list \<Rightarrow> string \<Rightarrow> string list" where
  "buildDeps tables =
     foldl (\<lambda>deps t. deps(tbl_Name t := deps (tbl_Name t) @ fk_refs t)) (\<lambda>_. []) tables"

definition buildTableMap :: "Table list \<Rightarrow> string \<rightharpoonup> Table" where
  "buildTableMap tables = foldl (\<lambda>m t. m(tbl_Name t \<mapsto> t)) Map.empty tables"

record visit_state =
  visited :: "string list"
  sorted_tables :: "Table list"

lemma dom_buildTableMap: "dom (buildTableMap tables) = tbl_Name ` set tables"
proof -
  have "dom (foldl (\<lambda>m t. m(tbl_Name t \<mapsto> t)) m ts) = dom m \<union> tbl_Name ` set ts" for m ts
    by (induction ts arbitrary: m) auto
  from this [of Map.empty tables] show ?thesis by (simp add: buildTableMap_def)
qed

function visit :: "Table list \<Rightarrow> string list \<Rightarrow> string \<Rightarrow> visit_state \<Rightarrow> visit_state" where
  "visit tables visiting name st =
     (if name \<in> set (visited st) then st
      else if name \<in> set visiting then st
      else
        let st1 = foldl (\<lambda>s dep. if buildTableMap tables dep \<noteq> None
                                 then visit tables (name # visiting) dep s else s)
                        st (buildDeps tables name)
        in st1\<lparr>visited := name # visited st1,
               sorted_tables := (case buildTableMap tables name of
                  Some t \<Rightarrow> sorted_tables st1 @ [t] | None \<Rightarrow> sorted_tables st1)\<rparr>)"
  by pat_completeness auto
termination
proof (relation "measure (\<lambda>(tables, visiting, name, st).
    card (insert name (tbl_Name ` set tables) - set visiting))", goal_cases)
  case 1
  show ?case by simp
next
  case (2 tables visiting name st x xa)
  then have "xa \<in> tbl_Name ` set tables"
    using dom_buildTableMap [of tables] by blast
  then have "insert xa (tbl_Name ` set tables) - set (name # visiting)
      \<subset> insert name (tbl_Name ` set tables) - set visiting"
    using 2 by auto
  then show ?case by (simp add: psubset_card_mono)
qed

declare visit.simps [simp del]

definition topoSortTables :: "Table list \<Rightarrow> Table list" where
  "topoSortTables tables =
     sorted_tables (foldl (\<lambda>st t. visit tables [] (tbl_Name t) st)
       \<lparr>visited = [], sorted_tables = []\<rparr> tables)"

section \<open>The invariant of the search\<close>

definition tbl_names :: "Table list \<Rightarrow> string set" where
  "tbl_names tables = tbl_Name ` set tables"

lemma lookup_name: "n \<in> tbl_names tables \<Longrightarrow> \<exists>t. buildTableMap tables n = Some t"
  using dom_buildTableMap [of tables] by (auto simp: tbl_names_def)

lemma lookup_in: "buildTableMap tables n = Some t \<Longrightarrow> t \<in> set tables \<and> tbl_Name t = n"
proof -
  have "foldl (\<lambda>m t. m(tbl_Name t \<mapsto> t)) m ts n = Some t \<Longrightarrow>
      m n = Some t \<or> t \<in> set ts \<and> tbl_Name t = n" for m ts
    by (induction ts arbitrary: m) (fastforce split: if_splits)+
  from this [of Map.empty tables] show "buildTableMap tables n = Some t \<Longrightarrow> t \<in> set tables \<and> tbl_Name t = n"
    by (simp add: buildTableMap_def)
qed

text \<open>The foreign keys between different tables of the schema.\<close>

definition fk_edges :: "Table list \<Rightarrow> (string \<times> string) set" where
  "fk_edges tables =
     {(m, d). m \<in> tbl_names tables \<and> d \<in> set (buildDeps tables m) \<and> d \<in> tbl_names tables \<and> d \<noteq> m}"

definition visit_inv :: "Table list \<Rightarrow> string list \<Rightarrow> visit_state \<Rightarrow> bool" where
  "visit_inv tables visiting st \<longleftrightarrow>
     distinct (visited st) \<and> set (visited st) \<subseteq> tbl_names tables \<and>
     set (visited st) \<inter> set visiting = {} \<and>
     map Some (sorted_tables st) = map (buildTableMap tables) (rev (visited st))"

text \<open>\<open>vs\<close> lists names newest first: each name's references are older.\<close>

fun refs_before :: "Table list \<Rightarrow> string list \<Rightarrow> bool" where
  "refs_before tables [] = True"
| "refs_before tables (m # vs) =
     ((\<forall>d. (m, d) \<in> fk_edges tables \<longrightarrow> d \<in> set vs) \<and> refs_before tables vs)"

definition visit_post :: "Table list \<Rightarrow> string list \<Rightarrow> visit_state \<Rightarrow> visit_state \<Rightarrow> bool" where
  "visit_post tables visiting st st' \<longleftrightarrow>
     visit_inv tables visiting st' \<and> set (visited st) \<subseteq> set (visited st') \<and>
     (acyclic (fk_edges tables) \<longrightarrow> refs_before tables (visited st) \<longrightarrow> refs_before tables (visited st'))"

lemma visit_post_refl: "visit_inv tables visiting st \<Longrightarrow> visit_post tables visiting st st"
  by (simp add: visit_post_def)

lemma visit_post_trans:
  "visit_post tables visiting a b \<Longrightarrow> visit_post tables visiting b c \<Longrightarrow> visit_post tables visiting a c"
  by (auto simp: visit_post_def)

lemma visit_post_mono: "visit_post tables visiting a b \<Longrightarrow> set (visited a) \<subseteq> set (visited b)"
  by (simp add: visit_post_def)

text \<open>The call stack is a path of references that leads to the name being visited.\<close>

definition on_path :: "Table list \<Rightarrow> string list \<Rightarrow> string \<Rightarrow> bool" where
  "on_path tables visiting name \<longleftrightarrow> (\<forall>v \<in> set visiting. v = name \<or> (v, name) \<in> (fk_edges tables)\<^sup>+)"

lemma visit_correct:
  assumes "name \<in> tbl_names tables" and "visit_inv tables visiting st" and "on_path tables visiting name"
  shows "visit_post tables visiting st (visit tables visiting name st) \<and>
    (name \<in> set visiting \<or> name \<in> set (visited (visit tables visiting name st)))"
  using assms
proof (induction tables visiting name st rule: visit.induct)
  case (1 tables visiting name st)
  show ?case
  proof (cases "name \<in> set (visited st) \<or> name \<in> set visiting")
    case True
    then show ?thesis
      using visit_post_refl [OF "1.prems"(2)] by (auto simp: visit.simps [of tables visiting name st])
  next
    case False
    let ?f = "\<lambda>s dep. if buildTableMap tables dep \<noteq> None then visit tables (name # visiting) dep s else s"
    define st1 where "st1 = foldl ?f st (buildDeps tables name)"
    have inv0: "visit_inv tables (name # visiting) st"
      using "1.prems"(2) False by (simp add: visit_inv_def)
    have path: "on_path tables (name # visiting) dep"
      if "dep \<in> set (buildDeps tables name)" "buildTableMap tables dep \<noteq> None" for dep
    proof -
      have "dep \<in> tbl_names tables" using that(2) lookup_in unfolding tbl_names_def by force
      then have "dep = name \<or> (name, dep) \<in> fk_edges tables"
        using that(1) "1.prems"(1) by (auto simp: fk_edges_def)
      then show ?thesis
        using "1.prems"(3) unfolding on_path_def by (auto intro: trancl_into_trancl)
    qed
    have step: "visit_post tables (name # visiting) s (?f s dep) \<and>
        (dep \<in> tbl_names tables \<longrightarrow> dep \<in> set (name # visiting) \<or> dep \<in> set (visited (?f s dep)))"
      if "dep \<in> set (buildDeps tables name)" "visit_inv tables (name # visiting) s" for dep s
    proof (cases "buildTableMap tables dep")
      case None
      then show ?thesis using that(2) lookup_name by (fastforce simp: visit_post_refl)
    next
      case (Some t)
      then have "dep \<in> tbl_names tables" using lookup_in unfolding tbl_names_def by force
      then show ?thesis
        using "1.IH" [of dep s] Some False that path by auto
    qed
    define f where "f = ?f"
    let ?P = "\<lambda>s. visit_post tables (name # visiting) st s"
    let ?Q = "\<lambda>dep s. dep \<in> tbl_names tables \<longrightarrow> dep \<in> set (name # visiting) \<or> dep \<in> set (visited s)"
    have next_f: "?P (f s dep) \<and> ?Q dep (f s dep) \<and> set (visited s) \<subseteq> set (visited (f s dep))"
      if "dep \<in> set (buildDeps tables name)" "?P s" for dep s
    proof -
      have "visit_inv tables (name # visiting) s" using that(2) by (simp add: visit_post_def)
      from step [OF that(1) this] have "visit_post tables (name # visiting) s (f s dep)" "?Q dep (f s dep)"
        unfolding f_def by blast+
      then show ?thesis using that(2) visit_post_trans by (blast dest: visit_post_mono)
    qed
    have st1: "st1 = foldl f st (buildDeps tables name)" by (simp add: st1_def f_def)
    have P1: "?P st1"
      unfolding st1
      by (rule foldl_invariant [where P = ?P]) (use next_f visit_post_refl [OF inv0] in blast)+
    have Q1: "?Q dep st1" if "dep \<in> set (buildDeps tables name)" for dep
      unfolding st1
      by (rule foldl_each [where P = ?P and Q = ?Q])
        (use next_f visit_post_refl [OF inv0] that in blast)+
    obtain t where t: "buildTableMap tables name = Some t" using lookup_name "1.prems"(1) by blast
    have res: "visit tables visiting name st =
        st1\<lparr>visited := name # visited st1, sorted_tables := sorted_tables st1 @ [t]\<rparr>"
      using False t by (simp add: visit.simps [of tables visiting name st] st1_def Let_def)
    have inv1: "visit_inv tables (name # visiting) st1" using P1 by (simp add: visit_post_def)
    have refs: "d \<in> set (visited st1)" if "(name, d) \<in> fk_edges tables" "acyclic (fk_edges tables)" for d
    proof -
      have "d \<notin> set visiting"
      proof
        assume "d \<in> set visiting"
        then have "d = name \<or> (d, name) \<in> (fk_edges tables)\<^sup>+" using "1.prems"(3) by (simp add: on_path_def)
        then have "(name, name) \<in> (fk_edges tables)\<^sup>+" using that(1) by (auto intro: trancl_into_trancl2)
        then show False using that(2) by (simp add: acyclic_def)
      qed
      then show ?thesis using Q1 [of d] that(1) by (auto simp: fk_edges_def)
    qed
    have "visit_post tables visiting st (visit tables visiting name st)"
      using P1 inv1 False "1.prems"(1) t refs unfolding res visit_post_def visit_inv_def by auto
    then show ?thesis by (simp add: res)
  qed
qed

lemma topo_loop:
  defines "final tables \<equiv> foldl (\<lambda>st t. visit tables [] (tbl_Name t) st)
      \<lparr>visited = [], sorted_tables = []\<rparr> tables"
  shows "visit_inv tables [] (final tables) \<and> set (visited (final tables)) = tbl_names tables \<and>
    (acyclic (fk_edges tables) \<longrightarrow> refs_before tables (visited (final tables)))"
proof -
  let ?init = "\<lparr>visited = [], sorted_tables = []\<rparr>"
  define f where "f = (\<lambda>st (t :: Table). visit tables [] (tbl_Name t) st)"
  let ?P = "\<lambda>s. visit_post tables [] ?init s"
  have init: "?P ?init" by (simp add: visit_post_def visit_inv_def)
  have step: "?P (f s t) \<and> tbl_Name t \<in> set (visited (f s t)) \<and> set (visited s) \<subseteq> set (visited (f s t))"
    if "t \<in> set tables" "?P s" for t s
  proof -
    have "visit_inv tables [] s" using that(2) by (simp add: visit_post_def)
    then have "visit_post tables [] s (f s t)" "tbl_Name t \<in> set (visited (f s t))"
      using visit_correct [of "tbl_Name t" tables "[]" s] that(1)
      by (simp_all add: tbl_names_def on_path_def f_def)
    then show ?thesis using that(2) visit_post_trans by (blast dest: visit_post_mono)
  qed
  have final: "final tables = foldl f ?init tables" by (simp add: final_def f_def)
  have P: "?P (final tables)"
    unfolding final by (rule foldl_invariant [where P = ?P]) (use init step in blast)+
  moreover have "tbl_Name t \<in> set (visited (final tables))" if "t \<in> set tables" for t
    unfolding final
    by (rule foldl_each [where P = ?P and Q = "\<lambda>t s. tbl_Name t \<in> set (visited s)"])
      (use init step that in blast)+
  ultimately show ?thesis
    by (auto simp: visit_post_def visit_inv_def tbl_names_def)
qed

lemma buildDeps_eq: "buildDeps tables n = concat (map fk_refs (filter (\<lambda>t. tbl_Name t = n) tables))"
proof -
  have "foldl (\<lambda>deps t. deps(tbl_Name t := deps (tbl_Name t) @ fk_refs t)) d ts n =
      d n @ concat (map fk_refs (filter (\<lambda>t. tbl_Name t = n) ts))" for d :: "string \<Rightarrow> string list" and ts
    by (induction ts arbitrary: d) auto
  then show ?thesis by (simp add: buildDeps_def)
qed

lemma buildTableMap_distinct:
  assumes "distinct (map tbl_Name tables)" and "t \<in> set tables"
  shows "buildTableMap tables (tbl_Name t) = Some t"
proof -
  obtain u where u: "buildTableMap tables (tbl_Name t) = Some u"
    using lookup_name assms(2) by (fastforce simp: tbl_names_def)
  with lookup_in have "u \<in> set tables" "tbl_Name u = tbl_Name t" by blast+
  then have "u = t" using assms by (metis distinct_map inj_onD)
  with u show ?thesis by simp
qed

lemma refs_before_nth:
  "refs_before tables (rev (xs @ n # ys)) \<Longrightarrow> (n, d) \<in> fk_edges tables \<Longrightarrow> d \<in> set xs"
  by (induction ys rule: rev_induct) auto

definition loop_names :: "Table list \<Rightarrow> string list" where
  "loop_names tables = rev (visited (foldl (\<lambda>st t. visit tables [] (tbl_Name t) st)
     \<lparr>visited = [], sorted_tables = []\<rparr> tables))"

lemma topo_result:
  "map Some (topoSortTables tables) = map (buildTableMap tables) (loop_names tables)"
  "map tbl_Name (topoSortTables tables) = loop_names tables"
  "distinct (loop_names tables)" "set (loop_names tables) = tbl_names tables"
  "acyclic (fk_edges tables) \<Longrightarrow> refs_before tables (rev (loop_names tables))"
proof -
  show 1: "map Some (topoSortTables tables) = map (buildTableMap tables) (loop_names tables)"
    using topo_loop [of tables] by (simp add: visit_inv_def topoSortTables_def loop_names_def)
  have names: "map tbl_Name ts = ns" if "map Some ts = map (buildTableMap tables) ns" for ts ns
    using that
  proof (induction ns arbitrary: ts)
    case Nil
    then show ?case by simp
  next
    case (Cons n ns)
    then obtain t ts' where "ts = t # ts'" "buildTableMap tables n = Some t"
      "map Some ts' = map (buildTableMap tables) ns" by (cases ts) auto
    then show ?case using Cons.IH lookup_in by auto
  qed
  show "map tbl_Name (topoSortTables tables) = loop_names tables" by (rule names) (rule 1)
qed (use topo_loop [of tables] in \<open>simp_all add: visit_inv_def loop_names_def\<close>)

lemma topo_distinct_set:
  assumes "distinct (map tbl_Name tables)"
  shows "distinct (topoSortTables tables) \<and> set (topoSortTables tables) = set tables"
proof -
  have "distinct (map tbl_Name (topoSortTables tables))" by (simp add: topo_result)
  then have "distinct (topoSortTables tables)" by (simp add: distinct_map)
  moreover have "Some ` set (topoSortTables tables) = Some ` set tables"
  proof -
    have "Some ` set (topoSortTables tables) = buildTableMap tables ` tbl_names tables"
      by (metis list.set_map topo_result(1,4))
    also have "\<dots> = Some ` set tables"
      using buildTableMap_distinct [OF assms] by (force simp: tbl_names_def image_image)
    finally show ?thesis .
  qed
  ultimately show ?thesis by (simp add: inj_image_eq_iff)
qed

section \<open>Properties\<close>

text \<open>
  \<open>topoSortTables\<close> neither loses nor repeats a table, whatever the foreign keys are, cycles
  included: with distinct names its result is a permutation of the tables.
\<close>

theorem topoSortTables_perm:
  assumes "distinct (map tbl_Name tables)"
  shows "mset (topoSortTables tables) = mset tables"
  using topo_distinct_set [OF assms] assms by (metis distinct_map set_eq_iff_mset_eq_distinct)

definition sample_table :: "string \<Rightarrow> string list \<Rightarrow> Table" where
  "sample_table n refs = \<lparr>tbl_Owner = ''HR'', tbl_Name = n, Columns = [], PrimaryKey = None,
     Constraints = map (\<lambda>r. \<lparr>con_Name = ''FK'', con_Type = ConstraintFK, con_Columns = [''X''],
       RefTable = r, RefColumns = [''ID''], OnDelete = '''', Condition = ''''\<rparr>) refs,
     Indexes = [], Partitioning = None, Comment = '''', tbl_NumRows = 0, tbl_SizeMB = 0\<rparr>"

text \<open>A cycle between the two tables: both still come out.\<close>

theorem topoSortTables_perm_witness:
  "mset (topoSortTables [sample_table ''EMP'' [''DEPT''], sample_table ''DEPT'' [''EMP'']]) =
   {#sample_table ''DEPT'' [''EMP''], sample_table ''EMP'' [''DEPT'']#}"
proof -
  have d: "distinct (map tbl_Name [sample_table ''EMP'' [''DEPT''], sample_table ''DEPT'' [''EMP'']])"
    by (simp add: sample_table_def)
  show ?thesis using topoSortTables_perm [OF d] by simp
qed

text \<open>
  When the foreign keys between different tables have no cycle, \<open>topoSortTables\<close> puts every
  referenced table of the schema before the table that references it.
\<close>

theorem topoSortTables_refs_first:
  assumes "acyclic (fk_edges tables)"
    and "topoSortTables tables = before @ t # after"
    and "c \<in> set (Constraints t)" "con_Type c = ConstraintFK"
    and "RefTable c \<noteq> tbl_Name t" "RefTable c \<in> tbl_Name ` set tables"
  shows "RefTable c \<in> tbl_Name ` set before"
proof -
  have names: "loop_names tables = map tbl_Name before @ tbl_Name t # map tbl_Name after"
    using topo_result(2) [of tables] assms(2) by simp
  have "Some t \<in> set (map (buildTableMap tables) (loop_names tables))"
    unfolding topo_result(1) [symmetric] assms(2) by simp
  then have t: "t \<in> set tables" using lookup_in by fastforce
  then have "(tbl_Name t, RefTable c) \<in> fk_edges tables"
    using assms(3-6) by (force simp: fk_edges_def tbl_names_def buildDeps_eq fk_refs_def)
  with topo_result(5) [OF assms(1)] have "RefTable c \<in> set (map tbl_Name before)"
    unfolding names by (rule refs_before_nth)
  then show ?thesis by simp
qed

lemma sample_acyclic: "acyclic (fk_edges [sample_table ''EMP'' [''DEPT''], sample_table ''DEPT'' []])"
proof -
  have "fk_edges [sample_table ''EMP'' [''DEPT''], sample_table ''DEPT'' []] \<subseteq> {(''EMP'', ''DEPT'')}"
    by (auto simp: fk_edges_def tbl_names_def buildDeps_eq fk_refs_def sample_table_def)
  moreover have "acyclic {(''EMP'', ''DEPT'')}" by (simp add: acyclic_insert wf_acyclic)
  ultimately show ?thesis using acyclic_subset by blast
qed

theorem topoSortTables_refs_first_witness:
  "''DEPT'' \<in> tbl_Name ` set [sample_table ''DEPT'' []]"
proof -
  let ?e = "sample_table ''EMP'' [''DEPT'']" and ?d = "sample_table ''DEPT'' []"
  let ?c = "\<lparr>con_Name = ''FK'', con_Type = ConstraintFK, con_Columns = [''X''],
       RefTable = ''DEPT'', RefColumns = [''ID''], OnDelete = '''', Condition = ''''\<rparr>"
  have s: "topoSortTables [?e, ?d] = [?d] @ ?e # []" by code_simp
  have c: "?c \<in> set (Constraints ?e)" "con_Type ?c = ConstraintFK" "RefTable ?c \<noteq> tbl_Name ?e"
    "RefTable ?c \<in> tbl_Name ` set [?e, ?d]"
    by (simp_all add: sample_table_def)
  show ?thesis using topoSortTables_refs_first [OF sample_acyclic s c] by simp
qed

end
