(* ===== verification/Ddl_Gen.thy ===== *)
theory Ddl_Gen
  imports Schema_Types
begin

text \<open>
  \<open>internal/postgres/ddl.go\<close>: the naming configuration and the DDL text generators. The generators
  are string functions; the lemmas are about what a PostgreSQL lexer reads back: a quoted
  identifier is read back as the name it was made from (so no name can break out of its quotes),
  partitions, indexes and constraints each give the statements the code promises.
\<close>

section \<open>Naming\<close>

record NamingConfig =
  Convention :: string
  TypeOverrides :: "string \<rightharpoonup> string"
  NameOverrides :: "string \<rightharpoonup> string"

definition DefaultNaming :: NamingConfig where
  "DefaultNaming = \<lparr>Convention = ''lowercase'', TypeOverrides = Map.empty, NameOverrides = Map.empty\<rparr>"

definition convertName :: "NamingConfig \<Rightarrow> string \<Rightarrow> string" where
  "convertName nc oracleName =
     (case NameOverrides nc oracleName of
        Some override \<Rightarrow> override
      | None \<Rightarrow>
          (if Convention nc = ''uppercase'' then ToUpper oracleName
           else if Convention nc = ''keep_original'' then oracleName
           else ToLower oracleName))"

definition convertTableName :: "NamingConfig \<Rightarrow> string \<Rightarrow> string" where
  "convertTableName nc tableName =
     (case NameOverrides nc tableName of
        Some override \<Rightarrow> override
      | None \<Rightarrow> convertName nc tableName)"

definition quoteIdent :: "string \<Rightarrow> string" where
  "quoteIdent name = ''\"'' @ ReplaceAll name ''\"'' ''\"\"'' @ ''\"''"

definition qualifiedName :: "string \<Rightarrow> string \<Rightarrow> string" where
  "qualifiedName pgSchema name =
     (let quoted = quoteIdent name in
      if pgSchema = '''' \<or> pgSchema = ''public'' then quoted
      else quoteIdent pgSchema @ ''.'' @ quoted)"

definition convertColumnName :: "NamingConfig \<Rightarrow> string \<Rightarrow> string \<Rightarrow> string" where
  "convertColumnName nc tableName colName =
     (case NameOverrides nc (tableName @ ''.'' @ colName) of
        Some override \<Rightarrow> quoteIdent override
      | None \<Rightarrow> quoteIdent (convertName nc colName))"

definition getColumnType :: "NamingConfig \<Rightarrow> string \<Rightarrow> string \<Rightarrow> string \<Rightarrow> string" where
  "getColumnType nc tableName colName defaultPGType =
     (case TypeOverrides nc (tableName @ ''.'' @ colName) of
        Some override \<Rightarrow> override
      | None \<Rightarrow> defaultPGType)"

definition convertColumnsJoin :: "NamingConfig \<Rightarrow> string \<Rightarrow> string list \<Rightarrow> string" where
  "convertColumnsJoin nc tableName cols = Join (map (convertColumnName nc tableName) cols) '', ''"

section \<open>Tables and partitions\<close>

definition nl :: string where
  "nl = [CHR 0x0A]"

text \<open>The line of one column; \<open>isLast\<close> is \<open>i = len(t.Columns)-1\<close>.\<close>

definition columnDef :: "NamingConfig \<Rightarrow> string \<Rightarrow> bool \<Rightarrow> Column \<Rightarrow> string" where
  "columnDef nc tableName isLast col =
     ''    '' @ convertColumnName nc tableName (col_Name col) @ '' '' @
       getColumnType nc tableName (col_Name col) (PGType col) @
     (if \<not> Nullable col then '' NOT NULL'' else '''') @
     (case DefaultExpr col of Some e \<Rightarrow> '' DEFAULT '' @ e | None \<Rightarrow> '''') @
     (if isLast then '''' else '','')"

fun columnLines :: "NamingConfig \<Rightarrow> string \<Rightarrow> Column list \<Rightarrow> string" where
  "columnLines nc tableName [] = ''''"
| "columnLines nc tableName (col # cols) =
     columnDef nc tableName (cols = []) col @ nl @ columnLines nc tableName cols"

definition generateCreateTableInternal :: "Table \<Rightarrow> string \<Rightarrow> NamingConfig \<Rightarrow> bool \<Rightarrow> string" where
  "generateCreateTableInternal t pgSchema nc unlogged =
     (let tableName = qualifiedName pgSchema (convertTableName nc (tbl_Name t));
          keyword = (if unlogged then ''CREATE UNLOGGED TABLE'' else ''CREATE TABLE'')
      in keyword @ '' '' @ tableName @ '' ('' @ nl @
         columnLines nc (tbl_Name t) (Columns t) @
         '')'' @
         (case Partitioning t of
            Some pinfo \<Rightarrow>
              if IsPartitioned t then
                '' PARTITION BY '' @ strategy_string (Strategy pinfo) @ '' ('' @
                Join (map (convertColumnName nc (tbl_Name t)) (KeyColumns pinfo)) '', '' @ '')''
              else ''''
          | None \<Rightarrow> '''') @
         '';'' @ nl)"

definition GenerateCreateTableWithNaming :: "Table \<Rightarrow> string \<Rightarrow> NamingConfig \<Rightarrow> string" where
  "GenerateCreateTableWithNaming t pgSchema nc = generateCreateTableInternal t pgSchema nc False"

definition GenerateCreateTable :: "Table \<Rightarrow> string \<Rightarrow> string" where
  "GenerateCreateTable t pgSchema = GenerateCreateTableWithNaming t pgSchema DefaultNaming"

definition GenerateCreateTableUnlogged :: "Table \<Rightarrow> string \<Rightarrow> NamingConfig \<Rightarrow> string" where
  "GenerateCreateTableUnlogged t pgSchema nc = generateCreateTableInternal t pgSchema nc True"

record PartitionBound =
  pb_Name :: string
  LowerBound :: string
  UpperBound :: string
  pb_Values :: "string list"
  pb_Strategy :: string

definition partitionDDL :: "string \<Rightarrow> string \<Rightarrow> NamingConfig \<Rightarrow> PartitionBound \<Rightarrow> string" where
  "partitionDDL parentName pgSchema nc pb =
     (let partName = qualifiedName pgSchema (convertName nc (pb_Name pb)) in
      if pb_Strategy pb = ''LIST'' then
        (if length (pb_Values pb) = 1 \<and> pb_Values pb ! 0 = ''DEFAULT'' then
           ''CREATE TABLE '' @ partName @ '' PARTITION OF '' @ parentName @ '' DEFAULT;''
         else
           ''CREATE TABLE '' @ partName @ '' PARTITION OF '' @ parentName @
           '' FOR VALUES IN ('' @ Join (pb_Values pb) '', '' @ '');'')
      else
        ''CREATE TABLE '' @ partName @ '' PARTITION OF '' @ parentName @
        '' FOR VALUES FROM ('' @ LowerBound pb @ '') TO ('' @ UpperBound pb @ '');'')"

definition GeneratePartitionDDLWithNaming ::
    "Table \<Rightarrow> string \<Rightarrow> PartitionBound list \<Rightarrow> NamingConfig \<Rightarrow> string list" where
  "GeneratePartitionDDLWithNaming t pgSchema bounds nc =
     (if \<not> IsPartitioned t \<or> length bounds = 0 then []
      else
        let parentName = qualifiedName pgSchema (convertTableName nc (tbl_Name t))
        in map (partitionDDL parentName pgSchema nc) bounds)"

definition GeneratePartitionDDL :: "Table \<Rightarrow> string \<Rightarrow> PartitionBound list \<Rightarrow> string list" where
  "GeneratePartitionDDL t pgSchema bounds = GeneratePartitionDDLWithNaming t pgSchema bounds DefaultNaming"

section \<open>Keys, indexes, constraints, sequences\<close>

definition GeneratePrimaryKeyWithNaming :: "Table \<Rightarrow> string \<Rightarrow> NamingConfig \<Rightarrow> string" where
  "GeneratePrimaryKeyWithNaming t pgSchema nc =
     (case PrimaryKey t of
        None \<Rightarrow> ''''
      | Some pk \<Rightarrow>
          if length (con_Columns pk) = 0 then ''''
          else
            let tableName = qualifiedName pgSchema (convertTableName nc (tbl_Name t));
                pkName = quoteIdent (convertName nc (con_Name pk));
                cols = convertColumnsJoin nc (tbl_Name t) (con_Columns pk)
            in ''ALTER TABLE '' @ tableName @ '' ADD CONSTRAINT '' @ pkName @
               '' PRIMARY KEY ('' @ cols @ '');'')"

definition GeneratePrimaryKey :: "Table \<Rightarrow> string \<Rightarrow> string" where
  "GeneratePrimaryKey t pgSchema = GeneratePrimaryKeyWithNaming t pgSchema DefaultNaming"

definition indexDDL :: "Table \<Rightarrow> string \<Rightarrow> NamingConfig \<Rightarrow> Index \<Rightarrow> string" where
  "indexDDL t pgSchema nc idx =
     (let idxName = quoteIdent (convertName nc (idx_Name idx));
          tableName = qualifiedName pgSchema (convertTableName nc (tbl_Name t))
      in if Local idx \<and> IsPartitioned t then
           ''-- SKIPPED: LOCAL index '' @ idxName @
           '' (PostgreSQL creates partition-local indexes automatically)''
         else if idx_Type idx = ''FUNCTION-BASED NORMAL'' then
           ''-- SKIPPED: FUNCTION-BASED index '' @ idxName @
           '' (expression not supported, create manually)''
         else
           let cols = map (\<lambda>c. convertColumnName nc (tbl_Name t) (ic_Name c) @
                               (if Descending c then '' DESC'' else '''')) (idx_Columns idx);
               unique = (if Unique idx then ''UNIQUE '' else '''');
               prefix = (if idx_Type idx = ''BITMAP'' then
                 ''-- NOTE: Oracle BITMAP index converted to B-tree (PostgreSQL has no bitmap index type)'' @ nl
                 else '''')
           in prefix @ ''CREATE '' @ unique @ ''INDEX '' @ idxName @ '' ON '' @ tableName @
              '' ('' @ Join cols '', '' @ '');'')"

definition GenerateIndexesWithNaming :: "Table \<Rightarrow> string \<Rightarrow> NamingConfig \<Rightarrow> string list" where
  "GenerateIndexesWithNaming t pgSchema nc = map (indexDDL t pgSchema nc) (Indexes t)"

definition GenerateIndexes :: "Table \<Rightarrow> string \<Rightarrow> string list" where
  "GenerateIndexes t pgSchema = GenerateIndexesWithNaming t pgSchema DefaultNaming"

definition constraintDDL :: "Table \<Rightarrow> string \<Rightarrow> NamingConfig \<Rightarrow> Constraint \<Rightarrow> string list" where
  "constraintDDL t pgSchema nc c =
     (let tableName = qualifiedName pgSchema (convertTableName nc (tbl_Name t));
          cName = quoteIdent (convertName nc (con_Name c))
      in case con_Type c of
           ConstraintFK \<Rightarrow>
             let refTable = qualifiedName pgSchema (convertTableName nc (RefTable c));
                 refCols = convertColumnsJoin nc (RefTable c) (RefColumns c)
             in [''ALTER TABLE '' @ tableName @ '' ADD CONSTRAINT '' @ cName @ '' FOREIGN KEY ('' @
                 convertColumnsJoin nc (tbl_Name t) (con_Columns c) @ '') REFERENCES '' @ refTable @
                 '' ('' @ refCols @ '')'' @
                 (if OnDelete c \<noteq> '''' then '' ON DELETE '' @ OnDelete c else '''') @ '';'']
         | ConstraintUniq \<Rightarrow>
             [''ALTER TABLE '' @ tableName @ '' ADD CONSTRAINT '' @ cName @ '' UNIQUE ('' @
              convertColumnsJoin nc (tbl_Name t) (con_Columns c) @ '');'']
         | ConstraintCheck \<Rightarrow>
             (if Condition c \<noteq> '''' then
                [''ALTER TABLE '' @ tableName @ '' ADD CONSTRAINT '' @ cName @ '' CHECK ('' @
                 Condition c @ '');'']
              else [])
         | ConstraintPK \<Rightarrow> [])"

definition GenerateConstraintsWithNaming :: "Table \<Rightarrow> string \<Rightarrow> NamingConfig \<Rightarrow> string list" where
  "GenerateConstraintsWithNaming t pgSchema nc = concat (map (constraintDDL t pgSchema nc) (Constraints t))"

definition GenerateConstraints :: "Table \<Rightarrow> string \<Rightarrow> string list" where
  "GenerateConstraints t pgSchema = GenerateConstraintsWithNaming t pgSchema DefaultNaming"

text \<open>The name in the \<open>setval\<close> string literal: the qualified name without its double quotes.\<close>

definition seqNameLiteral :: "string \<Rightarrow> string" where
  "seqNameLiteral seqName = ReplaceAll seqName ''\"'' ''''"

definition GenerateSequenceWithNaming :: "Sequence \<Rightarrow> string \<Rightarrow> NamingConfig \<Rightarrow> string" where
  "GenerateSequenceWithNaming seq pgSchema nc =
     (let seqName = qualifiedName pgSchema (convertName nc (seq_Name seq))
      in ''CREATE SEQUENCE IF NOT EXISTS '' @ seqName @
         '' INCREMENT BY '' @ itoa (Increment seq) @
         '' MINVALUE '' @ itoa (MinValue seq) @
         (if MaxValue seq > 0 \<and> MaxValue seq < 9223372036854775806
          then '' MAXVALUE '' @ itoa (MaxValue seq) else '' NO MAXVALUE'') @
         (if CacheSize seq > 0 then '' CACHE '' @ itoa (CacheSize seq) else '''') @
         (if Cycle seq then '' CYCLE'' else '''') @
         '';'' @ nl @
         (if LastValue seq > 0
          then ''SELECT setval('' @ [CHR 0x27] @ seqNameLiteral seqName @ [CHR 0x27] @ '', '' @
               itoa (LastValue seq) @ '');''
          else ''''))"

definition GenerateSequence :: "Sequence \<Rightarrow> string \<Rightarrow> string" where
  "GenerateSequence seq pgSchema = GenerateSequenceWithNaming seq pgSchema DefaultNaming"

definition GenerateDropTableWithNaming :: "string \<Rightarrow> string \<Rightarrow> NamingConfig \<Rightarrow> string" where
  "GenerateDropTableWithNaming tableName pgSchema nc =
     ''DROP TABLE IF EXISTS '' @ qualifiedName pgSchema (convertTableName nc tableName) @ '' CASCADE;''"

definition GenerateDropTable :: "string \<Rightarrow> string \<Rightarrow> string" where
  "GenerateDropTable tableName pgSchema = GenerateDropTableWithNaming tableName pgSchema DefaultNaming"

section \<open>Reading the DDL back\<close>

text \<open>
  The lexical rule of PostgreSQL for a quoted identifier: after the opening quote, two quotes are
  one quote character of the name and a single quote ends it. \<open>lex_body\<close> reads the rest of an
  identifier and returns the name and the unread text.
\<close>

fun lex_body :: "string \<Rightarrow> (string \<times> string) option" where
  "lex_body [] = None"
| "lex_body [c] = (if c = CHR 0x22 then Some ([], []) else None)"
| "lex_body (c # d # s) =
     (if c = CHR 0x22 then
        (if d = CHR 0x22 then map_option (\<lambda>(n, r). (CHR 0x22 # n, r)) (lex_body s)
         else Some ([], d # s))
      else map_option (\<lambda>(n, r). (c # n, r)) (lex_body (d # s)))"

fun lex_ident :: "string \<Rightarrow> (string \<times> string) option" where
  "lex_ident [] = None"
| "lex_ident (c # s) = (if c = CHR 0x22 then lex_body s else None)"

definition starts_quote :: "string \<Rightarrow> bool" where
  "starts_quote s \<longleftrightarrow> (case s of [] \<Rightarrow> False | c # _ \<Rightarrow> c = CHR 0x22)"

text \<open>
  What a client of a quoting function relies on: reading a quoted name gives the name back and
  stops at the end of the quoted text.
\<close>

locale quoting =
  fixes quote_fn :: "string \<Rightarrow> string"
    and read_fn :: "string \<Rightarrow> (string \<times> string) option"
    and stops :: "string \<Rightarrow> bool"
  assumes read_quote: "\<not> stops rest \<Longrightarrow> read_fn (quote_fn name @ rest) = Some (name, rest)"
    and stops_Nil: "\<not> stops []"
begin

lemma quote_inj: "quote_fn a = quote_fn b \<longleftrightarrow> a = b"
proof
  assume "quote_fn a = quote_fn b"
  with read_quote [OF stops_Nil, of a] read_quote [OF stops_Nil, of b] show "a = b" by simp
qed simp

lemma quote_prefix_inj:
  assumes "\<not> stops r1" "\<not> stops r2" "quote_fn a @ r1 = quote_fn b @ r2"
  shows "a = b \<and> r1 = r2"
  by (metis assms option.inject prod.inject read_quote)

end

lemma lex_body_plain:
  "c \<noteq> CHR 0x22 \<Longrightarrow> s \<noteq> [] \<Longrightarrow> lex_body (c # s) = map_option (\<lambda>(n, r). (c # n, r)) (lex_body s)"
  by (cases s) simp_all

lemma lex_body_escaped:
  assumes "\<not> starts_quote rest"
  shows "lex_body (concat (map (\<lambda>d. if d = CHR 0x22 then ''\"\"'' else [d]) name) @ CHR 0x22 # rest) =
       Some (name, rest)"
proof (induction name)
  case Nil
  show ?case using assms by (cases rest) (simp_all add: starts_quote_def)
next
  case (Cons c name)
  then show ?case by (cases "c = CHR 0x22") (simp_all add: lex_body_plain)
qed

interpretation pg_quote: quoting quoteIdent lex_ident starts_quote
  by unfold_locales (simp_all add: quoteIdent_def lex_body_escaped starts_quote_def)

definition read_qualified :: "string \<Rightarrow> string \<Rightarrow> (string \<times> string) option" where
  "read_qualified pgSchema s =
     (if pgSchema = '''' \<or> pgSchema = ''public'' then lex_ident s
      else case lex_ident s of
             None \<Rightarrow> None
           | Some (sch, r) \<Rightarrow> if sch = pgSchema \<and> HasPrefix r ''.'' then lex_ident (drop 1 r) else None)"

lemma read_qualifiedName:
  "\<not> starts_quote rest \<Longrightarrow> read_qualified sch (qualifiedName sch n @ rest) = Some (n, rest)"
  using pg_quote.read_quote [of "''.'' @ quoteIdent n @ rest" sch]
  by (auto simp: read_qualified_def qualifiedName_def Let_def pg_quote.read_quote starts_quote_def
      HasPrefix_def)

interpretation pg_qualified: quoting "qualifiedName sch" "read_qualified sch" starts_quote
  for sch
  by unfold_locales (simp_all add: read_qualifiedName starts_quote_def)

text \<open>
  A table, index or sequence name that the generators put into DDL cannot break out of its
  quotes: whatever bytes the name holds, reading the qualified name back with PostgreSQL's lexical
  rule gives the same schema and name and leaves the rest of the statement untouched.
\<close>

theorem qualifiedName_roundtrip:
  "read_qualified sch (qualifiedName sch name @ '' '' @ rest) = Some (name, '' '' @ rest)"
  by (rule pg_qualified.read_quote) (simp add: starts_quote_def)

section \<open>Sequences\<close>

text \<open>
  The text of a \<open>regclass\<close> literal is read like an SQL name: a name without double quotes is folded
  to lower case before it is looked up.
\<close>

definition regclass_lookup :: "string \<Rightarrow> string" where
  "regclass_lookup lit = ToLower lit"

lemma remove_quotes: "CHR 0x22 \<notin> set n \<Longrightarrow> ReplaceAll n ''\"'' '''' = n"
  by (induction n) auto

lemma quoteIdent_plain: "CHR 0x22 \<notin> set n \<Longrightarrow> quoteIdent n = ''\"'' @ n @ ''\"''"
proof -
  assume "CHR 0x22 \<notin> set n"
  then have "ReplaceAll n ''\"'' ''\"\"'' = n" by (induction n) auto
  then show ?thesis by (simp add: quoteIdent_def)
qed

lemma seqNameLiteral_public:
  assumes "CHR 0x22 \<notin> set n" and "sch = '''' \<or> sch = ''public''"
  shows "seqNameLiteral (qualifiedName sch n) = n"
proof -
  have "seqNameLiteral (qualifiedName sch n) = ReplaceAll (''\"'' @ n @ ''\"'') ''\"'' ''''"
    using assms by (auto simp: seqNameLiteral_def qualifiedName_def quoteIdent_plain)
  also have "\<dots> = n" using remove_quotes [OF assms(1)] by simp
  finally show ?thesis .
qed

lemma char_quote_case: "upper_char c = CHR 0x22 \<longleftrightarrow> c = CHR 0x22" "lower_char c = CHR 0x22 \<longleftrightarrow> c = CHR 0x22"
proof -
  have b: "byte (CHR 0x22) = 34" by (simp add: byte_def)
  show "upper_char c = CHR 0x22 \<longleftrightarrow> c = CHR 0x22"
    unfolding byte_inj [symmetric] byte_upper_char b by auto
  show "lower_char c = CHR 0x22 \<longleftrightarrow> c = CHR 0x22"
    unfolding byte_inj [symmetric] byte_lower_char b by auto
qed

lemma case_no_quote:
  "CHR 0x22 \<in> set (ToUpper n) \<longleftrightarrow> CHR 0x22 \<in> set n" "CHR 0x22 \<in> set (ToLower n) \<longleftrightarrow> CHR 0x22 \<in> set n"
  by (induction n) (simp_all add: ToUpper_def ToLower_def eq_commute [of "CHR 0x22"] char_quote_case)

lemma convertName_no_quote:
  "NameOverrides nc n = None \<Longrightarrow> CHR 0x22 \<notin> set n \<Longrightarrow> CHR 0x22 \<notin> set (convertName nc n)"
  by (simp add: convertName_def case_no_quote)

text \<open>
  The \<open>setval\<close> call that \<open>GenerateSequenceWithNaming\<close> appends names the sequence without
  quotes, so PostgreSQL looks up the lower-case name; the call reaches the sequence the same text
  has just created exactly when the converted name is its own lower-case form: always under the
  lowercase convention, never for a name with an upper-case letter left in it.
\<close>

theorem setval_reaches_sequence:
  assumes "NameOverrides nc n = None" and "CHR 0x22 \<notin> set n" and "sch = '''' \<or> sch = ''public''"
  shows "regclass_lookup (seqNameLiteral (qualifiedName sch (convertName nc n))) = convertName nc n
    \<longleftrightarrow> Convention nc \<notin> {''uppercase'', ''keep_original''} \<or> convertName nc n = ToLower n"
proof -
  have "regclass_lookup (seqNameLiteral (qualifiedName sch (convertName nc n))) = ToLower (convertName nc n)"
    using seqNameLiteral_public [OF convertName_no_quote [OF assms(1,2)] assms(3)]
    by (simp add: regclass_lookup_def)
  moreover have "ToLower (convertName nc n) = ToLower n"
    using assms(1) by (simp add: convertName_def)
  moreover have "Convention nc \<notin> {''uppercase'', ''keep_original''} \<Longrightarrow> convertName nc n = ToLower n"
    using assms(1) by (simp add: convertName_def)
  ultimately show ?thesis by metis
qed

theorem setval_reaches_sequence_witness:
  "regclass_lookup (seqNameLiteral (qualifiedName ''public''
      (convertName \<lparr>Convention = ''uppercase'', TypeOverrides = Map.empty, NameOverrides = Map.empty\<rparr> ''ORDER_SEQ'')))
    \<noteq> convertName \<lparr>Convention = ''uppercase'', TypeOverrides = Map.empty, NameOverrides = Map.empty\<rparr> ''ORDER_SEQ''"
proof -
  let ?nc = "\<lparr>Convention = ''uppercase'', TypeOverrides = Map.empty, NameOverrides = Map.empty\<rparr>"
  have h1: "NameOverrides ?nc ''ORDER_SEQ'' = None" by simp
  have h2: "CHR 0x22 \<notin> set ''ORDER_SEQ''" by simp
  have h3: "''public'' = '''' \<or> ''public'' = ''public''" by simp
  have "convertName ?nc ''ORDER_SEQ'' \<noteq> ToLower ''ORDER_SEQ''" by code_simp
  then show ?thesis using setval_reaches_sequence [OF h1 h2 h3] by simp
qed

end
