(* ===== verification/Partition_Prune.thy ===== *)
theory Partition_Prune
  imports Ddl_Gen Config_Model
begin

text \<open>
  Partition bounds: which Oracle partitions a table's filter selects (\<open>resolvePartitions\<close>,
  \<open>prunePartitionsByRange\<close> and their helpers in \<open>internal/migration/plan.go\<close>) and the PostgreSQL bounds built
  from the Oracle \<open>HIGH_VALUE\<close> texts (\<open>BuildPartitionBounds\<close> in \<open>internal/migration/engine.go\<close>).
  \<open>strconv.ParseFloat\<close> is the parameter \<open>pf\<close> with the order \<open>lt\<close> of its results: an abstract type
  of numbers, so NaN and rounding are covered. The lemmas show that pruning never drops a partition
  that can hold a wanted value as long as the values are compared consistently, and that the
  PostgreSQL ranges are adjacent.
\<close>

section \<open>Comparing partition keys\<close>

definition compareValues ::
    "(string \<Rightarrow> 'f option) \<Rightarrow> ('f \<Rightarrow> 'f \<Rightarrow> bool) \<Rightarrow> string \<Rightarrow> string \<Rightarrow> int" where
  "compareValues pf lt a b =
     (case (pf a, pf b) of
        (Some na, Some nb) \<Rightarrow> if lt na nb then - 1 else if lt nb na then 1 else 0
      | _ \<Rightarrow> if a < b then - 1 else if b < a then 1 else 0)"

definition normalizeValue :: "string \<Rightarrow> string" where
  "normalizeValue v = Trim (TrimSpace v) [CHR 0x27, CHR 0x22]"

text \<open>The test of the date search loops: \<open>Y\<dots>-\<dots>-\<close> starting with 1 or 2 at position \<open>i\<close>.\<close>

definition date_at :: "string \<Rightarrow> nat \<Rightarrow> bool" where
  "date_at hv i \<longleftrightarrow> 49 \<le> byte (hv ! i) \<and> byte (hv ! i) \<le> 50 \<and>
     hv ! (i + 4) = CHR ''-'' \<and> hv ! (i + 7) = CHR ''-''"

definition extractValue :: "string \<Rightarrow> string" where
  "extractValue highValue =
     (let hv = TrimSpace highValue in
      if hv = '''' \<or> ToUpper hv = ''MAXVALUE'' then ''''
      else case find (date_at hv) [0..<length hv - 10] of
             Some i \<Rightarrow> take 10 (drop i hv)
           | None \<Rightarrow> Trim hv [CHR '' '', CHR 0x27, CHR 0x22])"

definition partitionOverlaps ::
    "(string \<Rightarrow> 'f option) \<Rightarrow> ('f \<Rightarrow> 'f \<Rightarrow> bool) \<Rightarrow> string \<Rightarrow> string \<Rightarrow> string \<Rightarrow> string \<Rightarrow> bool" where
  "partitionOverlaps pf lt pLow pHigh fLow fHigh =
     (if pLow \<noteq> '''' \<and> fHigh \<noteq> '''' \<and> compareValues pf lt pLow fHigh \<ge> 0 then False
      else if fLow \<noteq> '''' \<and> pHigh \<noteq> '''' \<and> compareValues pf lt fLow pHigh \<ge> 0 then False
      else True)"

definition lower_of :: "Partition list \<Rightarrow> nat \<Rightarrow> string" where
  "lower_of parts i = (if i = 0 then '''' else extractValue (HighValue (parts ! (i - 1))))"

definition prunePartitionsByRange ::
    "(string \<Rightarrow> 'f option) \<Rightarrow> ('f \<Rightarrow> 'f \<Rightarrow> bool) \<Rightarrow> Partition list \<Rightarrow> string \<Rightarrow> string \<Rightarrow> nat list" where
  "prunePartitionsByRange pf lt parts from' to' =
     (let filterFrom = normalizeValue from'; filterTo = normalizeValue to'
      in filter (\<lambda>i. partitionOverlaps pf lt (lower_of parts i) (extractValue (HighValue (parts ! i)))
                       filterFrom filterTo)
           [0..<length parts])"

definition inFilter :: "string \<Rightarrow> string list \<Rightarrow> bool" where
  "inFilter name flt = list_ex (\<lambda>f. name = f) flt"

definition resolvePartitions ::
    "(string \<Rightarrow> 'f option) \<Rightarrow> ('f \<Rightarrow> 'f \<Rightarrow> bool) \<Rightarrow> Table \<Rightarrow> TableOverride \<Rightarrow> nat list" where
  "resolvePartitions pf lt t override =
     (let parts = partitions_of t;
          all = [0..<length parts]
      in if length (PartitionFilter override) > 0 then
           filter (\<lambda>i. inFilter (part_Name (parts ! i)) (PartitionFilter override)) all
         else case o_PartitionRange override of
                Some r \<Rightarrow>
                  (if From r \<noteq> '''' then prunePartitionsByRange pf lt parts (From r) (To r) else all)
              | None \<Rightarrow> all)"

section \<open>PostgreSQL bounds (\<open>engine.go\<close>)\<close>

definition parseListValues :: "string \<Rightarrow> string list" where
  "parseListValues highValue =
     (let hv = TrimSpace highValue in
      if hv = '''' \<or> hv = ''DEFAULT'' then [''DEFAULT'']
      else filter (\<lambda>v. v \<noteq> '''') (map TrimSpace (Split hv (CHR '',''))))"

definition parseHighValue :: "string \<Rightarrow> string" where
  "parseHighValue highValue =
     (let hv = TrimSpace highValue in
      if hv = '''' \<or> hv = ''MAXVALUE'' then ''MAXVALUE''
      else case find (date_at hv) [0..<length hv - 10] of
             Some i \<Rightarrow> [CHR 0x27] @ take 10 (drop i hv) @ [CHR 0x27]
           | None \<Rightarrow> hv)"

definition partition_bound :: "Table \<Rightarrow> string \<Rightarrow> nat \<Rightarrow> PartitionBound" where
  "partition_bound t strategy i =
     (let parts = partitions_of t; p = parts ! i;
          nm = ToLower (tbl_Name t) @ ''_'' @ ToLower (part_Name p)
      in if strategy = ''LIST'' then
           \<lparr>pb_Name = nm, LowerBound = '''', UpperBound = '''',
            pb_Values = parseListValues (HighValue p), pb_Strategy = strategy\<rparr>
         else
           \<lparr>pb_Name = nm,
            LowerBound = (if i = 0 then ''MINVALUE'' else parseHighValue (HighValue (parts ! (i - 1)))),
            UpperBound = parseHighValue (HighValue p), pb_Values = [], pb_Strategy = strategy\<rparr>)"

definition BuildPartitionBounds :: "Table \<Rightarrow> PartitionBound list" where
  "BuildPartitionBounds t =
     (case Partitioning t of
        None \<Rightarrow> []
      | Some info \<Rightarrow>
          if length (Partitions info) > 0
          then map (partition_bound t (strategy_string (Strategy info))) [0..<length (Partitions info)]
          else [])"

section \<open>A consistent order\<close>

text \<open>
  What pruning needs of the comparison: on the values involved, \<open>a \<le> b < c\<close> gives \<open>a < c\<close> and
  \<open>a < b \<le> c\<close> gives \<open>a < c\<close>.
\<close>

text \<open>Membership in a range with optional ends.\<close>

definition in_range :: "(string \<Rightarrow> string \<Rightarrow> int) \<Rightarrow> string \<Rightarrow> string \<Rightarrow> string \<Rightarrow> bool" where
  "in_range cmp low high v \<longleftrightarrow> (low = '''' \<or> cmp low v \<le> 0) \<and> (high = '''' \<or> cmp v high < 0)"

locale value_order =
  fixes cmp :: "string \<Rightarrow> string \<Rightarrow> int"
    and D :: "string set"
  assumes le_less: "a \<in> D \<Longrightarrow> b \<in> D \<Longrightarrow> c \<in> D \<Longrightarrow> cmp a b \<le> 0 \<Longrightarrow> cmp b c < 0 \<Longrightarrow> cmp a c < 0"
begin

lemma common_value_overlap:
  assumes "v \<in> D" and "{low, high, flow, fhigh} - {''''} \<subseteq> D"
    and "in_range cmp low high v" and "in_range cmp flow fhigh v"
  shows "(low = '''' \<or> fhigh = '''' \<or> cmp low fhigh < 0) \<and> (flow = '''' \<or> high = '''' \<or> cmp flow high < 0)"
  using assms le_less [of low v fhigh] le_less [of flow v high] by (auto simp: in_range_def)

end

text \<open>Dates are compared as byte strings, numbers by \<open>lt\<close>.\<close>

interpretation dates: value_order "compareValues pf lt" "{v. pf v = None}"
  for pf :: "string \<Rightarrow> 'f option" and lt
  by unfold_locales (auto simp: compareValues_def split: if_splits)

interpretation numbers: value_order "compareValues pf (<)" "{v. pf v \<noteq> None}"
  for pf :: "string \<Rightarrow> 'f::linorder option"
  by unfold_locales (auto simp: compareValues_def split: if_splits)

text \<open>
  A set of values that \<open>compareValues\<close> orders consistently: none of them reads as a number, or all
  do and \<open>lt\<close> is a strict weak order of their numbers (no NaN among them).
\<close>

definition comparable :: "(string \<Rightarrow> 'f option) \<Rightarrow> ('f \<Rightarrow> 'f \<Rightarrow> bool) \<Rightarrow> string set \<Rightarrow> bool" where
  "comparable pf lt D \<longleftrightarrow>
     (\<forall>v \<in> D. pf v = None) \<or>
     (\<exists>N. (\<forall>v \<in> D. pf v \<in> Some ` N) \<and>
          (\<forall>x \<in> N. \<forall>y \<in> N. lt x y \<longrightarrow> \<not> lt y x) \<and>
          (\<forall>x \<in> N. \<forall>y \<in> N. \<forall>z \<in> N. \<not> lt y x \<longrightarrow> lt y z \<longrightarrow> lt x z))"

lemma comparable_order: "comparable pf lt D \<Longrightarrow> value_order (compareValues pf lt) D"
proof
  fix a b c
  assume D: "comparable pf lt D" "a \<in> D" "b \<in> D" "c \<in> D"
    and le: "compareValues pf lt a b \<le> 0" and less: "compareValues pf lt b c < 0"
  consider "\<forall>v \<in> D. pf v = None"
    | N where "\<forall>v \<in> D. pf v \<in> Some ` N" "\<forall>x \<in> N. \<forall>y \<in> N. lt x y \<longrightarrow> \<not> lt y x"
        "\<forall>x \<in> N. \<forall>y \<in> N. \<forall>z \<in> N. \<not> lt y x \<longrightarrow> lt y z \<longrightarrow> lt x z"
    using D(1) unfolding comparable_def by blast
  then show "compareValues pf lt a c < 0"
  proof cases
    case 1
    then have "pf a = None" "pf b = None" "pf c = None" using D by auto
    then show ?thesis using dates.le_less [of a pf b c lt] le less by simp
  next
    case 2
    obtain x where x: "pf a = Some x" "x \<in> N" using bspec [OF 2(1) D(2)] by auto
    obtain y where y: "pf b = Some y" "y \<in> N" using bspec [OF 2(1) D(3)] by auto
    obtain z where z: "pf c = Some z" "z \<in> N" using bspec [OF 2(1) D(4)] by auto
    have "lt x y \<longrightarrow> \<not> lt y x" using 2(2) x(2) y(2) by blast
    then have "\<not> lt y x" using le x(1) y(1) by (auto simp: compareValues_def split: if_splits)
    moreover have "lt y z" using less y(1) z(1) by (simp add: compareValues_def split: if_splits)
    ultimately have "lt x z" using 2(3) x(2) y(2) z(2) by blast
    then show ?thesis using x(1) z(1) by (simp add: compareValues_def)
  qed
qed

text \<open>The values that decide about partition \<open>i\<close>.\<close>

definition deciding :: "Partition list \<Rightarrow> nat \<Rightarrow> string \<Rightarrow> string \<Rightarrow> string set" where
  "deciding parts i from' to' =
     {lower_of parts i, extractValue (HighValue (parts ! i)), normalizeValue from', normalizeValue to'} - {''''}"

lemma prune_range: "i \<in> set (prunePartitionsByRange pf lt parts from' to') \<Longrightarrow> i < length parts"
  by (auto simp: prunePartitionsByRange_def Let_def)

lemma resolve_sublist:
  "\<exists>P. resolvePartitions pf lt t override = filter P [0..<length (partitions_of t)]"
proof -
  have "\<exists>P. [0..<length (partitions_of t)] = filter P [0..<length (partitions_of t)]"
    by (rule exI [of _ "\<lambda>_. True"]) simp
  then show ?thesis
    by (auto simp: resolvePartitions_def prunePartitionsByRange_def Let_def split: option.splits)
qed

section \<open>Properties\<close>

text \<open>
  Range pruning is sound: if a value \<open>v\<close> lies in the wanted range \<open>[from, to)\<close> and in the range
  of partition \<open>i\<close> (from the previous partition's \<open>HIGH_VALUE\<close> up to its own, an absent bound or
  MAXVALUE being no bound), then partition \<open>i\<close> is kept, provided the values compared are all
  dates or texts, or all numbers that are ordered.
\<close>

theorem prune_keeps_matching:
  assumes "i < length parts"
    and "comparable pf lt (insert v (deciding parts i from' to'))"
    and "in_range (compareValues pf lt) (lower_of parts i) (extractValue (HighValue (parts ! i))) v"
    and "in_range (compareValues pf lt) (normalizeValue from') (normalizeValue to') v"
  shows "i \<in> set (prunePartitionsByRange pf lt parts from' to')"
proof -
  note ord = comparable_order [OF assms(2)]
  have "(lower_of parts i = '''' \<or> normalizeValue to' = '''' \<or>
        compareValues pf lt (lower_of parts i) (normalizeValue to') < 0) \<and>
      (normalizeValue from' = '''' \<or> extractValue (HighValue (parts ! i)) = '''' \<or>
        compareValues pf lt (normalizeValue from') (extractValue (HighValue (parts ! i))) < 0)"
    by (rule value_order.common_value_overlap [OF ord, of v]) (use assms(3,4) in \<open>auto simp: deciding_def\<close>)
  then show ?thesis
    using assms(1) by (auto simp: prunePartitionsByRange_def partitionOverlaps_def Let_def)
qed

text \<open>
  Whatever filter a table has, \<open>resolvePartitions\<close> returns indices of existing partitions,
  each once and in the order of the table, so \<open>Partitions[idx]\<close> never panics and no partition is
  copied twice; without a filter it returns all of them.
\<close>

theorem resolvePartitions_indices:
  "sorted_wrt (<) (resolvePartitions pf lt t override) \<and>
   set (resolvePartitions pf lt t override) \<subseteq> {..<length (partitions_of t)} \<and>
   (PartitionFilter override = [] \<and> o_PartitionRange override = None \<longrightarrow>
      resolvePartitions pf lt t override = [0..<length (partitions_of t)])"
proof -
  obtain P where P: "resolvePartitions pf lt t override = filter P [0..<length (partitions_of t)]"
    using resolve_sublist by blast
  have "sorted_wrt (<) (filter P [0..<length (partitions_of t)])"
    by (rule sorted_wrt_filter) simp
  then show ?thesis by (auto simp: P) (simp add: P [symmetric] resolvePartitions_def Let_def)
qed

text \<open>
  The PostgreSQL ranges that \<open>BuildPartitionBounds\<close> builds leave no gap: one bound per
  partition, in order, the first from MINVALUE, each next one from where the one before ends.
\<close>

theorem BuildPartitionBounds_contiguous:
  assumes "Partitioning t = Some info" and "Strategy info \<noteq> PartitionList"
  shows "length (BuildPartitionBounds t) = length (Partitions info) \<and>
    (Partitions info \<noteq> [] \<longrightarrow> LowerBound (BuildPartitionBounds t ! 0) = ''MINVALUE'') \<and>
    (\<forall>i. Suc i < length (Partitions info) \<longrightarrow>
      LowerBound (BuildPartitionBounds t ! Suc i) = UpperBound (BuildPartitionBounds t ! i))"
proof -
  have s: "strategy_string (Strategy info) \<noteq> ''LIST''"
    using assms(2) by (cases "Strategy info") (simp_all add: strategy_string_def)
  show ?thesis
    using assms(1) s
    by (auto simp: BuildPartitionBounds_def partition_bound_def Let_def partitions_of_def)
qed

section \<open>Witnesses\<close>

definition sample_part :: "string \<Rightarrow> string \<Rightarrow> Partition" where
  "sample_part n hv = \<lparr>part_Name = n, HighValue = hv, part_Position = 1, part_NumRows = 0, part_SizeMB = 0\<rparr>"

definition to_date :: "string \<Rightarrow> string" where
  "to_date d = ''TO_DATE('' @ [CHR 0x27] @ '' '' @ d @ [CHR 0x27] @ '', '' @ [CHR 0x27] @ ''SYYYY-MM-DD HH24:MI:SS'' @ [CHR 0x27] @ '')''"

definition sample_parts :: "Partition list" where
  "sample_parts = [sample_part ''P1'' (to_date ''2024-01-01 00:00:00''),
     sample_part ''P2'' (to_date ''2024-02-01 00:00:00''), sample_part ''P3'' ''MAXVALUE'']"

definition no_float :: "string \<Rightarrow> nat option" where
  "no_float v = None"

theorem prune_keeps_matching_witness:
  "1 \<in> set (prunePartitionsByRange no_float (<) sample_parts ''2024-01-15'' ''2024-01-20'')"
proof -
  have len: "1 < length sample_parts" by (simp add: sample_parts_def)
  have c: "comparable no_float (<) (insert ''2024-01-16'' (deciding sample_parts 1 ''2024-01-15'' ''2024-01-20''))"
    by (simp add: comparable_def no_float_def)
  have i1: "in_range (compareValues no_float (<)) (lower_of sample_parts 1)
      (extractValue (HighValue (sample_parts ! 1))) ''2024-01-16''"
    by code_simp
  have i2: "in_range (compareValues no_float (<)) (normalizeValue ''2024-01-15'') (normalizeValue ''2024-01-20'') ''2024-01-16''"
    by code_simp
  show ?thesis by (rule prune_keeps_matching [OF len c i1 i2])
qed

definition sample_partitioned :: "PartitionStrategy \<Rightarrow> Table" where
  "sample_partitioned s = \<lparr>tbl_Owner = ''HR'', tbl_Name = ''SALES'', Columns = [], PrimaryKey = None,
     Constraints = [], Indexes = [],
     Partitioning = Some \<lparr>Strategy = s, KeyColumns = [''D''], Partitions = sample_parts\<rparr>,
     Comment = '''', tbl_NumRows = 0, tbl_SizeMB = 0\<rparr>"

theorem resolvePartitions_indices_witness:
  "resolvePartitions no_float (<) (sample_partitioned PartitionRange) zeroOverride = [0, 1, 2]"
proof -
  have "PartitionFilter zeroOverride = [] \<and> o_PartitionRange zeroOverride = None"
    by (simp add: zeroOverride_def)
  moreover have "length (partitions_of (sample_partitioned PartitionRange)) = 3"
    by (simp add: partitions_of_def sample_partitioned_def sample_parts_def)
  ultimately show ?thesis
    using resolvePartitions_indices [of no_float "(<)" "sample_partitioned PartitionRange" zeroOverride]
    by (simp add: upt_rec)
qed

theorem BuildPartitionBounds_contiguous_witness:
  "LowerBound (BuildPartitionBounds (sample_partitioned PartitionRange) ! 1) =
   UpperBound (BuildPartitionBounds (sample_partitioned PartitionRange) ! 0)"
proof -
  let ?info = "\<lparr>Strategy = PartitionRange, KeyColumns = [''D''], Partitions = sample_parts\<rparr>"
  have h1: "Partitioning (sample_partitioned PartitionRange) = Some ?info"
    by (simp add: sample_partitioned_def)
  have h2: "Strategy ?info \<noteq> PartitionList" by simp
  show ?thesis
    using BuildPartitionBounds_contiguous [OF h1 h2] by (auto simp: sample_parts_def)
qed

text \<open>
  The time of day of a \<open>HIGH_VALUE\<close> is cut off. With partitions that end at noon and at the next
  midnight, the bounds of the second one collapse to an empty range that PostgreSQL refuses, and a
  range filter from that day drops the partition that holds the morning.
\<close>

lemma subday_bounds_collapse:
  "let hvs = [sample_part ''P1'' (to_date ''2024-02-01 12:00:00''), sample_part ''P2'' (to_date ''2024-02-01 18:00:00'')]
   in parseHighValue (HighValue (hvs ! 0)) = parseHighValue (HighValue (hvs ! 1)) \<and>
      prunePartitionsByRange no_float (<) hvs ''2024-02-01'' ''2024-02-02'' = []"
  by code_simp

text \<open>A HASH partitioned table gets range bounds, which PostgreSQL refuses under \<open>PARTITION BY HASH\<close>.\<close>

lemma hash_gets_range_bounds:
  "LowerBound (BuildPartitionBounds (sample_partitioned PartitionHash) ! 0) = ''MINVALUE''"
  by code_simp

end
