(* ===== verification/Plan_Build.thy ===== *)
theory Plan_Build
  imports Plan_Tasks Topo_Sort Partition_Prune
begin

text \<open>
  \<open>BuildPlan\<close> of \<open>internal/migration/plan.go\<close>: from the schema and the configuration to the ordered
  list of data tasks. A table that needs ROWID chunks gets placeholder tasks whose positions are
  recorded in \<open>ChunkableTasks\<close> and \<open>PartitionChunkTables\<close>; theory \<open>Plan_Resolve\<close> replaces them.
  The abstract view of a plan is a list of segments, one per table that is not skipped: the
  refinement lemma shows that \<open>BuildPlan\<close> lays them out one after the other and records exactly
  where each placeholder starts.
\<close>

section \<open>Chunk counts and filters\<close>

definition partitionChunkCount :: "int \<Rightarrow> int \<Rightarrow> int \<Rightarrow> int" where
  "partitionChunkCount numRows batchSize workers =
     (let bs = (if batchSize \<le> 0 then 50000 else batchSize);
          threshold = i64 (bs * 10)
      in if numRows \<le> threshold then 1
         else
           let n = go_div numRows bs;
               maxChunks = (if i64 (workers * 4) < 8 then 8 else i64 (workers * 4));
               n' = (if n > maxChunks then maxChunks else n)
           in if n' < 2 then 2 else n')"

definition oraHashWhere :: "int \<Rightarrow> int \<Rightarrow> string \<Rightarrow> string" where
  "oraHashWhere totalChunks chunkID existingWhere =
     (let flt = ''ORA_HASH(ROWID, '' @ itoa (i64 (totalChunks - 1)) @ '') = '' @ itoa chunkID
      in if existingWhere \<noteq> '''' then flt @ '' AND ('' @ existingWhere @ '')'' else flt)"

section \<open>The plan\<close>

record chunkableTask =
  ct_Table :: Table
  ct_Override :: TableOverride
  ct_ChunkSize :: int
  ct_PlaceholderIdx :: nat

record partitionChunkTask =
  pct_Table :: Table
  pct_Override :: TableOverride
  IncludedParts :: "nat list"
  pct_TargetMode :: TargetMode
  pct_PlaceholderIdx :: nat
  PlaceholderCnt :: nat

record MigrationPlan =
  DDLOrder :: "Table list"
  DataTasks :: "TableTask list"
  ConstraintOrder :: "Table list"
  plan_Sequences :: "Sequence list"
  ChunkableTasks :: "chunkableTask list"
  PartitionChunkTables :: "partitionChunkTask list"

text \<open>The task literals of the code: the whole table or partition, and one ORA_HASH chunk of it.\<close>

definition whole_task :: "Table \<Rightarrow> Partition option \<Rightarrow> TableOverride \<Rightarrow> TargetMode \<Rightarrow> TableTask" where
  "whole_task t p override targetMode =
     \<lparr>t_Table = t, t_Partition = p, t_Chunk = None, TotalChunks = 0, t_Where = o_Where override,
      t_FetchSize = o_FetchSize override, t_BatchSize = o_BatchSize override,
      t_MaxParallel = o_MaxParallel override, t_TargetMode = targetMode\<rparr>"

definition hash_task ::
    "Table \<Rightarrow> Partition option \<Rightarrow> TableOverride \<Rightarrow> TargetMode \<Rightarrow> int \<Rightarrow> int \<Rightarrow> TableTask" where
  "hash_task t p override targetMode numChunks chunkID =
     \<lparr>t_Table = t, t_Partition = p,
      t_Chunk = Some \<lparr>ch_ID = chunkID, StartRID = '''', EndRID = '''', ch_PartitionName = ''''\<rparr>,
      TotalChunks = numChunks, t_Where = oraHashWhere numChunks chunkID (o_Where override),
      t_FetchSize = o_FetchSize override, t_BatchSize = o_BatchSize override,
      t_MaxParallel = o_MaxParallel override, t_TargetMode = targetMode\<rparr>"

text \<open>
  The inner loop that the code repeats for partitions and for tables: \<open>numChunks\<close> tasks if there
  is more than one chunk, the whole object otherwise.
\<close>

definition hash_tasks ::
    "Table \<Rightarrow> Partition option \<Rightarrow> TableOverride \<Rightarrow> TargetMode \<Rightarrow> int \<Rightarrow> TableTask list" where
  "hash_tasks t p override targetMode numChunks =
     (if numChunks > 1
      then map (\<lambda>i. hash_task t p override targetMode numChunks (int i)) [0..<nat numChunks]
      else [whole_task t p override targetMode])"

definition part_at :: "Table \<Rightarrow> nat \<Rightarrow> Partition" where
  "part_at t idx = partitions_of t ! idx"

definition strategy_of :: "MigrationConfig \<Rightarrow> TableOverride \<Rightarrow> ChunkStrategy" where
  "strategy_of cfg override =
     (if o_ChunkStrategy override = '''' then m_ChunkStrategy cfg else o_ChunkStrategy override)"

definition batch_of :: "MigrationConfig \<Rightarrow> TableOverride \<Rightarrow> int" where
  "batch_of cfg override =
     (if o_BatchSize override \<le> 0 then m_BatchSize cfg else o_BatchSize override)"

definition add_tasks :: "MigrationPlan \<Rightarrow> TableTask list \<Rightarrow> MigrationPlan" where
  "add_tasks plan ts = plan\<lparr>DataTasks := DataTasks plan @ ts\<rparr>"

definition plan_partitioned ::
    "nat list \<Rightarrow> MigrationConfig \<Rightarrow> TableOverride \<Rightarrow> TargetMode \<Rightarrow> MigrationPlan \<Rightarrow> Table \<Rightarrow> MigrationPlan" where
  "plan_partitioned included cfg override targetMode plan t =
     (let strategy = strategy_of cfg override;
          batchSize = batch_of cfg override;
          count = (\<lambda>idx. partitionChunkCount (part_NumRows (part_at t idx)) batchSize (Workers cfg));
          needsChunking = (strategy \<noteq> ChunkStrategyOffset \<and> list_ex (\<lambda>idx. count idx > 1) included);
          singles = map (\<lambda>idx. whole_task t (Some (part_at t idx)) override targetMode) included
      in if needsChunking \<and> (strategy = ChunkStrategyRowID \<or> strategy = ChunkStrategyAuto) then
           (add_tasks plan singles)\<lparr>PartitionChunkTables := PartitionChunkTables plan @
             [\<lparr>pct_Table = t, pct_Override = override, IncludedParts = included,
               pct_TargetMode = targetMode, pct_PlaceholderIdx = length (DataTasks plan),
               PlaceholderCnt = length included\<rparr>]\<rparr>
         else if needsChunking \<and> strategy = ChunkStrategyOraHash then
           add_tasks plan
             (concat (map (\<lambda>idx. hash_tasks t (Some (part_at t idx)) override targetMode (count idx)) included))
         else add_tasks plan singles)"

definition plan_plain ::
    "MigrationConfig \<Rightarrow> TableOverride \<Rightarrow> TargetMode \<Rightarrow> MigrationPlan \<Rightarrow> Table \<Rightarrow> MigrationPlan" where
  "plan_plain cfg override targetMode plan t =
     (let strategy = strategy_of cfg override;
          bs = batch_of cfg override;
          needsChunking = (o_ChunkSize override > 0 \<or>
            (strategy \<noteq> ChunkStrategyOffset \<and> partitionChunkCount (tbl_NumRows t) bs (Workers cfg) > 1));
          chunkSize = (if o_ChunkSize override \<le> 0 then bs else o_ChunkSize override)
      in if strategy = ChunkStrategyOffset \<or> \<not> needsChunking then
           add_tasks plan [whole_task t None override targetMode]
         else if strategy = ChunkStrategyOraHash then
           add_tasks plan (hash_tasks t None override targetMode
             (partitionChunkCount (tbl_NumRows t) chunkSize (Workers cfg)))
         else
           (add_tasks plan [whole_task t None override targetMode])\<lparr>ChunkableTasks := ChunkableTasks plan @
             [\<lparr>ct_Table = t, ct_Override = override, ct_ChunkSize = chunkSize,
               ct_PlaceholderIdx = length (DataTasks plan)\<rparr>]\<rparr>)"

definition plan_table ::
    "(string \<Rightarrow> 'f option) \<Rightarrow> ('f \<Rightarrow> 'f \<Rightarrow> bool) \<Rightarrow> MigrationConfig \<Rightarrow> bool \<Rightarrow> MigrationPlan \<Rightarrow> Table \<Rightarrow> MigrationPlan" where
  "plan_table pf lt cfg globalDrop plan t =
     (let override = override_of cfg (tbl_Name t);
          targetMode = ResolveTargetMode override globalDrop
      in if targetMode = TargetModeSkip then plan
         else if IsPartitioned t then
           plan_partitioned (resolvePartitions pf lt t override) cfg override targetMode plan t
         else plan_plain cfg override targetMode plan t)"

definition not_skipped :: "MigrationConfig \<Rightarrow> bool \<Rightarrow> Table \<Rightarrow> bool" where
  "not_skipped cfg globalDrop t \<longleftrightarrow>
     ResolveTargetMode (override_of cfg (tbl_Name t)) globalDrop \<noteq> TargetModeSkip"

definition BuildPlan ::
    "(string \<Rightarrow> 'f option) \<Rightarrow> ('f \<Rightarrow> 'f \<Rightarrow> bool) \<Rightarrow> Schema \<Rightarrow> MigrationConfig \<Rightarrow> bool \<Rightarrow> MigrationPlan" where
  "BuildPlan pf lt s cfg globalDrop =
     (let sorted = topoSortTables (Tables s);
          plan = \<lparr>DDLOrder = filter (not_skipped cfg globalDrop) sorted, DataTasks = [],
            ConstraintOrder = [], plan_Sequences = Sequences s, ChunkableTasks = [],
            PartitionChunkTables = []\<rparr>
      in (foldl (plan_table pf lt cfg globalDrop) plan sorted)\<lparr>ConstraintOrder := rev sorted\<rparr>)"

section \<open>The segments of a plan\<close>

text \<open>What one table contributes: final tasks, one placeholder, or one placeholder per partition.\<close>

datatype segment =
    Fixed "TableTask list"
  | Single Table TableOverride int TargetMode
  | Parts Table TableOverride "nat list" TargetMode

primrec seg_tasks :: "segment \<Rightarrow> TableTask list" where
  "seg_tasks (Fixed ts) = ts"
| "seg_tasks (Single t override chunkSize mode) = [whole_task t None override mode]"
| "seg_tasks (Parts t override included mode) =
     map (\<lambda>idx. whole_task t (Some (part_at t idx)) override mode) included"

definition layout :: "segment list \<Rightarrow> TableTask list" where
  "layout segs = concat (map seg_tasks segs)"

fun singles_at :: "nat \<Rightarrow> segment list \<Rightarrow> chunkableTask list" where
  "singles_at off [] = []"
| "singles_at off (Single t override chunkSize mode # segs) =
     \<lparr>ct_Table = t, ct_Override = override, ct_ChunkSize = chunkSize, ct_PlaceholderIdx = off\<rparr>
       # singles_at (off + 1) segs"
| "singles_at off (Fixed ts # segs) = singles_at (off + length ts) segs"
| "singles_at off (Parts t override included mode # segs) = singles_at (off + length included) segs"

fun parts_at :: "nat \<Rightarrow> segment list \<Rightarrow> partitionChunkTask list" where
  "parts_at off [] = []"
| "parts_at off (Parts t override included mode # segs) =
     \<lparr>pct_Table = t, pct_Override = override, IncludedParts = included, pct_TargetMode = mode,
      pct_PlaceholderIdx = off, PlaceholderCnt = length included\<rparr>
       # parts_at (off + length included) segs"
| "parts_at off (Fixed ts # segs) = parts_at (off + length ts) segs"
| "parts_at off (Single t override chunkSize mode # segs) = parts_at (off + 1) segs"

definition laid_out :: "segment list \<Rightarrow> MigrationPlan \<Rightarrow> bool" where
  "laid_out segs plan \<longleftrightarrow>
     DataTasks plan = layout segs \<and> ChunkableTasks plan = singles_at 0 segs \<and>
     PartitionChunkTables plan = parts_at 0 segs"

lemma layout_simps [simp]:
  "layout [] = []" "layout (s # ss) = seg_tasks s @ layout ss" "layout (xs @ ys) = layout xs @ layout ys"
  by (simp_all add: layout_def)

lemma singles_at_append:
  "singles_at off (xs @ ys) = singles_at off xs @ singles_at (off + length (layout xs)) ys"
  by (induction off xs rule: singles_at.induct) (simp_all add: ac_simps)

lemma parts_at_append:
  "parts_at off (xs @ ys) = parts_at off xs @ parts_at (off + length (layout xs)) ys"
  by (induction off xs rule: parts_at.induct) (simp_all add: ac_simps)

lemma laid_out_Nil: "DataTasks plan = [] \<Longrightarrow> ChunkableTasks plan = [] \<Longrightarrow> PartitionChunkTables plan = []
  \<Longrightarrow> laid_out [] plan"
  by (simp add: laid_out_def)

lemma laid_out_add_Fixed: "laid_out segs plan \<Longrightarrow> laid_out (segs @ [Fixed ts]) (add_tasks plan ts)"
  by (simp add: laid_out_def add_tasks_def singles_at_append parts_at_append)

text \<open>The segment of a table, as a specification of the two branches of the loop body.\<close>

definition partitioned_segment :: "nat list \<Rightarrow> MigrationConfig \<Rightarrow> TableOverride \<Rightarrow> TargetMode \<Rightarrow> Table \<Rightarrow> segment" where
  "partitioned_segment included cfg override mode t =
     (let strategy = strategy_of cfg override;
          count = (\<lambda>idx. partitionChunkCount (part_NumRows (part_at t idx)) (batch_of cfg override) (Workers cfg));
          large = list_ex (\<lambda>idx. count idx > 1) included
      in if large \<and> strategy \<in> {ChunkStrategyRowID, ChunkStrategyAuto} then Parts t override included mode
         else if large \<and> strategy = ChunkStrategyOraHash then
           Fixed (concat (map (\<lambda>idx. hash_tasks t (Some (part_at t idx)) override mode (count idx)) included))
         else Fixed (map (\<lambda>idx. whole_task t (Some (part_at t idx)) override mode) included))"

definition plain_segment :: "MigrationConfig \<Rightarrow> TableOverride \<Rightarrow> TargetMode \<Rightarrow> Table \<Rightarrow> segment" where
  "plain_segment cfg override mode t =
     (let strategy = strategy_of cfg override;
          size = (if o_ChunkSize override > 0 then o_ChunkSize override else batch_of cfg override)
      in if strategy = ChunkStrategyOffset \<or>
            o_ChunkSize override \<le> 0 \<and> partitionChunkCount (tbl_NumRows t) (batch_of cfg override) (Workers cfg) \<le> 1
         then Fixed [whole_task t None override mode]
         else if strategy = ChunkStrategyOraHash
         then Fixed (hash_tasks t None override mode (partitionChunkCount (tbl_NumRows t) size (Workers cfg)))
         else Single t override size mode)"

definition segment_of ::
    "(string \<Rightarrow> 'f option) \<Rightarrow> ('f \<Rightarrow> 'f \<Rightarrow> bool) \<Rightarrow> MigrationConfig \<Rightarrow> bool \<Rightarrow> Table \<Rightarrow> segment" where
  "segment_of pf lt cfg gd t =
     (let override = override_of cfg (tbl_Name t); mode = ResolveTargetMode override gd
      in if IsPartitioned t then partitioned_segment (resolvePartitions pf lt t override) cfg override mode t
         else plain_segment cfg override mode t)"

lemma plan_partitioned_adds:
  "laid_out segs plan \<Longrightarrow>
   laid_out (segs @ [partitioned_segment included cfg override mode t])
     (plan_partitioned included cfg override mode plan t)"
  by (auto simp: plan_partitioned_def partitioned_segment_def Let_def laid_out_add_Fixed)
    (auto simp: laid_out_def add_tasks_def singles_at_append parts_at_append)

lemma plan_plain_adds:
  "laid_out segs plan \<Longrightarrow>
   laid_out (segs @ [plain_segment cfg override mode t]) (plan_plain cfg override mode plan t)"
  by (auto simp: plan_plain_def plain_segment_def Let_def laid_out_add_Fixed)
    (auto simp: laid_out_def add_tasks_def singles_at_append parts_at_append)

lemma plan_loop:
  "laid_out segs plan \<Longrightarrow>
   laid_out (segs @ map (segment_of pf lt cfg gd) (filter (not_skipped cfg gd) ts))
     (foldl (plan_table pf lt cfg gd) plan ts)"
proof (induction ts arbitrary: plan segs)
  case Nil
  then show ?case by simp
next
  case (Cons t ts)
  show ?case
  proof (cases "not_skipped cfg gd t")
    case True
    then have "laid_out (segs @ [segment_of pf lt cfg gd t]) (plan_table pf lt cfg gd plan t)"
      using Cons.prems
      by (auto simp: plan_table_def segment_of_def not_skipped_def Let_def
          intro: plan_partitioned_adds plan_plain_adds)
    from Cons.IH [OF this] True show ?thesis by simp
  next
    case False
    then have "plan_table pf lt cfg gd plan t = plan"
      by (simp add: plan_table_def not_skipped_def Let_def)
    then show ?thesis using Cons False by simp
  qed
qed

lemma BuildPlan_data:
  "laid_out (map (segment_of pf lt cfg gd) (filter (not_skipped cfg gd) (topoSortTables (Tables s))))
     (BuildPlan pf lt s cfg gd)"
proof -
  have "laid_out ([] @ map (segment_of pf lt cfg gd) (filter (not_skipped cfg gd) ts))
      (foldl (plan_table pf lt cfg gd) p ts)"
    if "DataTasks p = []" "ChunkableTasks p = []" "PartitionChunkTables p = []" for p ts
    by (rule plan_loop) (rule laid_out_Nil [OF that])
  then show ?thesis by (auto simp: BuildPlan_def Let_def laid_out_def)
qed

section \<open>Properties\<close>

text \<open>
  C20. \<open>BuildPlan\<close> refines its specification: the data tasks are the segments of the tables that are
  not skipped, in foreign-key order, one after the other; and every entry of \<open>ChunkableTasks\<close>
  and \<open>PartitionChunkTables\<close> records the position where its placeholders start.
\<close>

theorem BuildPlan_laid_out:
  "laid_out (map (segment_of pf lt cfg gd) (filter (not_skipped cfg gd) (topoSortTables (Tables s))))
     (BuildPlan pf lt s cfg gd) \<and>
   DDLOrder (BuildPlan pf lt s cfg gd) = filter (not_skipped cfg gd) (topoSortTables (Tables s)) \<and>
   ConstraintOrder (BuildPlan pf lt s cfg gd) = rev (topoSortTables (Tables s))"
proof -
  have "DDLOrder (foldl (plan_table pf lt cfg gd) p ts) = DDLOrder p" for p ts
    by (rule foldl_invariant [where P = "\<lambda>q. DDLOrder q = DDLOrder p"])
      (auto simp: plan_table_def plan_partitioned_def plan_plain_def add_tasks_def Let_def)
  then show ?thesis using BuildPlan_data [of pf lt cfg gd s] by (simp add: BuildPlan_def Let_def)
qed

text \<open>
  \<open>partitionChunkCount\<close> stays between 1 and the larger of 8 and four chunks per worker, splits
  exactly the objects of more than ten batches, and never makes chunks of less than a batch on
  average.
\<close>

theorem partitionChunkCount_bounds:
  assumes "0 < batchSize" "batchSize \<le> 900000000000000000" "0 \<le> workers" "workers \<le> 1000000"
  shows "1 \<le> partitionChunkCount n batchSize workers \<and>
    partitionChunkCount n batchSize workers \<le> max 8 (4 * workers) \<and>
    (partitionChunkCount n batchSize workers = 1 \<longleftrightarrow> n \<le> 10 * batchSize) \<and>
    (partitionChunkCount n batchSize workers > 1 \<longrightarrow> partitionChunkCount n batchSize workers * batchSize \<le> n)"
proof (cases "n \<le> 10 * batchSize")
  case True
  then show ?thesis using assms by (simp add: partitionChunkCount_def Let_def in_i64_nonneg mult.commute)
next
  case False
  let ?d = "n div batchSize"
  have d: "10 \<le> ?d" using zdiv_mono1 [of "10 * batchSize" n batchSize] False assms(1) by simp
  have i: "i64 (batchSize * 10) = batchSize * 10" "i64 (workers * 4) = workers * 4"
    using assms by (simp_all add: in_i64_nonneg)
  have c: "partitionChunkCount n batchSize workers = min ?d (max 8 (workers * 4))"
    using False assms(1) d by (simp add: partitionChunkCount_def Let_def i go_div_nonneg mult.commute min_def max_def)
  have "min ?d (max 8 (workers * 4)) * batchSize \<le> ?d * batchSize"
    using assms(1) by (intro mult_right_mono) auto
  also have "\<dots> \<le> n" using assms(1) by (metis mult.commute div_mult_mod_eq le_add_same_cancel1 pos_mod_sign)
  finally show ?thesis using c d False by auto
qed

theorem partitionChunkCount_bounds_witness:
  "partitionChunkCount 10000000 50000 4 \<le> max 8 (4 * 4)"
proof -
  have h: "0 < (50000::int)" "(50000::int) \<le> 900000000000000000" "0 \<le> (4::int)" "(4::int) \<le> 1000000" by simp_all
  show ?thesis using partitionChunkCount_bounds [OF h, of 10000000] by blast
qed

end
