(* ===== verification/Plan_Resolve.thy ===== *)
theory Plan_Resolve
  imports Plan_Build
begin

text \<open>
  The second half of \<open>internal/migration/plan.go\<close>: replacing placeholder tasks by chunk tasks
  (\<open>mergeChunks\<close>, \<open>ResolveChunks\<close>, \<open>ResolvePartitionChunks\<close>, \<open>ResolveOraHashChunks\<close>). The row
  estimator and the answers of \<open>DBMS_PARALLEL_EXECUTE\<close> are parameters. A slice bound out of range
  or a division by zero panics in Go: the functions return \<open>None\<close> then. The lemmas show that the
  splicing replaces exactly the placeholders when the recorded positions are current, and what goes
  wrong when they are not.
\<close>

section \<open>Merging chunks\<close>

definition merge_step ::
    "RowIDChunk list \<Rightarrow> nat \<Rightarrow> nat \<Rightarrow> RowIDChunk list \<times> nat \<Rightarrow> nat \<Rightarrow> RowIDChunk list \<times> nat" where
  "merge_step chunks perGroup extra st i =
     (let (merged, pos) = st;
          size = (if i < extra then perGroup + 1 else perGroup);
          group = take size (drop pos chunks)
      in (merged @ [\<lparr>ch_ID = int i, StartRID = StartRID (hd group), EndRID = EndRID (last group),
                     ch_PartitionName = ch_PartitionName (hd group)\<rparr>],
          pos + size))"

definition mergeChunks :: "RowIDChunk list \<Rightarrow> int \<Rightarrow> RowIDChunk list" where
  "mergeChunks chunks targetN =
     (if int (length chunks) \<le> targetN \<or> targetN \<le> 0 then chunks
      else
        let perGroup = length chunks div nat targetN;
            extra = length chunks mod nat targetN
        in fst (foldl (merge_step chunks perGroup extra) ([], 0) [0..<nat targetN]))"

section \<open>Resolving placeholders\<close>

text \<open>\<open>append(DataTasks[:idx], new..., DataTasks[idx+cnt:]...)\<close>: out-of-range bounds panic.\<close>

definition splice_tasks :: "nat \<Rightarrow> nat \<Rightarrow> TableTask list \<Rightarrow> TableTask list \<Rightarrow> TableTask list option" where
  "splice_tasks idx cnt new tasks =
     (if idx + cnt \<le> length tasks then Some (splice_at idx cnt new tasks) else None)"

text \<open>The task literals of \<open>ResolveChunks\<close>, which set neither \<open>BatchSize\<close> nor \<open>TargetMode\<close>.\<close>

definition table_chunk_task :: "chunkableTask \<Rightarrow> RowIDChunk \<Rightarrow> int \<Rightarrow> string \<Rightarrow> TableTask" where
  "table_chunk_task ct ch n where' =
     \<lparr>t_Table = ct_Table ct, t_Partition = None, t_Chunk = Some ch, TotalChunks = n, t_Where = where',
      t_FetchSize = o_FetchSize (ct_Override ct), t_BatchSize = 0,
      t_MaxParallel = o_MaxParallel (ct_Override ct), t_TargetMode = ''''\<rparr>"

text \<open>The chunk tasks of one table, \<open>None\<close> where the loop body does \<open>continue\<close>.\<close>

definition rowid_single_tasks ::
    "(string \<Rightarrow> string \<Rightarrow> string + int) \<Rightarrow> (string \<Rightarrow> string \<Rightarrow> int \<Rightarrow> string + RowIDChunk list) \<Rightarrow>
     chunkableTask \<Rightarrow> TableTask list option" where
  "rowid_single_tasks rowEstimator dbms ct =
     (let t = ct_Table ct in
      case rowEstimator (tbl_Owner t) (tbl_Name t) of
        Inl _ \<Rightarrow> None
      | Inr rowCount \<Rightarrow>
          let n = go_div rowCount (ct_ChunkSize ct)
          in if n < 2 then None
             else
               let numChunks = (if n > 256 then 256 else n);
                   chunks = ComputeChunks (dbms (tbl_Owner t) (tbl_Name t) numChunks) numChunks
               in if length chunks = 0 then None
                  else
                    let chunks' = (if int (length chunks) > numChunks then mergeChunks chunks numChunks else chunks);
                        k = int (length chunks')
                    in Some (map (\<lambda>ch. table_chunk_task ct ch k
                          (BuildChunkWhereClause ch k (o_Where (ct_Override ct)))) chunks'))"

definition resolve_single ::
    "(string \<Rightarrow> string \<Rightarrow> string + int) \<Rightarrow> (string \<Rightarrow> string \<Rightarrow> int \<Rightarrow> string + RowIDChunk list) \<Rightarrow>
     chunkableTask \<Rightarrow> TableTask list \<Rightarrow> TableTask list option" where
  "resolve_single rowEstimator dbms ct tasks =
     (if ct_ChunkSize ct = 0 \<and>
         (case rowEstimator (tbl_Owner (ct_Table ct)) (tbl_Name (ct_Table ct)) of Inl _ \<Rightarrow> False | Inr _ \<Rightarrow> True)
      then None
      else case rowid_single_tasks rowEstimator dbms ct of
             None \<Rightarrow> Some tasks
           | Some chunkTasks \<Rightarrow> splice_tasks (ct_PlaceholderIdx ct) 1 chunkTasks tasks)"

definition backwards :: "('a \<Rightarrow> 'b \<Rightarrow> 'b option) \<Rightarrow> 'a list \<Rightarrow> 'b \<Rightarrow> 'b option" where
  "backwards f xs b = foldr (\<lambda>x acc. Option.bind acc (f x)) xs (Some b)"

definition ResolveChunks ::
    "(string \<Rightarrow> string \<Rightarrow> string + int) \<Rightarrow> (string \<Rightarrow> string \<Rightarrow> int \<Rightarrow> string + RowIDChunk list) \<Rightarrow>
     MigrationPlan \<Rightarrow> MigrationPlan option" where
  "ResolveChunks rowEstimator dbms plan =
     (if length (ChunkableTasks plan) = 0 then Some plan
      else map_option (\<lambda>ts. plan\<lparr>DataTasks := ts, ChunkableTasks := []\<rparr>)
             (backwards (resolve_single rowEstimator dbms) (ChunkableTasks plan) (DataTasks plan)))"

definition part_chunk_task ::
    "partitionChunkTask \<Rightarrow> Partition \<Rightarrow> int \<Rightarrow> RowIDChunk \<Rightarrow> TableTask" where
  "part_chunk_task pct p n ch =
     (let override = pct_Override pct in
     \<lparr>t_Table = pct_Table pct, t_Partition = Some p, t_Chunk = Some ch, TotalChunks = n,
      t_Where = BuildChunkWhereClause ch n (o_Where override),
      t_FetchSize = o_FetchSize override, t_BatchSize = o_BatchSize override,
      t_MaxParallel = o_MaxParallel override, t_TargetMode = pct_TargetMode pct\<rparr>)"

definition max_chunks :: "int \<Rightarrow> int" where
  "max_chunks workers = (if i64 (workers * 4) < 8 then 8 else i64 (workers * 4))"

definition rowid_replacement ::
    "part_chunks \<Rightarrow> int \<Rightarrow> partitionChunkTask \<Rightarrow> TableTask list" where
  "rowid_replacement partChunks workers pct =
     concat (map (\<lambda>idx.
       let p = part_at (pct_Table pct) idx
       in case map_of partChunks (part_Name p) of
            Some (c # cs) \<Rightarrow>
              (let chunks = c # cs;
                   chunks' = (if int (length chunks) > max_chunks workers
                              then mergeChunks chunks (max_chunks workers) else chunks)
               in map (part_chunk_task pct p (int (length chunks'))) chunks')
          | _ \<Rightarrow> [whole_task (pct_Table pct) (Some p) (pct_Override pct) (pct_TargetMode pct)])
       (IncludedParts pct))"

definition hash_replacement :: "int \<Rightarrow> int \<Rightarrow> partitionChunkTask \<Rightarrow> TableTask list" where
  "hash_replacement workers batchSize pct =
     (let bs = (if o_BatchSize (pct_Override pct) \<le> 0 then batchSize else o_BatchSize (pct_Override pct))
      in concat (map (\<lambda>idx.
           let p = part_at (pct_Table pct) idx
           in hash_tasks (pct_Table pct) (Some p) (pct_Override pct) (pct_TargetMode pct)
                (partitionChunkCount (part_NumRows p) bs workers))
           (IncludedParts pct)))"

definition parts_replacement ::
    "(string \<Rightarrow> string \<Rightarrow> int \<Rightarrow> string + RowIDChunk list) \<Rightarrow> int \<Rightarrow> int \<Rightarrow> partitionChunkTask \<Rightarrow>
     TableTask list" where
  "parts_replacement dbms workers batchSize pct =
     (let t = pct_Table pct; n = i64 (workers * 4)
      in case ComputePartitionedChunks (dbms (tbl_Owner t) (tbl_Name t) n) n of
           Inr partChunks \<Rightarrow>
             if length partChunks > 0 then rowid_replacement partChunks workers pct
             else hash_replacement workers batchSize pct
         | Inl _ \<Rightarrow> hash_replacement workers batchSize pct)"

definition resolve_parts ::
    "(string \<Rightarrow> string \<Rightarrow> int \<Rightarrow> string + RowIDChunk list) \<Rightarrow> int \<Rightarrow> int \<Rightarrow> partitionChunkTask \<Rightarrow>
     TableTask list \<Rightarrow> TableTask list option" where
  "resolve_parts dbms workers batchSize pct tasks =
     splice_tasks (pct_PlaceholderIdx pct) (PlaceholderCnt pct)
       (parts_replacement dbms workers batchSize pct) tasks"

definition ResolvePartitionChunks ::
    "(string \<Rightarrow> string \<Rightarrow> int \<Rightarrow> string + RowIDChunk list) \<Rightarrow> int \<Rightarrow> int \<Rightarrow> MigrationPlan \<Rightarrow> MigrationPlan option" where
  "ResolvePartitionChunks dbms workers batchSize plan =
     (if length (PartitionChunkTables plan) = 0 then Some plan
      else map_option (\<lambda>ts. plan\<lparr>DataTasks := ts, PartitionChunkTables := []\<rparr>)
             (backwards (resolve_parts dbms workers batchSize) (PartitionChunkTables plan) (DataTasks plan)))"

text \<open>\<open>ResolveOraHashChunks\<close>: the same with ORA_HASH and the row counts of the metadata.\<close>

definition hash_parts :: "int \<Rightarrow> int \<Rightarrow> partitionChunkTask \<Rightarrow> TableTask list \<Rightarrow> TableTask list option" where
  "hash_parts workers batchSize pct tasks =
     splice_tasks (pct_PlaceholderIdx pct) (PlaceholderCnt pct) (hash_replacement workers batchSize pct) tasks"

definition hash_single_size :: "int \<Rightarrow> chunkableTask \<Rightarrow> int" where
  "hash_single_size batchSize ct = (if ct_ChunkSize ct \<le> 0 then batchSize else ct_ChunkSize ct)"

definition hash_single_tasks :: "int \<Rightarrow> chunkableTask \<Rightarrow> TableTask list option" where
  "hash_single_tasks batchSize ct =
     (let n = go_div (tbl_NumRows (ct_Table ct)) (hash_single_size batchSize ct)
      in if n < 2 then None
         else
           let numChunks = (if n > 256 then 256 else n)
           in Some (map (\<lambda>j. table_chunk_task ct
                 \<lparr>ch_ID = int j, StartRID = '''', EndRID = '''', ch_PartitionName = ''''\<rparr> numChunks
                 (oraHashWhere numChunks (int j) (o_Where (ct_Override ct)))) [0..<nat numChunks]))"

definition hash_single :: "int \<Rightarrow> chunkableTask \<Rightarrow> TableTask list \<Rightarrow> TableTask list option" where
  "hash_single batchSize ct tasks =
     (if hash_single_size batchSize ct = 0 then None
      else case hash_single_tasks batchSize ct of
             None \<Rightarrow> Some tasks
           | Some chunkTasks \<Rightarrow> splice_tasks (ct_PlaceholderIdx ct) 1 chunkTasks tasks)"

definition ResolveOraHashChunks :: "int \<Rightarrow> int \<Rightarrow> MigrationPlan \<Rightarrow> MigrationPlan option" where
  "ResolveOraHashChunks workers batchSize plan =
     Option.bind (backwards (hash_parts workers batchSize) (PartitionChunkTables plan) (DataTasks plan))
       (\<lambda>ts. map_option (\<lambda>ts'. plan\<lparr>DataTasks := ts', PartitionChunkTables := [], ChunkableTasks := []\<rparr>)
          (backwards (hash_single batchSize) (ChunkableTasks plan) ts))"

text \<open>
  The choice the engine makes in \<open>Run\<close> and again in \<open>Resume\<close> (\<open>engine.go\<close>): DBMS chunks for the
  global strategies \<open>rowid\<close> and \<open>auto\<close>, partitioned tables first, otherwise ORA_HASH.
\<close>

definition resolve_plan ::
    "(string \<Rightarrow> string \<Rightarrow> string + int) \<Rightarrow> (string \<Rightarrow> string \<Rightarrow> int \<Rightarrow> string + RowIDChunk list) \<Rightarrow>
     (string \<Rightarrow> string \<Rightarrow> int \<Rightarrow> string + RowIDChunk list) \<Rightarrow> MigrationConfig \<Rightarrow> MigrationPlan \<Rightarrow> MigrationPlan option" where
  "resolve_plan rowEstimator dbmsPart dbms cfg plan =
     (if m_ChunkStrategy cfg = ChunkStrategyRowID \<or> m_ChunkStrategy cfg = ChunkStrategyAuto then
        Option.bind
          (if length (PartitionChunkTables plan) > 0
           then ResolvePartitionChunks dbmsPart (Workers cfg) (m_BatchSize cfg) plan else Some plan)
          (\<lambda>plan1. if length (ChunkableTasks plan1) > 0 then ResolveChunks rowEstimator dbms plan1 else Some plan1)
      else ResolveOraHashChunks (Workers cfg) (m_BatchSize cfg) plan)"

section \<open>Splicing replaces exactly the placeholders\<close>

lemma backwards_simps [simp]:
  "backwards f [] b = Some b"
  "backwards f (x # xs) b = Option.bind (backwards f xs b) (f x)"
  by (simp_all add: backwards_def)

lemma splice_tasks_mid:
  "length pre = i \<Longrightarrow> length old = n \<Longrightarrow> splice_tasks i n new (pre @ old @ post) = Some (pre @ new @ post)"
  by (simp add: splice_tasks_def splice_at_append)

text \<open>The recorded positions stay current when no partitioned placeholder precedes a plain one.\<close>

fun singles_first :: "segment list \<Rightarrow> bool" where
  "singles_first [] = True"
| "singles_first (Parts t override included mode # segs) = (singles_at 0 segs = [])"
| "singles_first (Fixed ts # segs) = singles_first segs"
| "singles_first (Single t override n mode # segs) = singles_first segs"

lemma singles_at_none: "singles_at i segs = [] \<longleftrightarrow> (\<forall>s \<in> set segs. \<forall>t ov n m. s \<noteq> Single t ov n m)"
  by (induction i segs rule: singles_at.induct) auto

text \<open>The interface of a resolver of partitioned tables: its tasks do not depend on the position.\<close>

locale part_resolver =
  fixes step :: "partitionChunkTask \<Rightarrow> TableTask list \<Rightarrow> TableTask list option"
    and R :: "partitionChunkTask \<Rightarrow> TableTask list"
  assumes step_splice: "step pct ts = splice_tasks (pct_PlaceholderIdx pct) (PlaceholderCnt pct) (R pct) ts"
    and R_position: "R (pct\<lparr>pct_PlaceholderIdx := i\<rparr>) = R pct"
begin

definition resolved :: "segment \<Rightarrow> segment" where
  "resolved seg =
     (case seg of
        Parts t override included mode \<Rightarrow>
          Fixed (R \<lparr>pct_Table = t, pct_Override = override, IncludedParts = included,
            pct_TargetMode = mode, pct_PlaceholderIdx = 0, PlaceholderCnt = length included\<rparr>)
      | _ \<Rightarrow> seg)"

lemma resolved_simps [simp]:
  "resolved (Parts t override included mode) =
     Fixed (R \<lparr>pct_Table = t, pct_Override = override, IncludedParts = included,
       pct_TargetMode = mode, pct_PlaceholderIdx = 0, PlaceholderCnt = length included\<rparr>)"
  "resolved (Fixed ts) = Fixed ts"
  "resolved (Single t override n mode) = Single t override n mode"
  by (simp_all add: resolved_def)

lemma R_any:
  "R \<lparr>pct_Table = t, pct_Override = override, IncludedParts = included, pct_TargetMode = mode,
      pct_PlaceholderIdx = i, PlaceholderCnt = n\<rparr> =
   R \<lparr>pct_Table = t, pct_Override = override, IncludedParts = included, pct_TargetMode = mode,
      pct_PlaceholderIdx = 0, PlaceholderCnt = n\<rparr>"
  using R_position [of 0 "\<lparr>pct_Table = t, pct_Override = override, IncludedParts = included,
    pct_TargetMode = mode, pct_PlaceholderIdx = i, PlaceholderCnt = n\<rparr>"] by simp

lemma resolves:
  "length pre = off \<Longrightarrow>
   backwards step (parts_at off segs) (pre @ layout segs) = Some (pre @ layout (map resolved segs))"
proof (induction off segs arbitrary: pre rule: parts_at.induct)
  case (1 off)
  then show ?case by simp
next
  case (2 off t override included mode segs)
  let ?old = "seg_tasks (Parts t override included mode)"
  let ?pct = "\<lparr>pct_Table = t, pct_Override = override, IncludedParts = included, pct_TargetMode = mode,
    pct_PlaceholderIdx = off, PlaceholderCnt = length included\<rparr>"
  have "backwards step (parts_at (off + length included) segs) ((pre @ ?old) @ layout segs) =
      Some ((pre @ ?old) @ layout (map resolved segs))"
    by (rule "2.IH") (use "2.prems" in simp)
  moreover have "splice_tasks off (length included) new (pre @ ?old @ post) = Some (pre @ new @ post)" for new post
    by (rule splice_tasks_mid) (use "2.prems" in simp_all)
  ultimately show ?case by (simp add: step_splice [of ?pct] R_any [of t override included mode off])
next
  case (3 off ts segs)
  then show ?case using "3.IH" [of "pre @ ts"] by simp
next
  case (4 off t override size mode segs)
  then show ?case using "4.IH" [of "pre @ [whole_task t None override mode]"] by simp
qed

lemma positions: "singles_first segs \<Longrightarrow>
  singles_at off (map resolved segs) = singles_at off segs"
proof (induction off segs rule: singles_at.induct)
  case (4 off t override included mode segs)
  then have "singles_at (off + n) segs = []" for n by (simp add: singles_at_none)
  moreover have "singles_at i (map resolved segs) = []" for i
    using "4.prems" unfolding singles_at_none
    by (auto simp: resolved_def singles_at_none split: segment.splits)
  ultimately show ?case by (simp only: list.map resolved_simps singles_at.simps)
qed simp_all

end

text \<open>The same for the tables without partitions; \<open>S\<close> may keep the placeholder (\<open>None\<close>).\<close>

locale single_resolver =
  fixes step :: "chunkableTask \<Rightarrow> TableTask list \<Rightarrow> TableTask list option"
    and S :: "chunkableTask \<Rightarrow> TableTask list option"
    and ok :: "chunkableTask \<Rightarrow> bool"
  assumes step_splice: "ok ct \<Longrightarrow> step ct ts =
      (case S ct of None \<Rightarrow> Some ts | Some new \<Rightarrow> splice_tasks (ct_PlaceholderIdx ct) 1 new ts)"
    and S_position: "S (ct\<lparr>ct_PlaceholderIdx := i\<rparr>) = S ct"
begin

definition replaced :: "segment \<Rightarrow> segment" where
  "replaced seg =
     (case seg of
        Single t override sz mode \<Rightarrow>
          (case S \<lparr>ct_Table = t, ct_Override = override, ct_ChunkSize = sz, ct_PlaceholderIdx = 0\<rparr> of
             None \<Rightarrow> seg | Some new \<Rightarrow> Fixed new)
      | _ \<Rightarrow> seg)"

lemma replaced_simps [simp]:
  "replaced (Single t override sz mode) =
     (case S \<lparr>ct_Table = t, ct_Override = override, ct_ChunkSize = sz, ct_PlaceholderIdx = 0\<rparr> of
        None \<Rightarrow> Single t override sz mode | Some new \<Rightarrow> Fixed new)"
  "replaced (Fixed ts) = Fixed ts"
  "replaced (Parts t override included mode) = Parts t override included mode"
  by (simp_all add: replaced_def)

lemma S_any:
  "S \<lparr>ct_Table = t, ct_Override = override, ct_ChunkSize = sz, ct_PlaceholderIdx = i\<rparr> =
   S \<lparr>ct_Table = t, ct_Override = override, ct_ChunkSize = sz, ct_PlaceholderIdx = 0\<rparr>"
  using S_position [of 0 "\<lparr>ct_Table = t, ct_Override = override, ct_ChunkSize = sz, ct_PlaceholderIdx = i\<rparr>"]
  by simp

lemma resolves:
  "length pre = off \<Longrightarrow> \<forall>ct \<in> set (singles_at off segs). ok ct \<Longrightarrow>
   backwards step (singles_at off segs) (pre @ layout segs) = Some (pre @ layout (map replaced segs))"
proof (induction off segs arbitrary: pre rule: singles_at.induct)
  case (1 off)
  then show ?case by simp
next
  case (2 off t override sz mode segs)
  let ?old = "whole_task t None override mode"
  let ?ct = "\<lparr>ct_Table = t, ct_Override = override, ct_ChunkSize = sz, ct_PlaceholderIdx = off\<rparr>"
  have "backwards step (singles_at (off + 1) segs) ((pre @ [?old]) @ layout segs) =
      Some ((pre @ [?old]) @ layout (map replaced segs))"
    by (rule "2.IH") (use "2.prems" in simp_all)
  moreover have "splice_tasks off 1 new (pre @ [?old] @ post) = Some (pre @ new @ post)" for new post
    by (rule splice_tasks_mid) (use "2.prems" in simp_all)
  moreover have "ok ?ct" using "2.prems" by simp
  ultimately show ?case
    by (simp add: step_splice [of ?ct] S_any [of t override sz off] split: option.splits)
next
  case (3 off ts segs)
  then show ?case using "3.IH" [of "pre @ ts"] by simp
next
  case (4 off t override included mode segs)
  then show ?case
    using "4.IH" [of "pre @ seg_tasks (Parts t override included mode)"] by simp
qed

end

text \<open>Nothing but the splice looks at the recorded position.\<close>

lemma part_chunk_task_position [simp]: "part_chunk_task (pct\<lparr>pct_PlaceholderIdx := i\<rparr>) = part_chunk_task pct"
  by (simp add: part_chunk_task_def fun_eq_iff Let_def)

lemma replacement_position [simp]:
  "hash_replacement w b (pct\<lparr>pct_PlaceholderIdx := i\<rparr>) = hash_replacement w b pct"
  "rowid_replacement chunks w (pct\<lparr>pct_PlaceholderIdx := i\<rparr>) = rowid_replacement chunks w pct"
  by (simp_all add: hash_replacement_def rowid_replacement_def Let_def cong: option.case_cong list.case_cong if_cong)

lemma table_chunk_task_position [simp]: "table_chunk_task (ct\<lparr>ct_PlaceholderIdx := i\<rparr>) = table_chunk_task ct"
  by (simp add: table_chunk_task_def fun_eq_iff)

lemma rowid_single_position [simp]:
  "rowid_single_tasks est dbms (ct\<lparr>ct_PlaceholderIdx := i\<rparr>) = rowid_single_tasks est dbms ct"
  by (simp add: rowid_single_tasks_def Let_def cong: sum.case_cong if_cong)

lemma hash_single_position [simp]:
  "hash_single_tasks b (ct\<lparr>ct_PlaceholderIdx := i\<rparr>) = hash_single_tasks b ct"
  by (simp add: hash_single_tasks_def hash_single_size_def Let_def cong: if_cong)

interpretation hash_part: part_resolver "hash_parts w b" "hash_replacement w b" for w b :: int
  by unfold_locales (simp_all add: hash_parts_def)

interpretation rowid_part: part_resolver "resolve_parts dbms w b" "parts_replacement dbms w b"
  for dbms and w b :: int
  by unfold_locales (simp_all add: resolve_parts_def parts_replacement_def Let_def cong: sum.case_cong if_cong)

interpretation hash_one: single_resolver "hash_single b" "hash_single_tasks b"
  "\<lambda>ct. hash_single_size b ct \<noteq> 0" for b :: int
  by unfold_locales (simp_all add: hash_single_def)

interpretation rowid_one: single_resolver "resolve_single est dbms" "rowid_single_tasks est dbms"
  "\<lambda>ct. ct_ChunkSize ct \<noteq> 0" for est dbms
  by unfold_locales (simp_all add: resolve_single_def)

definition hash_segment :: "int \<Rightarrow> int \<Rightarrow> segment \<Rightarrow> segment" where
  "hash_segment w b seg = hash_one.replaced b (hash_part.resolved w b seg)"

lemma ResolveOraHash_layout:
  assumes "laid_out segs plan" and "singles_first segs"
    and "\<forall>ct \<in> set (ChunkableTasks plan). hash_single_size b ct \<noteq> 0"
  shows "ResolveOraHashChunks w b plan = Some (plan\<lparr>DataTasks := layout (map (hash_segment w b) segs),
      PartitionChunkTables := [], ChunkableTasks := []\<rparr>)"
proof -
  let ?segs = "map (hash_part.resolved w b) segs"
  have data: "DataTasks plan = layout segs" "ChunkableTasks plan = singles_at 0 ?segs"
    "PartitionChunkTables plan = parts_at 0 segs"
    using assms(1) by (simp_all add: laid_out_def hash_part.positions [OF assms(2)])
  have 1: "backwards (hash_parts w b) (parts_at 0 segs) (layout segs) = Some (layout ?segs)"
    using hash_part.resolves [of "[]" 0 w b segs] by simp
  have 2: "backwards (hash_single b) (singles_at 0 ?segs) (layout ?segs) =
      Some (layout (map (hash_one.replaced b) ?segs))"
    using hash_one.resolves [of "[]" 0 ?segs b] assms(3) by (simp add: data(2))
  show ?thesis
    by (simp add: ResolveOraHashChunks_def data 1 2 hash_segment_def [abs_def] comp_def)
qed

end
