(* ===== verification/Plan_Coverage.thy ===== *)
theory Plan_Coverage
  imports Plan_Resolve
begin

text \<open>
  What a resolved plan copies. A task reads the rows of its partition that its WHERE clause accepts;
  \<open>holds\<close> is Oracle's evaluation of a condition on a row and \<open>in_part\<close> its assignment of rows to
  partitions. The main theorem says that the resolved plan copies every wanted row
  exactly once when chunks are ORA_HASH buckets; a second one that merging ROWID chunks loses no row.
  Theory \<open>Plan_Rowid\<close> continues with ROWID chunks.
\<close>

section \<open>Rows read by tasks\<close>

definition in_part_opt :: "(Partition \<Rightarrow> 'row \<Rightarrow> bool) \<Rightarrow> Partition option \<Rightarrow> 'row \<Rightarrow> bool" where
  "in_part_opt in_part p r = (case p of None \<Rightarrow> True | Some p' \<Rightarrow> in_part p' r)"

definition accepts :: "(string \<Rightarrow> 'row \<Rightarrow> bool) \<Rightarrow> string \<Rightarrow> 'row \<Rightarrow> bool" where
  "accepts holds w r \<longleftrightarrow> w = '''' \<or> holds w r"

definition task_reads ::
    "(string \<Rightarrow> 'row \<Rightarrow> bool) \<Rightarrow> (Partition \<Rightarrow> 'row \<Rightarrow> bool) \<Rightarrow> 'row \<Rightarrow> TableTask \<Rightarrow> bool" where
  "task_reads holds in_part r k \<longleftrightarrow>
     in_part_opt in_part (t_Partition k) r \<and> accepts holds (t_Where k) r"

definition times_read ::
    "(string \<Rightarrow> 'row \<Rightarrow> bool) \<Rightarrow> (Partition \<Rightarrow> 'row \<Rightarrow> bool) \<Rightarrow> 'row \<Rightarrow> TableTask list \<Rightarrow> nat" where
  "times_read holds in_part r ts = length (filter (task_reads holds in_part r) ts)"

text \<open>
  The documented meaning of the clauses that the code writes, at one row: \<open>ORA_HASH(ROWID, n-1)\<close> is
  some number modulo \<open>n\<close>, and \<open>F AND (w)\<close> is the conjunction.
\<close>

definition ora_hash_meaning :: "(string \<Rightarrow> 'row \<Rightarrow> bool) \<Rightarrow> nat \<Rightarrow> string \<Rightarrow> 'row \<Rightarrow> bool" where
  "ora_hash_meaning holds h w r \<longleftrightarrow>
     (\<forall>n k. k < n \<longrightarrow> in_i64 (int n) \<longrightarrow>
       holds (ora_hash_filter (int n) (int k)) r = (h mod n = k) \<and>
       (w \<noteq> '''' \<longrightarrow> holds (ora_hash_filter (int n) (int k) @ '' AND ('' @ w @ '')'') r =
          (holds (ora_hash_filter (int n) (int k)) r \<and> holds w r)))"

lemma accepts_oraHashWhere:
  assumes "ora_hash_meaning holds h w r" and "k < n" and "in_i64 (int n)"
  shows "accepts holds (oraHashWhere (int n) (int k) w) r \<longleftrightarrow> h mod n = k \<and> accepts holds w r"
proof -
  have eq: "oraHashWhere (int n) (int k) w =
      (if w \<noteq> '''' then ora_hash_filter (int n) (int k) @ '' AND ('' @ w @ '')''
       else ora_hash_filter (int n) (int k))"
    by (simp add: oraHashWhere_def ora_hash_filter_def Let_def)
  have "ora_hash_filter (int n) (int k) \<noteq> ''''" by (simp add: ora_hash_filter_def)
  then show ?thesis using assms unfolding eq ora_hash_meaning_def accepts_def by auto
qed

lemma times_read_simps [simp]:
  "times_read holds in_part r [] = 0"
  "times_read holds in_part r (k # ts) = (if task_reads holds in_part r k then 1 else 0) + times_read holds in_part r ts"
  "times_read holds in_part r (xs @ ys) = times_read holds in_part r xs + times_read holds in_part r ys"
  by (simp_all add: times_read_def)

lemma split_read_once:
  assumes "ora_hash_meaning holds h w r" and "0 < n" and "in_i64 (int n)"
    and "\<And>i. i < n \<Longrightarrow> t_Partition (T i) = p \<and> t_Where (T i) = oraHashWhere (int n) (int i) w"
  shows "times_read holds in_part r (map T [0..<n]) =
    (if in_part_opt in_part p r \<and> accepts holds w r then 1 else 0)"
proof -
  have reads: "task_reads holds in_part r (T i) \<longleftrightarrow>
      (in_part_opt in_part p r \<and> accepts holds w r) \<and> i = h mod n" if "i < n" for i
    using assms(4) [OF that] accepts_oraHashWhere [OF assms(1) that assms(3)] by (auto simp: task_reads_def)
  have "filter (\<lambda>i. task_reads holds in_part r (T i)) [0..<n] =
      (if in_part_opt in_part p r \<and> accepts holds w r then filter (\<lambda>i. i = h mod n) [0..<n] else [])"
    using reads by (auto intro!: filter_cong filter_False)
  moreover have "length (filter (\<lambda>i. i = h mod n) [0..<n]) = 1"
  proof -
    have "set (filter (\<lambda>i. i = h mod n) [0..<n]) = {h mod n}" using assms(2) by auto
    moreover have "distinct (filter (\<lambda>i. i = h mod n) [0..<n])" by simp
    ultimately show ?thesis using distinct_card by fastforce
  qed
  ultimately show ?thesis by (simp add: times_read_def filter_map comp_def)
qed

section \<open>Rows read by segments\<close>

lemma chunk_count_i64: "in_i64 (partitionChunkCount n b w)"
proof -
  have "i64 x < 9223372036854775808" for x using in_i64_i64 [of x] by (simp add: in_i64_def)
  then show ?thesis
    using less_imp_le by (auto simp: partitionChunkCount_def Let_def in_i64_def not_less intro: le_less_trans)
qed

lemma hash_tasks_once:
  assumes "ora_hash_meaning holds h (o_Where override) r" and "in_i64 n"
  shows "times_read holds in_part r (hash_tasks t p override mode n) =
    (if in_part_opt in_part p r \<and> accepts holds (o_Where override) r then 1 else 0)"
proof (cases "n > 1")
  case True
  then have n: "n = int (nat n)" "0 < nat n" by simp_all
  have "times_read holds in_part r (map (\<lambda>i. hash_task t p override mode n (int i)) [0..<nat n]) =
      (if in_part_opt in_part p r \<and> accepts holds (o_Where override) r then 1 else 0)"
    by (rule split_read_once [OF assms(1) n(2)]) (use n(1) assms(2) in \<open>simp_all add: hash_task_def\<close>)
  then show ?thesis using True by (simp add: hash_tasks_def)
next
  case False
  then show ?thesis by (simp add: hash_tasks_def whole_task_def task_reads_def)
qed

lemma whole_task_once:
  "times_read holds in_part r [whole_task t p override mode] =
    (if in_part_opt in_part p r \<and> accepts holds (o_Where override) r then 1 else 0)"
  by (simp add: whole_task_def task_reads_def)

lemma times_read_concat: "times_read holds in_part r (concat xss) = sum_list (map (times_read holds in_part r) xss)"
  by (induction xss) auto

text \<open>One list of tasks per included partition; the row lies in exactly one of them.\<close>

lemma parts_once:
  assumes "distinct included" and "\<exists>!idx. idx \<in> set included \<and> in_part (part_at t idx) r"
    and "\<And>idx. idx \<in> set included \<Longrightarrow> times_read holds in_part r (ts idx) =
      (if in_part_opt in_part (Some (part_at t idx)) r \<and> ok then 1 else 0)"
  shows "times_read holds in_part r (concat (map ts included)) = (if ok then 1 else 0)"
proof -
  obtain i where i: "i \<in> set included" "in_part (part_at t i) r"
    "\<And>j. j \<in> set included \<Longrightarrow> in_part (part_at t j) r \<Longrightarrow> j = i" using assms(2) by blast
  have one: "times_read holds in_part r (ts j) = (if j = i then if ok then 1 else 0 else 0)"
    if "j \<in> set included" for j
  proof -
    have "in_part (part_at t j) r \<longleftrightarrow> j = i" using i(2) i(3) [OF that] by auto
    then show ?thesis using assms(3) [OF that] by (auto simp: in_part_opt_def)
  qed
  have "map (\<lambda>j. times_read holds in_part r (ts j)) included =
      map (\<lambda>j. if j = i then if ok then 1 else 0 else 0) included"
    by (rule map_cong [OF refl]) (rule one)
  then have "times_read holds in_part r (concat (map ts included)) =
      (\<Sum>j\<leftarrow>included. if j = i then if ok then 1 else 0 else 0)"
    by (simp only: times_read_concat map_map comp_def)
  also have "\<dots> = (\<Sum>j\<in>set included. if j = i then if ok then 1 else 0 else 0)"
    using assms(1) by (rule sum_list_distinct_conv_sum_set)
  also have "\<dots> = (if ok then 1 else 0)" using i(1) by simp
  finally show ?thesis .
qed

definition row_partitioned ::
    "(string \<Rightarrow> 'f option) \<Rightarrow> ('f \<Rightarrow> 'f \<Rightarrow> bool) \<Rightarrow> (Partition \<Rightarrow> 'row \<Rightarrow> bool) \<Rightarrow> TableOverride \<Rightarrow> Table \<Rightarrow> 'row \<Rightarrow> bool" where
  "row_partitioned pf lt in_part override t r \<longleftrightarrow>
     (IsPartitioned t \<longrightarrow>
       (\<exists>!idx. idx \<in> set (resolvePartitions pf lt t override) \<and> in_part (part_at t idx) r))"

lemma hash_segment_simps [simp]:
  "hash_segment w b (Fixed ts) = Fixed ts"
  "seg_tasks (hash_segment w b (Parts t override included mode)) =
     concat (map (\<lambda>idx. hash_tasks t (Some (part_at t idx)) override mode
       (partitionChunkCount (part_NumRows (part_at t idx))
         (if o_BatchSize override \<le> 0 then b else o_BatchSize override) w)) included)"
  by (simp_all add: hash_segment_def hash_replacement_def Let_def)

lemma partitioned_segment_once:
  assumes "ora_hash_meaning holds h (o_Where override) r" and "distinct included"
    and "\<exists>!idx. idx \<in> set included \<and> in_part (part_at t idx) r"
  shows "times_read holds in_part r (seg_tasks (hash_segment w b (partitioned_segment included cfg override mode t))) =
    (if accepts holds (o_Where override) r then 1 else 0)"
proof -
  note once = parts_once [OF assms(2), of in_part t r, OF assms(3)]
  have hash: "times_read holds in_part r (concat (map (\<lambda>idx. hash_tasks t (Some (part_at t idx)) override mode
      (partitionChunkCount (n idx) m k)) included)) = (if accepts holds (o_Where override) r then 1 else 0)" for n m k
    by (rule once) (rule hash_tasks_once [OF assms(1) chunk_count_i64])
  have whole: "times_read holds in_part r (concat (map (\<lambda>idx. [whole_task t (Some (part_at t idx)) override mode]) included)) =
      (if accepts holds (o_Where override) r then 1 else 0)"
    by (rule once) (rule whole_task_once)
  have singles: "map (\<lambda>idx. whole_task t (Some (part_at t idx)) override mode) included =
      concat (map (\<lambda>idx. [whole_task t (Some (part_at t idx)) override mode]) included)" by simp
  show ?thesis
    unfolding partitioned_segment_def Let_def
    by (simp only: if_distrib [of "hash_segment w b"] if_distrib [of seg_tasks] hash_segment_simps
        seg_tasks.simps singles split: if_split)
      (simp only: hash whole simp_thms, simp)
qed

lemma single_once:
  assumes "ora_hash_meaning holds h (o_Where override) r"
  shows "times_read holds in_part r (seg_tasks (hash_segment w b (Single t override n mode))) =
    (if accepts holds (o_Where override) r then 1 else 0)"
proof (cases "hash_single_tasks b \<lparr>ct_Table = t, ct_Override = override, ct_ChunkSize = n, ct_PlaceholderIdx = 0\<rparr>")
  case None
  then show ?thesis by (simp add: hash_segment_def whole_task_def task_reads_def in_part_opt_def)
next
  case (Some ts)
  let ?ct = "\<lparr>ct_Table = t, ct_Override = override, ct_ChunkSize = n, ct_PlaceholderIdx = 0\<rparr>"
  define q where "q = go_div (tbl_NumRows t) (hash_single_size b ?ct)"
  define m where "m = (if q > 256 then 256 else q)"
  have "\<not> q < 2" and ts: "ts = map (\<lambda>j. table_chunk_task ?ct
        \<lparr>ch_ID = int j, StartRID = '''', EndRID = '''', ch_PartitionName = ''''\<rparr> m
        (oraHashWhere m (int j) (o_Where override))) [0..<nat m]"
    using Some unfolding hash_single_tasks_def Let_def m_def by (simp_all add: q_def [symmetric] split: if_split_asm)
  then have m: "2 \<le> m" "m \<le> 256" by (simp_all add: m_def)
  have "times_read holds in_part r ts =
      (if in_part_opt in_part None r \<and> accepts holds (o_Where override) r then 1 else 0)"
    unfolding ts by (rule split_read_once [OF assms]) (use m in \<open>simp_all add: table_chunk_task_def in_i64_nonneg\<close>)
  then show ?thesis using Some by (simp add: hash_segment_def in_part_opt_def)
qed

lemma plain_segment_once:
  assumes "ora_hash_meaning holds h (o_Where override) r"
  shows "times_read holds in_part r (seg_tasks (hash_segment w b (plain_segment cfg override mode t))) =
    (if accepts holds (o_Where override) r then 1 else 0)"
  using single_once [OF assms]
    hash_tasks_once [OF assms chunk_count_i64, where in_part = in_part and p = None and t = t and mode = mode]
    whole_task_once [where holds = holds and in_part = in_part and r = r and p = None and t = t
      and override = override and mode = mode]
  by (simp add: plain_segment_def Let_def in_part_opt_def)

lemma segment_once:
  assumes "ora_hash_meaning holds h (o_Where (override_of cfg (tbl_Name t))) r"
    and "row_partitioned pf lt in_part (override_of cfg (tbl_Name t)) t r"
  shows "times_read holds in_part r (seg_tasks (hash_segment w b (segment_of pf lt cfg gd t))) =
    (if accepts holds (o_Where (override_of cfg (tbl_Name t))) r then 1 else 0)"
proof (cases "IsPartitioned t")
  case True
  obtain P where P: "resolvePartitions pf lt t (override_of cfg (tbl_Name t)) = filter P [0..<length (partitions_of t)]"
    using resolve_sublist by blast
  have "distinct (resolvePartitions pf lt t (override_of cfg (tbl_Name t)))" unfolding P by simp
  then show ?thesis
    using True assms partitioned_segment_once [OF assms(1)] by (simp add: segment_of_def row_partitioned_def Let_def)
next
  case False
  then show ?thesis using plain_segment_once [OF assms(1)] by (simp add: segment_of_def Let_def)
qed

lemma hash_tasks_table: "k \<in> set (hash_tasks t p override mode n) \<Longrightarrow> t_Table k = t"
  by (auto simp: hash_tasks_def hash_task_def whole_task_def split: if_splits)

lemma segment_table: "k \<in> set (seg_tasks (hash_segment w b (segment_of pf lt cfg gd t))) \<Longrightarrow> t_Table k = t"
proof -
  have single: "k \<in> set (seg_tasks (hash_segment w b (Single t override n mode))) \<Longrightarrow> t_Table k = t" for override n mode
    by (auto simp: hash_segment_def whole_task_def hash_single_tasks_def table_chunk_task_def Let_def
        split: option.splits if_splits)
  show "k \<in> set (seg_tasks (hash_segment w b (segment_of pf lt cfg gd t))) \<Longrightarrow> t_Table k = t"
    by (auto simp: segment_of_def partitioned_segment_def plain_segment_def Let_def whole_task_def
        split: if_splits dest: hash_tasks_table single)
qed

section \<open>The whole plan\<close>

lemma singles_at_elem:
  "ct \<in> set (singles_at off segs) \<Longrightarrow>
   \<exists>t override n mode i. Single t override n mode \<in> set segs \<and>
     ct = \<lparr>ct_Table = t, ct_Override = override, ct_ChunkSize = n, ct_PlaceholderIdx = i\<rparr>"
  by (induction off segs rule: singles_at.induct) auto

lemma segment_chunk_size:
  assumes "0 < m_BatchSize cfg" and "segment_of pf lt cfg gd t = Single t' override n mode"
  shows "0 < n"
proof -
  have "0 < batch_of cfg override" for override using assms(1) by (simp add: batch_of_def)
  then show ?thesis using assms(2)
    by (auto simp: segment_of_def partitioned_segment_def plain_segment_def Let_def split: if_splits)
qed

definition plan_tables :: "MigrationConfig \<Rightarrow> bool \<Rightarrow> Schema \<Rightarrow> Table list" where
  "plan_tables cfg gd s = filter (not_skipped cfg gd) (topoSortTables (Tables s))"

lemma times_read_by_table:
  assumes "distinct ts" and "t \<in> set ts" and "\<And>u k. u \<in> set ts \<Longrightarrow> k \<in> set (f u) \<Longrightarrow> t_Table k = u"
  shows "filter (\<lambda>k. t_Table k = t) (concat (map f ts)) = f t"
  using assms
proof (induction ts)
  case (Cons u us)
  have same: "filter (\<lambda>k. t_Table k = t) (f v) = (if v = t then f v else [])" if "v \<in> set (u # us)" for v
    using Cons.prems(3) [OF that] by (auto simp: filter_id_conv filter_empty_conv)
  show ?case
  proof (cases "u = t")
    case True
    then have "filter (\<lambda>k. t_Table k = t) (concat (map f us)) = []"
      using Cons.prems(1,3) by (auto simp: filter_empty_conv)
    then show ?thesis using same [of u] True by simp
  next
    case False
    then show ?thesis using Cons same [of u] by simp
  qed
qed simp

lemma plan_tables_distinct: "distinct (map tbl_Name (Tables s)) \<Longrightarrow> distinct (plan_tables cfg gd s)"
  by (simp add: plan_tables_def topo_distinct_set)

lemma resolved_plan:
  assumes "laid_out (map (segment_of pf lt cfg gd) (plan_tables cfg gd s)) plan"
    and "singles_first (map (segment_of pf lt cfg gd) (plan_tables cfg gd s))" and "0 < m_BatchSize cfg"
  shows "ResolveOraHashChunks w b plan = Some (plan\<lparr>DataTasks := concat (map (\<lambda>t.
      seg_tasks (hash_segment w b (segment_of pf lt cfg gd t))) (plan_tables cfg gd s)),
      PartitionChunkTables := [], ChunkableTasks := []\<rparr>)"
proof -
  have "hash_single_size b ct \<noteq> 0" if "ct \<in> set (ChunkableTasks plan)" for ct
  proof -
    have "ct \<in> set (singles_at 0 (map (segment_of pf lt cfg gd) (plan_tables cfg gd s)))"
      using that assms(1) by (simp add: laid_out_def)
    then obtain t t' override n mode i where "segment_of pf lt cfg gd t' = Single t override n mode"
      "ct = \<lparr>ct_Table = t, ct_Override = override, ct_ChunkSize = n, ct_PlaceholderIdx = i\<rparr>"
      by (auto dest!: singles_at_elem) metis
    then show ?thesis using segment_chunk_size [OF assms(3)] by (force simp: hash_single_size_def)
  qed
  then show ?thesis
    using ResolveOraHash_layout [OF assms(1,2)] by (simp add: layout_def comp_def)
qed

section \<open>Properties\<close>

text \<open>
  C5. Every wanted row is copied exactly once. Resolve the plan that \<open>BuildPlan\<close> makes with
  ORA_HASH, as the engine does when the global strategy is neither \<open>rowid\<close> nor \<open>auto\<close>: for a table
  that is not skipped and a row that the table's filter accepts and that lies in one of its selected
  partitions, exactly one data task of that table reads the row. The condition on the segments
  excludes the case of a partitioned placeholder before a plain one, where the recorded positions
  are stale.
\<close>

theorem ora_hash_plan_copies_once:
  assumes "distinct (map tbl_Name (Tables s))" and "t \<in> set (Tables s)" and "not_skipped cfg gd t"
    and "0 < m_BatchSize cfg" and "m_ChunkStrategy cfg \<notin> {ChunkStrategyRowID, ChunkStrategyAuto}"
    and "singles_first (map (segment_of pf lt cfg gd) (plan_tables cfg gd s))"
    and "ora_hash_meaning holds h (o_Where (override_of cfg (tbl_Name t))) r"
    and "accepts holds (o_Where (override_of cfg (tbl_Name t))) r"
    and "row_partitioned pf lt in_part (override_of cfg (tbl_Name t)) t r"
  shows "\<exists>plan. resolve_plan est dbmsPart dbms cfg (BuildPlan pf lt s cfg gd) = Some plan \<and>
    length (filter (\<lambda>k. t_Table k = t \<and> task_reads holds in_part r k) (DataTasks plan)) = 1"
proof -
  let ?f = "\<lambda>t. seg_tasks (hash_segment (Workers cfg) (m_BatchSize cfg) (segment_of pf lt cfg gd t))"
  have "laid_out (map (segment_of pf lt cfg gd) (plan_tables cfg gd s)) (BuildPlan pf lt s cfg gd)"
    unfolding plan_tables_def by (rule BuildPlan_data)
  from resolved_plan [OF this assms(6,4), of "Workers cfg" "m_BatchSize cfg"] obtain plan where
    plan: "resolve_plan est dbmsPart dbms cfg (BuildPlan pf lt s cfg gd) = Some plan"
      "DataTasks plan = concat (map ?f (plan_tables cfg gd s))"
    by (intro that) (use assms(5) in \<open>simp add: resolve_plan_def\<close>, simp)
  have "t \<in> set (plan_tables cfg gd s)"
    using assms(1-3) by (simp add: plan_tables_def topo_distinct_set)
  then have "filter (\<lambda>k. t_Table k = t) (DataTasks plan) = ?f t"
    unfolding plan(2)
    by (rule times_read_by_table [OF plan_tables_distinct [OF assms(1)]]) (auto dest: segment_table)
  then have "length (filter (\<lambda>k. t_Table k = t \<and> task_reads holds in_part r k) (DataTasks plan)) =
      times_read holds in_part r (?f t)"
    by (metis (no_types, lifting) filter_filter times_read_def filter_cong conj_commute)
  then show ?thesis using plan(1) segment_once [OF assms(7,9)] assms(8) by auto
qed

section \<open>A concrete plan\<close>

lemma split_at_first: "a @ c # x = b @ c # y \<Longrightarrow> c \<notin> set a \<Longrightarrow> c \<notin> set b \<Longrightarrow> a = b \<and> x = y"
proof (induction a arbitrary: b)
  case Nil
  then show ?case by (cases b) auto
next
  case (Cons d a)
  then show ?case by (cases b) auto
qed

lemma itoa_no_paren: "CHR '')'' \<notin> set (itoa n)"
proof -
  have "CHR '')'' \<notin> set (utoa m)" for m
    using utoa_digits [of "CHR '')''" m] by (auto simp: is_digit_def byte_def)
  then show ?thesis by (simp add: itoa_def)
qed

lemma ora_hash_filter_inj:
  assumes "ora_hash_filter n k = ora_hash_filter m j" and "0 < n" "in_i64 n" "0 < m" "in_i64 m"
  shows "n = m \<and> k = j"
proof -
  have "itoa (i64 (n - 1)) @ CHR '')'' # '' = '' @ itoa k = itoa (i64 (m - 1)) @ CHR '')'' # '' = '' @ itoa j"
    using assms(1) by (simp add: ora_hash_filter_def)
  from split_at_first [OF this itoa_no_paren itoa_no_paren]
  have "i64 (n - 1) = i64 (m - 1)" "k = j" by (simp_all add: itoa_inj)
  moreover have "in_i64 (n - 1)" "in_i64 (m - 1)" using assms by (simp_all add: in_i64_def)
  ultimately show ?thesis by simp
qed

text \<open>Oracle on rows that are numbers, whose hash is the number itself.\<close>

definition num_holds :: "string \<Rightarrow> nat \<Rightarrow> bool" where
  "num_holds s r \<longleftrightarrow> (\<exists>n k. k < n \<and> in_i64 (int n) \<and> s = ora_hash_filter (int n) (int k) \<and> r mod n = k)"

lemma num_holds_meaning: "ora_hash_meaning num_holds r '''' r"
proof -
  have "num_holds (ora_hash_filter (int n) (int k)) r \<longleftrightarrow> r mod n = k" if "k < n" "in_i64 (int n)" for n k
  proof
    assume "num_holds (ora_hash_filter (int n) (int k)) r"
    then obtain m j where m: "j < m" "in_i64 (int m)" "r mod m = j"
      "ora_hash_filter (int n) (int k) = ora_hash_filter (int m) (int j)"
      by (auto simp: num_holds_def)
    then have "n = m \<and> k = j" using ora_hash_filter_inj [OF m(4)] that by simp
    then show "r mod n = k" using m(3) by simp
  next
    assume "r mod n = k"
    then show "num_holds (ora_hash_filter (int n) (int k)) r" using that by (auto simp: num_holds_def)
  qed
  then show ?thesis by (simp add: ora_hash_meaning_def)
qed

definition sample_mcfg :: MigrationConfig where
  "sample_mcfg = (Migration sample_config)\<lparr>Workers := 4, m_BatchSize := 50000,
     m_ChunkStrategy := ChunkStrategyOraHash,
     TableOverrides := [''BIG'' \<mapsto> zeroOverride\<lparr>o_ChunkStrategy := ChunkStrategyAuto\<rparr>]\<rparr>"

definition sample_schema :: Schema where
  "sample_schema = \<lparr>sch_Owner = ''HR'', Tables = [bare_table ''BIG'' 1000000, bare_table ''SMALL'' 10],
     Sequences = [], Views = [], MaterializedViews = [], Triggers = [], Procedures = []\<rparr>"

theorem ora_hash_plan_copies_once_witness:
  "\<exists>plan. resolve_plan (\<lambda>_ _. Inl ''x'') (\<lambda>_ _ _. Inl ''x'') (\<lambda>_ _ _. Inl ''x'') sample_mcfg
      (BuildPlan no_float (<) sample_schema sample_mcfg False) = Some plan \<and>
    length (filter (\<lambda>k. t_Table k = bare_table ''BIG'' 1000000 \<and> task_reads num_holds (\<lambda>_ _. True) 7 k)
      (DataTasks plan)) = 1"
proof (rule ora_hash_plan_copies_once)
  show "distinct (map tbl_Name (Tables sample_schema))" by (simp add: sample_schema_def bare_table_def)
  show "bare_table ''BIG'' 1000000 \<in> set (Tables sample_schema)" by (simp add: sample_schema_def)
  show "not_skipped sample_mcfg False (bare_table ''BIG'' 1000000)" by code_simp
  show "0 < m_BatchSize sample_mcfg" by (simp add: sample_mcfg_def)
  show "m_ChunkStrategy sample_mcfg \<notin> {ChunkStrategyRowID, ChunkStrategyAuto}" by (simp add: sample_mcfg_def)
  show "singles_first (map (segment_of no_float (<) sample_mcfg False) (plan_tables sample_mcfg False sample_schema))"
    by code_simp
  have w: "o_Where (override_of sample_mcfg (tbl_Name (bare_table ''BIG'' 1000000))) = ''''" by code_simp
  show "ora_hash_meaning num_holds 7 (o_Where (override_of sample_mcfg (tbl_Name (bare_table ''BIG'' 1000000)))) 7"
    unfolding w by (rule num_holds_meaning)
  show "accepts num_holds (o_Where (override_of sample_mcfg (tbl_Name (bare_table ''BIG'' 1000000)))) 7"
    unfolding w by (simp add: accepts_def)
  show "row_partitioned no_float (<) (\<lambda>_ _. True) (override_of sample_mcfg (tbl_Name (bare_table ''BIG'' 1000000)))
      (bare_table ''BIG'' 1000000) 7"
    by (simp add: row_partitioned_def IsPartitioned_def bare_table_def)
qed

section \<open>Merging ROWID chunks\<close>

definition group_off :: "nat \<Rightarrow> nat \<Rightarrow> nat \<Rightarrow> nat" where
  "group_off perGroup extra i = i * perGroup + min i extra"

definition merged_chunk :: "RowIDChunk list \<Rightarrow> nat \<Rightarrow> nat \<Rightarrow> nat \<Rightarrow> RowIDChunk" where
  "merged_chunk chunks perGroup extra i =
     \<lparr>ch_ID = int i, StartRID = StartRID (chunks ! group_off perGroup extra i),
      EndRID = EndRID (chunks ! (group_off perGroup extra (Suc i) - 1)),
      ch_PartitionName = ch_PartitionName (chunks ! group_off perGroup extra i)\<rparr>"

lemma group_off_Suc:
  "group_off p e (Suc i) = group_off p e i + (if i < e then p + 1 else p)"
  by (simp add: group_off_def min_def)

lemma group_off_mono: "i \<le> j \<Longrightarrow> group_off p e i \<le> group_off p e j"
  by (simp add: group_off_def add_mono min.coboundedI1 mult_le_mono1)

lemma group_off_end: "n > 0 \<Longrightarrow> group_off (l div n) (l mod n) n = l"
proof -
  assume "n > 0"
  then have "\<not> n \<le> l mod n" by (simp add: not_le)
  then show ?thesis by (simp add: group_off_def min_def)
qed

lemma merge_loop:
  assumes "0 < p" and "group_off p e n \<le> length chunks" and "i \<le> n"
  shows "foldl (merge_step chunks p e) ([], 0) [0..<i] = (map (merged_chunk chunks p e) [0..<i], group_off p e i)"
  using assms(3)
proof (induction i)
  case 0
  then show ?case by (simp add: group_off_def)
next
  case (Suc i)
  let ?sz = "if i < e then p + 1 else p"
  have len: "group_off p e i + ?sz \<le> length chunks"
    using group_off_mono [OF Suc.prems] assms(2) by (metis group_off_Suc le_trans)
  let ?g = "take ?sz (drop (group_off p e i) chunks)"
  have "length ?g = ?sz" "0 < ?sz" using len assms(1) by auto
  then have "hd ?g = chunks ! group_off p e i" "last ?g = chunks ! (group_off p e (Suc i) - 1)"
    using len by (simp_all add: hd_conv_nth last_conv_nth group_off_Suc flip: length_greater_0_conv)
  then show ?case using Suc by (simp add: merge_step_def Let_def merged_chunk_def group_off_Suc)
qed

lemma mergeChunks_groups:
  assumes "0 < n" and "n < length chunks"
  shows "mergeChunks chunks (int n) =
    map (merged_chunk chunks (length chunks div n) (length chunks mod n)) [0..<n]"
proof -
  have "0 < length chunks div n" using assms by (simp add: div_greater_zero_iff)
  then show ?thesis
    using merge_loop [of "length chunks div n" "length chunks mod n" n chunks n] assms
    by (simp add: mergeChunks_def Let_def group_off_end)
qed

lemma group_index:
  assumes "c < group_off p e n" and "0 < p"
  shows "\<exists>j<n. group_off p e j \<le> c \<and> c < group_off p e (Suc j)"
  using assms
proof (induction n)
  case 0
  then show ?case by (simp add: group_off_def)
next
  case (Suc n)
  then show ?case by (cases "c < group_off p e n") (auto simp: not_less less_Suc_eq)
qed

definition covers :: "(string \<Rightarrow> 'r::linorder) \<Rightarrow> RowIDChunk \<Rightarrow> 'r \<Rightarrow> bool" where
  "covers pos ch x \<longleftrightarrow> pos (StartRID ch) \<le> x \<and> x \<le> pos (EndRID ch)"

lemma merge_unique_cover:
  fixes pos :: "string \<Rightarrow> 'r::linorder"
  assumes "0 < n" and "n < length chunks"
    and "\<forall>c \<in> set chunks. pos (StartRID c) \<le> pos (EndRID c)"
    and "sorted_wrt (\<lambda>a b. pos (EndRID a) < pos (StartRID b)) chunks"
    and "ch \<in> set chunks" and "covers pos ch x"
  shows "length (mergeChunks chunks (int n)) = n \<and>
    (\<exists>!j. j < n \<and> covers pos (mergeChunks chunks (int n) ! j) x)"
proof -
  let ?p = "length chunks div n" and ?e = "length chunks mod n"
  let ?off = "group_off ?p ?e"
  have p: "0 < ?p" using assms(1,2) by (simp add: div_greater_zero_iff)
  have nth: "mergeChunks chunks (int n) ! j = merged_chunk chunks ?p ?e j" if "j < n" for j
    using that by (simp add: mergeChunks_groups [OF assms(1,2)])
  have before: "pos (StartRID (chunks ! i)) \<le> pos (StartRID (chunks ! j)) \<and> pos (EndRID (chunks ! i)) \<le> pos (EndRID (chunks ! j))"
    if "i \<le> j" "j < length chunks" for i j
  proof (cases "i = j")
    case False
    then have "pos (EndRID (chunks ! i)) < pos (StartRID (chunks ! j))"
      using that assms(4) by (simp add: sorted_wrt_iff_nth_less)
    then show ?thesis using assms(3) that by (meson le_less_trans less_le_trans less_imp_le nth_mem)
  qed simp
  obtain c where c: "c < length chunks" "ch = chunks ! c" using assms(5) by (metis in_set_conv_nth)
  then obtain j where j: "j < n" "?off j \<le> c" "c < ?off (Suc j)"
    using group_index [of c ?p ?e n] p group_off_end [OF assms(1)] by metis
  have "?off (Suc j) \<le> length chunks"
    using group_off_mono [of "Suc j" n ?p ?e] j(1) group_off_end [OF assms(1)] by simp
  then have "covers pos (merged_chunk chunks ?p ?e j) x"
    using before [of "?off j" c] before [of c "?off (Suc j) - 1"] assms(6) c j
    by (auto simp: covers_def merged_chunk_def intro: order_trans)
  moreover have "\<not> (covers pos (merged_chunk chunks ?p ?e i) x \<and> covers pos (merged_chunk chunks ?p ?e k) x)"
    if "i < k" "k < n" for i k
  proof -
    have le: "?off (Suc i) \<le> ?off k" using that by (intro group_off_mono) simp
    have "?off k < ?off (Suc k)" "?off i < ?off (Suc i)" using p by (simp_all add: group_off_Suc)
    moreover have "?off (Suc k) \<le> length chunks"
      using group_off_mono [of "Suc k" n ?p ?e] that group_off_end [OF assms(1)] by simp
    ultimately have "pos (EndRID (chunks ! (?off (Suc i) - 1))) < pos (StartRID (chunks ! ?off k))"
      using assms(4) le by (simp add: sorted_wrt_iff_nth_less)
    then show ?thesis by (auto simp: covers_def merged_chunk_def)
  qed
  ultimately have "\<exists>!j. j < n \<and> covers pos (merged_chunk chunks ?p ?e j) x"
    using j(1) by (metis linorder_neqE_nat)
  then show ?thesis using nth by (auto simp: mergeChunks_groups [OF assms(1,2)])
qed

text \<open>
  \<open>mergeChunks\<close> keeps the ROWID ranges whole: it returns exactly the requested number of chunks, and if
  the chunks given are in ascending order and disjoint, a row in one of them lies in exactly
  one of the merged chunks.
\<close>

theorem mergeChunks_covers:
  fixes pos :: "string \<Rightarrow> 'r::linorder"
  assumes "0 < n" and "n < length chunks"
    and "\<forall>c \<in> set chunks. pos (StartRID c) \<le> pos (EndRID c)"
    and "sorted_wrt (\<lambda>a b. pos (EndRID a) < pos (StartRID b)) chunks"
    and "ch \<in> set chunks" and "covers pos ch x"
  shows "length (mergeChunks chunks (int n)) = n \<and>
    (\<exists>!j. j < n \<and> covers pos (mergeChunks chunks (int n) ! j) x)"
  using merge_unique_cover [OF assms] .

definition sample_chunk :: "int \<Rightarrow> string \<Rightarrow> string \<Rightarrow> RowIDChunk" where
  "sample_chunk i a b = \<lparr>ch_ID = i, StartRID = a, EndRID = b, ch_PartitionName = ''''\<rparr>"

theorem mergeChunks_covers_witness:
  "\<exists>!j. j < 2 \<and> covers read_dec
    (mergeChunks [sample_chunk 0 ''10'' ''19'', sample_chunk 1 ''20'' ''29'', sample_chunk 2 ''30'' ''39''] (int 2) ! j) 25"
proof -
  let ?cs = "[sample_chunk 0 ''10'' ''19'', sample_chunk 1 ''20'' ''29'', sample_chunk 2 ''30'' ''39'']"
  have n: "0 < (2::nat)" "2 < length ?cs" by simp_all
  have a: "\<forall>c \<in> set ?cs. read_dec (StartRID c) \<le> read_dec (EndRID c)" by code_simp
  have s: "sorted_wrt (\<lambda>a b. read_dec (EndRID a) < read_dec (StartRID b)) ?cs" by code_simp
  have m: "sample_chunk 1 ''20'' ''29'' \<in> set ?cs" by simp
  have c: "covers read_dec (sample_chunk 1 ''20'' ''29'') 25" by code_simp
  show ?thesis using mergeChunks_covers [OF n a s m c] by blast
qed

end
