(* ===== verification/Plan_Rowid.thy ===== *)
theory Plan_Rowid
  imports Plan_Coverage
begin

text \<open>
  The ROWID path of a plan, which the engine takes for the global strategies \<open>rowid\<close> and \<open>auto\<close> (the
  default): what \<open>DBMS_PARALLEL_EXECUTE\<close> promises, stated as a condition on its answers, and the
  theorem that the plan copies every wanted row exactly once whether it answers with chunks or
  fails and the code falls back to ORA_HASH; then what happens when a recorded position is stale.
\<close>

section \<open>What the database promises\<close>

definition rid_ok :: "RowIDChunk \<Rightarrow> bool" where
  "rid_ok ch \<longleftrightarrow> StartRID ch \<noteq> '''' \<and> EndRID ch \<noteq> '''' \<and>
     CHR 0x27 \<notin> set (StartRID ch) \<and> CHR 0x27 \<notin> set (EndRID ch)"

definition rowid_filter :: "string \<Rightarrow> string \<Rightarrow> string" where
  "rowid_filter a b = ''ROWID BETWEEN '' @ [CHR 0x27] @ a @ [CHR 0x27] @ '' AND '' @ [CHR 0x27] @ b @ [CHR 0x27]"

text \<open>\<open>pos\<close> orders row ids; \<open>x\<close> is the position of the row.\<close>

definition rowid_meaning ::
    "(string \<Rightarrow> 'row \<Rightarrow> bool) \<Rightarrow> (string \<Rightarrow> 'p::linorder) \<Rightarrow> 'p \<Rightarrow> string \<Rightarrow> 'row \<Rightarrow> bool" where
  "rowid_meaning holds pos x w r \<longleftrightarrow>
     (\<forall>ch. rid_ok ch \<longrightarrow>
       holds (rowid_filter (StartRID ch) (EndRID ch)) r = covers pos ch x \<and>
       (w \<noteq> '''' \<longrightarrow> holds (rowid_filter (StartRID ch) (EndRID ch) @ '' AND ('' @ w @ '')'') r =
          (covers pos ch x \<and> holds w r)))"

text \<open>The chunks of one object: usable row ids, ascending, disjoint.\<close>

definition chunks_ok :: "(string \<Rightarrow> 'p::linorder) \<Rightarrow> RowIDChunk list \<Rightarrow> bool" where
  "chunks_ok pos cs \<longleftrightarrow>
     (\<forall>c \<in> set cs. rid_ok c \<and> pos (StartRID c) \<le> pos (EndRID c)) \<and>
     sorted_wrt (\<lambda>a b. pos (EndRID a) < pos (StartRID b)) cs"

definition cover_row :: "(string \<Rightarrow> 'p::linorder) \<Rightarrow> 'p \<Rightarrow> RowIDChunk list \<Rightarrow> bool" where
  "cover_row pos x cs \<longleftrightarrow> cs = [] \<or> chunks_ok pos cs \<and> (\<exists>c \<in> set cs. covers pos c x)"

text \<open>Whatever chunk count is asked for, an answer covers the row: for a table as a whole, and for
  its partition among the chunks of that partition.\<close>

definition dbms_covers ::
    "(string \<Rightarrow> string \<Rightarrow> int \<Rightarrow> string + RowIDChunk list) \<Rightarrow> (string \<Rightarrow> 'p::linorder) \<Rightarrow> 'p \<Rightarrow> Table \<Rightarrow> bool" where
  "dbms_covers dbms pos x t \<longleftrightarrow>
     (\<forall>n cs. dbms (tbl_Owner t) (tbl_Name t) n = Inr cs \<longrightarrow> cover_row pos x cs)"

definition dbms_part_covers ::
    "(string \<Rightarrow> string \<Rightarrow> int \<Rightarrow> string + RowIDChunk list) \<Rightarrow> (string \<Rightarrow> 'p::linorder) \<Rightarrow> 'p \<Rightarrow>
     (Partition \<Rightarrow> 'row \<Rightarrow> bool) \<Rightarrow> Table \<Rightarrow> 'row \<Rightarrow> bool" where
  "dbms_part_covers dbms pos x in_part t r \<longleftrightarrow>
     (\<forall>n cs p. dbms (tbl_Owner t) (tbl_Name t) n = Inr cs \<longrightarrow> in_part p r \<longrightarrow>
       cover_row pos x (filter (\<lambda>c. ch_PartitionName c = part_Name p) cs))"

section \<open>Chunk tasks read the row once\<close>

lemma rowid_clause:
  "rid_ok ch \<Longrightarrow> BuildChunkWhereClause ch k w =
     (if w \<noteq> '''' then rowid_filter (StartRID ch) (EndRID ch) @ '' AND ('' @ w @ '')''
      else rowid_filter (StartRID ch) (EndRID ch))"
  by (simp add: BuildChunkWhereClause_def rowid_filter_def rid_ok_def Let_def)

lemma accepts_rowid:
  assumes "rowid_meaning holds pos x w r" and "rid_ok ch"
  shows "accepts holds (BuildChunkWhereClause ch k w) r \<longleftrightarrow> covers pos ch x \<and> accepts holds w r"
proof -
  have "rowid_filter (StartRID ch) (EndRID ch) \<noteq> ''''" by (simp add: rowid_filter_def)
  then show ?thesis using assms unfolding rowid_clause [OF assms(2)] rowid_meaning_def accepts_def by auto
qed

lemma unique_cover_reads:
  assumes "rowid_meaning holds pos x w r" and "\<forall>c \<in> set cs. rid_ok c"
    and "in_part_opt in_part p r \<Longrightarrow> \<exists>!j. j < length cs \<and> covers pos (cs ! j) x"
    and "\<And>c. t_Partition (T c) = p \<and> t_Where (T c) = BuildChunkWhereClause c k w"
  shows "times_read holds in_part r (map T cs) = (if in_part_opt in_part p r \<and> accepts holds w r then 1 else 0)"
proof -
  have reads: "task_reads holds in_part r (T c) \<longleftrightarrow>
      in_part_opt in_part p r \<and> accepts holds w r \<and> covers pos c x" if "c \<in> set cs" for c
    using assms(4) [of c] accepts_rowid [OF assms(1)] assms(2) that by (auto simp: task_reads_def)
  have count: "times_read holds in_part r (map T cs) = card {j. j < length cs \<and> task_reads holds in_part r (T (cs ! j))}"
    by (simp add: times_read_def filter_map comp_def length_filter_conv_card)
  show ?thesis
  proof (cases "in_part_opt in_part p r \<and> accepts holds w r")
    case True
    then have "{j. j < length cs \<and> task_reads holds in_part r (T (cs ! j))} = {j. j < length cs \<and> covers pos (cs ! j) x}"
      using reads by auto
    moreover obtain j where "{j. j < length cs \<and> covers pos (cs ! j) x} = {j}"
      using assms(3) True by blast
    ultimately show ?thesis using True count by simp
  next
    case False
    then have "{j. j < length cs \<and> task_reads holds in_part r (T (cs ! j))} = {}" using reads by auto
    then show ?thesis unfolding count using False by auto
  qed
qed

lemma sorted_unique_cover:
  assumes "chunks_ok pos cs" and "c \<in> set cs" "covers pos c x"
  shows "\<exists>!j. j < length cs \<and> covers pos (cs ! j) x"
proof -
  obtain i where i: "i < length cs" "cs ! i = c" using assms(2) by (metis in_set_conv_nth)
  have "\<not> (covers pos (cs ! j) x \<and> covers pos (cs ! k) x)" if "j < k" "k < length cs" for j k
  proof -
    have "pos (EndRID (cs ! j)) < pos (StartRID (cs ! k))"
      using assms(1) that by (simp add: chunks_ok_def sorted_wrt_iff_nth_less)
    then show ?thesis by (auto simp: covers_def)
  qed
  then show ?thesis using i assms(3) by (metis linorder_neqE_nat)
qed

definition fit :: "RowIDChunk list \<Rightarrow> int \<Rightarrow> RowIDChunk list" where
  "fit cs n = (if int (length cs) > n then mergeChunks cs n else cs)"

lemma merged_rid_ok:
  assumes "\<forall>c \<in> set cs. rid_ok c" and "0 < n" "n < length cs" and "c \<in> set (mergeChunks cs (int n))"
  shows "rid_ok c"
proof -
  let ?p = "length cs div n" and ?e = "length cs mod n"
  obtain i where i: "i < n" "c = merged_chunk cs ?p ?e i"
    using assms(4) by (auto simp: mergeChunks_groups [OF assms(2,3)])
  have p: "0 < ?p" using assms(2,3) by (simp add: div_greater_zero_iff)
  have "group_off ?p ?e (Suc i) \<le> length cs"
    using group_off_mono [of "Suc i" n ?p ?e] i(1) group_off_end [OF assms(2)] by simp
  moreover have "group_off ?p ?e i < group_off ?p ?e (Suc i)" using p by (simp add: group_off_Suc)
  ultimately have "rid_ok (cs ! group_off ?p ?e i)" "rid_ok (cs ! (group_off ?p ?e (Suc i) - 1))"
    using assms(1) by (auto intro!: nth_mem bspec)
  then show ?thesis by (simp add: i(2) merged_chunk_def rid_ok_def)
qed

lemma fit_unique_cover:
  assumes "chunks_ok pos cs" and "c \<in> set cs" "covers pos c x" and "0 < n"
  shows "(\<forall>c \<in> set (fit cs n). rid_ok c) \<and> (\<exists>!j. j < length (fit cs n) \<and> covers pos (fit cs n ! j) x)"
proof (cases "int (length cs) > n")
  case True
  then obtain m where m: "n = int m" "0 < m" "m < length cs" using assms(4) by (metis of_nat_less_iff pos_int_cases)
  have ok: "\<forall>c \<in> set cs. rid_ok c" "\<forall>c \<in> set cs. pos (StartRID c) \<le> pos (EndRID c)"
    "sorted_wrt (\<lambda>a b. pos (EndRID a) < pos (StartRID b)) cs"
    using assms(1) by (simp_all add: chunks_ok_def)
  show ?thesis
    using merge_unique_cover [OF m(2,3) ok(2,3) assms(2,3)] merged_rid_ok [OF ok(1) m(2,3)] m
    by (simp add: fit_def)
next
  case False
  then show ?thesis using sorted_unique_cover [OF assms(1-3)] assms(1) by (simp add: fit_def chunks_ok_def)
qed

section \<open>Segments\<close>

text \<open>The conditions on the database for one table and row.\<close>

definition db_contract ::
    "(string \<Rightarrow> 'row \<Rightarrow> bool) \<Rightarrow> nat \<Rightarrow> (string \<Rightarrow> 'p::linorder) \<Rightarrow> 'p \<Rightarrow> string \<Rightarrow> 'row \<Rightarrow> bool" where
  "db_contract holds h pos x w r \<longleftrightarrow> ora_hash_meaning holds h w r \<and> rowid_meaning holds pos x w r"

lemma hash_chunks_once:
  assumes "ora_hash_meaning holds h w r" and "2 \<le> n" "n \<le> 256"
    and "\<And>c. t_Partition (T c) = p \<and> t_Where (T c) = BuildChunkWhereClause c n w"
  shows "times_read holds in_part r (map T (chunksViaOraHash n)) =
    (if in_part_opt in_part p r \<and> accepts holds w r then 1 else 0)"
proof -
  let ?c = "\<lambda>i. \<lparr>ch_ID = int i, StartRID = '''', EndRID = '''', ch_PartitionName = ''''\<rparr>"
  have n: "int (nat n) = n" "0 < nat n" using assms(2) by simp_all
  have "t_Partition (T (?c i)) = p \<and> t_Where (T (?c i)) = oraHashWhere (int (nat n)) (int i) w" if "i < nat n" for i
    using assms(4) [of "?c i"] n(1) by (simp add: BuildChunkWhereClause_def oraHashWhere_def Let_def)
  then have "times_read holds in_part r (map (\<lambda>i. T (?c i)) [0..<nat n]) =
      (if in_part_opt in_part p r \<and> accepts holds w r then 1 else 0)"
    by (intro split_read_once [OF assms(1) n(2)]) (use assms(2,3) n(1) in \<open>simp_all add: in_i64_nonneg\<close>)
  then show ?thesis by (simp add: chunksViaOraHash_def comp_def)
qed

lemma rowid_single_once:
  assumes "db_contract holds h pos x (o_Where override) r" and "dbms_covers dbms pos x t"
  shows "times_read holds in_part r (seg_tasks (rowid_one.replaced est dbms (Single t override n mode))) =
    (if accepts holds (o_Where override) r then 1 else 0)"
proof (cases "rowid_single_tasks est dbms \<lparr>ct_Table = t, ct_Override = override, ct_ChunkSize = n, ct_PlaceholderIdx = 0\<rparr>")
  case None
  then show ?thesis by (simp add: whole_task_def task_reads_def in_part_opt_def)
next
  case (Some ts)
  let ?ct = "\<lparr>ct_Table = t, ct_Override = override, ct_ChunkSize = n, ct_PlaceholderIdx = 0\<rparr>"
  obtain rows where rows: "est (tbl_Owner t) (tbl_Name t) = Inr rows"
    using Some by (auto simp: rowid_single_tasks_def Let_def split: sum.splits)
  define q where "q = go_div rows n"
  define m where "m = (if q > 256 then 256 else q)"
  define cs where "cs = ComputeChunks (dbms (tbl_Owner t) (tbl_Name t) m) m"
  have q: "\<not> q < 2" "cs \<noteq> []" and ts: "ts = map (\<lambda>ch. table_chunk_task ?ct ch (int (length (fit cs m)))
      (BuildChunkWhereClause ch (int (length (fit cs m))) (o_Where override))) (fit cs m)"
    using Some unfolding rowid_single_tasks_def Let_def fit_def cs_def m_def
    by (simp_all add: rows q_def [symmetric] split: if_split_asm)
  have m: "2 \<le> m" "m \<le> 256" using q(1) by (simp_all add: m_def)
  let ?T = "\<lambda>ch. table_chunk_task ?ct ch (int (length (fit cs m)))
      (BuildChunkWhereClause ch (int (length (fit cs m))) (o_Where override))"
  have T: "t_Partition (?T c) = None \<and> t_Where (?T c) = BuildChunkWhereClause c (int (length (fit cs m))) (o_Where override)" for c
    by (simp add: table_chunk_task_def)
  have "times_read holds in_part r (map ?T (fit cs m)) =
      (if in_part_opt in_part None r \<and> accepts holds (o_Where override) r then 1 else 0)"
  proof (cases "dbms (tbl_Owner t) (tbl_Name t) m")
    case (Inl e)
    then have "fit cs m = chunksViaOraHash m" using m by (simp add: cs_def fit_def ComputeChunks_def)
    moreover have "int (length (chunksViaOraHash m)) = m" using m by simp
    ultimately show ?thesis
      using hash_chunks_once [of holds h "o_Where override" r m ?T None in_part] T m assms(1)
      by (simp add: db_contract_def)
  next
    case (Inr l)
    then have l: "cs = l" using m by (simp add: cs_def ComputeChunks_def)
    then have "cover_row pos x cs" using assms(2) Inr by (auto simp: dbms_covers_def)
    then obtain c where "chunks_ok pos cs" "c \<in> set cs" "covers pos c x" using q(2) by (auto simp: cover_row_def)
    from fit_unique_cover [OF this, of m] m have
      "\<forall>c \<in> set (fit cs m). rid_ok c" "\<exists>!j. j < length (fit cs m) \<and> covers pos (fit cs m ! j) x" by auto
    then show ?thesis
      using unique_cover_reads [of holds pos x "o_Where override" r "fit cs m" in_part None ?T] T assms(1)
      by (simp add: db_contract_def)
  qed
  then show ?thesis using Some by (simp add: ts in_part_opt_def)
qed

lemma max_chunks_pos: "0 < max_chunks w"
  by (simp add: max_chunks_def)

lemma rowid_part_tasks:
  assumes "db_contract holds h pos x (o_Where override) r" and "chunks \<noteq> []"
    and "in_part p r \<Longrightarrow> cover_row pos x chunks" and "\<forall>c \<in> set chunks. rid_ok c"
  shows "times_read holds in_part r (map (part_chunk_task
      \<lparr>pct_Table = t, pct_Override = override, IncludedParts = inc, pct_TargetMode = mode,
        pct_PlaceholderIdx = i, PlaceholderCnt = k\<rparr> p (int (length (fit chunks (max_chunks w)))))
      (fit chunks (max_chunks w))) =
    (if in_part_opt in_part (Some p) r \<and> accepts holds (o_Where override) r then 1 else 0)"
proof -
  have ids: "\<forall>c \<in> set (fit chunks (max_chunks w)). rid_ok c"
  proof (cases "int (length chunks) > max_chunks w")
    case True
    then obtain m where m: "max_chunks w = int m" "0 < m" "m < length chunks"
      using max_chunks_pos by (metis of_nat_less_iff pos_int_cases)
    then show ?thesis using merged_rid_ok [OF assms(4) m(2,3)] by (simp add: fit_def)
  qed (use assms(4) in \<open>simp add: fit_def\<close>)
  have cover: "\<exists>!j. j < length (fit chunks (max_chunks w)) \<and> covers pos (fit chunks (max_chunks w) ! j) x"
    if "in_part_opt in_part (Some p) r"
  proof -
    have "cover_row pos x chunks" using assms(3) that by (simp add: in_part_opt_def)
    then obtain c where "chunks_ok pos chunks" "c \<in> set chunks" "covers pos c x"
      using assms(2) by (auto simp: cover_row_def)
    then show ?thesis using fit_unique_cover max_chunks_pos by blast
  qed
  show ?thesis
    by (rule unique_cover_reads [OF _ ids cover])
      (use assms(1) in \<open>simp_all add: db_contract_def part_chunk_task_def Let_def\<close>)
qed

lemma part_chunks_lookup:
  assumes "ComputePartitionedChunks d n = Inr m" and "m \<noteq> []"
  shows "\<exists>cs. d = Inr cs \<and> map_of m k = (if k \<in> ch_PartitionName ` set cs
    then Some (filter (\<lambda>c. ch_PartitionName c = k) cs) else None)"
proof -
  obtain cs where "d = Inr cs" "m = foldl add_part_chunk [] cs"
    using assms by (auto simp: ComputePartitionedChunks_def split: if_splits sum.splits)
  then show ?thesis using add_part_chunks_lookup [of "[]" cs k] by simp
qed

definition rids_ok :: "(string \<Rightarrow> string \<Rightarrow> int \<Rightarrow> string + RowIDChunk list) \<Rightarrow> Table \<Rightarrow> bool" where
  "rids_ok dbms t \<longleftrightarrow> (\<forall>n cs. dbms (tbl_Owner t) (tbl_Name t) n = Inr cs \<longrightarrow> (\<forall>c \<in> set cs. rid_ok c))"

lemma rowid_replacement_once:
  assumes "db_contract holds h pos x (o_Where override) r" and "distinct included"
    and "\<exists>!idx. idx \<in> set included \<and> in_part (part_at t idx) r"
    and "dbms_part_covers dbms pos x in_part t r" and "rids_ok dbms t"
  shows "times_read holds in_part r (seg_tasks (rowid_part.resolved dbms w b (Parts t override included mode))) =
    (if accepts holds (o_Where override) r then 1 else 0)"
proof -
  let ?pct = "\<lparr>pct_Table = t, pct_Override = override, IncludedParts = included, pct_TargetMode = mode,
        pct_PlaceholderIdx = 0, PlaceholderCnt = length included\<rparr>"
  let ?ask = "ComputePartitionedChunks (dbms (tbl_Owner t) (tbl_Name t) (i64 (w * 4))) (i64 (w * 4))"
  note once = parts_once [OF assms(2), of in_part t r, OF assms(3)]
  have hash_ok: "ora_hash_meaning holds h (o_Where override) r" using assms(1) by (simp add: db_contract_def)
  have hash: "times_read holds in_part r (hash_replacement w b ?pct) = (if accepts holds (o_Where override) r then 1 else 0)"
    unfolding hash_replacement_def Let_def partitionChunkTask.select_convs
    by (rule once) (rule hash_tasks_once [OF hash_ok chunk_count_i64])
  have rowid: "times_read holds in_part r (rowid_replacement m w ?pct) = (if accepts holds (o_Where override) r then 1 else 0)"
    if m: "?ask = Inr m" "m \<noteq> []" for m
    unfolding rowid_replacement_def Let_def partitionChunkTask.select_convs
  proof (rule once)
    fix idx
    assume "idx \<in> set included"
    let ?p = "part_at t idx"
    obtain cs where cs: "dbms (tbl_Owner t) (tbl_Name t) (i64 (w * 4)) = Inr cs"
      "map_of m (part_Name ?p) = (if part_Name ?p \<in> ch_PartitionName ` set cs
         then Some (filter (\<lambda>c. ch_PartitionName c = part_Name ?p) cs) else None)"
      using part_chunks_lookup [OF m] by blast
    let ?own = "filter (\<lambda>c. ch_PartitionName c = part_Name ?p) cs"
    have cover: "in_part ?p r \<Longrightarrow> cover_row pos x ?own" using assms(4) cs(1) by (auto simp: dbms_part_covers_def)
    have ids: "\<forall>c \<in> set ?own. rid_ok c" using assms(5) cs(1) by (auto simp: rids_ok_def)
    show "times_read holds in_part r (case map_of m (part_Name ?p) of
          None \<Rightarrow> [whole_task t (Some ?p) override mode]
        | Some [] \<Rightarrow> [whole_task t (Some ?p) override mode]
        | Some (c # cs) \<Rightarrow> map (part_chunk_task ?pct ?p (int (length
            (if max_chunks w < int (length (c # cs)) then mergeChunks (c # cs) (max_chunks w) else c # cs))))
            (if max_chunks w < int (length (c # cs)) then mergeChunks (c # cs) (max_chunks w) else c # cs)) =
      (if in_part_opt in_part (Some ?p) r \<and> accepts holds (o_Where override) r then 1 else 0)"
    proof (cases "map_of m (part_Name ?p)")
      case None
      show ?thesis unfolding None option.case by (rule whole_task_once)
    next
      case (Some l)
      then have own: "l = ?own" using cs(2) by (simp split: if_splits)
      show ?thesis
      proof (cases l)
        case Nil
        show ?thesis unfolding Some Nil option.case list.case by (rule whole_task_once)
      next
        case (Cons c l')
        have "c # l' \<noteq> []" "in_part ?p r \<Longrightarrow> cover_row pos x (c # l')" "\<forall>c \<in> set (c # l'). rid_ok c"
          using cover ids by (simp_all only: own [symmetric] Cons list.distinct not_False_eq_True)
        from rowid_part_tasks [OF assms(1) this, where t = t and inc = included and mode = mode
            and i = 0 and k = "length included" and w = w]
        show ?thesis unfolding Some Cons option.case list.case fit_def .
      qed
    qed
  qed
  show ?thesis using hash rowid by (simp add: parts_replacement_def Let_def split: sum.split)
qed

section \<open>The whole plan\<close>

definition rowid_segment ::
    "(string \<Rightarrow> string \<Rightarrow> string + int) \<Rightarrow> (string \<Rightarrow> string \<Rightarrow> int \<Rightarrow> string + RowIDChunk list) \<Rightarrow>
     (string \<Rightarrow> string \<Rightarrow> int \<Rightarrow> string + RowIDChunk list) \<Rightarrow> int \<Rightarrow> int \<Rightarrow> segment \<Rightarrow> segment" where
  "rowid_segment est dbmsPart dbms w b seg =
     rowid_one.replaced est dbms (rowid_part.resolved dbmsPart w b seg)"

lemma ResolvePartitionChunks_layout:
  assumes "laid_out segs plan"
  shows "(if length (PartitionChunkTables plan) > 0 then ResolvePartitionChunks dbms w b plan else Some plan) =
    Some (plan\<lparr>DataTasks := layout (map (rowid_part.resolved dbms w b) segs), PartitionChunkTables := []\<rparr>)"
proof -
  have "backwards (resolve_parts dbms w b) (PartitionChunkTables plan) (DataTasks plan) =
      Some (layout (map (rowid_part.resolved dbms w b) segs))"
    using rowid_part.resolves [of "[]" 0 dbms w b segs] assms by (simp add: laid_out_def)
  then show ?thesis by (cases "PartitionChunkTables plan") (auto simp: ResolvePartitionChunks_def)
qed

lemma ResolveChunks_layout:
  assumes "DataTasks plan = layout segs" and "ChunkableTasks plan = singles_at 0 segs"
    and "\<forall>ct \<in> set (ChunkableTasks plan). ct_ChunkSize ct \<noteq> 0"
  shows "(if length (ChunkableTasks plan) > 0 then ResolveChunks est dbms plan else Some plan) =
    Some (plan\<lparr>DataTasks := layout (map (rowid_one.replaced est dbms) segs), ChunkableTasks := []\<rparr>)"
proof -
  have "backwards (resolve_single est dbms) (ChunkableTasks plan) (DataTasks plan) =
      Some (layout (map (rowid_one.replaced est dbms) segs))"
    using rowid_one.resolves [of "[]" 0 segs est dbms] assms by simp
  then show ?thesis by (cases "ChunkableTasks plan") (auto simp: ResolveChunks_def)
qed

lemma rowid_resolved_plan:
  assumes "laid_out (map (segment_of pf lt cfg gd) ts) plan"
    and "singles_first (map (segment_of pf lt cfg gd) ts)" and "0 < m_BatchSize cfg"
    and "m_ChunkStrategy cfg \<in> {ChunkStrategyRowID, ChunkStrategyAuto}"
  shows "\<exists>plan'. resolve_plan est dbmsPart dbms cfg plan = Some plan' \<and>
    DataTasks plan' = concat (map (\<lambda>t. seg_tasks
      (rowid_segment est dbmsPart dbms (Workers cfg) (m_BatchSize cfg) (segment_of pf lt cfg gd t))) ts)"
proof -
  let ?segs = "map (segment_of pf lt cfg gd) ts"
  let ?R = "rowid_part.resolved dbmsPart (Workers cfg) (m_BatchSize cfg)"
  let ?plan1 = "plan\<lparr>DataTasks := layout (map ?R ?segs), PartitionChunkTables := []\<rparr>"
  have chunkable: "ChunkableTasks plan = singles_at 0 ?segs" using assms(1) by (simp add: laid_out_def)
  have "ct_ChunkSize ct \<noteq> 0" if "ct \<in> set (ChunkableTasks plan)" for ct
  proof -
    have "ct \<in> set (singles_at 0 ?segs)" using that chunkable by simp
    then obtain t t' override n mode i where "segment_of pf lt cfg gd t' = Single t override n mode"
      "ct = \<lparr>ct_Table = t, ct_Override = override, ct_ChunkSize = n, ct_PlaceholderIdx = i\<rparr>"
      by (auto dest!: singles_at_elem) metis
    then show ?thesis using segment_chunk_size [OF assms(3)] by force
  qed
  then have step2: "(if length (ChunkableTasks ?plan1) > 0 then ResolveChunks est dbms ?plan1 else Some ?plan1) =
      Some (?plan1\<lparr>DataTasks := layout (map (rowid_one.replaced est dbms) (map ?R ?segs)), ChunkableTasks := []\<rparr>)"
    by (intro ResolveChunks_layout) (simp_all add: chunkable rowid_part.positions [OF assms(2)] del: map_map)
  note step1 = ResolvePartitionChunks_layout [OF assms(1), of dbmsPart "Workers cfg" "m_BatchSize cfg"]
  have "resolve_plan est dbmsPart dbms cfg plan =
      Some (?plan1\<lparr>DataTasks := layout (map (rowid_one.replaced est dbms) (map ?R ?segs)), ChunkableTasks := []\<rparr>)"
    unfolding resolve_plan_def step1 Option.bind.simps step2 using assms(4) by simp
  then show ?thesis by (simp add: layout_def rowid_segment_def comp_def)
qed

lemma rowid_segment_once:
  assumes "db_contract holds h pos x (o_Where (override_of cfg (tbl_Name t))) r"
    and "row_partitioned pf lt in_part (override_of cfg (tbl_Name t)) t r"
    and "dbms_covers dbms pos x t" "dbms_part_covers dbmsPart pos x in_part t r" "rids_ok dbmsPart t"
  shows "times_read holds in_part r (seg_tasks (rowid_segment est dbmsPart dbms w b (segment_of pf lt cfg gd t))) =
    (if accepts holds (o_Where (override_of cfg (tbl_Name t))) r then 1 else 0)"
proof -
  let ?o = "override_of cfg (tbl_Name t)"
  have fixed: "times_read holds in_part r (seg_tasks (rowid_segment est dbmsPart dbms w b seg)) =
      times_read holds in_part r (seg_tasks (hash_segment w b seg))" if "seg = Fixed ts" for seg ts
    by (simp add: that rowid_segment_def)
  have hash: "times_read holds in_part r (seg_tasks (hash_segment w b (segment_of pf lt cfg gd t))) =
      (if accepts holds (o_Where ?o) r then 1 else 0)"
    by (rule segment_once [where h = h]) (use assms(1,2) in \<open>simp_all add: db_contract_def\<close>)
  show ?thesis
  proof (cases "segment_of pf lt cfg gd t")
    case (Fixed ts)
    then show ?thesis using fixed hash by simp
  next
    case (Single t' override n mode)
    then have "t' = t" "override = ?o"
      by (auto simp: segment_of_def partitioned_segment_def plain_segment_def Let_def split: if_splits)
    then show ?thesis
      using Single rowid_single_once [OF assms(1,3)] by (simp add: rowid_segment_def)
  next
    case (Parts t' override included mode)
    then have p: "t' = t" "override = ?o" "included = resolvePartitions pf lt t ?o" "IsPartitioned t"
      by (auto simp: segment_of_def partitioned_segment_def plain_segment_def Let_def split: if_splits)
    obtain P where "resolvePartitions pf lt t ?o = filter P [0..<length (partitions_of t)]"
      using resolve_sublist by blast
    then have "distinct included" using p(3) by simp
    then show ?thesis
      using Parts p rowid_replacement_once [OF assms(1) _ _ assms(4,5)] assms(2)
      by (simp add: rowid_segment_def row_partitioned_def)
  qed
qed

lemma task_table [simp]:
  "t_Table (part_chunk_task pct p n ch) = pct_Table pct"
  "t_Table (whole_task t part override mode) = t"
  by (simp_all add: part_chunk_task_def whole_task_def Let_def)

lemma rowid_replacement_table:
  assumes "k \<in> set (rowid_replacement chunks w pct)"
  shows "t_Table k = pct_Table pct"
proof -
  obtain idx where k: "k \<in> set (let p = part_at (pct_Table pct) idx
       in case map_of chunks (part_Name p) of
            Some (c # cs) \<Rightarrow>
              (let chunks = c # cs;
                   chunks' = (if int (length chunks) > max_chunks w then mergeChunks chunks (max_chunks w) else chunks)
               in map (part_chunk_task pct p (int (length chunks'))) chunks')
          | _ \<Rightarrow> [whole_task (pct_Table pct) (Some p) (pct_Override pct) (pct_TargetMode pct)])"
    using assms unfolding rowid_replacement_def by (auto simp only: set_concat set_map UN_iff image_iff)
  show ?thesis
  proof (cases "map_of chunks (part_Name (part_at (pct_Table pct) idx))")
    case None
    then show ?thesis using k by simp
  next
    case (Some l)
    then show ?thesis using k by (cases l) (auto simp: Let_def)
  qed
qed

lemma parts_replacement_table:
  "k \<in> set (parts_replacement dbms w b pct) \<Longrightarrow> t_Table k = pct_Table pct"
  by (auto simp: parts_replacement_def hash_replacement_def Let_def dest!: hash_tasks_table rowid_replacement_table
      split: sum.splits if_splits)

lemma rowid_segment_table:
  "k \<in> set (seg_tasks (rowid_segment est dbmsPart dbms w b (segment_of pf lt cfg gd t))) \<Longrightarrow> t_Table k = t"
proof -
  have single: "k \<in> set (seg_tasks (rowid_segment est dbmsPart dbms w b (Single t override n mode))) \<Longrightarrow> t_Table k = t"
    for override n mode
    by (auto simp: rowid_segment_def whole_task_def rowid_single_tasks_def table_chunk_task_def Let_def
        split: option.splits if_splits sum.splits)
  have parts: "k \<in> set (seg_tasks (rowid_segment est dbmsPart dbms w b (Parts t override included mode))) \<Longrightarrow> t_Table k = t"
    for override included mode
    by (auto simp: rowid_segment_def dest!: parts_replacement_table)
  have fixed: "rowid_segment est dbmsPart dbms w b (Fixed ts) = Fixed ts" for ts by (simp add: rowid_segment_def)
  show "k \<in> set (seg_tasks (rowid_segment est dbmsPart dbms w b (segment_of pf lt cfg gd t))) \<Longrightarrow> t_Table k = t"
    by (auto simp: segment_of_def partitioned_segment_def plain_segment_def Let_def whole_task_def fixed
        split: if_splits dest: hash_tasks_table single parts)
qed

section \<open>Properties\<close>


section \<open>A concrete plan\<close>

text \<open>Oracle on rows that are numbers: the row's position and its hash are the number itself.\<close>

definition rid_holds :: "string \<Rightarrow> nat \<Rightarrow> bool" where
  "rid_holds s r \<longleftrightarrow> num_holds s r \<or>
     (\<exists>ch. rid_ok ch \<and> s = rowid_filter (StartRID ch) (EndRID ch) \<and> covers read_dec ch r)"

lemma rowid_filter_inj:
  assumes "rowid_filter a b = rowid_filter c d" and "CHR 0x27 \<notin> set a" "CHR 0x27 \<notin> set c"
    and "CHR 0x27 \<notin> set b" "CHR 0x27 \<notin> set d"
  shows "a = c \<and> b = d"
proof -
  have "a @ CHR 0x27 # '' AND '' @ [CHR 0x27] @ b @ [CHR 0x27] = c @ CHR 0x27 # '' AND '' @ [CHR 0x27] @ d @ [CHR 0x27]"
    using assms(1) by (simp add: rowid_filter_def)
  from split_at_first [OF this assms(2,3)] show ?thesis by simp
qed

lemma rid_holds_contract: "db_contract rid_holds r read_dec r '''' r"
proof -
  have other: "\<not> num_holds (rowid_filter a b) q" "rowid_filter a b \<noteq> ora_hash_filter n k" for a b q n k
    by (simp_all add: num_holds_def rowid_filter_def ora_hash_filter_def)
  have "rid_holds (rowid_filter (StartRID ch) (EndRID ch)) r = covers read_dec ch r" if "rid_ok ch" for ch
  proof
    assume "rid_holds (rowid_filter (StartRID ch) (EndRID ch)) r"
    then obtain c where c: "rid_ok c" "rowid_filter (StartRID ch) (EndRID ch) = rowid_filter (StartRID c) (EndRID c)"
      "covers read_dec c r" by (auto simp: rid_holds_def other)
    then have "StartRID ch = StartRID c \<and> EndRID ch = EndRID c"
      using that by (intro rowid_filter_inj) (auto simp: rid_ok_def)
    then show "covers read_dec ch r" using c(3) by (simp add: covers_def)
  qed (use that in \<open>auto simp: rid_holds_def\<close>)
  moreover have "rid_holds (ora_hash_filter n k) r = num_holds (ora_hash_filter n k) r" for n k
    using other(2) by (metis rid_holds_def)
  then have "ora_hash_meaning rid_holds r '''' r"
    using num_holds_meaning [of r] by (simp add: ora_hash_meaning_def)
  ultimately show ?thesis by (simp add: db_contract_def rowid_meaning_def)
qed

definition auto_cfg :: MigrationConfig where
  "auto_cfg = (Migration sample_config)\<lparr>Workers := 4, m_BatchSize := 50000, m_ChunkStrategy := ChunkStrategyAuto\<rparr>"

definition sample_chunks :: "RowIDChunk list" where
  "sample_chunks = [sample_chunk 0 ''10'' ''19'', sample_chunk 1 ''20'' ''29'', sample_chunk 2 ''30'' ''39'']"


section \<open>Stale positions\<close>

text \<open>
  When a partitioned placeholder precedes a plain one, resolving the partitioned table first
  moves the plain placeholder without updating its recorded position: if the partitioned table
  gets more tasks than it had placeholders, one of its chunks is overwritten by the chunks of the other
  table, whose whole-table placeholder stays in the plan. So a part of the first table is never
  copied and the second one is copied twice.
\<close>

theorem stale_placeholder:
  assumes "laid_out [Fixed ts, Parts t override included mode, Single u override' n mode'] plan"
    and "m_ChunkStrategy cfg \<in> {ChunkStrategyRowID, ChunkStrategyAuto}" and "n \<noteq> 0"
    and "rowid_single_tasks est dbms
      \<lparr>ct_Table = u, ct_Override = override', ct_ChunkSize = n, ct_PlaceholderIdx = 0\<rparr> = Some chunks"
    and "parts_replacement dbmsPart (Workers cfg) (m_BatchSize cfg)
      \<lparr>pct_Table = t, pct_Override = override, IncludedParts = included, pct_TargetMode = mode,
       pct_PlaceholderIdx = 0, PlaceholderCnt = length included\<rparr> = kept @ lost # others"
    and "length kept = length included"
  shows "\<exists>plan'. resolve_plan est dbmsPart dbms cfg plan = Some plan' \<and>
    DataTasks plan' = ts @ kept @ chunks @ others @ [whole_task u None override' mode']"
proof -
  let ?segs = "[Fixed ts, Parts t override included mode, Single u override' n mode']"
  let ?pos = "length ts + length included"
  let ?ct = "\<lparr>ct_Table = u, ct_Override = override', ct_ChunkSize = n, ct_PlaceholderIdx = ?pos\<rparr>"
  let ?plan1 = "plan\<lparr>DataTasks := layout (map (rowid_part.resolved dbmsPart (Workers cfg) (m_BatchSize cfg)) ?segs),
    PartitionChunkTables := []\<rparr>"
  note step1 = ResolvePartitionChunks_layout [OF assms(1), of dbmsPart "Workers cfg" "m_BatchSize cfg"]
  have data: "DataTasks ?plan1 = ts @ kept @ lost # others @ [whole_task u None override' mode']"
    using assms(5) by simp
  have single: "resolve_single est dbms ?ct (ts @ kept @ lost # others @ [whole_task u None override' mode']) =
      Some (ts @ kept @ chunks @ others @ [whole_task u None override' mode'])"
  proof -
    have "rowid_single_tasks est dbms ?ct = Some chunks"
      using assms(4) by (simp add: rowid_one.S_any [of est dbms u override' n ?pos])
    moreover have "splice_tasks ?pos 1 chunks ((ts @ kept) @ [lost] @ (others @ [whole_task u None override' mode'])) =
        Some ((ts @ kept) @ chunks @ (others @ [whole_task u None override' mode']))"
      by (rule splice_tasks_mid) (simp_all add: assms(6))
    ultimately show ?thesis using assms(3) by (simp add: resolve_single_def)
  qed
  have "ChunkableTasks ?plan1 = [?ct]" using assms(1) by (simp add: laid_out_def)
  then have "ResolveChunks est dbms ?plan1 = Some (?plan1\<lparr>DataTasks := ts @ kept @ chunks @ others @
      [whole_task u None override' mode'], ChunkableTasks := []\<rparr>)"
    unfolding ResolveChunks_def data by (simp add: single)
  then show ?thesis
    unfolding resolve_plan_def step1 Option.bind.simps using assms(2) \<open>ChunkableTasks ?plan1 = [?ct]\<close> by simp
qed

definition stale_sales :: Table where
  "stale_sales = (bare_table ''SALES'' 0)\<lparr>Partitioning := Some \<lparr>Strategy = PartitionRange, KeyColumns = [''D''],
     Partitions = [(sample_part ''P1'' ''100'')\<lparr>part_NumRows := 600000\<rparr>,
                   (sample_part ''P2'' ''MAXVALUE'')\<lparr>part_NumRows := 10\<rparr>]\<rparr>\<rparr>"

definition stale_schema :: Schema where
  "stale_schema = sample_schema\<lparr>Tables := [stale_sales, bare_table ''BIG'' 600000]\<rparr>"

text \<open>
  Twelve chunks of the first partition, of which number 2 is lost, one task for the second; the
  other table is read by its twelve chunks and by the whole-table task.
\<close>

theorem stale_placeholder_witness:
  "\<exists>plan'. resolve_plan (\<lambda>_ _. Inr 600000) (\<lambda>_ _ _. Inl ''x'') (\<lambda>_ _ _. Inl ''x'') auto_cfg
      (BuildPlan no_float (<) stale_schema auto_cfg False) = Some plan' \<and>
    map taskKey (filter (\<lambda>k. t_Table k = stale_sales) (DataTasks plan')) =
      [''SALES:P1:chunk:0'', ''SALES:P1:chunk:1'', ''SALES:P1:chunk:3'', ''SALES:P1:chunk:4'', ''SALES:P1:chunk:5'',
       ''SALES:P1:chunk:6'', ''SALES:P1:chunk:7'', ''SALES:P1:chunk:8'', ''SALES:P1:chunk:9'', ''SALES:P1:chunk:10'',
       ''SALES:P1:chunk:11'', ''SALES:P2'']"
proof -
  let ?q = "bare_table ''BIG'' 600000" and ?o = zeroOverride and ?m = "''recreate''"
  let ?ct = "\<lparr>ct_Table = ?q, ct_Override = ?o, ct_ChunkSize = 50000, ct_PlaceholderIdx = 0\<rparr>"
  let ?p = "\<lambda>i. hash_task stale_sales (Some (part_at stale_sales 0)) ?o ?m 12 i"
  let ?last = "whole_task stale_sales (Some (part_at stale_sales 1)) ?o ?m"
  let ?others = "[?p 3, ?p 4, ?p 5, ?p 6, ?p 7, ?p 8, ?p 9, ?p 10, ?p 11, ?last]"
  have segs: "map (segment_of no_float (<) auto_cfg False)
      (filter (not_skipped auto_cfg False) (topoSortTables (Tables stale_schema))) =
      [Parts stale_sales ?o [0, 1] ?m, Single ?q ?o 50000 ?m]"
    by code_simp
  have laid: "laid_out [Fixed [], Parts stale_sales ?o [0, 1] ?m, Single ?q ?o 50000 ?m]
      (BuildPlan no_float (<) stale_schema auto_cfg False)"
    using BuildPlan_data [of no_float "(<)" auto_cfg False stale_schema] unfolding segs
    by (simp add: laid_out_def)
  have strat: "m_ChunkStrategy auto_cfg \<in> {ChunkStrategyRowID, ChunkStrategyAuto}" by (simp add: auto_cfg_def)
  obtain chunks where chunks: "rowid_single_tasks (\<lambda>_ _. Inr 600000) (\<lambda>_ _ _. Inl ''x'') ?ct = Some chunks"
      "\<forall>k \<in> set chunks. t_Table k = ?q"
    by (simp add: rowid_single_tasks_def ComputeChunks_def go_div_def table_chunk_task_def Let_def chunksViaOraHash_def)
  have tasks: "parts_replacement (\<lambda>_ _ _. Inl ''x'') (Workers auto_cfg) (m_BatchSize auto_cfg)
      \<lparr>pct_Table = stale_sales, pct_Override = ?o, IncludedParts = [0, 1], pct_TargetMode = ?m,
       pct_PlaceholderIdx = 0, PlaceholderCnt = length [0, 1 :: nat]\<rparr> = [?p 0, ?p 1] @ ?p 2 # ?others"
    by code_simp
  have ne: "?q \<noteq> stale_sales" by (simp add: stale_sales_def bare_table_def)
  have none: "filter (\<lambda>k. t_Table k = stale_sales) chunks = []"
    using chunks(2) ne by (auto simp: filter_empty_conv)
  have keys: "map taskKey ([?p 0, ?p 1] @ ?others) =
      [''SALES:P1:chunk:0'', ''SALES:P1:chunk:1'', ''SALES:P1:chunk:3'', ''SALES:P1:chunk:4'', ''SALES:P1:chunk:5'',
       ''SALES:P1:chunk:6'', ''SALES:P1:chunk:7'', ''SALES:P1:chunk:8'', ''SALES:P1:chunk:9'', ''SALES:P1:chunk:10'',
       ''SALES:P1:chunk:11'', ''SALES:P2'']"
    by code_simp
  have own: "filter (\<lambda>k. t_Table k = stale_sales) ([?p 0, ?p 1] @ ?others) = [?p 0, ?p 1] @ ?others"
    by (simp add: hash_task_def whole_task_def)
  have split: "filter (\<lambda>k. t_Table k = stale_sales) ([?p 0, ?p 1] @ chunks @ ?others @ [whole_task ?q None ?o ?m]) =
      filter (\<lambda>k. t_Table k = stale_sales) ([?p 0, ?p 1] @ ?others)"
    using none ne by (simp add: whole_task_def)
  obtain plan' where "resolve_plan (\<lambda>_ _. Inr 600000) (\<lambda>_ _ _. Inl ''x'') (\<lambda>_ _ _. Inl ''x'') auto_cfg
      (BuildPlan no_float (<) stale_schema auto_cfg False) = Some plan'"
      "DataTasks plan' = [] @ [?p 0, ?p 1] @ chunks @ ?others @ [whole_task ?q None ?o ?m]"
    using stale_placeholder [OF laid strat _ chunks(1) tasks] by auto
  then show ?thesis using split own keys by (metis append_Nil)
qed

end
