(* ===== verification/Pg_Writer.thy ===== *)
theory Pg_Writer
  imports Ddl_Gen Partition_Prune
begin

text \<open>
  \<open>internal/postgres/writer.go\<close> without \<open>CopyData\<close> (theory \<open>Copy_Data\<close>): every method as the list of
  statements it sends. The PostgreSQL server is a parameter: a record of functions that answer a
  statement or a query from the history of the statements executed before, so any server state can
  be expressed. A method returns its error, \<open>None\<close> for \<open>nil\<close>, and the new history. Log lines are left out.
\<close>

section \<open>The server\<close>

type_synonym history = "string list"

record pg_server =
  pg_exec :: "history \<Rightarrow> string \<Rightarrow> string option" \<comment> \<open>error of a statement\<close>
  pg_exists :: "history \<Rightarrow> string \<Rightarrow> string \<Rightarrow> string + bool" \<comment> \<open>schema, table\<close>
  pg_count :: "history \<Rightarrow> string \<Rightarrow> string + int" \<comment> \<open>a COUNT(*) query\<close>
  pg_reltuples :: "history \<Rightarrow> string \<Rightarrow> string \<Rightarrow> string + int" \<comment> \<open>planner estimate of a table\<close>

record Writer =
  pgSchema :: string
  unlogged :: bool
  naming :: NamingConfig

type_synonym outcome = "string option \<times> history"

definition NewWriter :: "string \<Rightarrow> Writer" where
  "NewWriter sch = \<lparr>pgSchema = sch, unlogged = False, naming = DefaultNaming\<rparr>"

definition SetUnlogged :: "bool \<Rightarrow> Writer \<Rightarrow> Writer" where
  "SetUnlogged enabled w = w\<lparr>unlogged := enabled\<rparr>"

definition SetNaming :: "NamingConfig \<Rightarrow> Writer \<Rightarrow> Writer" where
  "SetNaming nc w =
     w\<lparr>naming := (if Convention nc = '''' then nc\<lparr>Convention := ''lowercase''\<rparr> else nc)\<rparr>"

definition ExecDDL :: "pg_server \<Rightarrow> string \<Rightarrow> history \<Rightarrow> outcome" where
  "ExecDDL srv ddl h = (pg_exec srv h ddl, h @ [ddl])"

text \<open>\<open>if err := \<dots>; err != nil { return fmt.Errorf("msg: %w", err) }\<close> and then the rest.\<close>

definition wrap_then :: "string \<Rightarrow> outcome \<Rightarrow> (history \<Rightarrow> outcome) \<Rightarrow> outcome" where
  "wrap_then msg r k = (case r of (Some e, h) \<Rightarrow> (Some (msg @ '': '' @ e), h) | (None, h) \<Rightarrow> k h)"

definition w_table :: "Writer \<Rightarrow> string \<Rightarrow> string" where
  "w_table w name = qualifiedName (pgSchema w) (convertTableName (naming w) name)"

definition lookup_schema :: "Writer \<Rightarrow> string" where
  "lookup_schema w = (if pgSchema w = '''' \<or> pgSchema w = ''public'' then ''public'' else pgSchema w)"

section \<open>Tables and partitions\<close>

definition create_table_stmt :: "Writer \<Rightarrow> Table \<Rightarrow> string" where
  "create_table_stmt w t =
     (if unlogged w then GenerateCreateTableUnlogged t (pgSchema w) (naming w)
      else GenerateCreateTableWithNaming t (pgSchema w) (naming w))"

definition CreateTable :: "pg_server \<Rightarrow> Writer \<Rightarrow> Table \<Rightarrow> bool \<Rightarrow> history \<Rightarrow> outcome" where
  "CreateTable srv w t dropIfExists h =
     (let tableName = w_table w (tbl_Name t);
          create = (\<lambda>h. wrap_then (''create table '' @ tableName) (ExecDDL srv (create_table_stmt w t) h)
            (\<lambda>h. (None, h)))
      in if dropIfExists then
           wrap_then (''drop table '' @ tableName)
             (ExecDDL srv (GenerateDropTableWithNaming (tbl_Name t) (pgSchema w) (naming w)) h) create
         else create h)"

text \<open>A loop that executes statements and stops at the first error that \<open>tolerated\<close> does not accept.\<close>

fun exec_each :: "pg_server \<Rightarrow> (string \<Rightarrow> bool) \<Rightarrow> string \<Rightarrow> string list \<Rightarrow> history \<Rightarrow> outcome" where
  "exec_each srv tolerated msg [] h = (None, h)"
| "exec_each srv tolerated msg (ddl # ddls) h =
     (case ExecDDL srv ddl h of
        (None, h') \<Rightarrow> exec_each srv tolerated msg ddls h'
      | (Some e, h') \<Rightarrow>
          if tolerated e then exec_each srv tolerated msg ddls h' else (Some (msg @ '': '' @ e), h'))"

definition already_exists :: "string \<Rightarrow> bool" where
  "already_exists e = Contains e ''already exists''"

definition never :: "string \<Rightarrow> bool" where
  "never e = False"

definition CreatePartitions :: "pg_server \<Rightarrow> Writer \<Rightarrow> Table \<Rightarrow> PartitionBound list \<Rightarrow> history \<Rightarrow> outcome" where
  "CreatePartitions srv w t bounds h =
     exec_each srv never ''create partition''
       (GeneratePartitionDDLWithNaming t (pgSchema w) bounds (naming w)) h"

definition TruncateTable :: "pg_server \<Rightarrow> Writer \<Rightarrow> string \<Rightarrow> history \<Rightarrow> outcome" where
  "TruncateTable srv w tableName h = ExecDDL srv (''TRUNCATE TABLE '' @ w_table w tableName) h"

definition pg_part_name :: "Writer \<Rightarrow> string \<Rightarrow> string \<Rightarrow> string" where
  "pg_part_name w parentTable pname =
     convertTableName (naming w) parentTable @ ''_'' @ convertName (naming w) pname"

definition TruncatePartition :: "pg_server \<Rightarrow> Writer \<Rightarrow> string \<Rightarrow> string \<Rightarrow> history \<Rightarrow> outcome" where
  "TruncatePartition srv w parentTable pname h =
     (let pgPartName = pg_part_name w parentTable pname
      in case pg_exists srv h (lookup_schema w) pgPartName of
           Inl e \<Rightarrow> (Some (''check partition existence: '' @ e), h)
         | Inr False \<Rightarrow> (None, h)
         | Inr True \<Rightarrow> ExecDDL srv (''TRUNCATE TABLE '' @ qualifiedName (pgSchema w) pgPartName) h)"

definition TableExists :: "pg_server \<Rightarrow> Writer \<Rightarrow> string \<Rightarrow> history \<Rightarrow> string + bool" where
  "TableExists srv w tableName h =
     pg_exists srv h (lookup_schema w) (convertTableName (naming w) tableName)"

definition DeleteByFilter :: "pg_server \<Rightarrow> Writer \<Rightarrow> string \<Rightarrow> string \<Rightarrow> history \<Rightarrow> outcome" where
  "DeleteByFilter srv w tableName where' h =
     ExecDDL srv (''DELETE FROM '' @ w_table w tableName @ '' WHERE '' @ where') h"

definition ConvertToLogged :: "pg_server \<Rightarrow> Writer \<Rightarrow> string list \<Rightarrow> history \<Rightarrow> outcome" where
  "ConvertToLogged srv w tables h =
     foldl (\<lambda>r t. case r of
         (Some e, h) \<Rightarrow> (Some e, h)
       | (None, h) \<Rightarrow> wrap_then (''set logged '' @ w_table w t)
           (ExecDDL srv (''ALTER TABLE '' @ w_table w t @ '' SET LOGGED'') h) (\<lambda>h. (None, h)))
       (None, h) tables"

section \<open>Keys, indexes, constraints, sequences\<close>

definition isCommentOnly :: "string \<Rightarrow> bool" where
  "isCommentOnly ddl =
     list_all (\<lambda>line. let l = TrimSpace line in \<not> (l \<noteq> '''' \<and> \<not> HasPrefix l ''--'')) (Split ddl (CHR 10))"

definition CreatePrimaryKey :: "pg_server \<Rightarrow> Writer \<Rightarrow> Table \<Rightarrow> history \<Rightarrow> outcome" where
  "CreatePrimaryKey srv w t h =
     (let pk = GeneratePrimaryKeyWithNaming t (pgSchema w) (naming w)
      in if pk \<noteq> '''' then exec_each srv already_exists (''create PK for '' @ tbl_Name t) [pk] h
         else (None, h))"

text \<open>\<open>strings.Replace(s, old, new, 1)\<close> with a non-empty \<open>old\<close>.\<close>

definition Replace1 :: "string \<Rightarrow> string \<Rightarrow> string \<Rightarrow> string" where
  "Replace1 s old new =
     (case IndexOf s old of None \<Rightarrow> s | Some i \<Rightarrow> take i s @ new @ drop (i + length old) s)"

definition concurrently :: "string \<Rightarrow> string" where
  "concurrently ddl =
     Replace1 (Replace1 ddl ''CREATE INDEX '' ''CREATE INDEX CONCURRENTLY '')
       ''CREATE UNIQUE INDEX '' ''CREATE UNIQUE INDEX CONCURRENTLY ''"

definition index_stmts :: "Writer \<Rightarrow> Table \<Rightarrow> string list" where
  "index_stmts w t =
     filter (\<lambda>ddl. \<not> isCommentOnly ddl) (GenerateIndexesWithNaming t (pgSchema w) (naming w))"

definition CreateIndexesRaw :: "pg_server \<Rightarrow> Writer \<Rightarrow> Table \<Rightarrow> string \<Rightarrow> history \<Rightarrow> outcome" where
  "CreateIndexesRaw srv w t indexMode h =
     (if indexMode = ''skip'' then (None, h)
      else
        let ddls = index_stmts w t;
            ddls' = (if indexMode = ''concurrent'' then map concurrently ddls else ddls)
        in exec_each srv already_exists (''create index for '' @ tbl_Name t) ddls' h)"

definition CreateFKAndOtherConstraints :: "pg_server \<Rightarrow> Writer \<Rightarrow> Table \<Rightarrow> history \<Rightarrow> outcome" where
  "CreateFKAndOtherConstraints srv w t h =
     exec_each srv already_exists (''create constraint for '' @ tbl_Name t)
       (GenerateConstraintsWithNaming t (pgSchema w) (naming w)) h"

definition CreateConstraintsAndIndexes :: "pg_server \<Rightarrow> Writer \<Rightarrow> Table \<Rightarrow> history \<Rightarrow> outcome" where
  "CreateConstraintsAndIndexes srv w t h =
     (let pk = GeneratePrimaryKeyWithNaming t (pgSchema w) (naming w);
          constraints = (\<lambda>h. exec_each srv never (''create constraint for '' @ tbl_Name t)
            (GenerateConstraintsWithNaming t (pgSchema w) (naming w)) h);
          indexes = (\<lambda>h. case exec_each srv never (''create index for '' @ tbl_Name t) (index_stmts w t) h of
              (Some e, h) \<Rightarrow> (Some e, h) | (None, h) \<Rightarrow> constraints h)
      in if pk \<noteq> '''' then wrap_then (''create PK for '' @ tbl_Name t) (ExecDDL srv pk h) indexes
         else indexes h)"

definition CreateSequence :: "pg_server \<Rightarrow> Writer \<Rightarrow> Sequence \<Rightarrow> history \<Rightarrow> outcome" where
  "CreateSequence srv w seq h =
     (let ddl = GenerateSequenceWithNaming seq (pgSchema w) (naming w);
          stmts = filter (\<lambda>s. s \<noteq> '''') (map TrimSpace (Split ddl (CHR 10)))
      in exec_each srv never (''create sequence '' @ seq_Name seq) stmts h)"

section \<open>Counts\<close>

definition w_Count :: "pg_server \<Rightarrow> Writer \<Rightarrow> string \<Rightarrow> history \<Rightarrow> string + int" where
  "w_Count srv w tableName h = pg_count srv h (''SELECT COUNT(*) FROM '' @ w_table w tableName)"

definition w_EstimateCount :: "pg_server \<Rightarrow> Writer \<Rightarrow> string \<Rightarrow> history \<Rightarrow> string + int" where
  "w_EstimateCount srv w tableName h =
     (let converted = convertTableName (naming w) tableName
      in case pg_reltuples srv h (lookup_schema w) converted of
           Inl e \<Rightarrow> Inl e
         | Inr estimate \<Rightarrow>
             if estimate \<le> 0 then
               (case pg_count srv h (''SELECT COUNT(*) FROM '' @ quoteIdent (lookup_schema w) @ ''.'' @ quoteIdent converted) of
                  Inl _ \<Rightarrow> Inr 0
                | Inr exact \<Rightarrow> Inr exact)
             else Inr estimate)"

section \<open>Copy targets\<close>

definition targetTableIdent :: "Writer \<Rightarrow> Table \<Rightarrow> Partition option \<Rightarrow> string list" where
  "targetTableIdent w t part =
     (let base = convertTableName (naming w) (tbl_Name t);
          tblName = (case part of None \<Rightarrow> base | Some p \<Rightarrow> base @ ''_'' @ convertName (naming w) (part_Name p))
      in if pgSchema w \<noteq> '''' \<and> pgSchema w \<noteq> ''public'' then [pgSchema w, tblName] else [tblName])"

definition targetTable :: "Writer \<Rightarrow> Table \<Rightarrow> Partition option \<Rightarrow> string" where
  "targetTable w t part =
     (case part of
        Some p \<Rightarrow> qualifiedName (pgSchema w)
          (convertTableName (naming w) (tbl_Name t) @ ''_'' @ convertName (naming w) (part_Name p))
      | None \<Rightarrow> qualifiedName (pgSchema w) (convertTableName (naming w) (tbl_Name t)))"

definition copy_column :: "Writer \<Rightarrow> Table \<Rightarrow> Column \<Rightarrow> string" where
  "copy_column w t c =
     (case NameOverrides (naming w) (tbl_Name t @ ''.'' @ col_Name c) of
        Some override \<Rightarrow> override
      | None \<Rightarrow> convertName (naming w) (col_Name c))"

definition w_truncate :: "string \<Rightarrow> nat \<Rightarrow> string" where
  "w_truncate s maxLen = (if length s \<le> maxLen then s else take maxLen s @ ''...'')"

section \<open>Lemmas\<close>

lemma exec_each_history: "\<exists>k \<le> length ddls. snd (exec_each srv tol msg ddls h) = h @ take k ddls"
proof (induction ddls arbitrary: h)
  case Nil
  then show ?case by simp
next
  case (Cons d ds)
  obtain k where k: "k \<le> length ds" "snd (exec_each srv tol msg ds (h @ [d])) = (h @ [d]) @ take k ds"
    using Cons.IH by blast
  have "snd (exec_each srv tol msg (d # ds) h) = h @ take (Suc k) (d # ds) \<or>
      snd (exec_each srv tol msg (d # ds) h) = h @ take 1 (d # ds)"
    using k(2) by (auto simp: ExecDDL_def split: option.splits)
  then show ?case using k(1) by (metis One_nat_def Suc_le_mono le_add1 length_Cons plus_1_eq_Suc)
qed

lemma exec_each_ok: "fst (exec_each srv tol msg ddls h) = None \<Longrightarrow> snd (exec_each srv tol msg ddls h) = h @ ddls"
  by (induction ddls arbitrary: h) (auto simp: ExecDDL_def split: option.splits if_splits)

lemma append_same_length: "length a = length c \<Longrightarrow> a @ b = c @ d \<longleftrightarrow> a = c \<and> b = d"
  by simp

section \<open>Properties\<close>

text \<open>
  The child table that \<open>CreatePartitions\<close> creates for a partition is the one that the copy and
  the partition truncation address, unless the naming convention is \<open>keep_original\<close> and the Oracle
  names are not in lower case: then the bound's name is the lower-case one and the target keeps the
  original, so the copy addresses a table that was never created.
\<close>

theorem partition_child_is_target:
  assumes "IsPartitioned t" and "i < length (partitions_of t)" and "p = partitions_of t ! i"
    and "NameOverrides (naming w) (tbl_Name t) = None" "NameOverrides (naming w) (part_Name p) = None"
    and "NameOverrides (naming w) (ToLower (tbl_Name t) @ ''_'' @ ToLower (part_Name p)) = None"
  shows "qualifiedName (pgSchema w) (convertName (naming w) (pb_Name (BuildPartitionBounds t ! i))) =
      targetTable w t (Some p) \<longleftrightarrow>
    Convention (naming w) \<noteq> ''keep_original'' \<or> tbl_Name t = ToLower (tbl_Name t) \<and> part_Name p = ToLower (part_Name p)"
proof -
  let ?nc = "naming w" and ?low = "ToLower (tbl_Name t) @ ''_'' @ ToLower (part_Name p)"
  have name: "pb_Name (BuildPartitionBounds t ! i) = ?low"
    using assms(1-3) by (auto simp: BuildPartitionBounds_def partition_bound_def partitions_of_def IsPartitioned_def
        Let_def split: option.splits)
  have inj: "qualifiedName s a = qualifiedName s b \<longleftrightarrow> a = b" for s a b
    by (rule pg_qualified.quote_inj)
  have "convertName ?nc ?low = convertTableName ?nc (tbl_Name t) @ ''_'' @ convertName ?nc (part_Name p) \<longleftrightarrow>
      Convention ?nc \<noteq> ''keep_original'' \<or> tbl_Name t = ToLower (tbl_Name t) \<and> part_Name p = ToLower (part_Name p)"
  proof (cases "Convention ?nc = ''keep_original''")
    case True
    then show ?thesis using assms(4-6) by (auto simp: convertName_def convertTableName_def)
  next
    case False
    have "upper_char (CHR ''_'') = CHR ''_''" "lower_char (CHR ''_'') = CHR ''_''" by code_simp+
    then have under: "ToUpper (CHR ''_'' # s) = CHR ''_'' # ToUpper s" "ToLower (CHR ''_'' # s) = CHR ''_'' # ToLower s" for s
      by (simp_all add: ToUpper_def ToLower_def)
    show ?thesis using False assms(4-6) by (simp add: convertName_def convertTableName_def under)
  qed
  then show ?thesis by (simp add: name targetTable_def inj)
qed

definition keep_writer :: Writer where
  "keep_writer = SetNaming \<lparr>Convention = ''keep_original'', TypeOverrides = Map.empty, NameOverrides = Map.empty\<rparr> (NewWriter ''public'')"

theorem partition_child_is_target_witness:
  "qualifiedName (pgSchema keep_writer) (convertName (naming keep_writer)
     (pb_Name (BuildPartitionBounds (sample_partitioned PartitionRange) ! 0)))
   \<noteq> targetTable keep_writer (sample_partitioned PartitionRange) (Some (sample_part ''P1'' (to_date ''2024-01-01 00:00:00'')))"
proof -
  let ?t = "sample_partitioned PartitionRange" and ?p = "sample_part ''P1'' (to_date ''2024-01-01 00:00:00'')"
  have h: "IsPartitioned ?t" "0 < length (partitions_of ?t)" "?p = partitions_of ?t ! 0"
    by (simp_all add: sample_partitioned_def IsPartitioned_def partitions_of_def sample_parts_def)
  have n: "NameOverrides (naming keep_writer) x = None" for x
    by (simp add: keep_writer_def SetNaming_def)
  have "Convention (naming keep_writer) = ''keep_original''" by (simp add: keep_writer_def SetNaming_def)
  moreover have "tbl_Name ?t \<noteq> ToLower (tbl_Name ?t)" by code_simp
  ultimately show ?thesis using partition_child_is_target [OF h n n n] by simp
qed

text \<open>
  \<open>CreateTable\<close> with \<open>dropIfExists\<close> sends the DROP before the CREATE, sends the CREATE only if the
  DROP succeeded, and reports success exactly when every statement it sent succeeded.
\<close>

theorem CreateTable_order:
  "case CreateTable srv w t True h of (err, h') \<Rightarrow>
     h' = h @ GenerateDropTableWithNaming (tbl_Name t) (pgSchema w) (naming w) #
       (if pg_exec srv h (GenerateDropTableWithNaming (tbl_Name t) (pgSchema w) (naming w)) = None
        then [create_table_stmt w t] else []) \<and>
     (err = None \<longleftrightarrow>
       pg_exec srv h (GenerateDropTableWithNaming (tbl_Name t) (pgSchema w) (naming w)) = None \<and>
       pg_exec srv (h @ [GenerateDropTableWithNaming (tbl_Name t) (pgSchema w) (naming w)]) (create_table_stmt w t) = None)"
  by (auto simp: CreateTable_def ExecDDL_def wrap_then_def Let_def split: option.splits)

end
