(* ===== verification/Goroutines.thy ===== *)
theory Goroutines
  imports Main
begin

text \<open>
  What the models of concurrent code share. Goroutines and their channels are a step relation on an explicit state;
  a schedule is a sequence of steps, and a property of the program holds in every state that some schedule reaches. The
  locales give the induction over schedules, and what a measure that every step decreases is good for.
\<close>

locale goroutines =
  fixes step :: "'s \<Rightarrow> 's \<Rightarrow> bool"
    and start :: "'s"
    and reaches :: "'s \<Rightarrow> bool"
  assumes reaches: "reaches s \<longleftrightarrow> step\<^sup>*\<^sup>* start s"
begin

lemma reaches_start: "reaches start"
  by (simp add: reaches)

lemma reaches_step: "reaches s \<Longrightarrow> step s s' \<Longrightarrow> reaches s'"
  by (simp add: reaches)

lemma reaches_induct [consumes 1, case_names start step]:
  assumes "reaches s" and "P start"
    and "\<And>s s'. reaches s \<Longrightarrow> P s \<Longrightarrow> step s s' \<Longrightarrow> P s'"
  shows "P s"
  using assms(1) unfolding reaches
  by (induction rule: rtranclp_induct) (use assms(2,3) in \<open>auto simp: reaches\<close>)

text \<open>An invariant: it holds at the start and every step from a reached state keeps it.\<close>

lemma invariant:
  assumes "reaches s" and "I start" and "\<And>s s'. step s s' \<Longrightarrow> I s \<Longrightarrow> I s'"
  shows "I s"
  using assms by (induction rule: reaches_induct) blast+

end

locale terminating = goroutines +
  fixes work :: "'s \<Rightarrow> nat"
  assumes decreases: "step s s' \<Longrightarrow> work s' < work s"
begin

text \<open>No schedule is longer than the work there is at the start.\<close>

lemma schedule_bounded: "(step ^^ n) start s \<Longrightarrow> n + work s \<le> work start"
proof (induction n arbitrary: s)
  case (Suc n)
  then obtain s' where "(step ^^ n) start s'" "step s' s" by auto
  with Suc.IH decreases [of s' s] show ?case by fastforce
qed simp

text \<open>From every reached state some schedule leads to one where nothing is left to do.\<close>

lemma settles: "reaches s \<Longrightarrow> \<exists>s'. reaches s' \<and> step\<^sup>*\<^sup>* s s' \<and> (\<nexists>s''. step s' s'')"
proof (induction "work s" arbitrary: s rule: less_induct)
  case less
  show ?case
  proof (cases "\<exists>s'. step s s'")
    case True
    then obtain s' where s': "step s s'" by blast
    from less.hyps [OF decreases [OF s'] reaches_step [OF less.prems s']] s' show ?thesis
      by (meson converse_rtranclp_into_rtranclp)
  qed (use less.prems in blast)
qed

end

end
