(* ===== verification/Copy_Data.thy ===== *)
theory Copy_Data
  imports Pg_Writer Goroutines
begin

text \<open>
  \<open>CopyData\<close> of \<open>internal/postgres/writer.go\<close> and the value transformation of
  \<open>internal/transform/transform.go\<close>. The two goroutines and their channels are a step relation: the
  reader takes rows from the Oracle channel, fills batches and sends them into a bounded channel, the
  writer takes batches and commits each in its own transaction with up to three retries. Time, the
  waiting and the connections are left out: a failed attempt (connection, COPY or commit) is one
  step. A commit that reports an error although the server applied it is a separate step, allowed
  when the parameter \<open>lossy\<close> is true.
\<close>

section \<open>Values\<close>

datatype go_value = VNil | VString string | VBytes string | VOther nat \<comment> \<open>any other dynamic value, by its identity\<close>

definition TransformValue :: "go_value \<Rightarrow> go_value" where
  "TransformValue v =
     (case v of
        VString s \<Rightarrow> if s = '''' then VNil else v
      | VBytes b \<Rightarrow> if length b = 0 then VNil else v
      | _ \<Rightarrow> v)"

text \<open>\<open>columns[i]\<close> panics (\<open>None\<close>) for a value beyond the columns; \<open>nil\<close> values are skipped.\<close>

definition TransformRowInline :: "go_value list \<Rightarrow> Column list \<Rightarrow> go_value list option" where
  "TransformRowInline row columns =
     (if list_all (\<lambda>v. v = VNil) (drop (length columns) row)
      then Some (map (\<lambda>v. if v = VNil then VNil else TransformValue v) row) else None)"

definition estimateRowBytes :: "go_value list \<Rightarrow> int" where
  "estimateRowBytes row =
     sum_list (map (\<lambda>v. case v of VNil \<Rightarrow> 4 | VString s \<Rightarrow> int (length s) | VBytes b \<Rightarrow> int (length b)
                                 | VOther _ \<Rightarrow> 16) row)"

section \<open>The goroutines\<close>

type_synonym row = "go_value list"

record copy_params =
  batchSize :: nat
  maxBatchBytes :: int
  copy_columns :: "Column list"
  bufCap :: nat

text \<open>\<open>batchSize <= 0\<close> becomes 50000; the channel holds 4 batches for unlogged tables, otherwise 2.\<close>

definition CopyParams :: "Writer \<Rightarrow> Table \<Rightarrow> int \<Rightarrow> int \<Rightarrow> copy_params" where
  "CopyParams w t bs maxBytes = \<lparr>batchSize = (if bs \<le> 0 then 50000 else nat bs), maxBatchBytes = maxBytes,
     copy_columns = Columns t, bufCap = (if unlogged w then 4 else 2)\<rparr>"

definition maxRetries :: nat where "maxRetries = 3"

datatype reader_pc = Reading | Sending | SendingLast | Closing | Waiting | Returned "string + nat" | Panicked

datatype writer_pc = Idle | Writing "row list" nat | Draining | Done

record copy_state =
  source :: "(string + row) list" \<comment> \<open>what the Oracle channel still delivers before it closes\<close>
  batch :: "row list"
  batchBytes :: int
  batchCh :: "row list list"
  ch_closed :: bool
  writerErrCh :: "string option"
  readErr :: "string option"
  reader :: reader_pc
  writer :: writer_pc
  wr_err :: "string option"
  wr_rows :: nat
  committed :: "row list list"
  cancelled :: bool

definition copy_start :: "(string + row) list \<Rightarrow> copy_state" where
  "copy_start src = \<lparr>source = src, batch = [], batchBytes = 0, batchCh = [], ch_closed = False,
     writerErrCh = None, readErr = None, reader = Reading, writer = Idle, wr_err = None, wr_rows = 0,
     committed = [], cancelled = False\<rparr>"

definition batch_full :: "copy_params \<Rightarrow> row list \<Rightarrow> int \<Rightarrow> bool" where
  "batch_full p b bytes \<longleftrightarrow>
     length b \<ge> batchSize p \<or> (maxBatchBytes p > 0 \<and> bytes \<ge> maxBatchBytes p)"

definition fail_read :: "string \<Rightarrow> copy_state \<Rightarrow> copy_state" where
  "fail_read e s = s\<lparr>readErr := Some e, reader := Closing\<rparr>"

definition give_up :: "string \<Rightarrow> copy_state \<Rightarrow> copy_state" where
  "give_up e s = s\<lparr>wr_err := Some e, writerErrCh := Some e, writer := Draining\<rparr>"

definition copy_result :: "copy_state \<Rightarrow> string + nat" where
  "copy_result s =
     (case readErr s of
        Some e \<Rightarrow> Inl (''oracle read error during COPY: '' @ e)
      | None \<Rightarrow> (case wr_err s of Some e \<Rightarrow> Inl e | None \<Rightarrow> Inr (wr_rows s)))"

inductive copy_step :: "copy_params \<Rightarrow> bool \<Rightarrow> copy_state \<Rightarrow> copy_state \<Rightarrow> bool" for p :: copy_params and lossy :: bool where
  read_row: "reader s = Reading \<Longrightarrow> source s = Inr r # rest \<Longrightarrow> TransformRowInline r (copy_columns p) = Some r' \<Longrightarrow>
    b = batch s @ [r'] \<Longrightarrow>
    bytes = (if maxBatchBytes p > 0 then batchBytes s + estimateRowBytes r' else batchBytes s) \<Longrightarrow>
    copy_step p lossy s (s\<lparr>source := rest, batch := b, batchBytes := bytes,
      reader := (if batch_full p b bytes then Sending else Reading)\<rparr>)"
| read_panic: "reader s = Reading \<Longrightarrow> source s = Inr r # rest \<Longrightarrow> TransformRowInline r (copy_columns p) = None \<Longrightarrow>
    copy_step p lossy s (s\<lparr>reader := Panicked\<rparr>)"
| read_error: "reader s = Reading \<Longrightarrow> source s = Inl e # rest \<Longrightarrow>
    copy_step p lossy s (fail_read e (s\<lparr>source := rest\<rparr>))"
| read_end: "reader s = Reading \<Longrightarrow> source s = [] \<Longrightarrow>
    copy_step p lossy s (s\<lparr>reader := (if batch s \<noteq> [] then SendingLast else Closing)\<rparr>)"
| send: "reader s = Sending \<Longrightarrow> length (batchCh s) < bufCap p \<Longrightarrow>
    copy_step p lossy s (s\<lparr>batchCh := batchCh s @ [batch s], batch := [], batchBytes := 0, reader := Reading\<rparr>)"
| send_last: "reader s = SendingLast \<Longrightarrow> length (batchCh s) < bufCap p \<Longrightarrow>
    copy_step p lossy s (s\<lparr>batchCh := batchCh s @ [batch s], batch := [], reader := Closing\<rparr>)"
| see_writer_error: "reader s \<in> {Reading, Sending, SendingLast} \<Longrightarrow> writerErrCh s = Some e \<Longrightarrow>
    copy_step p lossy s (fail_read e (s\<lparr>writerErrCh := None\<rparr>))"
| see_cancel: "reader s \<in> {Reading, Sending, SendingLast} \<Longrightarrow> cancelled s \<Longrightarrow>
    copy_step p lossy s (fail_read ''context canceled'' s)"
| close_batches: "reader s = Closing \<Longrightarrow> copy_step p lossy s (s\<lparr>ch_closed := True, reader := Waiting\<rparr>)"
| finish: "reader s = Waiting \<Longrightarrow> writer s = Done \<Longrightarrow> copy_step p lossy s (s\<lparr>reader := Returned (copy_result s)\<rparr>)"
| w_take: "writer s = Idle \<Longrightarrow> batchCh s = b # q \<Longrightarrow> copy_step p lossy s (s\<lparr>batchCh := q, writer := Writing b 0\<rparr>)"
| w_end: "writer s = Idle \<Longrightarrow> batchCh s = [] \<Longrightarrow> ch_closed s \<Longrightarrow> copy_step p lossy s (s\<lparr>writer := Done\<rparr>)"
| w_commit: "writer s = Writing b k \<Longrightarrow>
    copy_step p lossy s (s\<lparr>committed := committed s @ [b], wr_rows := wr_rows s + length b, writer := Idle\<rparr>)"
| w_retry: "writer s = Writing b k \<Longrightarrow> k < maxRetries \<Longrightarrow> copy_step p lossy s (s\<lparr>writer := Writing b (k + 1)\<rparr>)"
| w_give_up: "writer s = Writing b k \<Longrightarrow> k = maxRetries \<Longrightarrow>
    copy_step p lossy s (give_up (''COPY failed after 3 retries: '' @ e) s)"
| w_cancel: "writer s = Writing b k \<Longrightarrow> k > 0 \<Longrightarrow> cancelled s \<Longrightarrow> copy_step p lossy s (give_up ''context canceled'' s)"
| w_lost_commit: "lossy \<Longrightarrow> writer s = Writing b k \<Longrightarrow> k < maxRetries \<Longrightarrow>
    copy_step p lossy s (s\<lparr>committed := committed s @ [b], writer := Writing b (k + 1)\<rparr>)"
| w_lost_last: "lossy \<Longrightarrow> writer s = Writing b k \<Longrightarrow> k = maxRetries \<Longrightarrow>
    copy_step p lossy s (give_up (''COPY failed after 3 retries: commit: '' @ e) (s\<lparr>committed := committed s @ [b]\<rparr>))"
| w_drain: "writer s = Draining \<Longrightarrow> batchCh s = b # q \<Longrightarrow> copy_step p lossy s (s\<lparr>batchCh := q\<rparr>)"
| w_drained: "writer s = Draining \<Longrightarrow> batchCh s = [] \<Longrightarrow> ch_closed s \<Longrightarrow> copy_step p lossy s (s\<lparr>writer := Done\<rparr>)"
| cancel: "\<not> cancelled s \<Longrightarrow> copy_step p lossy s (s\<lparr>cancelled := True\<rparr>)"

definition copy_reaches :: "copy_params \<Rightarrow> bool \<Rightarrow> (string + row) list \<Rightarrow> copy_state \<Rightarrow> bool" where
  "copy_reaches p lossy src s \<longleftrightarrow> (copy_step p lossy)\<^sup>*\<^sup>* (copy_start src) s"

interpretation copy_run: goroutines "copy_step p lossy" "copy_start src" "copy_reaches p lossy src" for p lossy src
  by unfold_locales (simp add: copy_reaches_def)

lemmas copy_defs = fail_read_def give_up_def

section \<open>Invariants\<close>

text \<open>Control: what the program counters say about the channel and the errors.\<close>

fun pc_active :: "reader_pc \<Rightarrow> bool" where
  "pc_active Reading = True" | "pc_active Sending = True" | "pc_active SendingLast = True"
| "pc_active Closing = False" | "pc_active Waiting = False" | "pc_active (Returned r) = False"
| "pc_active Panicked = False"

fun pc_closed :: "reader_pc \<Rightarrow> bool" where
  "pc_closed Waiting = True" | "pc_closed (Returned r) = True"
| "pc_closed Reading = False" | "pc_closed Sending = False" | "pc_closed SendingLast = False"
| "pc_closed Closing = False" | "pc_closed Panicked = False"

fun pc_result :: "reader_pc \<Rightarrow> (string + nat) option" where
  "pc_result (Returned r) = Some r"
| "pc_result Reading = None" | "pc_result Sending = None" | "pc_result SendingLast = None"
| "pc_result Closing = None" | "pc_result Waiting = None" | "pc_result Panicked = None"

definition reader_control :: "copy_state \<Rightarrow> bool" where
  "reader_control s \<longleftrightarrow>
     (ch_closed s \<longleftrightarrow> pc_closed (reader s)) \<and>
     (reader s = SendingLast \<longrightarrow> source s = []) \<and>
     (pc_active (reader s) \<longrightarrow> readErr s = None) \<and>
     (readErr s = None \<longrightarrow> reader s = Closing \<or> pc_closed (reader s) \<longrightarrow> source s = [] \<and> batch s = [])"

definition writer_control :: "copy_state \<Rightarrow> bool" where
  "writer_control s \<longleftrightarrow>
     (writer s = Done \<longrightarrow> ch_closed s \<and> batchCh s = []) \<and>
     (writer s = Draining \<longrightarrow> wr_err s \<noteq> None) \<and>
     (wr_err s \<noteq> None \<longrightarrow> writer s = Draining \<or> writer s = Done)"

definition result_control :: "copy_state \<Rightarrow> bool" where
  "result_control s \<longleftrightarrow>
     (case pc_result (reader s) of None \<Rightarrow> True | Some r \<Rightarrow> writer s = Done \<and> r = copy_result s)"

definition copy_control :: "copy_state \<Rightarrow> bool" where
  "copy_control s \<longleftrightarrow> reader_control s \<and> writer_control s \<and> result_control s"

lemma copy_control_start: "copy_control (copy_start src)"
  by (simp add: copy_control_def reader_control_def writer_control_def result_control_def copy_start_def)

lemma reader_control_step: "copy_step p lossy s s' \<Longrightarrow> reader_control s \<Longrightarrow> reader_control s'"
  by (erule copy_step.cases) (auto simp: reader_control_def copy_defs)

lemma writer_control_step:
  "copy_step p lossy s s' \<Longrightarrow> reader_control s \<Longrightarrow> writer_control s \<Longrightarrow> writer_control s'"
  by (erule copy_step.cases) (auto simp: reader_control_def writer_control_def copy_defs)

lemma result_control_step:
  "copy_step p lossy s s' \<Longrightarrow> writer_control s \<Longrightarrow> result_control s \<Longrightarrow> result_control s'"
  by (erule copy_step.cases)
    (auto simp: writer_control_def result_control_def copy_result_def copy_defs split: option.splits)

lemma copy_control: "copy_reaches p lossy src s \<Longrightarrow> copy_control s"
proof (induction rule: copy_run.reaches_induct)
  case start
  show ?case by (rule copy_control_start)
next
  case (step s s')
  then show ?case
    unfolding copy_control_def by (blast intro: reader_control_step writer_control_step result_control_step)
qed

text \<open>Rows: nothing is lost, reordered or repeated between the source and the committed batches.\<close>

definition in_flight :: "copy_state \<Rightarrow> row list" where
  "in_flight s = (case writer s of Writing b k \<Rightarrow> b | _ \<Rightarrow> [])"

definition copy_rows :: "copy_params \<Rightarrow> (string + row) list \<Rightarrow> copy_state \<Rightarrow> bool" where
  "copy_rows p src s \<longleftrightarrow>
     (\<exists>pre mid rows dropped.
        src = map Inr pre @ mid @ source s \<and>
        (mid = [] \<or> (\<exists>e. mid = [Inl e]) \<and> readErr s \<noteq> None) \<and>
        map (\<lambda>r. TransformRowInline r (copy_columns p)) pre = map Some rows \<and>
        rows = concat (committed s) @ dropped \<and>
        (wr_err s = None \<longrightarrow> dropped = in_flight s @ concat (batchCh s) @ batch s) \<and>
        wr_rows s = length (concat (committed s)))"

lemma copy_rowsI:
  "src = map Inr pre @ mid @ source s \<Longrightarrow> mid = [] \<or> (\<exists>e. mid = [Inl e]) \<and> readErr s \<noteq> None \<Longrightarrow>
   map (\<lambda>r. TransformRowInline r (copy_columns p)) pre = map Some rows \<Longrightarrow>
   rows = concat (committed s) @ dropped \<Longrightarrow>
   (wr_err s = None \<Longrightarrow> dropped = in_flight s @ concat (batchCh s) @ batch s) \<Longrightarrow>
   wr_rows s = length (concat (committed s)) \<Longrightarrow> copy_rows p src s"
  unfolding copy_rows_def
  by (rule exI [of _ pre], rule exI [of _ mid], rule exI [of _ rows], rule exI [of _ dropped]) (intro conjI impI; simp)

lemma copy_rows_start: "copy_rows p src (copy_start src)"
  by (rule copy_rowsI [where pre = "[]" and mid = "[]" and rows = "[]" and dropped = "[]"])
    (simp_all add: copy_start_def in_flight_def)

lemma copy_rows_step:
  assumes "copy_step p False s s'" and "reader_control s" "writer_control s" and "copy_rows p src s"
  shows "copy_rows p src s'"
proof -
  obtain pre mid rows dropped where inv:
    "src = map Inr pre @ mid @ source s" "mid = [] \<or> (\<exists>e. mid = [Inl e]) \<and> readErr s \<noteq> None"
    "map (\<lambda>r. TransformRowInline r (copy_columns p)) pre = map Some rows"
    "rows = concat (committed s) @ dropped"
    "wr_err s = None \<longrightarrow> dropped = in_flight s @ concat (batchCh s) @ batch s"
    "wr_rows s = length (concat (committed s))"
    using assms(4) unfolding copy_rows_def by - (elim exE conjE, rule that)
  note I = copy_rowsI [where pre = pre and mid = mid and rows = rows and dropped = dropped]
  show ?thesis
    using assms(1)
  proof cases
    case (read_row r rest r' b bytes)
    have "mid = []" using inv(2) assms(2) read_row(2) by (auto simp: reader_control_def)
    then show ?thesis
      using inv read_row
      by (intro copy_rowsI [where pre = "pre @ [r]" and mid = "[]" and rows = "rows @ [r']" and dropped = "dropped @ [r']"])
        (auto simp: in_flight_def)
  next
    case (read_error e rest)
    have "mid = []" using inv(2) assms(2) read_error(2) by (auto simp: reader_control_def)
    then show ?thesis
      using inv read_error
      by (intro copy_rowsI [where pre = pre and mid = "[Inl e]" and rows = rows and dropped = dropped])
        (auto simp: in_flight_def copy_defs)
  next
    case (w_commit b k)
    have "wr_err s = None" using assms(3) w_commit(2) by (auto simp: writer_control_def)
    then show ?thesis
      using inv w_commit
      by (intro copy_rowsI [where pre = pre and mid = mid and rows = rows and dropped = "concat (batchCh s) @ batch s"])
        (auto simp: in_flight_def)
  next
    case (w_drain b q)
    have "wr_err s \<noteq> None" using assms(3) w_drain(2) by (auto simp: writer_control_def)
    then show ?thesis using inv w_drain by (intro I) auto
  qed (use inv in \<open>auto simp: in_flight_def copy_defs intro!: I\<close>)
qed

lemma copy_rows: "copy_reaches p False src s \<Longrightarrow> copy_rows p src s"
proof (induction rule: copy_run.reaches_induct)
  case start
  show ?case by (rule copy_rows_start)
next
  case (step s s')
  then show ?case using copy_control copy_rows_step unfolding copy_control_def by blast
qed

text \<open>Sizes: every batch is non-empty and no longer than the batch size.\<close>

definition batch_ok :: "copy_params \<Rightarrow> row list \<Rightarrow> bool" where
  "batch_ok p b \<longleftrightarrow> b \<noteq> [] \<and> length b \<le> batchSize p"

definition copy_sizes :: "copy_params \<Rightarrow> copy_state \<Rightarrow> bool" where
  "copy_sizes p s \<longleftrightarrow>
     length (batch s) \<le> batchSize p \<and>
     (reader s = Reading \<longrightarrow> length (batch s) < batchSize p) \<and>
     (reader s \<in> {Sending, SendingLast} \<longrightarrow> batch s \<noteq> []) \<and>
     list_all (batch_ok p) (batchCh s) \<and> length (batchCh s) \<le> bufCap p \<and>
     (case writer s of Writing b k \<Rightarrow> batch_ok p b \<and> k \<le> maxRetries | _ \<Rightarrow> True) \<and>
     list_all (batch_ok p) (committed s)"

lemma copy_sizes_step: "copy_step p lossy s s' \<Longrightarrow> 0 < batchSize p \<Longrightarrow> copy_sizes p s \<Longrightarrow> copy_sizes p s'"
  by (erule copy_step.cases) (auto simp: copy_sizes_def copy_defs batch_ok_def batch_full_def split: if_splits)

lemma copy_sizes: "copy_reaches p lossy src s \<Longrightarrow> 0 < batchSize p \<Longrightarrow> copy_sizes p s"
proof (induction rule: copy_run.reaches_induct)
  case start
  then show ?case by (simp add: copy_sizes_def copy_start_def)
next
  case (step s s')
  then show ?case using copy_sizes_step by blast
qed

section \<open>Progress and termination\<close>

text \<open>Every step makes this number smaller.\<close>

fun reader_work :: "reader_pc \<Rightarrow> nat" where
  "reader_work Sending = 7" | "reader_work Reading = 6" | "reader_work SendingLast = 5"
| "reader_work Closing = 2" | "reader_work Waiting = 1" | "reader_work (Returned r) = 0"
| "reader_work Panicked = 0"

fun writer_work :: "writer_pc \<Rightarrow> nat" where
  "writer_work (Writing b k) = 2 + (maxRetries + 1 - k)"
| "writer_work Idle = 1" | "writer_work Draining = 1" | "writer_work Done = 0"

definition copy_work :: "copy_state \<Rightarrow> nat" where
  "copy_work s = 20 * length (source s) + (if batch s \<noteq> [] then 12 else 0) + 8 * length (batchCh s) +
     reader_work (reader s) + writer_work (writer s) + (if cancelled s then 0 else 1)"

lemma copy_work_decreases: "copy_step p lossy s s' \<Longrightarrow> copy_sizes p s \<Longrightarrow> copy_work s' < copy_work s"
  by (erule copy_step.cases) (auto simp: copy_work_def copy_sizes_def copy_defs maxRetries_def split: if_splits)

lemma copy_can_step:
  assumes "copy_control s" "copy_sizes p s" and "0 < bufCap p"
    and "pc_result (reader s) = None" "reader s \<noteq> Panicked"
  shows "\<exists>s'. copy_step p lossy s s'"
proof -
  have full: "\<exists>s'. copy_step p lossy s s'" if "\<not> ch_closed s" and len: "\<not> length (batchCh s) < bufCap p"
  proof -
    obtain b q where b: "batchCh s = b # q" using len assms(3) by (cases "batchCh s") auto
    show ?thesis
      using assms(1) that(1) b
      by (cases "writer s")
        (auto simp: copy_control_def writer_control_def intro: w_take w_commit w_drain)
  qed
  have closed: "\<exists>s'. copy_step p lossy s s'" if "ch_closed s" "writer s \<noteq> Done"
    using that by (cases "writer s"; cases "batchCh s") (auto intro: w_take w_end w_commit w_drain w_drained)
  have open_iff: "ch_closed s \<longleftrightarrow> pc_closed (reader s)" using assms(1) by (simp add: copy_control_def reader_control_def)
  show ?thesis
  proof (cases "reader s")
    case Reading
    show ?thesis
    proof (cases "source s")
      case Nil
      then show ?thesis using read_end Reading by blast
    next
      case (Cons x rest)
      show ?thesis
      proof (cases x)
        case (Inl e)
        then show ?thesis using read_error Reading Cons by blast
      next
        case (Inr r)
        then show ?thesis
          using Reading Cons read_row read_panic by (cases "TransformRowInline r (copy_columns p)") blast+
      qed
    qed
  next
    case Sending
    then show ?thesis using send full open_iff by (cases "length (batchCh s) < bufCap p") auto
  next
    case SendingLast
    then show ?thesis using send_last full open_iff by (cases "length (batchCh s) < bufCap p") auto
  next
    case Closing
    then show ?thesis using close_batches by blast
  next
    case Waiting
    then show ?thesis using finish closed open_iff by (cases "writer s = Done") auto
  qed (use assms(4,5) in auto)
qed

section \<open>Properties\<close>

lemma copy_success:
  assumes "copy_reaches p False src s" and "reader s = Returned (Inr n)"
  shows "\<exists>rows. src = map Inr rows \<and>
    map (\<lambda>r. TransformRowInline r (copy_columns p)) rows = map Some (concat (committed s)) \<and> n = length rows"
proof -
  have ctl: "reader_control s" "writer_control s" "result_control s"
    using copy_control [OF assms(1)] by (simp_all add: copy_control_def)
  have "copy_result s = Inr n" and w: "writer s = Done"
    using ctl(3) assms(2) by (simp_all add: result_control_def)
  then have err: "readErr s = None" "wr_err s = None" "n = wr_rows s"
    by (simp_all add: copy_result_def split: option.splits)
  have "source s = []" "batch s = []" using ctl(1) assms(2) err(1) by (auto simp: reader_control_def)
  moreover have "batchCh s = []" using ctl(2) w by (simp add: writer_control_def)
  moreover obtain pre mid rows dropped where
    "src = map Inr pre @ mid @ source s" "mid = [] \<or> (\<exists>e. mid = [Inl e]) \<and> readErr s \<noteq> None"
    "map (\<lambda>r. TransformRowInline r (copy_columns p)) pre = map Some rows"
    "rows = concat (committed s) @ dropped"
    "wr_err s = None \<longrightarrow> dropped = in_flight s @ concat (batchCh s) @ batch s"
    "wr_rows s = length (concat (committed s))"
    using copy_rows [OF assms(1)] unfolding copy_rows_def by - (elim exE conjE, rule that)
  ultimately show ?thesis
    using err w by (intro exI [of _ pre]) (auto simp: in_flight_def dest: map_eq_imp_length_eq)
qed

text \<open>
  C4. When \<open>CopyData\<close> returns without error, every row that Oracle delivered has been committed, in
  order and exactly once, with its values transformed, and the reported number of rows is their
  number; the retries of failed batches, the bounded channel and the interleaving of the two goroutines
  do not matter (a commit whose success was reported as an error excepted).
\<close>

theorem CopyData_exactly_once:
  assumes "copy_reaches p False src s" and "reader s = Returned (Inr n)"
  shows "\<exists>rows. src = map Inr rows \<and>
    map (\<lambda>r. TransformRowInline r (copy_columns p)) rows = map Some (concat (committed s)) \<and> n = length rows"
  using copy_success [OF assms] .

definition demo_params :: copy_params where
  "demo_params = \<lparr>batchSize = 2, maxBatchBytes = 0, copy_columns = [], bufCap = 2\<rparr>"

text \<open>One row, read, sent as the last batch and committed.\<close>

definition demo_row :: row where "demo_row = [VNil]"

lemma demo_transform: "TransformRowInline demo_row (copy_columns demo_params) = Some demo_row"
  by (simp add: TransformRowInline_def demo_row_def demo_params_def)

lemma demo_sent: "copy_reaches demo_params lossy [Inr demo_row]
  ((copy_start [])\<lparr>batchCh := [[demo_row]], ch_closed := True, reader := Waiting\<rparr>)"
proof -
  let ?p = demo_params and ?s0 = "copy_start [Inr demo_row]"
  let ?s1 = "?s0\<lparr>source := [], batch := [demo_row], batchBytes := 0, reader := Reading\<rparr>"
  let ?s2 = "?s1\<lparr>reader := SendingLast\<rparr>"
  let ?s3 = "?s2\<lparr>batchCh := [[demo_row]], batch := [], reader := Closing\<rparr>"
  have 1: "copy_step ?p lossy ?s0 ?s1"
    using read_row [of ?s0 demo_row "[]" ?p demo_row "[demo_row]" 0 lossy] demo_transform
    by (simp add: copy_start_def batch_full_def demo_params_def)
  have 2: "copy_step ?p lossy ?s1 ?s2" using read_end [of ?s1 ?p lossy] by (simp add: copy_start_def)
  have 3: "copy_step ?p lossy ?s2 ?s3" using send_last [of ?s2 ?p lossy] by (simp add: copy_start_def demo_params_def)
  have 4: "copy_step ?p lossy ?s3 (?s3\<lparr>ch_closed := True, reader := Waiting\<rparr>)"
    using close_batches [of ?s3 ?p lossy] by (simp add: copy_start_def)
  have "(copy_step ?p lossy)\<^sup>*\<^sup>* ?s0 (?s3\<lparr>ch_closed := True, reader := Waiting\<rparr>)"
    using 1 2 3 4 by (meson rtranclp.rtrancl_into_rtrancl rtranclp.rtrancl_refl)
  then show ?thesis by (simp add: copy_reaches_def copy_start_def)
qed

text \<open>From a state in which the last batch is being written and the reader waits.\<close>

lemma demo_finish:
  assumes "copy_reaches demo_params lossy [Inr demo_row] s" and "writer s = Writing [demo_row] k" "batchCh s = []"
    and "ch_closed s" "reader s = Waiting" "readErr s = None" "wr_err s = None" "wr_rows s = 0"
  shows "\<exists>s'. copy_reaches demo_params lossy [Inr demo_row] s' \<and> reader s' = Returned (Inr 1) \<and>
    committed s' = committed s @ [[demo_row]]"
proof -
  let ?s1 = "s\<lparr>committed := committed s @ [[demo_row]], wr_rows := 1, writer := Idle\<rparr>"
  let ?s2 = "?s1\<lparr>writer := Done\<rparr>"
  have "copy_step demo_params lossy s ?s1" using w_commit [OF assms(2)] assms(8) by simp
  moreover have "copy_step demo_params lossy ?s1 ?s2" using w_end [of ?s1] assms(3,4) by simp
  moreover have "copy_step demo_params lossy ?s2 (?s2\<lparr>reader := Returned (copy_result ?s2)\<rparr>)"
    using finish [of ?s2] assms(5) by simp
  ultimately have "copy_reaches demo_params lossy [Inr demo_row] (?s2\<lparr>reader := Returned (copy_result ?s2)\<rparr>)"
    using assms(1) by (meson copy_run.reaches_step)
  then show ?thesis using assms(6,7) by (intro exI) (auto simp: copy_result_def)
qed

theorem CopyData_exactly_once_witness:
  "\<exists>s rows. copy_reaches demo_params False [Inr demo_row] s \<and>
    ([Inr demo_row] :: (string + row) list) = map Inr rows \<and>
    map (\<lambda>r. TransformRowInline r (copy_columns demo_params)) rows = map Some (concat (committed s)) \<and> 1 = length rows"
proof -
  let ?s = "(copy_start [])\<lparr>batchCh := [[demo_row]], ch_closed := True, reader := Waiting\<rparr>"
  have "copy_step demo_params False ?s (?s\<lparr>batchCh := [], writer := Writing [demo_row] 0\<rparr>)"
    using w_take [of ?s] by (simp add: copy_start_def)
  with demo_sent have "copy_reaches demo_params False [Inr demo_row] (?s\<lparr>batchCh := [], writer := Writing [demo_row] 0\<rparr>)"
    by (rule copy_run.reaches_step)
  from demo_finish [OF this, of 0] obtain s where s:
    "copy_reaches demo_params False [Inr demo_row] s" "reader s = Returned (Inr 1)"
    by (auto simp: copy_start_def)
  from CopyData_exactly_once [OF s] show ?thesis
    by - (elim exE conjE, intro exI conjI, rule s(1))
qed

text \<open>
  C34. A commit that the server applied but whose reply was lost is retried, and the batch is stored
  twice: \<open>CopyData\<close> returns success with a row count of one while the table holds the row twice. (Keys
  are created only after the load, so nothing refuses the second copy.)
\<close>

theorem lost_commit_duplicates:
  "\<exists>s. copy_reaches demo_params True [Inr demo_row] s \<and> reader s = Returned (Inr 1) \<and>
    concat (committed s) = [demo_row, demo_row]"
proof -
  let ?s = "(copy_start [])\<lparr>batchCh := [[demo_row]], ch_closed := True, reader := Waiting\<rparr>"
  let ?s1 = "?s\<lparr>batchCh := [], writer := Writing [demo_row] 0\<rparr>"
  let ?s2 = "?s1\<lparr>committed := [[demo_row]], writer := Writing [demo_row] 1\<rparr>"
  have "copy_step demo_params True ?s ?s1" using w_take [of ?s] by (simp add: copy_start_def)
  moreover have "copy_step demo_params True ?s1 ?s2"
    using w_lost_commit [of True ?s1 "[demo_row]" 0] by (simp add: copy_start_def maxRetries_def)
  ultimately have "copy_reaches demo_params True [Inr demo_row] ?s2"
    using demo_sent by (meson copy_run.reaches_step)
  from demo_finish [OF this, of 1] show ?thesis by (auto simp: copy_start_def)
qed

text \<open>
  C31. \<open>CopyData\<close> always comes to an end: its steps decrease a measure, so no execution goes on forever,
  and it never deadlocks, whatever fails and whenever: a state in which nothing can happen any more is
  one where it has returned (or the program has panicked on a row that is longer than the columns).
\<close>

theorem CopyData_terminates:
  assumes "0 < batchSize p" and "0 < bufCap p"
  shows "(\<forall>s s'. copy_reaches p lossy src s \<longrightarrow> copy_step p lossy s s' \<longrightarrow> copy_work s' < copy_work s) \<and>
    (\<forall>s. copy_reaches p lossy src s \<longrightarrow> (\<nexists>s'. copy_step p lossy s s') \<longrightarrow>
      reader s = Panicked \<or> (\<exists>r. reader s = Returned r))"
proof -
  have "pc_result pc \<noteq> None \<Longrightarrow> \<exists>r. pc = Returned r" for pc by (cases pc) auto
  then show ?thesis
    using copy_work_decreases copy_sizes [OF _ assms(1)] copy_can_step [OF copy_control copy_sizes [OF _ assms(1)] assms(2)]
    by metis
qed

theorem CopyData_terminates_witness:
  "copy_work ((copy_start [])\<lparr>reader := Closing\<rparr>) < copy_work (copy_start []) \<and>
   (\<exists>s'. copy_step demo_params False (copy_start []) s')"
proof -
  have b: "0 < batchSize demo_params" "0 < bufCap demo_params" by (simp_all add: demo_params_def)
  have r: "copy_reaches demo_params False [] (copy_start [])" by (simp add: copy_reaches_def)
  have step: "copy_step demo_params False (copy_start []) ((copy_start [])\<lparr>reader := Closing\<rparr>)"
    using read_end [of "copy_start []"] by (simp add: copy_start_def)
  show ?thesis using CopyData_terminates [OF b, of False "[]"] r step by blast
qed

text \<open>
  Memory stays bounded: no batch that is queued, written or committed is empty or longer than the
  batch size, and at most \<open>bufCap\<close> of them wait in the channel.
\<close>

theorem CopyData_bounded:
  assumes "copy_reaches p lossy src s" and "0 < batchSize p"
  shows "list_all (batch_ok p) (batchCh s) \<and> length (batchCh s) \<le> bufCap p \<and>
    list_all (batch_ok p) (committed s) \<and> length (batch s) \<le> batchSize p"
  using copy_sizes [OF assms] by (simp add: copy_sizes_def)

theorem CopyData_bounded_witness:
  "list_all (batch_ok demo_params) [[demo_row]]"
  using CopyData_bounded [OF demo_sent [of False]] by (simp add: demo_params_def)

end
