(* ===== verification/Oracle_Reader.thy ===== *)
theory Oracle_Reader
  imports Copy_Data Plan_Tasks
begin

text \<open>
  The readers of \<open>internal/oracle/reader.go\<close>: what \<open>Read\<close> and \<open>ReadPaginated\<close> send for given answers of the
  database, and the goroutine behind the channel they return, as a step relation with the consumer and the context.
  The lemmas: a channel that is closed without an error has delivered the whole result; a consumer that reads until
  the channel is closed always gets there; one that stops reading leaves the goroutine blocked, cancelled or not.
\<close>

section \<open>What the goroutines send\<close>

record Reader =
  fetchSize :: int

definition NewReader :: "int \<Rightarrow> Reader" where
  "NewReader n = \<lparr>fetchSize = (if n \<le> 0 then 10000 else n)\<rparr>"

text \<open>The capacity of the channel of \<open>Read\<close> with its variadic argument, and of the one of \<open>ReadPaginated\<close>.\<close>

definition Read_buffer :: "Reader \<Rightarrow> int list \<Rightarrow> int" where
  "Read_buffer rd fetchSizeOverride =
     (case fetchSizeOverride of [] \<Rightarrow> fetchSize rd | n # _ \<Rightarrow> if n > 0 then n else fetchSize rd)"

definition page_size :: "Reader \<Rightarrow> int \<Rightarrow> int" where
  "page_size rd pageSize = (if pageSize \<le> 0 then fetchSize rd else pageSize)"

text \<open>
  An opened query: the error of \<open>ColumnTypes\<close>, the rows that \<open>Next\<close> steps through, each with the outcome of
  \<open>Scan\<close>, and \<open>Err\<close> after the last one.
\<close>

record ora_cursor =
  col_err :: "string option"
  fetched :: "(string + row) list"
  iter_err :: "string option"

text \<open>The rows before the first scan error, and that error.\<close>

fun scan_rows :: "(string + row) list \<Rightarrow> row list \<times> string option" where
  "scan_rows [] = ([], None)"
| "scan_rows (Inl e # xs) = ([], Some e)"
| "scan_rows (Inr r # xs) = (let (rs, e) = scan_rows xs in (r # rs, e))"

definition Read_sends :: "Table \<Rightarrow> string + ora_cursor \<Rightarrow> (string + row) list" where
  "Read_sends t answer =
     (case answer of
        Inl e \<Rightarrow> [Inl (''query '' @ tbl_Name t @ '': '' @ e)]
      | Inr c \<Rightarrow>
          (case col_err c of
             Some e \<Rightarrow> [Inl (''column types '' @ tbl_Name t @ '': '' @ e)]
           | None \<Rightarrow>
               (case scan_rows (fetched c) of
                  (rs, Some e) \<Rightarrow> map Inr rs @ [Inl (''scan '' @ tbl_Name t @ '': '' @ e)]
                | (rs, None) \<Rightarrow>
                    (case iter_err c of
                       Some e \<Rightarrow> map Inr rs @ [Inl (''rows iteration '' @ tbl_Name t @ '': '' @ e)]
                     | None \<Rightarrow> map Inr rs))))"

definition page_query :: "string \<Rightarrow> int \<Rightarrow> int \<Rightarrow> string" where
  "page_query baseQuery offset pageSize =
     baseQuery @ '' ORDER BY ROWID OFFSET '' @ itoa offset @ '' ROWS FETCH NEXT '' @ itoa pageSize @ '' ROWS ONLY''"

text \<open>\<open>db\<close> is the database's answer to a query text; an endless sequence of full pages is \<open>None\<close>.\<close>

partial_function (option) page_sends ::
    "(string \<Rightarrow> string + ora_cursor) \<Rightarrow> Table \<Rightarrow> string \<Rightarrow> int \<Rightarrow> int \<Rightarrow> int \<Rightarrow> (string + row) list \<Rightarrow> (string + row) list option"
where
  "page_sends db t baseQuery pageSize offset batchNum acc =
     (let batchNum = i64 (batchNum + 1); batch = tbl_Name t @ '' batch '' @ itoa batchNum @ '': ''
      in case db (page_query baseQuery offset pageSize) of
           Inl e \<Rightarrow> Some (acc @ [Inl (''paginated query '' @ batch @ e)])
         | Inr c \<Rightarrow>
             (case col_err c of
                Some e \<Rightarrow> Some (acc @ [Inl (''column types '' @ tbl_Name t @ '': '' @ e)])
              | None \<Rightarrow>
                  (case scan_rows (fetched c) of
                     (rs, Some e) \<Rightarrow> Some (acc @ map Inr rs @ [Inl (''scan '' @ batch @ e)])
                   | (rs, None) \<Rightarrow>
                       (case iter_err c of
                          Some e \<Rightarrow> Some (acc @ map Inr rs @ [Inl (''rows iteration '' @ batch @ e)])
                        | None \<Rightarrow>
                            (if int (length rs) < pageSize then Some (acc @ map Inr rs)
                             else page_sends db t baseQuery pageSize (i64 (offset + pageSize)) batchNum (acc @ map Inr rs))))))"

definition ReadPaginated_sends ::
    "(string \<Rightarrow> string + ora_cursor) \<Rightarrow> Reader \<Rightarrow> Table \<Rightarrow> Partition option \<Rightarrow> string \<Rightarrow> int \<Rightarrow> (string + row) list option" where
  "ReadPaginated_sends db rd t part where' pageSize = page_sends db t (buildQuery t part where') (page_size rd pageSize) 0 0 []"

text \<open>\<open>EstimateCount\<close>: the two queries on the statistics, with their bind values, and the answer passed on.\<close>

definition EstimateCount ::
    "(string \<Rightarrow> string list \<Rightarrow> string + int) \<Rightarrow> string \<Rightarrow> string \<Rightarrow> Partition option \<Rightarrow> string + int" where
  "EstimateCount query_row owner tableName part =
     (case part of
        Some p \<Rightarrow> query_row (''SELECT NVL(num_rows, 0) FROM all_tab_partitions'' @ [CHR 0x0A, CHR 0x09, CHR 0x09, CHR 0x09] @
                    '' WHERE table_owner = :1 AND table_name = :2 AND partition_name = :3'') [owner, tableName, part_Name p]
      | None \<Rightarrow> query_row ''SELECT NVL(num_rows, 0) FROM all_tables WHERE owner = :1 AND table_name = :2'' [owner, tableName])"

section \<open>The goroutine and its channel\<close>

text \<open>
  \<open>todo\<close> is what the goroutine would still send; a row is sent in a \<open>select\<close> with the context, an error is sent
  without one, and then the channel is closed. A cancelled context may also show up as an error of the driver, in any
  call. \<open>gone\<close> says that the consumer has stopped receiving.
\<close>

datatype rd_pc = Producing | Failing string | Exited

record rd_state =
  todo :: "(string + row) list"
  rd_pc :: rd_pc
  chan :: "(string + row) list"
  received :: "(string + row) list"
  chan_closed :: bool
  gone :: bool
  rd_cancelled :: bool

definition rd_start :: "(string + row) list \<Rightarrow> rd_state" where
  "rd_start script = \<lparr>todo = script, rd_pc = Producing, chan = [], received = [], chan_closed = False, gone = False, rd_cancelled = False\<rparr>"

inductive rd_step :: "nat \<Rightarrow> rd_state \<Rightarrow> rd_state \<Rightarrow> bool" for cap :: nat where
  rd_row: "rd_pc s = Producing \<Longrightarrow> todo s = Inr r # xs \<Longrightarrow> length (chan s) < cap \<Longrightarrow>
    rd_step cap s (s\<lparr>todo := xs, chan := chan s @ [Inr r]\<rparr>)"
| rd_error: "rd_pc s = Producing \<Longrightarrow> todo s = Inl e # xs \<Longrightarrow> rd_step cap s (s\<lparr>todo := xs, rd_pc := Failing e\<rparr>)"
| rd_done: "rd_pc s = Producing \<Longrightarrow> rd_cancelled s \<Longrightarrow> rd_step cap s (s\<lparr>rd_pc := Failing ''context canceled''\<rparr>)"
| rd_driver: "rd_pc s = Producing \<Longrightarrow> rd_cancelled s \<Longrightarrow> rd_step cap s (s\<lparr>rd_pc := Failing e\<rparr>)"
| rd_send_error: "rd_pc s = Failing e \<Longrightarrow> length (chan s) < cap \<Longrightarrow>
    rd_step cap s (s\<lparr>chan := chan s @ [Inl e], rd_pc := Exited, chan_closed := True\<rparr>)"
| rd_end: "rd_pc s = Producing \<Longrightarrow> todo s = [] \<Longrightarrow> rd_step cap s (s\<lparr>rd_pc := Exited, chan_closed := True\<rparr>)"
| rd_take: "\<not> gone s \<Longrightarrow> chan s = x # q \<Longrightarrow> rd_step cap s (s\<lparr>chan := q, received := received s @ [x]\<rparr>)"
| rd_leave: "\<not> gone s \<Longrightarrow> rd_step cap s (s\<lparr>gone := True\<rparr>)"
| rd_cancel: "\<not> rd_cancelled s \<Longrightarrow> rd_step cap s (s\<lparr>rd_cancelled := True\<rparr>)"

definition rd_reaches :: "nat \<Rightarrow> (string + row) list \<Rightarrow> rd_state \<Rightarrow> bool" where
  "rd_reaches cap script s \<longleftrightarrow> (rd_step cap)\<^sup>*\<^sup>* (rd_start script) s"

interpretation rd_run: goroutines "rd_step cap" "rd_start script" "rd_reaches cap script" for cap script
  by unfold_locales (simp add: rd_reaches_def)

section \<open>The channel carries the result\<close>

text \<open>
  The rows sent so far are a beginning of what was to be sent; an error of the goroutine is the one the database
  reported, unless the context was cancelled, and comes last.
\<close>

fun carried :: "(string + row) list \<Rightarrow> rd_pc \<Rightarrow> (string + row) list \<Rightarrow> (string + row) list \<Rightarrow> bool \<Rightarrow> bool" where
  "carried script Producing sent rest cancel = (\<exists>rs. sent = map Inr rs \<and> script = map Inr rs @ rest)"
| "carried script (Failing e) sent rest cancel =
     (\<exists>rs xs. sent = map Inr rs \<and> script = map Inr rs @ xs \<and> (\<not> cancel \<longrightarrow> xs = Inl e # rest))"
| "carried script Exited sent rest cancel =
     (\<exists>rs. sent = map Inr rs \<and> script = map Inr rs \<or>
        (\<exists>e xs. sent = map Inr rs @ [Inl e] \<and> script = map Inr rs @ xs \<and> (\<not> cancel \<longrightarrow> xs = Inl e # rest)))"

definition rd_inv :: "(string + row) list \<Rightarrow> rd_state \<Rightarrow> bool" where
  "rd_inv script s \<longleftrightarrow> carried script (rd_pc s) (received s @ chan s) (todo s) (rd_cancelled s)"

lemma rd_inv_start: "rd_inv script (rd_start script)"
  by (simp add: rd_inv_def rd_start_def)

lemma carried_cancel: "carried script pc sent rest cancel \<Longrightarrow> carried script pc sent rest True"
  by (cases pc) auto

lemma rd_inv_step:
  assumes "rd_step cap s s'" and "rd_inv script s"
  shows "rd_inv script s'"
  using assms
proof cases
  case (rd_row r xs)
  then obtain rs where "received s @ chan s = map Inr rs" "script = map Inr rs @ Inr r # xs"
    using assms(2) by (auto simp: rd_inv_def)
  then show ?thesis using rd_row by (auto simp: rd_inv_def intro!: exI [of _ "rs @ [r]"] simp flip: append_assoc)
next
  case (rd_send_error e)
  then obtain rs rest where "received s @ chan s = map Inr rs" "script = map Inr rs @ rest"
      "\<not> rd_cancelled s \<longrightarrow> rest = Inl e # todo s"
    using assms(2) by (auto simp: rd_inv_def)
  then show ?thesis
    using rd_send_error by (auto simp: rd_inv_def intro!: exI [of _ rs] simp flip: append_assoc)
next
  case (rd_take x q)
  then show ?thesis using assms(2) by (simp add: rd_inv_def)
next
  case rd_cancel
  then show ?thesis using assms(2) carried_cancel by (auto simp: rd_inv_def)
qed (use assms(2) in \<open>auto simp: rd_inv_def\<close>)

lemma rd_inv: "rd_reaches cap script s \<Longrightarrow> rd_inv script s"
  by (erule rd_run.invariant, rule rd_inv_start, rule rd_inv_step)

definition rd_control :: "nat \<Rightarrow> rd_state \<Rightarrow> bool" where
  "rd_control cap s \<longleftrightarrow> (chan_closed s \<longleftrightarrow> rd_pc s = Exited) \<and> length (chan s) \<le> cap"

lemma rd_control_step: "rd_step cap s s' \<Longrightarrow> rd_control cap s \<Longrightarrow> rd_control cap s'"
  by (erule rd_step.cases) (auto simp: rd_control_def)

lemma rd_control: "rd_reaches cap script s \<Longrightarrow> rd_control cap s"
  by (erule rd_run.invariant) (simp add: rd_control_def rd_start_def, rule rd_control_step)

section \<open>Blocking\<close>

text \<open>Every step makes this number smaller.\<close>

definition rd_work :: "rd_state \<Rightarrow> nat" where
  "rd_work s = 2 * length (todo s) + length (chan s) +
     (case rd_pc s of Producing \<Rightarrow> 4 | Failing e \<Rightarrow> 2 | Exited \<Rightarrow> 0) + (if gone s then 0 else 1) + (if rd_cancelled s then 0 else 1)"

lemma rd_work_decreases: "rd_step cap s s' \<Longrightarrow> rd_work s' < rd_work s"
  by (erule rd_step.cases) (auto simp: rd_work_def)

interpretation rd_run: terminating "rd_step cap" "rd_start script" "rd_reaches cap script" rd_work for cap script
  by unfold_locales (rule rd_work_decreases)

text \<open>What the goroutine, and a consumer that is still there, can do.\<close>

definition rd_moves :: "nat \<Rightarrow> rd_state \<Rightarrow> bool" where
  "rd_moves cap s \<longleftrightarrow> (\<exists>s'. rd_step cap s s' \<and> gone s' = gone s \<and> rd_cancelled s' = rd_cancelled s)"

lemma rd_moves_intro: "rd_step cap s s' \<Longrightarrow> gone s' = gone s \<Longrightarrow> rd_cancelled s' = rd_cancelled s \<Longrightarrow> rd_moves cap s"
  by (auto simp: rd_moves_def)

lemma rd_moves_consumer: "\<not> gone s \<Longrightarrow> chan s \<noteq> [] \<Longrightarrow> rd_moves cap s"
  by (cases "chan s") (auto intro: rd_moves_intro [OF rd_take])

lemma rd_moves_producer:
  assumes "length (chan s) < cap" "rd_pc s \<noteq> Exited"
  shows "rd_moves cap s"
proof (cases "rd_pc s")
  case Producing
  show ?thesis
  proof (cases "todo s")
    case Nil
    then show ?thesis by (auto intro: rd_moves_intro [OF rd_end [OF Producing]])
  next
    case (Cons x xs)
    then show ?thesis
      by (cases x)
        (auto intro: rd_moves_intro [OF rd_error [OF Producing]] rd_moves_intro [OF rd_row [OF Producing _ assms(1)]])
  qed
qed (use assms in \<open>auto intro: rd_moves_intro [OF rd_send_error]\<close>)

text \<open>With a consumer that receives until the channel is closed, nothing stands still before that.\<close>

lemma rd_drained:
  assumes "rd_reaches cap script s" "0 < cap" "\<not> gone s" "\<not> rd_moves cap s"
  shows "chan_closed s \<and> chan s = []"
proof -
  have empty: "chan s = []" using rd_moves_consumer assms(3,4) by blast
  then have "rd_pc s = Exited" using rd_moves_producer [of s cap] assms(2,4) by auto
  then show ?thesis using empty rd_control [OF assms(1)] by (simp add: rd_control_def)
qed

text \<open>A schedule has at most as many steps as there is work: two for each row, and a constant.\<close>

lemma rd_schedule_bounded: "(rd_step cap ^^ n) (rd_start script) s \<Longrightarrow> n \<le> 2 * length script + 6"
  using rd_run.schedule_bounded [of n cap script s] by (simp add: rd_work_def rd_start_def)

text \<open>A channel filled by the goroutine while the consumer has not received anything.\<close>

lemma rd_fills:
  assumes "k \<le> cap" "k \<le> length rs"
  shows "rd_reaches cap (map Inr rs) ((rd_start (map Inr (drop k rs)))\<lparr>chan := map Inr (take k rs)\<rparr>)"
  using assms
proof (induction k)
  case 0
  then show ?case using rd_run.reaches_start [of cap "map Inr rs"] by (simp add: rd_start_def)
next
  case (Suc k)
  let ?s = "(rd_start (map Inr (drop k rs)))\<lparr>chan := map Inr (take k rs)\<rparr>"
  have k: "k < length rs" "length (take k rs) < cap" using Suc.prems by auto
  have "map Inr (drop k rs) = Inr (rs ! k) # map Inr (drop (Suc k) rs)"
    using k(1) by (simp flip: Cons_nth_drop_Suc)
  then have "rd_step cap ?s (?s\<lparr>todo := map Inr (drop (Suc k) rs), chan := chan ?s @ [Inr (rs ! k)]\<rparr>)"
    using k(2) by (intro rd_row) (auto simp: rd_start_def)
  moreover have "rd_reaches cap (map Inr rs) ?s" using Suc by auto
  ultimately have "rd_reaches cap (map Inr rs) (?s\<lparr>todo := map Inr (drop (Suc k) rs), chan := chan ?s @ [Inr (rs ! k)]\<rparr>)"
    by (rule rd_run.reaches_step [rotated])
  then show ?case using k(1) by (simp add: rd_start_def take_Suc_conv_app_nth)
qed

section \<open>Properties\<close>

lemma sent_rows:
  assumes "rd_reaches cap script s" "chan_closed s" and "\<And>e. Inl e \<notin> set (received s @ chan s)"
  shows "\<exists>rs. received s @ chan s = map Inr rs \<and> script = map Inr rs"
proof -
  have "rd_pc s = Exited" using rd_control [OF assms(1)] assms(2) by (simp add: rd_control_def)
  with rd_inv [OF assms(1)] consider rs where "received s @ chan s = map Inr rs" "script = map Inr rs"
    | rs e where "received s @ chan s = map Inr rs @ [Inl e]"
    by (auto simp: rd_inv_def)
  then show ?thesis
  proof cases
    case 2
    then show ?thesis using assms(3) [of e] by simp
  qed blast
qed

lemma scan_rows_complete: "scan_rows xs = (rs, None) \<Longrightarrow> xs = map Inr rs"
  by (induction xs arbitrary: rs rule: scan_rows.induct) (auto split: prod.splits)

lemma scan_rows_map [simp]: "scan_rows (map Inr rs) = (rs, None)"
  by (induction rs) auto

lemma error_last: "(ys @ [Inl e] = map Inr rs) = False"
proof -
  have "Inl e \<notin> set (map Inr rs)" by auto
  then show ?thesis by (metis in_set_conv_decomp)
qed

lemma Read_sends_rows:
  "Read_sends t answer = map Inr rs \<longleftrightarrow> (\<exists>c. answer = Inr c \<and> col_err c = None \<and> fetched c = map Inr rs \<and> iter_err c = None)"
proof -
  show ?thesis
  proof
    assume "Read_sends t answer = map Inr rs"
    then show "\<exists>c. answer = Inr c \<and> col_err c = None \<and> fetched c = map Inr rs \<and> iter_err c = None"
      using scan_rows_complete
      by (auto simp: Read_sends_def map_eq_Cons_conv error_last split: sum.splits option.splits prod.splits)
  qed (auto simp: Read_sends_def)
qed


definition one_row_answer :: "string + ora_cursor" where
  "one_row_answer = Inr \<lparr>col_err = None, fetched = [Inr demo_row], iter_err = None\<rparr>"


text \<open>
  C32. When a reading goroutine stands still. Its steps, and those of a consumer that is still there, come to an end;
  and as long as the consumer is there, nothing stands still before the channel is closed and empty. A consumer that
  has stopped receiving can leave it blocked for good: with more rows than the channel holds there is a schedule in which
  the context is cancelled, the goroutine wants to send the cancellation into the full channel, and no step of anyone
  is possible any more, so the channel is never closed.
\<close>

theorem abandoned_read_blocks:
  assumes "0 < cap"
  shows "(\<forall>s s'. rd_step cap s s' \<longrightarrow> rd_work s' < rd_work s) \<and>
    (\<forall>script s. rd_reaches cap script s \<longrightarrow> \<not> gone s \<longrightarrow> \<not> rd_moves cap s \<longrightarrow> chan_closed s \<and> chan s = []) \<and>
    (cap < length rows \<longrightarrow> (\<exists>s. rd_reaches cap (map Inr rows) s \<and> gone s \<and> rd_cancelled s \<and> \<not> chan_closed s \<and>
       length (chan s) = cap \<and> (\<nexists>s'. rd_step cap s s')))"
proof (intro conjI allI impI)
  assume len: "cap < length rows"
  let ?s = "(rd_start (map Inr (drop cap rows)))\<lparr>chan := map Inr (take cap rows)\<rparr>"
  let ?s3 = "?s\<lparr>gone := True, rd_cancelled := True, rd_pc := Failing ''context canceled''\<rparr>"
  have "rd_reaches cap (map Inr rows) ?s" using rd_fills [of cap cap rows] len by simp
  moreover have "rd_step cap ?s (?s\<lparr>gone := True\<rparr>)" by (rule rd_leave) (simp add: rd_start_def)
  moreover have "rd_step cap (?s\<lparr>gone := True\<rparr>) (?s\<lparr>gone := True, rd_cancelled := True\<rparr>)"
    by (rule rd_cancel) (simp add: rd_start_def)
  moreover have "rd_step cap (?s\<lparr>gone := True, rd_cancelled := True\<rparr>) ?s3"
    by (rule rd_done) (simp_all add: rd_start_def)
  ultimately have "rd_reaches cap (map Inr rows) ?s3" by (meson rd_run.reaches_step)
  moreover have "\<nexists>s'. rd_step cap ?s3 s'"
    using len by (auto elim!: rd_step.cases simp: rd_start_def)
  ultimately show "\<exists>s. rd_reaches cap (map Inr rows) s \<and> gone s \<and> rd_cancelled s \<and> \<not> chan_closed s \<and>
       length (chan s) = cap \<and> (\<nexists>s'. rd_step cap s s')"
    using len by (intro exI [of _ ?s3]) (auto simp: rd_start_def)
qed (use rd_work_decreases rd_drained assms in blast)+

theorem abandoned_read_blocks_witness:
  "\<exists>s. rd_reaches 1 (map Inr [demo_row, demo_row]) s \<and> gone s \<and> rd_cancelled s \<and> \<not> chan_closed s \<and> (\<nexists>s'. rd_step 1 s s')"
  using abandoned_read_blocks [of 1 "[demo_row, demo_row]"] by fastforce

text \<open>Page after page: the rows that are left, when the database answers every page query with its part of them.\<close>

lemma page_sends_rows:
  assumes "0 < ps" "in_i64 (int (length rows) + ps)"
    and db: "\<And>off. off \<le> length rows \<Longrightarrow> db (page_query base (int off) ps) =
      Inr \<lparr>col_err = None, fetched = map Inr (take (nat ps) (drop off rows)), iter_err = None\<rparr>"
    and "k \<le> length rows"
  shows "page_sends db t base ps (int k) n acc = Some (acc @ map Inr (drop k rows))"
  using assms(4)
proof (induction "length rows - k" arbitrary: k n acc rule: less_induct)
  case less
  let ?page = "take (nat ps) (drop k rows)"
  show ?case
  proof (cases "int (length ?page) < ps")
    case True
    then have "?page = drop k rows" using assms(1) by simp
    with True less.prems show ?thesis by (subst page_sends.simps) (simp add: db Let_def)
  next
    case False
    then have len: "k + nat ps \<le> length rows" using assms(1) by (auto simp: min_def split: if_splits)
    have next': "i64 (int k + ps) = int (k + nat ps)"
    proof -
      have "int k + ps = int (k + nat ps)" using assms(1) by simp
      moreover have "in_i64 (int k + ps)" using assms(1,2) less.prems by (auto simp: in_i64_def)
      ultimately show ?thesis by simp
    qed
    have "length rows - (k + nat ps) < length rows - k" using len assms(1) by linarith
    from less.hyps [OF this len, of "i64 (n + 1)" "acc @ map Inr ?page"] have
      "page_sends db t base ps (int (k + nat ps)) (i64 (n + 1)) (acc @ map Inr ?page) =
        Some (acc @ map Inr (?page @ drop (k + nat ps) rows))"
      by simp
    moreover have "?page @ drop (k + nat ps) rows = drop k rows"
      by (metis append_take_drop_id drop_drop add.commute)
    ultimately show ?thesis using False less.prems next' by (subst page_sends.simps) (simp add: db Let_def)
  qed
qed

text \<open>
  The paginated read ends and sends every row of the result, in order and once, when the database answers each page
  query, by its text, with the rows from the offset on, at most as many as a page has.
\<close>

theorem ReadPaginated_complete:
  assumes "0 < page_size rd ps" "in_i64 (int (length rows) + page_size rd ps)"
    and "\<And>off. off \<le> length rows \<Longrightarrow> db (page_query (buildQuery t part where') (int off) (page_size rd ps)) =
      Inr \<lparr>col_err = None, fetched = map Inr (take (nat (page_size rd ps)) (drop off rows)), iter_err = None\<rparr>"
  shows "ReadPaginated_sends db rd t part where' ps = Some (map Inr rows)"
  using page_sends_rows [OF assms, of 0 t 0 "[]"] by (simp add: ReadPaginated_sends_def)

definition two_page_db :: "string \<Rightarrow> string + ora_cursor" where
  "two_page_db q =
     (if q = page_query (buildQuery (bare_table ''EMP'' 3) None '''') 0 2
      then Inr \<lparr>col_err = None, fetched = [Inr demo_row, Inr demo_row], iter_err = None\<rparr>
      else if q = page_query (buildQuery (bare_table ''EMP'' 3) None '''') 2 2
      then Inr \<lparr>col_err = None, fetched = [Inr demo_row], iter_err = None\<rparr>
      else if q = page_query (buildQuery (bare_table ''EMP'' 3) None '''') 1 2
      then Inr \<lparr>col_err = None, fetched = [Inr demo_row, Inr demo_row], iter_err = None\<rparr>
      else Inr \<lparr>col_err = None, fetched = [], iter_err = None\<rparr>)"

theorem ReadPaginated_complete_witness:
  "ReadPaginated_sends two_page_db (NewReader 0) (bare_table ''EMP'' 3) None '''' 2 = Some [Inr demo_row, Inr demo_row, Inr demo_row]"
proof -
  let ?rows = "[demo_row, demo_row, demo_row]" and ?t = "bare_table ''EMP'' 3"
  have ps: "page_size (NewReader 0) 2 = 2" by (simp add: page_size_def)
  have texts: "page_query (buildQuery ?t None '''') 1 2 \<noteq> page_query (buildQuery ?t None '''') 0 2"
    "page_query (buildQuery ?t None '''') 1 2 \<noteq> page_query (buildQuery ?t None '''') 2 2"
    "page_query (buildQuery ?t None '''') 2 2 \<noteq> page_query (buildQuery ?t None '''') 0 2"
    "page_query (buildQuery ?t None '''') 3 2 \<noteq> page_query (buildQuery ?t None '''') 0 2"
    "page_query (buildQuery ?t None '''') 3 2 \<noteq> page_query (buildQuery ?t None '''') 1 2"
    "page_query (buildQuery ?t None '''') 3 2 \<noteq> page_query (buildQuery ?t None '''') 2 2"
    by code_simp+
  have db: "two_page_db (page_query (buildQuery ?t None '''') (int off) (page_size (NewReader 0) 2)) =
      Inr \<lparr>col_err = None, fetched = map Inr (take (nat (page_size (NewReader 0) 2)) (drop off ?rows)), iter_err = None\<rparr>"
    if "off \<le> length ?rows" for off
  proof -
    have "off = 0 \<or> off = 1 \<or> off = 2 \<or> off = 3" using that by auto
    then show ?thesis using texts by (auto simp: ps two_page_db_def)
  qed
  show ?thesis using ReadPaginated_complete [of "NewReader 0" 2 ?rows, OF _ _ db] by (simp add: ps in_i64_def)
qed

end
