(* ===== verification/Pg_Pool.thy ===== *)
theory Pg_Pool
  imports Schema_Types
begin

text \<open>
  The connection pools: how they are opened (\<open>internal/postgres/conn.go\<close>, \<open>internal/oracle/conn.go\<close>), and the pool
  connections that \<open>CopyData\<close> (\<open>internal/postgres/writer.go\<close>) takes and gives back, of which \<open>Copy_Data\<close> only has
  the data. The lemmas: the sizes of the pool, and which connections are still taken when a copy is over.
\<close>

section \<open>Opening a pool\<close>

definition pool_dsn :: "string \<Rightarrow> string" where
  "pool_dsn dsn =
     (if \<not> Contains dsn ''connect_timeout''
      then dsn @ (if Contains dsn ''?'' then ''&'' else ''?'') @ ''connect_timeout=20'' else dsn)"

text \<open>\<open>int32(n)\<close> keeps the lower 32 bits.\<close>

definition i32 :: "int \<Rightarrow> int" where
  "i32 n = (n + 2147483648) mod 4294967296 - 2147483648"

record pool_config =
  MaxConns :: int
  MinConns :: int
  ConnectTimeout :: int \<comment> \<open>durations in seconds\<close>
  MaxConnLifetime :: int
  MaxConnIdleTime :: int
  HealthCheckPeriod :: int

definition pool_config :: "int \<Rightarrow> pool_config" where
  "pool_config maxConns = \<lparr>MaxConns = i32 maxConns, MinConns = i32 (max 1 (min 4 (go_div maxConns 4))), ConnectTimeout = 30,
     MaxConnLifetime = 30 * 60, MaxConnIdleTime = 5 * 60, HealthCheckPeriod = 30\<rparr>"

text \<open>The answers of the library: the errors of parsing, of creating the pool and of the ping, and whether the context is over.\<close>

record pg_driver =
  drv_parse :: "string \<Rightarrow> string option"
  drv_new :: "string \<Rightarrow> pool_config \<Rightarrow> string option"
  drv_ping :: "string \<Rightarrow> pool_config \<Rightarrow> string option"
  drv_ctx_err :: bool

definition connection_timeout :: string where
  "connection_timeout = ''connection timeout '' @ [CHR 0xE2, CHR 0x80, CHR 0x94] @ '' check host, port, and firewall settings''"

definition pg_OpenPool :: "pg_driver \<Rightarrow> string \<Rightarrow> int \<Rightarrow> string + string \<times> pool_config" where
  "pg_OpenPool drv dsn0 maxConns =
     (let dsn = pool_dsn dsn0; cfg = pool_config maxConns
      in case drv_parse drv dsn of
           Some e \<Rightarrow> Inl (''parse pg config: '' @ e)
         | None \<Rightarrow>
             (case drv_new drv dsn cfg of
                Some e \<Rightarrow> Inl (if drv_ctx_err drv then connection_timeout else ''create pg pool: '' @ e)
              | None \<Rightarrow>
                  (case drv_ping drv dsn cfg of
                     Some e \<Rightarrow> Inl (if drv_ctx_err drv then connection_timeout else ''ping pg: '' @ e)
                   | None \<Rightarrow> Inr (dsn, cfg))))"

text \<open>The Oracle pool: the DSN as given, with as many idle connections as open ones.\<close>

definition ora_OpenPool ::
    "(string \<Rightarrow> string option) \<Rightarrow> (string \<Rightarrow> string option) \<Rightarrow> string \<Rightarrow> int \<Rightarrow> string + string \<times> int \<times> int" where
  "ora_OpenPool sql_open ping dsn maxConns =
     (case sql_open dsn of
        Some e \<Rightarrow> Inl (''open oracle: '' @ e)
      | None \<Rightarrow> (case ping dsn of Some e \<Rightarrow> Inl (''ping oracle: '' @ e) | None \<Rightarrow> Inr (dsn, maxConns, maxConns)))"

text \<open>The timeout is there afterwards, and it is added once; the DSN is never changed otherwise.\<close>

lemma pool_dsn_idempotent: "Contains (pool_dsn dsn) ''connect_timeout'' \<and> pool_dsn (pool_dsn dsn) = pool_dsn dsn"
proof -
  have "Contains (dsn @ sep @ ''connect_timeout'' @ ''=20'') ''connect_timeout''" for sep
    unfolding Contains_iff by (rule exI [of _ "dsn @ sep"]) simp
  then have "Contains (pool_dsn dsn) ''connect_timeout''" by (auto simp: pool_dsn_def)
  then show ?thesis by (simp add: pool_dsn_def)
qed

text \<open>In a keyword/value connection string the addition becomes part of the last value.\<close>

lemma pool_dsn_keyword_value:
  "pool_dsn ''host=db dbname=app'' = ''host=db dbname=app?connect_timeout=20''"
  by code_simp

text \<open>
  The sizes of the PostgreSQL pool: for a size that a 32-bit integer holds, the maximum is the configured one, and between
  one and four connections are kept warm, never more than the maximum allows.
\<close>

theorem pool_config_bounds:
  assumes "1 \<le> maxConns" and "maxConns < 2147483648"
  shows "MaxConns (pool_config maxConns) = maxConns \<and> 1 \<le> MinConns (pool_config maxConns) \<and>
    MinConns (pool_config maxConns) \<le> min 4 (MaxConns (pool_config maxConns))"
proof -
  have q: "0 \<le> go_div maxConns 4" "go_div maxConns 4 \<le> maxConns"
    using assms by (auto simp: go_div_def sgn_if in_i64_def)
  have id: "i32 n = n" if "0 \<le> n" "n < 2147483648" for n
    using that by (simp add: i32_def)
  show ?thesis using assms q by (auto simp: pool_config_def id min_def max_def)
qed

theorem pool_config_bounds_witness:
  "MaxConns (pool_config 12) = 12 \<and> MinConns (pool_config 12) \<le> min 4 12 \<and> MinConns (pool_config 12) = 3"
proof -
  have "MinConns (pool_config 12) = 3" by code_simp
  then show ?thesis using pool_config_bounds [of 12] by simp
qed

section \<open>The connections of a copy\<close>

text \<open>
  Connections are numbered in the order they are acquired; \<open>held\<close> are those acquired and not released, \<open>conn\<close> is the
  variable of \<open>CopyData\<close>. Releasing a connection twice does nothing, as the pool documents.
\<close>

record conns =
  held :: "nat list"
  conn :: nat
  fresh :: nat

definition conn_Acquire :: "conns \<Rightarrow> conns" where
  "conn_Acquire s = s\<lparr>held := held s @ [fresh s], conn := fresh s, fresh := Suc (fresh s)\<rparr>"

definition conn_Release :: "nat \<Rightarrow> conns \<Rightarrow> conns" where
  "conn_Release c s = s\<lparr>held := removeAll c (held s)\<rparr>"

text \<open>What happens in one attempt to write a batch: cancellation while waiting, a new connection, its setting, the transaction.\<close>

record copy_attempt =
  ctx_done :: bool
  acquired :: bool
  set_ok :: bool
  tx_ok :: bool

datatype batch_end = Flushed | GaveUp | Cancelled

definition copyRetries :: nat where "copyRetries = 3"

text \<open>
  The variable keeps the released connection when no new one is got, and when the setting fails the new one is
  released at once.
\<close>

function batch_conns :: "bool \<Rightarrow> (nat \<Rightarrow> copy_attempt) \<Rightarrow> nat \<Rightarrow> conns \<Rightarrow> batch_end \<times> conns" where
  "batch_conns unlogged out k s =
     (if k > copyRetries then (GaveUp, s)
      else if k > 0 \<and> ctx_done (out k) then (Cancelled, s)
      else
        let released = conn_Release (conn s) s; new = conn_Acquire released
        in if k > 0 \<and> \<not> acquired (out k) then batch_conns unlogged out (Suc k) released
           else if k > 0 \<and> \<not> unlogged \<and> \<not> set_ok (out k)
           then batch_conns unlogged out (Suc k) ((conn_Release (conn new) new)\<lparr>conn := conn s\<rparr>)
           else let s = (if k > 0 then new else s)
                in if tx_ok (out k) then (Flushed, s) else batch_conns unlogged out (Suc k) s)"
  by pat_completeness auto
termination by (relation "measure (\<lambda>(u, out, k, s). Suc copyRetries - k)") auto

fun writer_conns :: "bool \<Rightarrow> (nat \<Rightarrow> copy_attempt) list \<Rightarrow> conns \<Rightarrow> batch_end \<times> conns" where
  "writer_conns unlogged [] s = (Flushed, s)"
| "writer_conns unlogged (out # outs) s =
     (case batch_conns unlogged out 0 s of
        (Flushed, s') \<Rightarrow> writer_conns unlogged outs s'
      | r \<Rightarrow> r)"

text \<open>
  The whole copy. The first connection is acquired by the caller's goroutine; if its setting fails it is released and
  nothing is copied. \<open>defer conn.Release()\<close> takes its connection when the \<open>defer\<close> statement runs: it is the
  first one.
\<close>

definition CopyData_conns :: "bool \<Rightarrow> bool \<Rightarrow> (nat \<Rightarrow> copy_attempt) list \<Rightarrow> conns \<Rightarrow> batch_end option \<times> conns" where
  "CopyData_conns unlogged first_set outs s =
     (let s1 = conn_Acquire s
      in if \<not> unlogged \<and> \<not> first_set then (None, conn_Release (conn s1) s1)
         else let deferred = conn s1; (r, s2) = writer_conns unlogged outs s1
              in (Some r, conn_Release deferred s2))"

declare batch_conns.simps [simp del]

text \<open>Between batches the copy holds its current connection besides those held before it.\<close>

definition holds :: "nat list \<Rightarrow> nat \<Rightarrow> conns \<Rightarrow> bool" where
  "holds H f s \<longleftrightarrow> held s = H @ [conn s] \<and> f \<le> conn s \<and> conn s < fresh s \<and> (\<forall>c \<in> set H. c < f)"

lemma removeAll_fresh: "(\<forall>c \<in> set H. c < f) \<Longrightarrow> f \<le> c \<Longrightarrow> removeAll (c::nat) H = H"
  by (rule removeAll_id) auto

text \<open>Between the attempts of a batch it may hold none; its number then is one of a released connection.\<close>

definition may_hold :: "nat list \<Rightarrow> nat \<Rightarrow> conns \<Rightarrow> bool" where
  "may_hold H f s \<longleftrightarrow> (held s = H \<or> held s = H @ [conn s]) \<and> f \<le> conn s \<and> conn s < fresh s \<and> (\<forall>c \<in> set H. c < f)"

lemma released_only:
  assumes "may_hold H f s"
  shows "held (conn_Release (conn s) s) = H"
  using assms removeAll_fresh [of H f "conn s"] by (auto simp: may_hold_def conn_Release_def)

lemma batch_conns_holds:
  assumes "may_hold H f s" and "batch_conns unlogged out k s = (r, s')" and "k = 0 \<longrightarrow> holds H f s"
  shows "may_hold H f s' \<and> fresh s \<le> fresh s' \<and>
    (r = Flushed \<longrightarrow> holds H f s' \<and> (if k = 0 \<and> tx_ok (out 0) then s' = s else fresh s \<le> conn s'))"
  using assms
proof (induction unlogged out k s arbitrary: r s' rule: batch_conns.induct)
  case (1 unlogged out k s)
  note IH = "1.IH" and prems = "1.prems"
  let ?rel = "conn_Release (conn s) s"
  let ?new = "conn_Acquire ?rel"
  let ?undo = "(conn_Release (conn ?new) ?new)\<lparr>conn := conn s\<rparr>"
  have rel: "held ?rel = H" "conn ?rel = conn s" "fresh ?rel = fresh s"
    using released_only [OF prems(1)] by (simp_all add: conn_Release_def)
  have bounds: "f \<le> conn s" "conn s < fresh s" "\<forall>c \<in> set H. c < f" using prems(1) by (auto simp: may_hold_def)
  have mrel: "may_hold H f ?rel" using rel bounds by (simp add: may_hold_def)
  have new: "holds H f ?new" "conn ?new = fresh s" "fresh ?new = Suc (fresh s)"
    using rel bounds by (auto simp: holds_def conn_Acquire_def)
  have undone: "may_hold H f ?undo" "fresh ?undo = Suc (fresh s)"
    using rel bounds removeAll_fresh [of H f "fresh s"] by (auto simp: may_hold_def conn_Acquire_def conn_Release_def)
  consider "k > copyRetries" | "k \<le> copyRetries" "k > 0" "ctx_done (out k)"
    | "k \<le> copyRetries" "k > 0" "\<not> ctx_done (out k)" "\<not> acquired (out k)"
    | "k \<le> copyRetries" "k > 0" "\<not> ctx_done (out k)" "acquired (out k)" "\<not> unlogged" "\<not> set_ok (out k)"
    | "k \<le> copyRetries" "k > 0" "\<not> ctx_done (out k)" "acquired (out k)" "unlogged \<or> set_ok (out k)"
    | "k = 0"
    by fastforce
  then show ?case
  proof cases
    case 1
    then show ?thesis using prems by (simp add: batch_conns.simps copyRetries_def)
  next
    case 2
    then show ?thesis using prems by (simp add: batch_conns.simps)
  next
    case 3
    then have "batch_conns unlogged out (Suc k) ?rel = (r, s')" using prems(2) by (simp add: batch_conns.simps [of _ _ k] Let_def)
    with IH(1) 3 mrel rel(3) show ?thesis by simp
  next
    case 4
    then have "batch_conns unlogged out (Suc k) ?undo = (r, s')" using prems(2) by (simp add: batch_conns.simps [of _ _ k] Let_def)
    with IH(2) 4 undone show ?thesis by fastforce
  next
    case 5
    have m: "may_hold H f ?new" using new(1) by (simp add: holds_def may_hold_def)
    show ?thesis
    proof (cases "tx_ok (out k)")
      case True
      then have "r = Flushed" "s' = ?new" using 5 prems(2) by (auto simp: batch_conns.simps [of _ _ k] Let_def)
      then show ?thesis using new m 5 by simp
    next
      case False
      then have "batch_conns unlogged out (Suc k) ?new = (r, s')" using 5 prems(2) by (auto simp: batch_conns.simps [of _ _ k] Let_def)
      with IH(3) 5 False m new show ?thesis by fastforce
    qed
  next
    case 6
    show ?thesis
    proof (cases "tx_ok (out 0)")
      case True
      then have "r = Flushed" "s' = s" using 6 prems(2) by (auto simp: batch_conns.simps [of _ _ 0] copyRetries_def)
      then show ?thesis using True 6 prems(1,3) by simp
    next
      case False
      then have "batch_conns unlogged out (Suc 0) s = (r, s')" using 6 prems(2) by (auto simp: batch_conns.simps [of _ _ 0] copyRetries_def)
      with IH(3) 6 False prems(1) show ?thesis by (simp add: copyRetries_def)
    qed
  qed
qed

lemma writer_conns_holds:
  assumes "holds H f s" and "writer_conns unlogged outs s = (r, s')"
  shows "may_hold H f s' \<and> fresh s \<le> fresh s' \<and>
    (r = Flushed \<longrightarrow> holds H f s' \<and> (if list_all (\<lambda>out. tx_ok (out 0)) outs then s' = s else fresh s \<le> conn s'))"
  using assms
proof (induction outs arbitrary: s)
  case Nil
  then show ?case by (auto simp: holds_def may_hold_def)
next
  case (Cons out outs)
  have m: "may_hold H f s" using Cons.prems(1) by (simp add: holds_def may_hold_def)
  obtain r1 s1 where b: "batch_conns unlogged out 0 s = (r1, s1)" by fastforce
  note B = batch_conns_holds [OF m b]
  show ?case
  proof (cases "r1 = Flushed")
    case True
    then have w: "writer_conns unlogged outs s1 = (r, s')" using Cons.prems(2) b by simp
    have h: "holds H f s1" and t: "if tx_ok (out 0) then s1 = s else fresh s \<le> conn s1" and le: "fresh s \<le> fresh s1"
      using B True Cons.prems(1) by auto
    from Cons.IH [OF h w] show ?thesis using h t le by (auto simp: holds_def split: if_splits)
  next
    case False
    then have "r = r1" "s' = s1" using Cons.prems(2) b by (auto split: batch_end.splits)
    then show ?thesis using B False Cons.prems(1) by simp
  qed
qed

lemma CopyData_conns_held:
  assumes "\<forall>c \<in> set (held s). c < fresh s" and "CopyData_conns unlogged first_set outs s = (r, s')"
  shows "(held s' = held s \<or> (\<exists>c \<ge> fresh s. held s' = held s @ [c])) \<and> (\<forall>c \<in> set (held s'). c < fresh s') \<and>
    (r = None \<longrightarrow> held s' = held s) \<and>
    (r = Some Flushed \<longrightarrow> (held s' = held s \<longleftrightarrow> list_all (\<lambda>out. tx_ok (out 0)) outs))"
proof -
  let ?H = "held s" and ?f = "fresh s"
  let ?s1 = "conn_Acquire s"
  have h1: "holds ?H ?f ?s1" "conn ?s1 = ?f" "fresh ?s1 = Suc ?f" using assms(1) by (auto simp: holds_def conn_Acquire_def)
  show ?thesis
  proof (cases "\<not> unlogged \<and> \<not> first_set")
    case True
    then have "r = None" "s' = conn_Release (conn ?s1) ?s1" using assms(2) by (auto simp: CopyData_conns_def Let_def)
    moreover have "held (conn_Release (conn ?s1) ?s1) = ?H"
      by (rule released_only [of ?H ?f]) (use h1(1) in \<open>auto simp: holds_def may_hold_def\<close>)
    moreover have "fresh (conn_Release (conn ?s1) ?s1) = Suc ?f" by (simp add: conn_Release_def h1(3))
    ultimately show ?thesis using assms(1) by fastforce
  next
    case False
    obtain w s2 where w: "writer_conns unlogged outs ?s1 = (w, s2)" by fastforce
    then have r: "r = Some w" and s': "s' = conn_Release ?f s2"
      using assms(2) False h1(2) by (auto simp: CopyData_conns_def Let_def)
    note W = writer_conns_holds [OF h1(1) w]
    have bound: "?f \<le> conn s2" "conn s2 < fresh s2" and m: "held s2 = ?H \<or> held s2 = ?H @ [conn s2]"
      using W by (auto simp: may_hold_def)
    have keep: "removeAll ?f ?H = ?H" using removeAll_fresh [of ?H ?f ?f] assms(1) by simp
    have held': "held s' = (if held s2 = ?H \<or> conn s2 = ?f then ?H else ?H @ [conn s2])"
      using m keep by (auto simp: s' conn_Release_def)
    have "held s' = ?H \<longleftrightarrow> list_all (\<lambda>out. tx_ok (out 0)) outs" if "w = Flushed"
      using W that h1 held' by (auto simp: holds_def split: if_splits)
    then show ?thesis
      using r held' bound assms(1) by (auto simp: s' conn_Release_def)
  qed
qed

text \<open>
  C16. Which connections of the pool a copy keeps. A copy that writes all its batches has given its connection back if and
  only if each batch succeeded at the first attempt: after a retry the goroutine works on a new connection, but the
  deferred release is bound to the first one, so the new one is never released. Any copy leaves at most one connection
  taken, and none if its session could not be set up.
\<close>

theorem copy_returns_connection:
  assumes "\<forall>c \<in> set (held s). c < fresh s" and "CopyData_conns unlogged first_set outs s = (r, s')"
  shows "length (held s) \<le> length (held s') \<and> length (held s') \<le> Suc (length (held s)) \<and>
    (r = None \<longrightarrow> held s' = held s) \<and>
    (r = Some Flushed \<longrightarrow> (held s' = held s \<longleftrightarrow> list_all (\<lambda>out. tx_ok (out 0)) outs))"
  using CopyData_conns_held [OF assms] by auto

definition no_conns :: conns where
  "no_conns = \<lparr>held = [], conn = 0, fresh = 0\<rparr>"

definition once_lost :: "nat \<Rightarrow> copy_attempt" where
  "once_lost k = \<lparr>ctx_done = False, acquired = True, set_ok = True, tx_ok = (k > 0)\<rparr>"

theorem copy_returns_connection_witness:
  "CopyData_conns False True [once_lost] no_conns = (Some Flushed, \<lparr>held = [1], conn = 1, fresh = 2\<rparr>) \<and>
   length (held (snd (CopyData_conns False True [once_lost] no_conns))) \<le> 1"
proof -
  have run: "CopyData_conns False True [once_lost] no_conns = (Some Flushed, \<lparr>held = [1], conn = 1, fresh = 2\<rparr>)"
    by code_simp
  have "\<forall>c \<in> set (held no_conns). c < fresh no_conns" by (simp add: no_conns_def)
  from copy_returns_connection [OF this run] show ?thesis using run by (simp add: no_conns_def)
qed

text \<open>One copy after the other: every copy that needed a retry takes one connection out of the pool for good.\<close>

fun copies :: "(bool \<times> bool \<times> (nat \<Rightarrow> copy_attempt) list) list \<Rightarrow> conns \<Rightarrow> conns" where
  "copies [] s = s"
| "copies ((unlogged, first_set, outs) # cs) s = copies cs (snd (CopyData_conns unlogged first_set outs s))"

fun all_flushed :: "(bool \<times> bool \<times> (nat \<Rightarrow> copy_attempt) list) list \<Rightarrow> conns \<Rightarrow> bool" where
  "all_flushed [] s = True"
| "all_flushed ((unlogged, first_set, outs) # cs) s =
     (fst (CopyData_conns unlogged first_set outs s) = Some Flushed \<and> all_flushed cs (snd (CopyData_conns unlogged first_set outs s)))"

lemma copies_leak:
  assumes "\<forall>c \<in> set (held s). c < fresh s" and "all_flushed cs s"
  shows "length (held (copies cs s)) =
    length (held s) + length (filter (\<lambda>(unlogged, first_set, outs). \<not> list_all (\<lambda>out. tx_ok (out 0)) outs) cs)"
  using assms
proof (induction cs arbitrary: s)
  case (Cons c cs)
  obtain u fs outs where c: "c = (u, fs, outs)" by (cases c)
  let ?s = "snd (CopyData_conns u fs outs s)"
  have run: "CopyData_conns u fs outs s = (Some Flushed, ?s)" using Cons.prems(2) by (simp add: c prod_eq_iff)
  note H = CopyData_conns_held [OF Cons.prems(1) run]
  have "length (held (copies cs ?s)) =
      length (held ?s) + length (filter (\<lambda>(unlogged, first_set, outs). \<not> list_all (\<lambda>out. tx_ok (out 0)) outs) cs)"
    by (rule Cons.IH) (use H Cons.prems(2) in \<open>auto simp: c\<close>)
  then show ?case using H by (auto simp: c)
qed simp

end
