(* ===== verification/Chunk_Session.thy ===== *)
theory Chunk_Session
  imports Plan_Rowid
begin

text \<open>
  \<open>execDBMSChunks\<close> of \<open>internal/oracle/chunker.go\<close>: the PL/SQL blocks it runs to let \<open>DBMS_PARALLEL_EXECUTE\<close> split a
  table, and the query that reads the chunks back; the theories of the planner have its outcome as their parameter.
  The lemmas say which statements run on each path, and what a plan is worth when the result set breaks off.
\<close>

section \<open>The session\<close>

text \<open>
  What the database answers after the statements executed before: an error or not, and for a query its rows, each with
  the outcome of \<open>Scan\<close>, and the error that ended the iteration (\<open>rows.Err()\<close>).
\<close>

record chunk_cursor =
  ck_rows :: "(string + RowIDChunk) list"
  ck_err :: "string option"

record chunk_session =
  cs_exec :: "string list \<Rightarrow> string \<Rightarrow> string option"
  cs_query :: "string list \<Rightarrow> string \<Rightarrow> string + chunk_cursor"

definition chunk_task_name :: "string \<Rightarrow> string \<Rightarrow> string" where
  "chunk_task_name owner tableName = take 128 (''E2PG_'' @ ToUpper owner @ ''_'' @ ToUpper tableName)"

definition quoted :: "string \<Rightarrow> string" where
  "quoted s = [CHR 0x27] @ s @ [CHR 0x27]"

definition text_lines :: "string list \<Rightarrow> string" where
  "text_lines ls = Join ls [CHR 0x0A]"

definition tabs3 :: string where
  "tabs3 = [CHR 0x09, CHR 0x09, CHR 0x09]"

definition drop_if_there :: "string \<Rightarrow> string" where
  "drop_if_there task = ''BEGIN DBMS_PARALLEL_EXECUTE.DROP_TASK('' @ quoted task @ ''); EXCEPTION WHEN OTHERS THEN NULL; END;''"

definition drop_task :: "string \<Rightarrow> string" where
  "drop_task task = ''BEGIN DBMS_PARALLEL_EXECUTE.DROP_TASK('' @ quoted task @ ''); END;''"

definition create_chunks :: "string \<Rightarrow> string \<Rightarrow> string \<Rightarrow> int \<Rightarrow> string" where
  "create_chunks task owner tableName numChunks = text_lines
     [''BEGIN'',
      ''  DBMS_PARALLEL_EXECUTE.CREATE_TASK('' @ quoted task @ '');'',
      ''  DBMS_PARALLEL_EXECUTE.CREATE_CHUNKS_BY_ROWID('' @ quoted task @ '', '' @ quoted (ToUpper owner) @ '', '' @
        quoted (ToUpper tableName) @ '', TRUE, '' @ itoa numChunks @ '');'',
      ''END;'']"

definition chunk_query :: "string \<Rightarrow> string \<Rightarrow> string \<Rightarrow> bool \<Rightarrow> string" where
  "chunk_query task owner tableName withPartitions =
     (if withPartitions then text_lines
        ['''',
         tabs3 @ ''SELECT c.chunk_id, c.start_rowid, c.end_rowid,'',
         tabs3 @ ''       NVL(o.subobject_name, '' @ quoted '''' @ '') as partition_name'',
         tabs3 @ ''FROM user_parallel_execute_chunks c'',
         tabs3 @ ''LEFT JOIN all_objects o'',
         tabs3 @ ''  ON o.data_object_id = DBMS_ROWID.ROWID_OBJECT(c.start_rowid)'',
         tabs3 @ ''  AND o.owner = '' @ quoted (ToUpper owner),
         tabs3 @ ''  AND o.object_name = '' @ quoted (ToUpper tableName),
         tabs3 @ ''WHERE c.task_name = '' @ quoted task,
         tabs3 @ ''ORDER BY c.chunk_id'']
      else text_lines
        [''SELECT chunk_id, start_rowid, end_rowid'',
         tabs3 @ '' FROM user_parallel_execute_chunks'',
         tabs3 @ '' WHERE task_name = '' @ quoted task,
         tabs3 @ '' ORDER BY chunk_id''])"

text \<open>The scan loop; the partition name is only read when it was selected.\<close>

fun scan_chunks :: "bool \<Rightarrow> RowIDChunk list \<Rightarrow> (string + RowIDChunk) list \<Rightarrow> string + RowIDChunk list" where
  "scan_chunks withPartitions chunks [] = Inr chunks"
| "scan_chunks withPartitions chunks (Inl e # rows) =
     Inl ((if withPartitions then ''scan partitioned chunk: '' else ''scan chunk: '') @ e)"
| "scan_chunks withPartitions chunks (Inr ch # rows) =
     scan_chunks withPartitions (chunks @ [if withPartitions then ch else ch\<lparr>ch_PartitionName := ''''\<rparr>]) rows"

text \<open>The result, with the statements executed: the deferred drop runs last on every path behind it.\<close>

definition execDBMSChunks ::
    "chunk_session \<Rightarrow> string \<Rightarrow> string \<Rightarrow> int \<Rightarrow> bool \<Rightarrow> string list \<Rightarrow> (string + RowIDChunk list) \<times> string list" where
  "execDBMSChunks sess owner tableName numChunks withPartitions h =
     (let task = chunk_task_name owner tableName;
          h1 = h @ [drop_if_there task];
          create = create_chunks task owner tableName numChunks
      in case cs_exec sess h1 create of
           Some e \<Rightarrow> (Inl (''create ROWID chunks: '' @ e), h1 @ [create])
         | None \<Rightarrow>
             let h2 = h1 @ [create];
                 query = chunk_query task owner tableName withPartitions;
                 result = (case cs_query sess h2 query of
                     Inl e \<Rightarrow> Inl (''read chunks: '' @ e)
                   | Inr cursor \<Rightarrow> scan_chunks withPartitions [] (ck_rows cursor))
             in (result, h2 @ [query, drop_task task]))"

text \<open>The planner's parameters, answered by a session.\<close>

definition session_chunks :: "chunk_session \<Rightarrow> bool \<Rightarrow> string \<Rightarrow> string \<Rightarrow> int \<Rightarrow> string + RowIDChunk list" where
  "session_chunks sess withPartitions owner tableName numChunks = fst (execDBMSChunks sess owner tableName numChunks withPartitions [])"

section \<open>Its behaviour\<close>

lemma chunk_task_name_fits: "length (chunk_task_name owner tableName) \<le> 128"
  by (simp add: chunk_task_name_def)

text \<open>A task that was created is dropped again, also if the chunks cannot be read; a failed block leaves no cleanup.\<close>

lemma execDBMSChunks_statements:
  "\<exists>rest. snd (execDBMSChunks sess owner t n wp h) =
      h @ [drop_if_there (chunk_task_name owner t), create_chunks (chunk_task_name owner t) owner t n] @ rest \<and>
    (rest = [] \<longleftrightarrow> (\<exists>e. fst (execDBMSChunks sess owner t n wp h) = Inl (''create ROWID chunks: '' @ e) \<and>
       cs_exec sess (h @ [drop_if_there (chunk_task_name owner t)]) (create_chunks (chunk_task_name owner t) owner t n) = Some e)) \<and>
    (rest \<noteq> [] \<longrightarrow> last rest = drop_task (chunk_task_name owner t))"
  by (auto simp: execDBMSChunks_def Let_def split: option.splits)

lemma scan_chunks_rows: "scan_chunks True acc (map Inr cs) = Inr (acc @ cs)"
  by (induction cs arbitrary: acc) auto

text \<open>Without the privilege the chunker falls back to hash chunks.\<close>

lemma no_privilege_hash_chunks:
  assumes "\<And>h q. cs_exec sess h q = Some e" and "1 < n"
  shows "ComputeChunks (session_chunks sess False owner t n) n = chunksViaOraHash n"
  using assms(2) by (simp add: ComputeChunks_def session_chunks_def execDBMSChunks_def assms(1) Let_def)

text \<open>How the iteration ended makes no difference.\<close>

definition with_error :: "string option \<Rightarrow> chunk_session \<Rightarrow> chunk_session" where
  "with_error e sess = sess\<lparr>cs_query := \<lambda>h q. case cs_query sess h q of Inl x \<Rightarrow> Inl x | Inr c \<Rightarrow> Inr (c\<lparr>ck_err := e\<rparr>)\<rparr>"

lemma iteration_error_unseen: "execDBMSChunks (with_error e sess) owner t n wp h = execDBMSChunks sess owner t n wp h"
  by (simp add: execDBMSChunks_def with_error_def Let_def split: option.splits sum.splits)

text \<open>
  C17. A broken listing loses rows. If the connection breaks while the chunks are read, the rows received before are taken
  for all of them (\<open>rows.Err()\<close> is not asked), without an error and without the fallback: of a table whose chunks were
  read in part, the planner makes tasks, and none of them reads a row outside the ranges received.
\<close>

theorem broken_listing_loses_rows:
  fixes pos :: "string \<Rightarrow> 'p::linorder"
  assumes "\<And>h q. cs_exec sess h q = None"
    and "\<And>h q. cs_query sess h q = Inr \<lparr>ck_rows = map Inr cs, ck_err = Some e\<rparr>"
    and "est (tbl_Owner (ct_Table ct)) (tbl_Name (ct_Table ct)) = Inr rowCount"
    and "2 \<le> go_div rowCount (ct_ChunkSize ct)"
    and "cs \<noteq> []" "length cs \<le> 256" "int (length cs) \<le> go_div rowCount (ct_ChunkSize ct)" "list_all rid_ok cs"
    and "rowid_meaning holds pos x (o_Where (ct_Override ct)) r" and "\<forall>c \<in> set cs. \<not> covers pos c x"
  shows "\<exists>tasks. rowid_single_tasks est (session_chunks sess False) ct = Some tasks \<and> length tasks = length cs \<and>
    (\<forall>k \<in> set tasks. \<not> task_reads holds in_part r k)"
proof -
  let ?t = "ct_Table ct"
  define n where "n = (if go_div rowCount (ct_ChunkSize ct) > 256 then 256 else go_div rowCount (ct_ChunkSize ct))"
  have n: "2 \<le> n" "int (length cs) \<le> n" using assms(4,6,7) by (auto simp: n_def)
  define ds where "ds = map (\<lambda>c. c\<lparr>ch_PartitionName := ''''\<rparr>) cs"
  have scan: "scan_chunks False acc (map Inr xs) = Inr (acc @ map (\<lambda>c. c\<lparr>ch_PartitionName := ''''\<rparr>) xs)" for acc xs
    by (induction xs arbitrary: acc) auto
  have "session_chunks sess False (tbl_Owner ?t) (tbl_Name ?t) n = Inr ds"
    by (simp add: session_chunks_def execDBMSChunks_def assms(1,2) Let_def scan ds_def)
  then have chunks: "ComputeChunks (session_chunks sess False (tbl_Owner ?t) (tbl_Name ?t) n) n = ds"
    using n(1) by (simp add: ComputeChunks_def)
  have "rowid_single_tasks est (session_chunks sess False) ct =
      Some (map (\<lambda>ch. table_chunk_task ct ch (int (length ds))
        (BuildChunkWhereClause ch (int (length ds)) (o_Where (ct_Override ct)))) ds)"
    using chunks n assms(3,4,5) by (simp add: rowid_single_tasks_def Let_def n_def [symmetric] ds_def)
  moreover have "\<not> task_reads holds in_part r (table_chunk_task ct ch k (BuildChunkWhereClause ch k (o_Where (ct_Override ct))))"
    if ch: "ch \<in> set ds" for ch k
  proof -
    obtain c where c: "c \<in> set cs" "ch = c\<lparr>ch_PartitionName := ''''\<rparr>" using ch by (auto simp: ds_def)
    have ok: "rid_ok ch" using c assms(8) by (simp add: rid_ok_def list_all_iff)
    have "\<not> covers pos ch x" using c assms(10) by (simp add: covers_def)
    then show ?thesis using accepts_rowid [OF assms(9) ok] by (simp add: task_reads_def table_chunk_task_def)
  qed
  ultimately show ?thesis by (auto simp: ds_def)
qed

definition broken_session :: chunk_session where
  "broken_session = \<lparr>cs_exec = \<lambda>h q. None,
     cs_query = \<lambda>h q. Inr \<lparr>ck_rows = map Inr (take 2 sample_chunks), ck_err = Some ''ORA-03113''\<rparr>\<rparr>"

definition big_chunkable :: chunkableTask where
  "big_chunkable = \<lparr>ct_Table = bare_table ''BIG'' 1000000, ct_Override = zeroOverride, ct_ChunkSize = 50000, ct_PlaceholderIdx = 0\<rparr>"

theorem broken_listing_loses_rows_witness:
  "\<exists>tasks. rowid_single_tasks (\<lambda>_ _. Inr 1000000) (session_chunks broken_session False) big_chunkable = Some tasks \<and>
     length tasks = 2 \<and> (\<forall>k \<in> set tasks. \<not> task_reads rid_holds (\<lambda>_ _. True) 35 k)"
proof -
  let ?cs = "take 2 sample_chunks"
  have w: "o_Where (ct_Override big_chunkable) = ''''" by (simp add: big_chunkable_def zeroOverride_def)
  have m: "rowid_meaning rid_holds read_dec 35 (o_Where (ct_Override big_chunkable)) 35"
    using rid_holds_contract [of 35] unfolding w by (simp add: db_contract_def)
  have ok: "list_all rid_ok ?cs" "\<forall>c \<in> set ?cs. \<not> covers read_dec c 35" by code_simp+
  have n: "go_div 1000000 (ct_ChunkSize big_chunkable) = 20" "length ?cs = 2" "?cs \<noteq> []" by code_simp+
  show ?thesis
    using broken_listing_loses_rows [of broken_session ?cs "''ORA-03113''" "\<lambda>_ _. Inr 1000000" big_chunkable 1000000
        rid_holds read_dec 35 35 "\<lambda>_ _. True"] m ok n
    by (simp add: broken_session_def)
qed

end
