(* ===== verification/Go_Scan.thy ===== *)
theory Go_Scan
  imports Go_Prelude
begin

text \<open>
  The part of \<open>fmt.Sscanf\<close> that the program uses: the verb \<open>%d\<close> for an \<open>int\<close> or \<open>int64\<close> and literal characters between
  verbs. Blanks before a number are skipped but not a newline; a sign and at least one digit follow; a number that
  does not fit 64 bits is an error. What was stored before an error stays stored. The lemmas are about reading back
  what \<open>itoa\<close> wrote.
\<close>

definition scan_space :: "char \<Rightarrow> bool" where
  "scan_space c \<longleftrightarrow> byte c = 9 \<or> byte c = 11 \<or> byte c = 12 \<or> byte c = 13 \<or> byte c = 32"

definition scan_sign :: "string \<Rightarrow> bool \<times> string" where
  "scan_sign s =
     (case s of [] \<Rightarrow> (False, [])
              | c # r \<Rightarrow> if c = CHR ''-'' then (True, r) else if c = CHR ''+'' then (False, r) else (False, s))"

definition scan_int :: "string \<Rightarrow> (int \<times> string) option" where
  "scan_int s =
     (let (neg, s) = scan_sign (dropWhile scan_space s);
          digits = takeWhile is_digit s;
          v = (if neg then - int (read_dec digits) else int (read_dec digits))
      in if digits \<noteq> [] \<and> in_i64 v then Some (v, dropWhile is_digit s) else None)"

text \<open>\<open>Sscanf(s, "%d", &n)\<close> with \<open>n\<close> zero before.\<close>

definition Sscan_d :: "string \<Rightarrow> int" where
  "Sscan_d s = (case scan_int s of None \<Rightarrow> 0 | Some (v, r) \<Rightarrow> v)"

text \<open>\<open>Sscanf(s, "%d.%d.%d", &a[0], &a[1], &a[2])\<close>: the numbers stored before the scan fails or the format ends.\<close>

fun scan_dots :: "nat \<Rightarrow> string \<Rightarrow> int list" where
  "scan_dots 0 s = []"
| "scan_dots (Suc n) s =
     (case scan_int s of
        None \<Rightarrow> []
      | Some (v, r) \<Rightarrow> v # (case r of [] \<Rightarrow> [] | c # r \<Rightarrow> if c = CHR ''.'' then scan_dots n r else []))"

section \<open>Reading back\<close>

lemma is_digit_not: "is_digit c \<Longrightarrow> \<not> scan_space c \<and> c \<noteq> CHR ''-'' \<and> c \<noteq> CHR ''+''"
  by (auto simp: is_digit_def scan_space_def byte_def)

lemma takeWhile_digits: "(\<And>c. c \<in> set ds \<Longrightarrow> is_digit c) \<Longrightarrow> r = [] \<or> \<not> is_digit (hd r) \<Longrightarrow>
    takeWhile is_digit (ds @ r) = ds \<and> dropWhile is_digit (ds @ r) = r"
  by (cases r) (auto simp: takeWhile_append2 dropWhile_append2)

lemma scan_int_utoa:
  assumes "int n < 9223372036854775808" "r = [] \<or> \<not> is_digit (hd r)"
  shows "scan_int (utoa n @ r) = Some (int n, r)"
proof -
  obtain c cs where u: "utoa n = c # cs" by (cases "utoa n") auto
  have d: "\<And>c. c \<in> set (utoa n) \<Longrightarrow> is_digit c" by (rule utoa_digits)
  have "is_digit c" using d [of c] u by simp
  then have "dropWhile scan_space (utoa n @ r) = utoa n @ r" "scan_sign (utoa n @ r) = (False, utoa n @ r)"
    using is_digit_not [of c] by (simp_all add: u scan_sign_def)
  then show ?thesis using takeWhile_digits [of "utoa n" r] d assms by (simp add: scan_int_def in_i64_nonneg)
qed

lemma scan_int_itoa:
  "0 \<le> i \<Longrightarrow> i < 9223372036854775808 \<Longrightarrow> r = [] \<or> \<not> is_digit (hd r) \<Longrightarrow> scan_int (itoa i @ r) = Some (i, r)"
  using scan_int_utoa [of "nat i" r] by (simp add: itoa_def)

end
