(* ===== verification/Project_Store.thy ===== *)
theory Project_Store
  imports Config_Model Dsn_Mask
begin

text \<open>
  Saved projects: the records of \<open>pkg/api/types.go\<close>, the table of projects of \<open>pkg/api/projects.go\<close>, the
  handlers of \<open>pkg/api/handlers.go\<close> that create, read, update and delete projects, and \<open>buildConfig\<close>, which
  turns a project into the configuration of a migration. The column \<open>config_json\<close> keeps the configuration itself, as
  \<open>encoding/json\<close> reads back what it wrote for this record. An HTTP handler takes the decoded body of the request, or the
  error of the decoder, and gives the status with the returned value, or the error reply. Errors of the SQLite file
  other than a violated key are not modelled. The lemmas are the store's invariant, the round trip of a project through
  the masked form that the API shows, and what a configuration built from a project satisfies.
\<close>

section \<open>Records\<close>

record ApiTableOverride =
  ao_Where :: string
  ao_PartitionFilter :: "string list"
  ao_PartitionRange :: "RangeFilter option"
  ao_TargetName :: string
  ao_TargetMode :: string
  ao_SkipIndexes :: bool
  ao_IndexMode :: string
  ao_SkipConstraints :: bool
  ao_SkipValidation :: bool
  ao_BatchSize :: int
  ao_FetchSize :: int
  ao_MaxParallel :: int
  ao_ChunkSize :: int
  ao_ChunkStrategy :: string

record ApiMigrationConfig =
  mc_Workers :: int
  mc_BatchSize :: int
  mc_FetchSize :: int
  mc_IncludeTables :: "string list"
  mc_ExcludeTables :: "string list"
  mc_IncludeSequences :: "string list"
  mc_TableOverrides :: "string \<rightharpoonup> ApiTableOverride"
  mc_DropTarget :: bool
  mc_Unlogged :: bool
  mc_ValidateAfter :: bool
  mc_ChunkStrategy :: string
  mc_NamingConvention :: string
  mc_TypeOverrides :: "string \<rightharpoonup> string"
  mc_NameOverrides :: "string \<rightharpoonup> string"

text \<open>The payloads of a creation and of an update have the same fields.\<close>

record ProjectRequest =
  rq_Name :: string
  rq_OracleDSN :: string
  rq_OracleSchema :: string
  rq_PgDSN :: string
  rq_PgSchema :: string
  rq_Config :: ApiMigrationConfig

record ProjectConfig =
  pj_ID :: string
  pj_Name :: string
  pj_OracleDSN :: string
  pj_OracleSchema :: string
  pj_PgDSN :: string
  pj_PgSchema :: string
  pj_Config :: ApiMigrationConfig
  pj_CreatedAt :: int
  pj_UpdatedAt :: int

definition defaultPGSchema :: "string \<Rightarrow> string" where
  "defaultPGSchema s = (if s = '''' then ''public'' else s)"

section \<open>The table of projects\<close>

type_synonym project_db = "ProjectConfig list"

definition ps_Create :: "string \<Rightarrow> int \<Rightarrow> ProjectRequest \<Rightarrow> project_db \<Rightarrow> string + ProjectConfig \<times> project_db" where
  "ps_Create uuid now req db =
     (if list_ex (\<lambda>p. pj_ID p = uuid) db then Inl ''insert project: UNIQUE constraint failed: projects.id''
      else let p = \<lparr>pj_ID = uuid, pj_Name = rq_Name req, pj_OracleDSN = rq_OracleDSN req, pj_OracleSchema = rq_OracleSchema req,
                    pj_PgDSN = rq_PgDSN req, pj_PgSchema = defaultPGSchema (rq_PgSchema req), pj_Config = rq_Config req,
                    pj_CreatedAt = now, pj_UpdatedAt = now\<rparr>
           in Inr (p, db @ [p]))"

definition ps_Get :: "string \<Rightarrow> project_db \<Rightarrow> ProjectConfig option" where
  "ps_Get id' db = find (\<lambda>p. pj_ID p = id') db"

text \<open>\<open>ORDER BY created_at DESC\<close>.\<close>

definition ps_List :: "project_db \<Rightarrow> ProjectConfig list" where
  "ps_List db = sort_key (\<lambda>p. - pj_CreatedAt p) db"

definition set_project :: "int \<Rightarrow> ProjectRequest \<Rightarrow> ProjectConfig \<Rightarrow> ProjectConfig" where
  "set_project now req p =
     p\<lparr>pj_Name := rq_Name req, pj_OracleDSN := rq_OracleDSN req, pj_OracleSchema := rq_OracleSchema req, pj_PgDSN := rq_PgDSN req,
       pj_PgSchema := defaultPGSchema (rq_PgSchema req), pj_Config := rq_Config req, pj_UpdatedAt := now\<rparr>"

definition ps_Update :: "int \<Rightarrow> string \<Rightarrow> ProjectRequest \<Rightarrow> project_db \<Rightarrow> ProjectConfig option \<times> project_db" where
  "ps_Update now id' req db =
     (if list_ex (\<lambda>p. pj_ID p = id') db then
        let db = map (\<lambda>p. if pj_ID p = id' then set_project now req p else p) db
        in (ps_Get id' db, db)
      else (None, db))"

definition ps_Delete :: "string \<Rightarrow> project_db \<Rightarrow> bool \<times> project_db" where
  "ps_Delete id' db = (list_ex (\<lambda>p. pj_ID p = id') db, filter (\<lambda>p. pj_ID p \<noteq> id') db)"

definition GetRawDSN :: "string \<Rightarrow> project_db \<Rightarrow> string + string \<times> string" where
  "GetRawDSN id' db =
     (case ps_Get id' db of
        None \<Rightarrow> Inl (''project not found: '' @ id')
      | Some p \<Rightarrow> Inr (pj_OracleDSN p, pj_PgDSN p))"

definition maskedProject :: "ProjectConfig \<Rightarrow> ProjectConfig" where
  "maskedProject p = p\<lparr>pj_OracleDSN := maskDSN (pj_OracleDSN p), pj_PgDSN := maskDSN (pj_PgDSN p)\<rparr>"

definition maskedProjects :: "ProjectConfig list \<Rightarrow> ProjectConfig list" where
  "maskedProjects ps = map maskedProject ps"

section \<open>Handlers\<close>

text \<open>The status and the JSON body, or the status, the message and the details of an error.\<close>

datatype 'a reply = Reply int 'a | Failure int string string

definition CreateProject :: "int \<Rightarrow> string \<Rightarrow> int \<Rightarrow> string + ProjectRequest \<Rightarrow> project_db \<Rightarrow> ProjectConfig reply \<times> project_db" where
  "CreateProject numCPU uuid now body db =
     (case body of
        Inl e \<Rightarrow> (Failure 400 ''invalid request body'' e, db)
      | Inr req \<Rightarrow>
          if rq_Name req = '''' then (Failure 400 ''name is required'' '''', db)
          else if rq_OracleDSN req = '''' then (Failure 400 ''oracle_dsn is required'' '''', db)
          else if rq_OracleSchema req = '''' then (Failure 400 ''oracle_schema is required'' '''', db)
          else if rq_PgDSN req = '''' then (Failure 400 ''pg_dsn is required'' '''', db)
          else
            let c = rq_Config req;
                c = (if mc_Workers c \<le> 0
                     then c\<lparr>mc_Workers := (if numCPU > DefaultMaxWorkers then DefaultMaxWorkers else numCPU)\<rparr> else c);
                c = (if mc_BatchSize c \<le> 0 then c\<lparr>mc_BatchSize := DefaultBatchSize\<rparr> else c);
                c = (if mc_FetchSize c \<le> 0 then c\<lparr>mc_FetchSize := DefaultFetchSize\<rparr> else c);
                c = (if \<not> mc_ValidateAfter c then c\<lparr>mc_ValidateAfter := True\<rparr> else c)
            in case ps_Create uuid now (req\<lparr>rq_Config := c\<rparr>) db of
                 Inl e \<Rightarrow> (Failure 500 ''failed to create project'' e, db)
               | Inr (p, db) \<Rightarrow> (Reply 201 (maskedProject p), db))"

definition ListProjects :: "project_db \<Rightarrow> ProjectConfig list reply" where
  "ListProjects db = Reply 200 (maskedProjects (ps_List db))"

definition GetProject :: "string \<Rightarrow> project_db \<Rightarrow> ProjectConfig reply" where
  "GetProject id' db =
     (case ps_Get id' db of None \<Rightarrow> Failure 404 ''project not found'' '''' | Some p \<Rightarrow> Reply 200 (maskedProject p))"

text \<open>The export is the stored project, its passwords included.\<close>

definition ExportProject :: "string \<Rightarrow> project_db \<Rightarrow> ProjectConfig reply" where
  "ExportProject id' db =
     (case ps_Get id' db of None \<Rightarrow> Failure 404 ''project not found'' '''' | Some p \<Rightarrow> Reply 200 p)"

text \<open>A name with the mark of a masked password stands for the stored one.\<close>

definition unmask :: "string \<Rightarrow> project_db \<Rightarrow> ProjectRequest \<Rightarrow> ProjectRequest" where
  "unmask id' db req =
     (if Contains (rq_OracleDSN req) ''****'' \<or> Contains (rq_PgDSN req) ''****'' then
        (case ps_Get id' db of
           None \<Rightarrow> req
         | Some existing \<Rightarrow>
             let req = (if Contains (rq_OracleDSN req) ''****'' then req\<lparr>rq_OracleDSN := pj_OracleDSN existing\<rparr> else req)
             in (if Contains (rq_PgDSN req) ''****'' then req\<lparr>rq_PgDSN := pj_PgDSN existing\<rparr> else req))
      else req)"

definition UpdateProject :: "int \<Rightarrow> string \<Rightarrow> string + ProjectRequest \<Rightarrow> project_db \<Rightarrow> ProjectConfig reply \<times> project_db" where
  "UpdateProject now id' body db =
     (case body of
        Inl e \<Rightarrow> (Failure 400 ''invalid request body'' e, db)
      | Inr req \<Rightarrow>
          (case ps_Update now id' (unmask id' db req) db of
             (None, db) \<Rightarrow> (Failure 404 ''project not found'' '''', db)
           | (Some p, db) \<Rightarrow> (Reply 200 (maskedProject p), db)))"

definition DeleteProject :: "string \<Rightarrow> project_db \<Rightarrow> unit reply \<times> project_db" where
  "DeleteProject id' db =
     (let (deleted, db) = ps_Delete id' db
      in (if deleted then Reply 204 () else Failure 404 ''project not found'' '''', db))"

text \<open>The \<open>dsn\<close> field of the request body is empty if there is none.\<close>

definition resolveTestDSN :: "string \<Rightarrow> string \<Rightarrow> string \<Rightarrow> project_db \<Rightarrow> string + string" where
  "resolveTestDSN dsn kind id' db =
     (if dsn \<noteq> '''' then Inr dsn
      else case ps_Get id' db of
             None \<Rightarrow> Inl ''no DSN provided and project not found''
           | Some p \<Rightarrow> if kind = ''oracle'' then Inr (pj_OracleDSN p)
                       else if kind = ''postgres'' then Inr (pj_PgDSN p)
                       else Inl (''unknown connection type: '' @ kind))"

text \<open>A nil project after the update would be a panic, which the server's middleware answers with status 500.\<close>

record SaveMappingsRequest =
  sm_NamingConvention :: string
  sm_TypeOverrides :: "string \<rightharpoonup> string"
  sm_NameOverrides :: "string \<rightharpoonup> string"

definition request_of :: "ProjectConfig \<Rightarrow> ProjectRequest" where
  "request_of p = \<lparr>rq_Name = pj_Name p, rq_OracleDSN = pj_OracleDSN p, rq_OracleSchema = pj_OracleSchema p,
     rq_PgDSN = pj_PgDSN p, rq_PgSchema = pj_PgSchema p, rq_Config = pj_Config p\<rparr>"

definition SaveMappings :: "int \<Rightarrow> string \<Rightarrow> string + SaveMappingsRequest \<Rightarrow> project_db \<Rightarrow> ProjectConfig reply \<times> project_db" where
  "SaveMappings now id' body db =
     (case ps_Get id' db of
        None \<Rightarrow> (Failure 404 ''project not found'' '''', db)
      | Some p \<Rightarrow>
          (case body of
             Inl e \<Rightarrow> (Failure 400 ''invalid request body'' e, db)
           | Inr req \<Rightarrow>
               let p = p\<lparr>pj_Config := (pj_Config p)\<lparr>mc_NamingConvention := sm_NamingConvention req,
                          mc_TypeOverrides := sm_TypeOverrides req, mc_NameOverrides := sm_NameOverrides req\<rparr>\<rparr>;
                   (updated, db) = ps_Update now id' (request_of p) db
               in (case updated of
                     Some p \<Rightarrow> Reply 200 (maskedProject p)
                   | None \<Rightarrow> Failure 500 '''' '''', db)))"

section \<open>\<open>buildConfig\<close>\<close>

definition override_config :: "ApiTableOverride \<Rightarrow> TableOverride" where
  "override_config v =
     \<lparr>o_Where = ao_Where v, PartitionFilter = ao_PartitionFilter v, o_PartitionRange = ao_PartitionRange v,
      TargetName = ao_TargetName v, o_TargetMode = ao_TargetMode v, SkipIndexes = ao_SkipIndexes v, IndexMode = ao_IndexMode v,
      SkipConstraints = ao_SkipConstraints v, SkipValidation = ao_SkipValidation v, o_BatchSize = ao_BatchSize v,
      o_FetchSize = ao_FetchSize v, o_MaxParallel = ao_MaxParallel v, o_ChunkSize = ao_ChunkSize v,
      o_ChunkStrategy = ao_ChunkStrategy v\<rparr>"

definition buildConfig :: "string \<Rightarrow> ProjectConfig \<Rightarrow> Config" where
  "buildConfig stateDBPath p =
     (let c = pj_Config p;
          workers = (if mc_Workers c \<le> 0 then 4 else mc_Workers c);
          batchSize = (if mc_BatchSize c \<le> 0 then 5000 else mc_BatchSize c);
          fetchSize = (if mc_FetchSize c \<le> 0 then 5000 else mc_FetchSize c);
          conns = i64 (i64 (workers * 2) + 4)
      in \<lparr>Oracle = \<lparr>ora_DSN = pj_OracleDSN p, ora_Schema = pj_OracleSchema p, ora_MaxConns = conns\<rparr>,
          Postgres = \<lparr>pg_DSN = pj_PgDSN p, pg_Schema = defaultPGSchema (pj_PgSchema p), pg_MaxConns = conns,
            DropTarget = mc_DropTarget c, Unlogged = mc_Unlogged c\<rparr>,
          Migration = \<lparr>Workers = workers, m_BatchSize = batchSize, MaxBatchBytes = 0, m_FetchSize = fetchSize,
            m_ChunkStrategy = mc_ChunkStrategy c, IncludeTables = mc_IncludeTables c, ExcludeTables = mc_ExcludeTables c,
            IncludeSequences = mc_IncludeSequences c, TableOverrides = map_option override_config \<circ> mc_TableOverrides c,
            StateDBPath = stateDBPath, m_Resume = False, ValidateAfter = mc_ValidateAfter c, ChecksumCols = False,
            NamingConvention = mc_NamingConvention c, m_TypeOverrides = mc_TypeOverrides c, m_NameOverrides = mc_NameOverrides c\<rparr>,
          Logging = \<lparr>Level = ''info'', Format = ''json'', log_File = ''''\<rparr>\<rparr>)"

section \<open>The store\<close>

definition project_ids :: "project_db \<Rightarrow> string list" where
  "project_ids db = map pj_ID db"

lemma ps_Get_Some: "ps_Get id' db = Some p \<Longrightarrow> p \<in> set db \<and> pj_ID p = id'"
  by (auto simp: ps_Get_def find_Some_iff)

lemma ps_Get_None: "ps_Get id' db = None \<longleftrightarrow> \<not> list_ex (\<lambda>p. pj_ID p = id') db"
  by (auto simp: ps_Get_def find_None_iff list_ex_iff)

text \<open>The rows with one id are changed by a function that keeps the id.\<close>

lemma ps_Get_update:
  assumes "\<And>p. pj_ID (f p) = pj_ID p"
  shows "ps_Get i (map (\<lambda>p. if pj_ID p = id' then f p else p) db) =
    (if i = id' then map_option f (ps_Get i db) else ps_Get i db)"
  by (induction db) (auto simp: ps_Get_def assms)

lemma ps_Update_eq:
  "ps_Update now id' req db =
     (map_option (set_project now req) (ps_Get id' db), map (\<lambda>p. if pj_ID p = id' then set_project now req p else p) db)"
proof (cases "list_ex (\<lambda>p. pj_ID p = id') db")
  case True
  then show ?thesis
    using ps_Get_update [of "set_project now req" id' id' db] by (simp add: ps_Update_def Let_def set_project_def)
next
  case False
  then have "ps_Get id' db = None" "map (\<lambda>p. if pj_ID p = id' then set_project now req p else p) db = db"
    by (auto simp: ps_Get_None list_ex_iff intro: map_idI)
  then show ?thesis using False by (simp add: ps_Update_def)
qed

text \<open>What every operation keeps: ids are unique, and the PostgreSQL schema is never empty.\<close>

definition projects_ok :: "project_db \<Rightarrow> bool" where
  "projects_ok db \<longleftrightarrow> distinct (project_ids db) \<and> list_all (\<lambda>p. pj_PgSchema p \<noteq> '''') db"

lemma defaultPGSchema_nonempty [simp]: "defaultPGSchema s \<noteq> ''''"
  by (simp add: defaultPGSchema_def)

lemma ps_Create_ok: "projects_ok db \<Longrightarrow> ps_Create uuid now req db = Inr (p, db') \<Longrightarrow> projects_ok db'"
  by (auto simp: projects_ok_def ps_Create_def project_ids_def list_ex_iff list_all_iff Let_def split: if_splits)

lemma ps_Update_ok:
  assumes "projects_ok db"
  shows "projects_ok (snd (ps_Update now id' req db))"
proof -
  have "project_ids (snd (ps_Update now id' req db)) = project_ids db"
    by (simp add: ps_Update_eq project_ids_def set_project_def)
  moreover have "list_all (\<lambda>p. pj_PgSchema p \<noteq> '''') (snd (ps_Update now id' req db))"
    using assms by (auto simp: projects_ok_def ps_Update_eq list_all_iff set_project_def)
  ultimately show ?thesis using assms by (simp add: projects_ok_def)
qed

lemma ps_Delete_ok: "projects_ok db \<Longrightarrow> projects_ok (snd (ps_Delete id' db))"
  by (auto simp: projects_ok_def ps_Delete_def project_ids_def list_all_iff distinct_map_filter)

lemmas project_ops_ok = ps_Create_ok ps_Update_ok ps_Delete_ok

section \<open>Properties\<close>

text \<open>
  C36. A project survives the round trip through the user interface: reading a project, which shows its
  names masked, and saving what was read stores the same project again, both passwords included, with a
  new time stamp, and leaves every other project alone. This holds for every pair of names, whether the mask changed
  them or not.
\<close>

theorem masked_project_roundtrip:
  assumes "ps_Get id' db = Some p" and "pj_PgSchema p \<noteq> ''''"
  shows "ps_Get i (snd (UpdateProject now id' (Inr (request_of (maskedProject p))) db)) =
    (if i = id' then Some (p\<lparr>pj_UpdatedAt := now\<rparr>) else ps_Get i db)"
proof -
  have req: "unmask id' db (request_of (maskedProject p)) = request_of p"
    using assms(1) masked_or_same [of "pj_OracleDSN p"] masked_or_same [of "pj_PgDSN p"]
    by (auto simp: unmask_def request_of_def maskedProject_def Let_def)
  have same: "set_project now (request_of p) p = p\<lparr>pj_UpdatedAt := now\<rparr>"
    using assms(2) by (simp add: set_project_def request_of_def defaultPGSchema_def)
  have "snd (UpdateProject now id' (Inr (request_of (maskedProject p))) db) =
      map (\<lambda>q. if pj_ID q = id' then set_project now (request_of p) q else q) db"
    using assms(1) by (simp add: UpdateProject_def req ps_Update_eq)
  then show ?thesis
    using ps_Get_update [of "set_project now (request_of p)" i id' db] assms(1) same by (simp add: set_project_def)
qed

definition demo_api_config :: ApiMigrationConfig where
  "demo_api_config = \<lparr>mc_Workers = 0, mc_BatchSize = 0, mc_FetchSize = 0, mc_IncludeTables = [], mc_ExcludeTables = [],
     mc_IncludeSequences = [], mc_TableOverrides = Map.empty, mc_DropTarget = False, mc_Unlogged = False, mc_ValidateAfter = False,
     mc_ChunkStrategy = '''', mc_NamingConvention = '''', mc_TypeOverrides = Map.empty, mc_NameOverrides = Map.empty\<rparr>"

definition demo_project :: ProjectConfig where
  "demo_project = \<lparr>pj_ID = ''7'', pj_Name = ''hr'', pj_OracleDSN = ''scott/tiger@db'', pj_OracleSchema = ''HR'',
     pj_PgDSN = ''postgres://pg/x'', pj_PgSchema = ''public'', pj_Config = demo_api_config, pj_CreatedAt = 1, pj_UpdatedAt = 1\<rparr>"

theorem masked_project_roundtrip_witness:
  "ps_Get ''7'' (snd (UpdateProject 9 ''7'' (Inr (request_of (maskedProject demo_project))) [demo_project])) =
     Some (demo_project\<lparr>pj_UpdatedAt := 9\<rparr>) \<and>
   pj_OracleDSN (maskedProject demo_project) = ''scott/****@db''"
proof -
  have "ps_Get ''7'' [demo_project] = Some demo_project" "pj_PgSchema demo_project \<noteq> ''''"
    by (simp_all add: ps_Get_def demo_project_def)
  moreover have "pj_OracleDSN (maskedProject demo_project) = ''scott/****@db''" by code_simp
  ultimately show ?thesis using masked_project_roundtrip [of "''7''" "[demo_project]" demo_project "''7''" 9] by simp
qed

text \<open>
  A change to a masked name is lost: as long as the mark is in it, the stored name is written back,
  whatever the rest of the new name says.
\<close>

lemma masked_edit_lost:
  assumes "ps_Get id' db = Some p" and "Contains (rq_OracleDSN req) ''****''"
  shows "map_option pj_OracleDSN (ps_Get id' (snd (UpdateProject now id' (Inr req) db))) = Some (pj_OracleDSN p)"
proof -
  have "rq_OracleDSN (unmask id' db req) = pj_OracleDSN p" using assms by (simp add: unmask_def Let_def)
  moreover have "snd (UpdateProject now id' (Inr req) db) =
      map (\<lambda>q. if pj_ID q = id' then set_project now (unmask id' db req) q else q) db"
    using assms(1) by (simp add: UpdateProject_def ps_Update_eq)
  ultimately show ?thesis
    using ps_Get_update [of "set_project now (unmask id' db req)" id' id' db] assms(1) by (simp add: set_project_def)
qed

text \<open>A created project validates after the run, also when the request asked for no validation.\<close>

lemma created_project_validates:
  assumes "CreateProject numCPU uuid now (Inr req) db = (Reply 201 p, db')"
  shows "mc_ValidateAfter (pj_Config p)"
  using assms by (auto simp: CreateProject_def ps_Create_def maskedProject_def Let_def split: if_splits)

text \<open>
  The configuration of a migration that the server starts has a positive number of workers, rows per
  batch and rows per fetch, but it does not go through \<open>Load\<close>: it has no byte limit for a batch, so it never
  satisfies what a loaded configuration satisfies, and the number of workers is not bounded by 64. Of the checks
  that \<open>Load\<close> makes, it passes exactly if the project has both names and the Oracle schema and at most 64 workers.
\<close>

theorem buildConfig_bounds:
  "1 \<le> Workers (Migration (buildConfig path p)) \<and> 0 < m_BatchSize (Migration (buildConfig path p)) \<and>
   0 < m_FetchSize (Migration (buildConfig path p)) \<and> \<not> config_ok (buildConfig path p) \<and>
   (validate (buildConfig path p) = None \<longleftrightarrow>
     pj_OracleDSN p \<noteq> '''' \<and> pj_OracleSchema p \<noteq> '''' \<and> pj_PgDSN p \<noteq> '''' \<and> mc_Workers (pj_Config p) \<le> 64)"
  by (simp add: buildConfig_def config_ok_def validate_None Let_def)

end
