(* ===== verification/Updater.thy ===== *)
theory Updater
  imports Go_Scan Project_Store "HOL-Library.Product_Lexorder"
begin

text \<open>
  The self updater, \<open>internal/updater/updater.go\<close>, with its three handlers in \<open>pkg/api/handlers.go\<close>: comparing versions,
  choosing the asset of a release, and replacing the running binary by one from an archive. Files are a map from paths to
  contents; paths are written with slashes, as on Unix. What the operating system, GitHub and the archive reader
  answer is an argument (\<open>os_env\<close>); every operation on files may fail. File modes, the Windows
  mark of downloaded files and the progress callback (always nil) are left out. The lemmas say that version comparison
  is a strict order, that a version that was printed is read back, what is installed when an update succeeds, that the
  binary survives every failure but that of the rollback, and where an archive may write.
\<close>

section \<open>Releases and versions\<close>

record Asset =
  as_Name :: string
  BrowserDownloadURL :: string
  as_Size :: int
  ContentType :: string

record Release =
  TagName :: string
  rl_Name :: string
  Body :: string
  PublishedAt :: int
  HTMLURL :: string
  Assets :: "Asset list"

record UpdateInfo =
  Available :: bool
  CurrentVersion :: string
  LatestVersion :: string
  ReleaseNotes :: string
  ReleaseURL :: string
  DownloadURL :: string
  AssetSize :: int

definition parseVersion :: "string \<Rightarrow> int \<times> int \<times> int" where
  "parseVersion v =
     (case scan_dots 3 (TrimPrefix v ''v'') of
        [] \<Rightarrow> (0, 0, 0) | [a] \<Rightarrow> (a, 0, 0) | [a, b] \<Rightarrow> (a, b, 0) | a # b # c # _ \<Rightarrow> (a, b, c))"

definition isNewer :: "string \<Rightarrow> string \<Rightarrow> bool" where
  "isNewer current latest =
     (let (c0, c1, c2) = parseVersion current; (l0, l1, l2) = parseVersion latest
      in if l0 > c0 then True else if l0 < c0 then False
         else if l1 > c1 then True else if l1 < c1 then False
         else if l2 > c2 then True else False)"

definition asset_pattern :: "string \<Rightarrow> string \<Rightarrow> string" where
  "asset_pattern goos goarch =
     (if goos = ''windows'' then ''windows-amd64.zip''
      else if goos = ''darwin'' then (if goarch = ''arm64'' then ''darwin-arm64.tar.gz'' else ''darwin-amd64.tar.gz'')
      else if goos = ''linux'' then ''linux-amd64.tar.gz''
      else '''')"

definition findAsset :: "string \<Rightarrow> string \<Rightarrow> Asset list \<Rightarrow> Asset option" where
  "findAsset goos goarch assets = List.find (\<lambda>a. Contains (as_Name a) (asset_pattern goos goarch)) assets"

text \<open>The answer of GitHub: the error of the request, or the status with the decoded body or the decoder's error.\<close>

definition no_release :: Release where
  "no_release = \<lparr>TagName = ''v0.0.0'', rl_Name = '''', Body = '''', PublishedAt = 0, HTMLURL = '''', Assets = []\<rparr>"

definition fetchLatestRelease :: "string + int \<times> (string + Release) \<Rightarrow> string + Release" where
  "fetchLatestRelease resp =
     (case resp of
        Inl e \<Rightarrow> Inl e
      | Inr (status, body) \<Rightarrow>
          if status = 404 then Inr no_release
          else if status \<noteq> 200 then Inl (''github API: HTTP '' @ itoa status)
          else wrap_err ''decode release'' body)"

definition no_update :: "string \<Rightarrow> UpdateInfo" where
  "no_update currentVersion = \<lparr>Available = False, CurrentVersion = currentVersion, LatestVersion = '''', ReleaseNotes = '''',
     ReleaseURL = '''', DownloadURL = '''', AssetSize = 0\<rparr>"

definition CheckUpdate ::
    "string \<Rightarrow> string \<Rightarrow> string + int \<times> (string + Release) \<Rightarrow> string \<Rightarrow> string + UpdateInfo" where
  "CheckUpdate goos goarch resp currentVersion =
     (let info = no_update currentVersion
      in if currentVersion = '''' \<or> currentVersion = ''dev'' then Inr (info\<lparr>LatestVersion := ''unknown''\<rparr>)
         else chain (wrap_err ''check update'' (fetchLatestRelease resp)) (\<lambda>release.
           let info = info\<lparr>LatestVersion := TagName release, ReleaseNotes := Body release, ReleaseURL := HTMLURL release\<rparr>
           in Inr (if isNewer currentVersion (TagName release) then
                     let info = info\<lparr>Available := True\<rparr>
                     in (case findAsset goos goarch (Assets release) of
                           None \<Rightarrow> info
                         | Some asset \<Rightarrow> info\<lparr>DownloadURL := BrowserDownloadURL asset, AssetSize := as_Size asset\<rparr>)
                   else info)))"

section \<open>Paths\<close>

text \<open>\<open>filepath.Base\<close>, \<open>Dir\<close> and \<open>Join\<close> (for a rooted directory) of slash-separated paths.\<close>

definition Base :: "string \<Rightarrow> string" where
  "Base path =
     (if path = '''' then ''.''
      else let p = rev (dropWhile (\<lambda>c. c = CHR ''/'') (rev path))
           in if p = '''' then ''/'' else last (Split p (CHR ''/'')))"

definition push_part :: "string list \<Rightarrow> string \<Rightarrow> string list" where
  "push_part st c = (if c = '''' \<or> c = ''.'' then st else if c = ''..'' then butlast st else st @ [c])"

definition Clean :: "string \<Rightarrow> string" where
  "Clean path = CHR ''/'' # Join (foldl push_part [] (Split path (CHR ''/''))) ''/''"

definition path_Join :: "string \<Rightarrow> string \<Rightarrow> string" where
  "path_Join dir rel = Clean (if rel = '''' then dir else dir @ ''/'' @ rel)"

definition Dir :: "string \<Rightarrow> string" where
  "Dir path = Clean (rev (dropWhile (\<lambda>c. c \<noteq> CHR ''/'') (rev path)))"

section \<open>The file system\<close>

record zip_entry =
  ze_Name :: string
  ze_IsDir :: bool
  ze_Data :: string

datatype fs_op =
  OpOpenZip string | OpOpenEntry string | OpCreate string | OpCopy string | OpMkdir string | OpRename string string
  | OpRemove string | OpCreateTemp string | OpWrite string

type_synonym files = "string \<rightharpoonup> string"

record download =
  dl_Status :: int
  dl_Body :: string
  dl_Error :: "string option"

text \<open>\<open>copied\<close> is what a failed copy has written before it failed.\<close>

record os_env =
  goos :: string
  goarch :: string
  executable :: "string + string"
  eval_symlinks :: "string \<Rightarrow> string + string"
  op_error :: "fs_op \<Rightarrow> string option"
  read_zip :: "string \<Rightarrow> string + zip_entry list"
  copied :: "zip_entry \<Rightarrow> string"
  temp_name :: "string \<Rightarrow> string"
  bad_request :: "string \<Rightarrow> string option"
  http_get :: "string \<Rightarrow> string + download"

definition remove_file :: "os_env \<Rightarrow> string \<Rightarrow> files \<Rightarrow> files" where
  "remove_file env path fs = (if op_error env (OpRemove path) = None then fs(path := None) else fs)"

definition rename_file :: "os_env \<Rightarrow> string \<Rightarrow> string \<Rightarrow> files \<Rightarrow> string option \<times> files" where
  "rename_file env src dst fs =
     (case op_error env (OpRename src dst) of Some e \<Rightarrow> (Some e, fs) | None \<Rightarrow> (None, (fs(dst := fs src))(src := None)))"

section \<open>Extracting an archive\<close>

fun fallback_target :: "zip_entry option \<Rightarrow> zip_entry list \<Rightarrow> zip_entry option" where
  "fallback_target targetFile [] = targetFile"
| "fallback_target targetFile (f # fs) =
     (let name = Base (ze_Name f)
      in if Contains (ToLower name) ''existora'' \<and> HasSuffix (ToLower name) ''.exe'' then
           (if Contains name ''desktop'' then Some f
            else fallback_target (if targetFile = None then Some f else targetFile) fs)
         else fallback_target targetFile fs)"

definition find_target :: "string \<Rightarrow> zip_entry list \<Rightarrow> zip_entry option" where
  "find_target exeName entries =
     (case List.find (\<lambda>f. EqualFold (Base (ze_Name f)) exeName) entries of
        Some f \<Rightarrow> Some f
      | None \<Rightarrow> fallback_target None entries)"

definition strip_top :: "string \<Rightarrow> string" where
  "strip_top name = (case IndexOf name ''/'' of None \<Rightarrow> name | Some i \<Rightarrow> drop (i + 1) name)"

definition dest_path :: "string \<Rightarrow> zip_entry \<Rightarrow> string" where
  "dest_path exeDir f = path_Join exeDir (strip_top (ze_Name f))"

definition extractFile :: "os_env \<Rightarrow> zip_entry \<Rightarrow> string \<Rightarrow> files \<Rightarrow> files" where
  "extractFile env f destPath fs =
     (if op_error env (OpOpenEntry (ze_Name f)) \<noteq> None then fs
      else if op_error env (OpCreate destPath) \<noteq> None then fs
      else if op_error env (OpCopy destPath) \<noteq> None then fs(destPath \<mapsto> copied env f)
      else fs(destPath \<mapsto> ze_Data f))"

definition extract_other :: "os_env \<Rightarrow> string \<Rightarrow> zip_entry \<Rightarrow> files \<Rightarrow> zip_entry \<Rightarrow> files" where
  "extract_other env exeDir targetFile fs f =
     (if ze_IsDir f then fs
      else if Base (ze_Name f) = Base (ze_Name targetFile) then fs
      else let destPath = dest_path exeDir f
           in if op_error env (OpMkdir (Dir destPath)) \<noteq> None then fs else extractFile env f destPath fs)"

text \<open>The last part: the renames with the rollback.\<close>

definition replace_exe :: "os_env \<Rightarrow> string \<Rightarrow> files \<Rightarrow> string option \<times> files" where
  "replace_exe env exePath fs =
     (let newExePath = exePath @ ''.new''; oldExePath = exePath @ ''.old'';
          fs = remove_file env oldExePath fs
      in if goos env = ''windows'' then
           (case rename_file env exePath oldExePath fs of
              (Some e, fs) \<Rightarrow> (Some (''rename current exe: '' @ e), remove_file env newExePath fs)
            | (None, fs) \<Rightarrow>
                (case rename_file env newExePath exePath fs of
                   (Some e, fs) \<Rightarrow> (Some (''rename new exe: '' @ e), snd (rename_file env oldExePath exePath fs))
                 | (None, fs) \<Rightarrow> (None, fs)))
         else
           (case rename_file env newExePath exePath fs of
              (Some e, fs) \<Rightarrow> (Some (''replace exe: '' @ e), fs)
            | (None, fs) \<Rightarrow> (None, fs)))"

definition extractAndReplace ::
    "os_env \<Rightarrow> string \<Rightarrow> string \<Rightarrow> string \<Rightarrow> string \<Rightarrow> files \<Rightarrow> string option \<times> files" where
  "extractAndReplace env zipPath exeDir exeName exePath fs =
     (let opened = (case op_error env (OpOpenZip zipPath) of
                      Some e \<Rightarrow> Inl e
                    | None \<Rightarrow> (case fs zipPath of None \<Rightarrow> Inl ''no such file or directory'' | Some content \<Rightarrow> read_zip env content));
          newExePath = exePath @ ''.new''
      in case opened of
           Inl e \<Rightarrow> (Some (''open zip: '' @ e), fs)
         | Inr entries \<Rightarrow>
             (case find_target exeName entries of
                None \<Rightarrow> (Some ''no matching executable found in zip'', fs)
              | Some targetFile \<Rightarrow>
                  (case op_error env (OpOpenEntry (ze_Name targetFile)) of
                     Some e \<Rightarrow> (Some (''open zip entry: '' @ e), fs)
                   | None \<Rightarrow>
                       (case op_error env (OpCreate newExePath) of
                          Some e \<Rightarrow> (Some (''create new exe: '' @ e), fs)
                        | None \<Rightarrow>
                            (case op_error env (OpCopy newExePath) of
                               Some e \<Rightarrow> (Some (''extract exe: '' @ e),
                                          remove_file env newExePath (fs(newExePath \<mapsto> copied env targetFile)))
                             | None \<Rightarrow>
                                 replace_exe env exePath
                                   (foldl (extract_other env exeDir targetFile) (fs(newExePath \<mapsto> ze_Data targetFile)) entries))))))"

section \<open>Applying an update\<close>

definition exe_path :: "os_env \<Rightarrow> string + string" where
  "exe_path env =
     chain (wrap_err ''get executable path'' (executable env)) (\<lambda>p. wrap_err ''resolve symlinks'' (eval_symlinks env p))"

definition extract_from :: "os_env \<Rightarrow> string \<Rightarrow> string \<Rightarrow> files \<Rightarrow> string option \<times> files" where
  "extract_from env zipPath exePath fs = extractAndReplace env zipPath (Dir exePath) (Base exePath) exePath fs"

text \<open>The temporary file is removed at the end, whatever happened.\<close>

definition with_temp :: "os_env \<Rightarrow> string \<Rightarrow> files \<Rightarrow> (string \<Rightarrow> files \<Rightarrow> string option \<times> files) \<Rightarrow> string option \<times> files" where
  "with_temp env exePath fs k =
     (let exeDir = Dir exePath; tmpPath = temp_name env exeDir
      in case op_error env (OpCreateTemp exeDir) of
           Some e \<Rightarrow> (Some (''create temp file: '' @ e), fs)
         | None \<Rightarrow> (let (err, fs) = k tmpPath (fs(tmpPath \<mapsto> '''')) in (err, remove_file env tmpPath fs)))"

definition ApplyUpdate :: "os_env \<Rightarrow> string \<Rightarrow> files \<Rightarrow> string option \<times> files" where
  "ApplyUpdate env downloadURL fs =
     (if downloadURL = '''' then (Some ''no download URL provided'', fs)
      else case exe_path env of
        Inl e \<Rightarrow> (Some e, fs)
      | Inr exePath \<Rightarrow>
          (case bad_request env downloadURL of
             Some e \<Rightarrow> (Some (''create request: '' @ e), fs)
           | None \<Rightarrow>
               (case http_get env downloadURL of
                  Inl e \<Rightarrow> (Some (''download: '' @ e), fs)
                | Inr resp \<Rightarrow>
                    if dl_Status resp \<noteq> 200 then (Some (''download failed: HTTP '' @ itoa (dl_Status resp)), fs)
                    else with_temp env exePath fs (\<lambda>tmpPath fs.
                      case op_error env (OpWrite tmpPath) of
                        Some e \<Rightarrow> (Some (''write temp: '' @ e), fs)
                      | None \<Rightarrow>
                          (let fs = fs(tmpPath \<mapsto> dl_Body resp)
                           in case dl_Error resp of
                                Some e \<Rightarrow> (Some (''download read: '' @ e), fs)
                              | None \<Rightarrow>
                                  if HasSuffix downloadURL ''.zip'' then extract_from env tmpPath exePath fs
                                  else (Some ''unsupported archive format (expected .zip)'', fs))))))"

definition ApplyFromFile :: "os_env \<Rightarrow> string \<Rightarrow> files \<Rightarrow> string option \<times> files" where
  "ApplyFromFile env zipPath fs =
     (case exe_path env of Inl e \<Rightarrow> (Some e, fs) | Inr exePath \<Rightarrow> extract_from env zipPath exePath fs)"

text \<open>The reader gives its bytes and perhaps an error.\<close>

definition ApplyFromReader :: "os_env \<Rightarrow> string \<times> string option \<Rightarrow> files \<Rightarrow> string option \<times> files" where
  "ApplyFromReader env r fs =
     (case exe_path env of
        Inl e \<Rightarrow> (Some e, fs)
      | Inr exePath \<Rightarrow>
          with_temp env exePath fs (\<lambda>tmpPath fs.
            (let (content, err) = r; fs = fs(tmpPath \<mapsto> content)
             in case (case op_error env (OpWrite tmpPath) of Some e \<Rightarrow> Some e | None \<Rightarrow> err) of
                  Some e \<Rightarrow> (Some (''write upload: '' @ e), fs)
                | None \<Rightarrow> extract_from env tmpPath exePath fs)))"

section \<open>The handlers\<close>

definition CheckUpdate_handler :: "string \<Rightarrow> string \<Rightarrow> string + int \<times> (string + Release) \<Rightarrow> string \<Rightarrow> UpdateInfo reply" where
  "CheckUpdate_handler os arch resp appVersion =
     (case CheckUpdate os arch resp appVersion of
        Inl e \<Rightarrow> Reply 200 ((no_update appVersion)\<lparr>LatestVersion := ''unknown''\<rparr>)
      | Inr info \<Rightarrow> Reply 200 info)"

definition applied :: string where
  "applied = ''Update applied. Please restart the application.''"

definition ApplyUpdate_handler :: "os_env \<Rightarrow> string + string \<Rightarrow> files \<Rightarrow> string reply \<times> files" where
  "ApplyUpdate_handler env body fs =
     (case body of
        Inl e \<Rightarrow> (Failure 400 ''invalid request'' '''', fs)
      | Inr url \<Rightarrow>
          if url = '''' then (Failure 400 ''download_url required'' '''', fs)
          else case ApplyUpdate env url fs of
            (Some e, fs) \<Rightarrow> (Failure 500 e '''', fs)
          | (None, fs) \<Rightarrow> (Reply 200 applied, fs))"

text \<open>The upload: the error of the form, or the name of the file and its reader.\<close>

definition ApplyLocalUpdate :: "os_env \<Rightarrow> string + string \<times> string \<times> string option \<Rightarrow> files \<Rightarrow> string reply \<times> files" where
  "ApplyLocalUpdate env upload fs =
     (case upload of
        Inl e \<Rightarrow> (Failure 400 (''file upload required: '' @ e) '''', fs)
      | Inr (filename, r) \<Rightarrow>
          if \<not> HasSuffix (ToLower filename) ''.zip'' then (Failure 400 ''only .zip files are supported'' '''', fs)
          else case ApplyFromReader env r fs of
            (Some e, fs) \<Rightarrow> (Failure 500 e '''', fs)
          | (None, fs) \<Rightarrow> (Reply 200 applied, fs))"

section \<open>Versions\<close>

lemma isNewer_less: "isNewer current latest \<longleftrightarrow> parseVersion current < parseVersion latest"
  by (auto simp: isNewer_def split_def Let_def less_prod_def' prod_eq_iff)

text \<open>
  Versions are compared by a strict order: no version is newer than itself, newer is transitive, and of two
  versions with different numbers exactly one is newer, so following releases can never go in a circle.
\<close>

theorem isNewer_strict_order:
  "\<not> isNewer v v \<and> \<not> (isNewer u v \<and> isNewer v u) \<and> \<not> (isNewer u v \<and> isNewer v w \<and> \<not> isNewer u w) \<and>
   (parseVersion u = parseVersion v \<or> isNewer u v \<or> isNewer v u)"
  unfolding isNewer_less by (meson less_asym less_irrefl less_trans linorder_less_linear)

lemma TrimPrefix_digit: "TrimPrefix (itoa a @ s) ''v'' = itoa a @ s" if "0 \<le> a"
proof -
  obtain c cs where u: "utoa (nat a) = c # cs" by (cases "utoa (nat a)") auto
  then have "is_digit c" using utoa_digits [of c "nat a"] by simp
  then have "c \<noteq> CHR ''v''" by (auto simp: is_digit_def byte_def)
  then show ?thesis using that by (simp add: itoa_def u TrimPrefix_def HasPrefix_def)
qed

text \<open>
  A version that was printed is read back: with or without the leading \<open>v\<close>, and whatever follows the third number,
  such as the mark of a pre-release (which the comparison therefore ignores).
\<close>

theorem parseVersion_printed:
  assumes "0 \<le> a" "0 \<le> b" "0 \<le> c" "a < 9223372036854775808" "b < 9223372036854775808" "c < 9223372036854775808"
    and "s = '''' \<or> \<not> is_digit (hd s)"
  shows "parseVersion (itoa a @ ''.'' @ itoa b @ ''.'' @ itoa c @ s) = (a, b, c) \<and>
    parseVersion (''v'' @ itoa a @ ''.'' @ itoa b @ ''.'' @ itoa c @ s) = (a, b, c)"
proof -
  have dot: "\<not> is_digit (CHR ''.'')" by (simp add: is_digit_def byte_def)
  have a: "scan_int (itoa a @ ''.'' @ t) = Some (a, ''.'' @ t)" and b: "scan_int (itoa b @ ''.'' @ t) = Some (b, ''.'' @ t)" for t
    using assms dot by (simp_all add: scan_int_itoa)
  have c: "scan_int (itoa c @ s) = Some (c, s)" using assms by (simp add: scan_int_itoa)
  have "scan_dots 3 (itoa a @ ''.'' @ itoa b @ ''.'' @ itoa c @ s) = [a, b, c]"
    using a b c by (simp add: numeral_3_eq_3 split: list.splits)
  moreover have "TrimPrefix (''v'' @ t) ''v'' = t" for t by (simp add: TrimPrefix_def HasPrefix_def)
  ultimately show ?thesis using TrimPrefix_digit [OF assms(1)] by (simp add: parseVersion_def)
qed

theorem parseVersion_printed_witness:
  "parseVersion ''1.20.3'' = (1, 20, 3) \<and> parseVersion ''v1.20.3'' = (1, 20, 3)"
proof -
  have e: "itoa 1 = ''1''" "itoa 20 = ''20''" "itoa 3 = ''3''" by code_simp+
  show ?thesis using parseVersion_printed [of 1 20 3 "''''", unfolded e] by simp
qed

section \<open>Replacing the binary\<close>

text \<open>The entries that are written beside the binary go to other paths than \<open>path\<close>.\<close>

definition avoids :: "string \<Rightarrow> zip_entry \<Rightarrow> zip_entry \<Rightarrow> string \<Rightarrow> bool" where
  "avoids exeDir tgt f path \<longleftrightarrow> ze_IsDir f \<or> Base (ze_Name f) = Base (ze_Name tgt) \<or> dest_path exeDir f \<noteq> path"

lemma extract_other_keeps:
  assumes "avoids exeDir tgt f path"
  shows "extract_other env exeDir tgt fs f path = fs path"
  using assms by (auto simp: avoids_def extract_other_def extractFile_def Let_def)

lemma extract_all_keeps:
  assumes "\<And>f. f \<in> set entries \<Longrightarrow> avoids exeDir tgt f path"
  shows "foldl (extract_other env exeDir tgt) fs entries path = fs path"
  using assms by (induction entries arbitrary: fs) (simp_all add: extract_other_keeps)

lemma remove_other: "path \<noteq> q \<Longrightarrow> remove_file env q fs path = fs path"
  by (simp add: remove_file_def)

lemma suffix_differs [simp]: "p @ [c] @ s \<noteq> p" "p \<noteq> p @ c # s" "p @ c # s \<noteq> p"
  by simp_all

text \<open>What the renames do to the binary.\<close>

lemma replace_exe_cases:
  assumes "fs (exePath @ ''.new'') = Some new" "fs exePath = Some old"
    and "replace_exe env exePath fs = (err, fs')"
  shows "if err = None then fs' exePath = Some new
    else fs' exePath = Some old \<or>
      (goos env = ''windows'' \<and> op_error env (OpRename (exePath @ ''.old'') exePath) \<noteq> None \<and> fs' (exePath @ ''.old'') = Some old)"
  using assms
  by (auto simp: replace_exe_def rename_file_def remove_file_def Let_def split: option.splits if_splits)

text \<open>
  C15. The binary is replaced or kept: provided that no other entry of the archive is written over the binary
  or the new one beside it, an update that succeeds has installed the content of the entry chosen from the archive, and one that
  fails, at whatever operation, has left the old binary in place, or under its \<open>.old\<close> name when on Windows the
  rollback failed too.
\<close>

theorem extractAndReplace_survives:
  assumes "extractAndReplace env zipPath exeDir exeName exePath fs = (err, fs')" and "fs exePath = Some old"
    and "\<forall>content entries tgt. fs zipPath = Some content \<longrightarrow> read_zip env content = Inr entries \<longrightarrow>
      find_target exeName entries = Some tgt \<longrightarrow>
      list_all (\<lambda>f. avoids exeDir tgt f exePath \<and> avoids exeDir tgt f (exePath @ ''.new'')) entries"
  shows "if err = None
    then \<exists>content entries tgt. fs zipPath = Some content \<and> read_zip env content = Inr entries \<and>
      find_target exeName entries = Some tgt \<and> fs' exePath = Some (ze_Data tgt)
    else fs' exePath = Some old \<or>
      (goos env = ''windows'' \<and> op_error env (OpRename (exePath @ ''.old'') exePath) \<noteq> None \<and> fs' (exePath @ ''.old'') = Some old)"
proof (cases "\<exists>content entries tgt. fs zipPath = Some content \<and> read_zip env content = Inr entries \<and> find_target exeName entries = Some tgt \<and>
    op_error env (OpOpenZip zipPath) = None \<and> op_error env (OpOpenEntry (ze_Name tgt)) = None \<and>
    op_error env (OpCreate (exePath @ ''.new'')) = None \<and> op_error env (OpCopy (exePath @ ''.new'')) = None")
  case True
  then obtain content entries tgt where z: "fs zipPath = Some content" "read_zip env content = Inr entries" "find_target exeName entries = Some tgt"
    and ok: "op_error env (OpOpenZip zipPath) = None" "op_error env (OpOpenEntry (ze_Name tgt)) = None"
      "op_error env (OpCreate (exePath @ ''.new'')) = None" "op_error env (OpCopy (exePath @ ''.new'')) = None" by blast
  define fs1 where "fs1 = foldl (extract_other env exeDir tgt) (fs(exePath @ ''.new'' \<mapsto> ze_Data tgt)) entries"
  have av: "\<And>f. f \<in> set entries \<Longrightarrow> avoids exeDir tgt f exePath \<and> avoids exeDir tgt f (exePath @ ''.new'')"
    using assms(3) z by (simp add: list_all_iff)
  have fs1: "fs1 (exePath @ ''.new'') = Some (ze_Data tgt)" "fs1 exePath = Some old"
    unfolding fs1_def using extract_all_keeps [of entries exeDir tgt] av assms(2) by simp_all
  have "replace_exe env exePath fs1 = (err, fs')" using assms(1) z ok by (simp add: extractAndReplace_def fs1_def)
  from replace_exe_cases [OF fs1 this] show ?thesis using z by (auto split: if_splits)
next
  case False
  have "err \<noteq> None \<and> fs' exePath = Some old"
    using assms(1,2) False
    by (auto simp: extractAndReplace_def Let_def remove_other split: option.splits sum.splits)
  then show ?thesis by auto
qed

definition demo_entry :: "string \<Rightarrow> string \<Rightarrow> zip_entry" where
  "demo_entry n d = \<lparr>ze_Name = n, ze_IsDir = False, ze_Data = d\<rparr>"

definition demo_os :: "string \<Rightarrow> (fs_op \<Rightarrow> string option) \<Rightarrow> zip_entry list \<Rightarrow> os_env" where
  "demo_os os err entries =
     \<lparr>goos = os, goarch = ''amd64'', executable = Inr ''/opt/app/existora'', eval_symlinks = Inr, op_error = err,
      read_zip = \<lambda>_. Inr entries, copied = \<lambda>_. '''', temp_name = \<lambda>d. d @ ''/t.zip'', bad_request = \<lambda>_. None, http_get = \<lambda>_. Inl ''offline''\<rparr>"

definition demo_files :: files where
  "demo_files = [''/opt/app/existora'' \<mapsto> ''old'', ''/tmp/u.zip'' \<mapsto> ''zip'']"

text \<open>On Windows the second rename fails, and the rollback works.\<close>

theorem extractAndReplace_survives_witness:
  "snd (extractAndReplace (demo_os ''windows'' (\<lambda>op. if op = OpRename ''/opt/app/existora.new'' ''/opt/app/existora'' then Some ''busy'' else None)
       [demo_entry ''v2/existora'' ''new'', demo_entry ''v2/lib/oci.dll'' ''dll'']) ''/tmp/u.zip'' ''/opt/app'' ''existora'' ''/opt/app/existora'' demo_files)
     ''/opt/app/existora'' = Some ''old''"
proof -
  define env where "env = demo_os ''windows'' (\<lambda>op. if op = OpRename ''/opt/app/existora.new'' ''/opt/app/existora'' then Some ''busy'' else None)
       [demo_entry ''v2/existora'' ''new'', demo_entry ''v2/lib/oci.dll'' ''dll'']"
  obtain err fs' where r: "extractAndReplace env ''/tmp/u.zip'' ''/opt/app'' ''existora'' ''/opt/app/existora'' demo_files = (err, fs')" by fastforce
  have "fst (extractAndReplace env ''/tmp/u.zip'' ''/opt/app'' ''existora'' ''/opt/app/existora'' demo_files) \<noteq> None"
    unfolding env_def by code_simp
  then have err: "err \<noteq> None" by (simp add: r)
  have old: "demo_files ''/opt/app/existora'' = Some ''old''" by (simp add: demo_files_def)
  have e: "read_zip env content = Inr [demo_entry ''v2/existora'' ''new'', demo_entry ''v2/lib/oci.dll'' ''dll'']" for content
    by (simp add: env_def demo_os_def)
  have t: "find_target ''existora'' [demo_entry ''v2/existora'' ''new'', demo_entry ''v2/lib/oci.dll'' ''dll''] = Some (demo_entry ''v2/existora'' ''new'')"
    by code_simp
  have a: "list_all (\<lambda>f. avoids ''/opt/app'' (demo_entry ''v2/existora'' ''new'') f ''/opt/app/existora'' \<and>
      avoids ''/opt/app'' (demo_entry ''v2/existora'' ''new'') f (''/opt/app/existora'' @ ''.new''))
      [demo_entry ''v2/existora'' ''new'', demo_entry ''v2/lib/oci.dll'' ''dll'']" by code_simp
  have rb: "op_error env (OpRename (''/opt/app/existora'' @ ''.old'') ''/opt/app/existora'') = None" by (simp add: env_def demo_os_def)
  from extractAndReplace_survives [OF r old] err rb e t a have "fs' ''/opt/app/existora'' = Some ''old''" by (auto simp: env_def)
  then show ?thesis using r by (simp add: env_def)
qed

section \<open>Where an archive may write\<close>

definition dir_parts :: "string \<Rightarrow> string list" where
  "dir_parts dir = foldl push_part [] (Split dir (CHR ''/''))"

definition below :: "string \<Rightarrow> string \<Rightarrow> bool" where
  "below dir path \<longleftrightarrow> (\<exists>rest. path = CHR ''/'' # Join (dir_parts dir @ rest) ''/'')"

lemma Split_sep: "Split (a @ c # b) c = Split a c @ Split b c"
  by (induction a) (auto split: list.splits)

lemma push_no_dotdot: "''..'' \<notin> set cs \<Longrightarrow> \<exists>rest. foldl push_part st cs = st @ rest"
proof (induction cs arbitrary: st)
  case Nil
  then show ?case by simp
next
  case (Cons c cs)
  then obtain rest where "foldl push_part (push_part st c) cs = push_part st c @ rest" by auto
  moreover have "\<exists>r. push_part st c = st @ r" using Cons.prems by (auto simp: push_part_def)
  ultimately show ?case by auto
qed

lemma dest_below:
  assumes "''..'' \<notin> set (Split (strip_top (ze_Name f)) (CHR ''/''))"
  shows "below exeDir (dest_path exeDir f)"
proof (cases "strip_top (ze_Name f) = ''''")
  case True
  then show ?thesis by (auto simp: below_def dest_path_def path_Join_def Clean_def dir_parts_def intro: exI [of _ "[]"])
next
  case False
  obtain rest where "foldl push_part (dir_parts exeDir) (Split (strip_top (ze_Name f)) (CHR ''/'')) = dir_parts exeDir @ rest"
    using push_no_dotdot [OF assms] by blast
  then show ?thesis using False
    by (auto simp: below_def dest_path_def path_Join_def Clean_def Split_sep dir_parts_def)
qed

text \<open>
  C39. An archive whose entries have no \<open>..\<close> in their names writes below the directory of the binary only.
\<close>

theorem extraction_confined:
  assumes "\<forall>f \<in> set entries. ''..'' \<notin> set (Split (strip_top (ze_Name f)) (CHR ''/''))" and "\<not> below exeDir path"
  shows "foldl (extract_other env exeDir tgt) fs entries path = fs path"
proof (rule extract_all_keeps)
  fix f assume "f \<in> set entries"
  then have "below exeDir (dest_path exeDir f)" using assms(1) dest_below by blast
  then show "avoids exeDir tgt f path" using assms(2) by (auto simp: avoids_def)
qed

theorem extraction_confined_witness:
  "foldl (extract_other (demo_os ''linux'' (\<lambda>op. None) []) ''/opt/app'' (demo_entry ''v2/existora'' ''new'')) demo_files
     [demo_entry ''v2/lib/oci.dll'' ''dll''] ''/tmp/u.zip'' = Some ''zip''"
proof -
  have "\<forall>f \<in> set [demo_entry ''v2/lib/oci.dll'' ''dll'']. ''..'' \<notin> set (Split (strip_top (ze_Name f)) (CHR ''/''))"
    by (simp add: demo_entry_def strip_top_def HasPrefix_def)
  moreover have "\<not> below ''/opt/app'' ''/tmp/u.zip''"
    by (auto simp: below_def dir_parts_def push_part_def split: list.splits elim: Join.elims)
  ultimately show ?thesis using extraction_confined [of "[demo_entry ''v2/lib/oci.dll'' ''dll'']" "''/opt/app''" "''/tmp/u.zip''"]
    by (simp add: demo_files_def)
qed

text \<open>
  Nothing checks for such names: an uploaded archive with an entry \<open>v2/../../etc/cron.d/job\<close> makes the update write
  that file, and the update is reported as applied.
\<close>

theorem archive_escapes:
  "fst (ApplyLocalUpdate (demo_os ''linux'' (\<lambda>op. None) [demo_entry ''v2/existora'' ''new'', demo_entry ''v2/../../etc/cron.d/job'' ''evil''])
      (Inr (''update.zip'', ''bytes'', None)) demo_files) = Reply 200 applied \<and>
   snd (ApplyLocalUpdate (demo_os ''linux'' (\<lambda>op. None) [demo_entry ''v2/existora'' ''new'', demo_entry ''v2/../../etc/cron.d/job'' ''evil''])
      (Inr (''update.zip'', ''bytes'', None)) demo_files) ''/etc/cron.d/job'' = Some ''evil''"
  by code_simp

section \<open>Platforms without a zip archive\<close>

text \<open>
  On Linux and macOS the offered asset is a tar archive and \<open>ApplyUpdate\<close> takes only a URL that ends in \<open>.zip\<close>; with any
  other it always fails and the binary is as before.
\<close>

lemma asset_is_tar: "findAsset os arch assets = Some a \<Longrightarrow> os \<in> {''linux'', ''darwin''} \<Longrightarrow> Contains (as_Name a) ''.tar.gz''"
proof -
  assume a: "findAsset os arch assets = Some a" and os: "os \<in> {''linux'', ''darwin''}"
  have c: "Contains (as_Name a) (asset_pattern os arch)" using a by (auto simp: findAsset_def find_Some_iff)
  have "\<exists>p. asset_pattern os arch = p @ ''.tar.gz''"
    using os by (auto simp: asset_pattern_def intro: exI [of _ "''darwin-arm64''"] exI [of _ "''darwin-amd64''"] exI [of _ "''linux-amd64''"])
  then obtain p where p: "asset_pattern os arch = p @ ''.tar.gz''" by blast
  then obtain l r where "as_Name a = l @ (p @ ''.tar.gz'') @ r" using c by (auto simp: Contains_iff)
  then show ?thesis using Contains_infix [of "l @ p" "''.tar.gz''" r] by simp
qed

theorem apply_needs_zip:
  assumes "\<not> HasSuffix url ''.zip''" and "exe_path env = Inr exePath" and "temp_name env (Dir exePath) \<noteq> exePath"
  shows "fst (ApplyUpdate env url fs) \<noteq> None \<and> snd (ApplyUpdate env url fs) exePath = fs exePath"
  using assms by (auto simp: ApplyUpdate_def with_temp_def Let_def remove_other split: option.splits sum.splits)

theorem apply_needs_zip_witness:
  "fst (ApplyUpdate (demo_os ''linux'' (\<lambda>op. None) []) ''https://x/existora2pg-linux-amd64.tar.gz'' demo_files) \<noteq> None"
proof -
  have "\<not> HasSuffix ''https://x/existora2pg-linux-amd64.tar.gz'' ''.zip''" by code_simp
  moreover have "exe_path (demo_os ''linux'' (\<lambda>op. None) []) = Inr ''/opt/app/existora''" by (simp add: exe_path_def demo_os_def)
  moreover have "temp_name (demo_os ''linux'' (\<lambda>op. None) []) (Dir ''/opt/app/existora'') \<noteq> ''/opt/app/existora''" by code_simp
  ultimately show ?thesis using apply_needs_zip by blast
qed

end
