(* ===== verification/Process_Start.thy ===== *)
theory Process_Start
  imports Updater
begin

text \<open>
  How the two programs start (\<open>cmd/existora/main.go\<close>, \<open>cmd/desktop/oracle.go\<close> and their \<open>exec_*.go\<close>): the search for
  the Oracle client library and the restart of the process with the library path set, and the desktop program's check
  for the WebView2 runtime. Paths are slash-separated. The main lemma: the restart happens at most once.
\<close>

section \<open>The environment\<close>

type_synonym environ = "string \<Rightarrow> string option"

definition Getenv :: "environ \<Rightarrow> string \<Rightarrow> string" where
  "Getenv env k = (case env k of None \<Rightarrow> '''' | Some v \<Rightarrow> v)"

definition lib_marker :: string where "lib_marker = ''_EXISTORA_LIB_SET''"

definition libraryPathEnvVar :: "string \<Rightarrow> string" where
  "libraryPathEnvVar platform =
     (if platform = ''darwin'' then ''DYLD_LIBRARY_PATH'' else if platform = ''windows'' then ''PATH'' else ''LD_LIBRARY_PATH'')"

definition oracleLibName :: "string \<Rightarrow> string" where
  "oracleLibName platform =
     (if platform = ''darwin'' then ''libclntsh.dylib'' else if platform = ''windows'' then ''oci.dll'' else ''libclntsh.so'')"

text \<open>
  The system: the platform, the path of the executable and its resolved links, which files exist, and how \<open>execve\<close> ends:
  with an error, or not at all.
\<close>

record os_start =
  st_goos :: string
  st_exe :: "string + string"
  st_links :: "string \<Rightarrow> string + string"
  st_stat :: "string \<Rightarrow> bool"
  st_execve :: "string \<Rightarrow> environ \<Rightarrow> string option"

text \<open>
  \<open>exec_windows.go\<close> runs the program as a child and exits with its exit code; \<open>Inl\<close> is the error returned when it could
  not be run, \<open>Inr\<close> the exit code. \<open>syscall.Exec\<close> on the other systems only returns an error.
\<close>

datatype run_result = RunOk | RunExit int | RunFailed string

definition execve_windows :: "run_result \<Rightarrow> string + int" where
  "execve_windows result = (case result of RunOk \<Rightarrow> Inr 0 | RunExit code \<Rightarrow> Inr code | RunFailed e \<Rightarrow> Inl e)"

text \<open>What becomes of the process: it goes on, or it is replaced by a new one.\<close>

datatype start_outcome = GoesOn environ | Restarts string environ

definition reExecWithLib :: "os_start \<Rightarrow> string \<Rightarrow> string \<Rightarrow> environ \<Rightarrow> start_outcome" where
  "reExecWithLib os envVar libDir env =
     (let sep = (if st_goos os = ''windows'' then '';'' else '':'');
          current = Getenv env envVar;
          env' = (if current \<noteq> '''' then env(envVar \<mapsto> libDir @ sep @ current) else env(envVar \<mapsto> libDir));
          exe = (case st_exe os of Inl _ \<Rightarrow> '''' | Inr p \<Rightarrow> p)
      in case st_execve os exe env' of Some e \<Rightarrow> GoesOn env' | None \<Rightarrow> Restarts exe env')"

definition lib_candidates :: "string \<Rightarrow> string list" where
  "lib_candidates binDir = [path_Join binDir ''lib/oracle'', path_Join binDir ''../lib/oracle'', binDir]"

text \<open>The desktop program also looks in the usual places of the platform.\<close>

definition desktop_candidates :: "string \<Rightarrow> string list" where
  "desktop_candidates platform =
     (if platform = ''darwin'' then [''/opt/homebrew/lib'', ''/usr/local/lib'']
      else if platform = ''linux'' then [''/usr/lib/oracle/21/client64/lib'', ''/opt/oracle/instantclient''] else [])"

definition cli_candidates :: "string \<Rightarrow> string list" where
  "cli_candidates platform = []"

definition ensureOracleLibPath :: "(string \<Rightarrow> string list) \<Rightarrow> os_start \<Rightarrow> environ \<Rightarrow> start_outcome" where
  "ensureOracleLibPath extra os env =
     (let envVar = libraryPathEnvVar (st_goos os)
      in if Getenv env lib_marker = ''1'' then GoesOn env
         else if st_goos os \<noteq> ''windows'' \<and> Getenv env envVar \<noteq> '''' then GoesOn env
         else case chain (st_exe os) (st_links os) of
                Inl _ \<Rightarrow> GoesOn env
              | Inr exe \<Rightarrow>
                  (case find (\<lambda>libDir. st_stat os (path_Join libDir (oracleLibName (st_goos os))))
                      (lib_candidates (Dir exe) @ extra (st_goos os)) of
                     None \<Rightarrow> GoesOn env
                   | Some libDir \<Rightarrow> reExecWithLib os envVar libDir (env(lib_marker \<mapsto> ''1''))))"

text \<open>The program from its first process on: the number of restarts and the environment in which it goes on.\<close>

partial_function (option) boot :: "(string \<Rightarrow> string list) \<Rightarrow> os_start \<Rightarrow> environ \<Rightarrow> (nat \<times> environ) option" where
  "boot extra os env =
     (case ensureOracleLibPath extra os env of
        GoesOn env' \<Rightarrow> Some (0, env')
      | Restarts exe env' \<Rightarrow> Option.bind (boot extra os env') (\<lambda>(n, e). Some (Suc n, e)))"

section \<open>Restarting once\<close>

lemma marker_not_path: "lib_marker \<noteq> libraryPathEnvVar platform"
  by (simp add: lib_marker_def libraryPathEnvVar_def)

lemma reExecWithLib_env:
  assumes "reExecWithLib os envVar libDir env = GoesOn env' \<or> reExecWithLib os envVar libDir env = Restarts exe env'"
  shows "env' = env(envVar \<mapsto>
    (if Getenv env envVar \<noteq> '''' then libDir @ (if st_goos os = ''windows'' then '';'' else '':'') @ Getenv env envVar else libDir))"
  using assms by (auto simp: reExecWithLib_def Let_def split: option.splits if_splits)

lemma restarted_is_marked:
  assumes "ensureOracleLibPath extra os env = Restarts exe env'"
  shows "Getenv env' lib_marker = ''1'' \<and> Getenv env lib_marker \<noteq> ''1'' \<and>
    (\<exists>libDir. st_stat os (path_Join libDir (oracleLibName (st_goos os))) \<and>
       (st_goos os \<noteq> ''windows'' \<longrightarrow> env' = env(lib_marker \<mapsto> ''1'', libraryPathEnvVar (st_goos os) \<mapsto> libDir)))"
proof -
  let ?var = "libraryPathEnvVar (st_goos os)" and ?env = "env(lib_marker \<mapsto> ''1'')"
  obtain libDir where lib: "st_stat os (path_Join libDir (oracleLibName (st_goos os)))"
      "reExecWithLib os ?var libDir ?env = Restarts exe env'"
    and unmarked: "Getenv env lib_marker \<noteq> ''1''" and unset: "st_goos os = ''windows'' \<or> Getenv env ?var = ''''"
    using assms by (auto simp: ensureOracleLibPath_def Let_def find_Some_iff split: if_splits sum.splits option.splits)
  have var: "Getenv ?env ?var = Getenv env ?var" using marker_not_path [of "st_goos os"] by (simp add: Getenv_def)
  have env': "env' = ?env(?var \<mapsto>
      (if Getenv env ?var \<noteq> '''' then libDir @ (if st_goos os = ''windows'' then '';'' else '':'') @ Getenv env ?var else libDir))"
    using reExecWithLib_env [of os ?var libDir ?env env' exe] lib(2) var by simp
  have "Getenv env' lib_marker = ''1''" using marker_not_path [of "st_goos os"] by (simp add: env' Getenv_def)
  then show ?thesis using lib(1) unmarked unset env' by auto
qed

lemma marked_goes_on: "Getenv env lib_marker = ''1'' \<Longrightarrow> ensureOracleLibPath extra os env = GoesOn env"
  by (simp add: ensureOracleLibPath_def Let_def)

text \<open>
  C28. The restart cannot loop: from any environment the program reaches the point where it goes on, after at most one
  restart; and where the user has set the library path himself (on Windows the path is always extended), it goes on at
  once with the environment unchanged.
\<close>

theorem boot_restarts_once:
  "\<exists>n env'. boot extra os env = Some (n, env') \<and> n \<le> 1 \<and> (n = 1 \<longrightarrow> Getenv env' lib_marker = ''1'') \<and>
    (st_goos os \<noteq> ''windows'' \<and> Getenv env (libraryPathEnvVar (st_goos os)) \<noteq> '''' \<longrightarrow> n = 0 \<and> env' = env)"
proof (cases "ensureOracleLibPath extra os env")
  case (GoesOn env')
  then show ?thesis
    by (subst boot.simps) (auto simp: ensureOracleLibPath_def Let_def split: if_splits)
next
  case (Restarts exe env')
  have m: "Getenv env' lib_marker = ''1''" using restarted_is_marked [OF Restarts] by simp
  have "boot extra os env' = Some (0, env')" by (subst boot.simps) (simp add: marked_goes_on [OF m])
  then have "boot extra os env = Some (1, env')" by (subst boot.simps) (simp add: Restarts)
  moreover have "\<not> (st_goos os \<noteq> ''windows'' \<and> Getenv env (libraryPathEnvVar (st_goos os)) \<noteq> '''')"
    using Restarts by (auto simp: ensureOracleLibPath_def Let_def split: if_splits)
  ultimately show ?thesis using m by auto
qed

definition demo_start :: os_start where
  "demo_start = \<lparr>st_goos = ''linux'', st_exe = Inr ''/opt/e/bin/existora'', st_links = Inr,
     st_stat = (\<lambda>p. p = ''/opt/e/lib/oracle/libclntsh.so''), st_execve = \<lambda>_ _. None\<rparr>"

theorem boot_restarts_once_witness:
  "map_option (\<lambda>(n, e). (n, e ''LD_LIBRARY_PATH'')) (boot cli_candidates demo_start Map.empty) = Some (1, Some ''/opt/e/lib/oracle'') \<and>
   (\<exists>n env'. boot cli_candidates demo_start [''LD_LIBRARY_PATH'' \<mapsto> ''/usr/lib''] = Some (n, env') \<and> n = 0)"
proof
  have find: "find (\<lambda>libDir. st_stat demo_start (path_Join libDir (oracleLibName (st_goos demo_start))))
      (lib_candidates (Dir ''/opt/e/bin/existora'') @ cli_candidates (st_goos demo_start)) = Some ''/opt/e/lib/oracle''"
    by code_simp
  let ?env = "Map.empty(lib_marker \<mapsto> ''1'', ''LD_LIBRARY_PATH'' \<mapsto> ''/opt/e/lib/oracle'')"
  have "ensureOracleLibPath cli_candidates demo_start Map.empty = Restarts ''/opt/e/bin/existora'' ?env"
    using find by (simp add: ensureOracleLibPath_def Let_def Getenv_def reExecWithLib_def chain_def demo_start_def
        libraryPathEnvVar_def lib_marker_def)
  moreover have "boot cli_candidates demo_start ?env = Some (0, ?env)"
    by (subst boot.simps) (simp add: marked_goes_on Getenv_def lib_marker_def)
  ultimately show "map_option (\<lambda>(n, e). (n, e ''LD_LIBRARY_PATH'')) (boot cli_candidates demo_start Map.empty) = Some (1, Some ''/opt/e/lib/oracle'')"
    by (subst boot.simps) simp
  show "\<exists>n env'. boot cli_candidates demo_start [''LD_LIBRARY_PATH'' \<mapsto> ''/usr/lib''] = Some (n, env') \<and> n = 0"
    using boot_restarts_once [of cli_candidates demo_start "[''LD_LIBRARY_PATH'' \<mapsto> ''/usr/lib'']"]
    by (auto simp: demo_start_def Getenv_def libraryPathEnvVar_def)
qed

section \<open>The WebView2 runtime\<close>

text \<open>
  The registry values, the files, the result of running a program, the embedded installer and the writing of it: errors
  are \<open>Some\<close>. The result is the error and the programs that were run.
\<close>

record webview_env =
  wv_registry :: "string \<Rightarrow> string \<Rightarrow> string option"
  wv_exe :: string
  wv_stat :: "string \<Rightarrow> bool"
  wv_run :: "string \<Rightarrow> string option"
  wv_embedded :: "string option"
  wv_temp :: string
  wv_write :: "string \<Rightarrow> string option"

definition edge_client :: string where
  "edge_client = [CHR 0x5C] @ ''{F3017226-FE2A-4295-8BEB-235B8DE50060}''"

definition webview_keys :: "(string \<times> string) list" where
  "webview_keys = (let bs = [CHR 0x5C]; tail = bs @ ''Microsoft'' @ bs @ ''EdgeUpdate'' @ bs @ ''Clients'' @ edge_client in
     [(''LOCAL_MACHINE'', ''SOFTWARE'' @ bs @ ''WOW6432Node'' @ tail), (''LOCAL_MACHINE'', ''SOFTWARE'' @ tail),
      (''CURRENT_USER'', ''SOFTWARE'' @ tail)])"

definition isWebView2Installed :: "webview_env \<Rightarrow> bool" where
  "isWebView2Installed env = list_ex (\<lambda>(root, path).
     case wv_registry env root path of None \<Rightarrow> False | Some val \<Rightarrow> val \<noteq> '''' \<and> val \<noteq> ''0.0.0.0'') webview_keys"

definition bootstrap_webview :: "webview_env \<Rightarrow> string list \<Rightarrow> string option \<times> string list" where
  "bootstrap_webview env ps =
     (case wv_embedded env of
        Some e \<Rightarrow> (Some (''failed to read embedded bootstrapper: '' @ e), ps)
      | None \<Rightarrow>
          let path = path_Join (wv_temp env) ''MicrosoftEdgeWebview2Setup.exe''
          in case wv_write env path of
               Some e \<Rightarrow> (Some (''failed to write bootstrapper: '' @ e), ps)
             | None \<Rightarrow> (map_option (\<lambda>e. ''WebView2 installation failed: '' @ e) (wv_run env path), ps @ [path]))"

definition ensureWebView2 :: "webview_env \<Rightarrow> string option \<times> string list" where
  "ensureWebView2 env =
     (if isWebView2Installed env then (None, [])
      else
        let offline = path_Join (Dir (wv_exe env)) ''MicrosoftEdgeWebView2RuntimeInstallerX64.exe''
        in if wv_stat env offline then
             (if wv_run env offline = None then (None, [offline]) else bootstrap_webview env [offline])
           else bootstrap_webview env [])"

text \<open>Success means that the runtime was there or that the last installer run reported success; nothing is run when it is there.\<close>

lemma ensureWebView2_success:
  assumes "ensureWebView2 env = (None, ps)"
  shows "isWebView2Installed env \<and> ps = [] \<or> ps \<noteq> [] \<and> wv_run env (last ps) = None"
  using assms
  by (auto simp: ensureWebView2_def bootstrap_webview_def Let_def split: if_splits option.splits)

lemma ensureWebView2_bounded: "length (snd (ensureWebView2 env)) \<le> 2"
  by (auto simp: ensureWebView2_def bootstrap_webview_def Let_def split: option.splits)

end
