(* ===== verification/Job_Store.thy ===== *)
theory Job_Store
  imports Go_Prelude
begin

text \<open>
  \<open>internal/jobstore/store.go\<close> with the tables that \<open>InitSchema\<close> creates from
  \<open>internal/jobstore/sql/001_init.sql\<close>: \<open>migration_runs\<close> with its primary key, and \<open>jobs\<close> with
  \<open>id INTEGER PRIMARY KEY AUTOINCREMENT\<close> and the unique index \<open>uq_jobs_run_table_phase\<close>. \<open>now\<close> is the
  value of \<open>datetime('now')\<close>, and rows are kept in insertion order. What SQLite answers to a statement
  beyond that (disk, lock, closed handle, cancelled context) is a parameter of the model, of type
  \<open>sqlite\<close>: an error, and then the statement has no effect, or none. The lemmas are the invariant of
  the store and the contract of the operations on one job, stated as a locale that the engine's
  proofs use.
\<close>

section \<open>Rows\<close>

datatype JobState = JobPending | JobRunning | JobFailed | JobCompleted | JobRetrying | JobSkipped

text \<open>The table of \<open>jobs\<close>; \<open>None\<close> is \<open>NULL\<close>.\<close>

record job_row =
  row_id :: int
  run_id :: string
  table_schema :: string
  table_name :: string
  row_partition :: string
  phase :: string
  state :: JobState
  rows_expected :: int
  rows_copied :: int
  bytes_copied :: int
  error_message :: "string option"
  attempt :: int
  started_at :: "string option"
  finished_at :: "string option"
  created_at :: string
  updated_at :: string

record run_row =
  run_key :: string
  config_hash :: string
  run_status :: string
  run_created_at :: string

record job_db =
  runs :: "run_row list"
  jobs :: "job_row list"
  next_id :: int

text \<open>The Go struct that the queries return; the two row time stamps are not selected.\<close>

record Job =
  ID :: int
  RunID :: string
  TableSchema :: string
  TableName :: string
  j_Partition :: string
  Phase :: string
  State :: JobState
  RowsExpected :: int
  RowsCopied :: int
  BytesCopied :: int
  Error :: string
  Attempt :: int
  StartedAt :: "string option"
  FinishedAt :: "string option"

definition scanJob :: "job_row \<Rightarrow> Job" where
  "scanJob r = \<lparr>ID = row_id r, RunID = run_id r, TableSchema = table_schema r, TableName = table_name r,
     j_Partition = row_partition r, Phase = phase r, State = state r, RowsExpected = rows_expected r,
     RowsCopied = rows_copied r, BytesCopied = bytes_copied r,
     Error = (case error_message r of None \<Rightarrow> '''' | Some e \<Rightarrow> e), Attempt = attempt r,
     StartedAt = started_at r, FinishedAt = finished_at r\<rparr>"

definition job_key :: "job_row \<Rightarrow> string \<times> string \<times> string \<times> string" where
  "job_key r = (run_id r, table_name r, row_partition r, phase r)"

definition empty_db :: job_db where
  "empty_db = \<lparr>runs = [], jobs = [], next_id = 1\<rparr>"

section \<open>Answers of SQLite\<close>

text \<open>
  The error with which SQLite refuses the statement of a method (by its name and the job id, 0 where
  there is none) on the current store; \<open>None\<close> if it executes the statement.
\<close>

type_synonym sqlite = "string \<Rightarrow> int \<Rightarrow> job_db \<Rightarrow> string option"

definition reliable :: "sqlite \<Rightarrow> bool" where
  "reliable sql \<longleftrightarrow> (\<forall>m i s. sql m i s = None)"

text \<open>A method that only executes one statement, and one that returns what it reads.\<close>

definition exec_on :: "string option \<Rightarrow> (job_db \<Rightarrow> job_db) \<Rightarrow> job_db \<Rightarrow> string option \<times> job_db" where
  "exec_on err stmt s = (case err of Some e \<Rightarrow> (Some e, s) | None \<Rightarrow> (None, stmt s))"

definition query_on :: "string option \<Rightarrow> string + 'a \<Rightarrow> string + 'a" where
  "query_on err r = (case err of Some e \<Rightarrow> Inl e | None \<Rightarrow> r)"

lemma answered [simp]:
  "exec_on None stmt s = (None, stmt s)" "exec_on (Some e) stmt s = (Some e, s)"
  "query_on None r = r" "query_on (Some e) r = Inl e"
  by (simp_all add: exec_on_def query_on_def)

lemma reliable_answer: "reliable sql \<Longrightarrow> sql m i s = None"
  by (simp add: reliable_def)

lemma reliable_None: "reliable (\<lambda>_ _ _. None)"
  by (simp add: reliable_def)

section \<open>Operations\<close>

text \<open>
  \<open>CreateRun\<close> and \<open>CreateJob\<close> take the answer of SQLite and add its constraint violations. The
  methods below that update rows are given by the effect of their statement; \<open>exec_on\<close> adds the error
  where they are called.
\<close>

definition CreateRun :: "string option \<Rightarrow> string \<Rightarrow> string \<Rightarrow> string \<Rightarrow> job_db \<Rightarrow> string + job_db" where
  "CreateRun err now runID hash s =
     (case err of
        Some e \<Rightarrow> Inl e
      | None \<Rightarrow>
          if list_ex (\<lambda>r. run_key r = runID) (runs s)
          then Inl ''UNIQUE constraint failed: migration_runs.id''
          else Inr (s\<lparr>runs := runs s @ [\<lparr>run_key = runID, config_hash = hash, run_status = ''RUNNING'',
                                          run_created_at = now\<rparr>]\<rparr>))"

definition new_row :: "string \<Rightarrow> int \<Rightarrow> Job \<Rightarrow> job_row" where
  "new_row now i job = \<lparr>row_id = i, run_id = RunID job, table_schema = TableSchema job,
     table_name = TableName job, row_partition = j_Partition job, phase = Phase job,
     state = JobPending, rows_expected = RowsExpected job, rows_copied = 0, bytes_copied = 0,
     error_message = None, attempt = 0, started_at = None, finished_at = None,
     created_at = now, updated_at = now\<rparr>"

text \<open>
  The unique index is on run, table, partition and phase; \<open>AUTOINCREMENT\<close> takes the next id of the
  table's sequence, whatever rows there are. Returns the new id, stored in \<open>job.ID\<close>.
\<close>

definition CreateJob :: "string option \<Rightarrow> string \<Rightarrow> Job \<Rightarrow> job_db \<Rightarrow> string + int \<times> job_db" where
  "CreateJob err now job s =
     (case err of
        Some e \<Rightarrow> Inl e
      | None \<Rightarrow>
          let row = new_row now (next_id s) job
          in if list_ex (\<lambda>r. job_key r = job_key row) (jobs s)
             then Inl ''UNIQUE constraint failed: jobs.run_id, jobs.table_name, jobs.partition, jobs.phase''
             else Inr (next_id s, s\<lparr>jobs := jobs s @ [row], next_id := next_id s + 1\<rparr>))"

definition order_by_id :: "job_row list \<Rightarrow> job_row list" where
  "order_by_id rs = sort_key row_id rs"

definition GetPendingJobs :: "string \<Rightarrow> string \<Rightarrow> job_db \<Rightarrow> Job list" where
  "GetPendingJobs runID ph s =
     map scanJob (order_by_id (filter (\<lambda>r. run_id r = runID \<and> phase r = ph \<and>
       (state r = JobPending \<or> state r = JobRetrying)) (jobs s)))"

definition GetJobsByPhase :: "string \<Rightarrow> string \<Rightarrow> job_db \<Rightarrow> Job list" where
  "GetJobsByPhase runID ph s =
     map scanJob (order_by_id (filter (\<lambda>r. run_id r = runID \<and> phase r = ph) (jobs s)))"

definition GetJobs :: "string \<Rightarrow> string \<Rightarrow> job_db \<Rightarrow> Job list" where
  "GetJobs runID tableName s =
     map scanJob (order_by_id (filter (\<lambda>r. run_id r = runID \<and>
       (tableName = '''' \<or> table_name r = tableName)) (jobs s)))"

definition update_where :: "(job_row \<Rightarrow> bool) \<Rightarrow> (job_row \<Rightarrow> job_row) \<Rightarrow> job_db \<Rightarrow> job_db" where
  "update_where p f s = s\<lparr>jobs := map (\<lambda>r. if p r then f r else r) (jobs s)\<rparr>"

definition UpdateState :: "string \<Rightarrow> int \<Rightarrow> JobState \<Rightarrow> job_db \<Rightarrow> job_db" where
  "UpdateState now jobID st = update_where (\<lambda>r. row_id r = jobID) (\<lambda>r. r\<lparr>state := st, updated_at := now\<rparr>)"

definition SetRunning :: "string \<Rightarrow> int \<Rightarrow> job_db \<Rightarrow> job_db" where
  "SetRunning now jobID = update_where (\<lambda>r. row_id r = jobID)
     (\<lambda>r. r\<lparr>state := JobRunning, started_at := Some now, attempt := attempt r + 1, updated_at := now\<rparr>)"

definition SetCompleted :: "string \<Rightarrow> int \<Rightarrow> int \<Rightarrow> int \<Rightarrow> job_db \<Rightarrow> job_db" where
  "SetCompleted now jobID rows bytes = update_where (\<lambda>r. row_id r = jobID)
     (\<lambda>r. r\<lparr>state := JobCompleted, rows_copied := rows, bytes_copied := bytes,
            finished_at := Some now, updated_at := now\<rparr>)"

definition SetSkipped :: "string \<Rightarrow> int \<Rightarrow> int \<Rightarrow> job_db \<Rightarrow> job_db" where
  "SetSkipped now jobID rows = update_where (\<lambda>r. row_id r = jobID)
     (\<lambda>r. r\<lparr>state := JobSkipped, rows_copied := rows, finished_at := Some now, updated_at := now\<rparr>)"

definition SetFailed :: "string \<Rightarrow> int \<Rightarrow> string \<Rightarrow> job_db \<Rightarrow> job_db" where
  "SetFailed now jobID msg = update_where (\<lambda>r. row_id r = jobID)
     (\<lambda>r. r\<lparr>state := JobFailed, error_message := Some msg, finished_at := Some now, updated_at := now\<rparr>)"

definition interrupted :: "string \<Rightarrow> job_row \<Rightarrow> bool" where
  "interrupted runID r \<longleftrightarrow> run_id r = runID \<and> (state r = JobFailed \<or> state r = JobRunning)"

definition MarkFailedAsRetrying :: "string \<Rightarrow> string \<Rightarrow> job_db \<Rightarrow> int \<times> job_db" where
  "MarkFailedAsRetrying now runID s =
     (int (length (filter (interrupted runID) (jobs s))),
      update_where (interrupted runID) (\<lambda>r. r\<lparr>state := JobRetrying, error_message := None, updated_at := now\<rparr>) s)"

record RunSummary =
  sum_RunID :: string
  Total :: int
  Pending :: int
  Running :: int
  Completed :: int
  Failed :: int
  Retrying :: int
  Skipped :: int
  sum_StartedAt :: "string option"
  sum_FinishedAt :: "string option"
  TotalRows :: int

definition run_jobs :: "string \<Rightarrow> job_db \<Rightarrow> job_row list" where
  "run_jobs runID s = filter (\<lambda>r. run_id r = runID) (jobs s)"

definition count_state :: "JobState \<Rightarrow> job_row list \<Rightarrow> int" where
  "count_state st rs = int (length (filter (\<lambda>r. state r = st) rs))"

text \<open>\<open>MIN\<close> and \<open>MAX\<close> of a text column ignore \<open>NULL\<close>s; \<open>parse\<close> is \<open>time.Parse(RFC3339Nano, _)\<close>.\<close>

definition min_text :: "string list \<Rightarrow> string option" where
  "min_text xs = (case xs of [] \<Rightarrow> None | y # ys \<Rightarrow> Some (foldl min y ys))"

definition max_text :: "string list \<Rightarrow> string option" where
  "max_text xs = (case xs of [] \<Rightarrow> None | y # ys \<Rightarrow> Some (foldl max y ys))"

definition present :: "'a option list \<Rightarrow> 'a list" where
  "present xs = concat (map (\<lambda>x. case x of None \<Rightarrow> [] | Some y \<Rightarrow> [y]) xs)"

definition GetRunSummary :: "(string \<Rightarrow> string option) \<Rightarrow> string \<Rightarrow> job_db \<Rightarrow> RunSummary" where
  "GetRunSummary parse runID s =
     (let rs = run_jobs runID s; count = (\<lambda>st. count_state st rs);
          started = min_text (present (map started_at rs));
          finished = max_text (present (map finished_at rs));
          total = count JobPending + count JobRunning + count JobCompleted + count JobFailed +
            count JobRetrying + count JobSkipped
      in \<lparr>sum_RunID = runID, Total = total, Pending = count JobPending, Running = count JobRunning,
          Completed = count JobCompleted, Failed = count JobFailed, Retrying = count JobRetrying,
          Skipped = count JobSkipped,
          sum_StartedAt = Option.bind started parse,
          sum_FinishedAt = (if count JobRunning = 0 \<and> count JobPending = 0 \<and> count JobRetrying = 0
                            then Option.bind finished parse else None),
          TotalRows = sum_list (map (\<lambda>r. if phase r = ''data'' then rows_copied r else 0) rs)\<rparr>)"

text \<open>\<open>ORDER BY created_at DESC, rowid DESC LIMIT 1\<close>.\<close>

definition GetLatestRunID :: "job_db \<Rightarrow> string + string" where
  "GetLatestRunID s =
     (if runs s = [] then Inl ''no migration runs found''
      else Inr (run_key (last (sort_key run_created_at (runs s)))))"

definition GetCompletedPartitions :: "string \<Rightarrow> job_db \<Rightarrow> string \<rightharpoonup> int" where
  "GetCompletedPartitions runID s =
     foldl (\<lambda>m r. m(table_name r @ '':'' @ row_partition r \<mapsto> rows_copied r)) Map.empty
       (filter (\<lambda>r. run_id r = runID \<and> phase r = ''data'' \<and>
          (state r = JobCompleted \<or> state r = JobSkipped)) (jobs s))"

definition DeleteRun :: "string \<Rightarrow> job_db \<Rightarrow> job_db" where
  "DeleteRun runID s =
     s\<lparr>jobs := filter (\<lambda>r. run_id r \<noteq> runID) (jobs s), runs := filter (\<lambda>r. run_key r \<noteq> runID) (runs s)\<rparr>"

section \<open>The invariant\<close>

definition store_ok :: "job_db \<Rightarrow> bool" where
  "store_ok s \<longleftrightarrow>
     sorted_wrt (<) (map row_id (jobs s)) \<and> (\<forall>r \<in> set (jobs s). row_id r < next_id s) \<and>
     distinct (map job_key (jobs s)) \<and> distinct (map run_key (runs s))"

lemma store_ok_empty: "store_ok empty_db"
  by (simp add: store_ok_def empty_db_def)

lemma order_by_id_filter: "store_ok s \<Longrightarrow> order_by_id (filter p (jobs s)) = filter p (jobs s)"
  unfolding order_by_id_def store_ok_def
  by (rule sort_key_id_if_sorted) (auto simp: sorted_wrt_map strict_sorted_iff intro!: sorted_wrt_filter
      elim: sorted_wrt_mono_rel [rotated])

lemma ids_distinct: "store_ok s \<Longrightarrow> distinct (map row_id (jobs s))"
  by (simp add: store_ok_def strict_sorted_iff)

lemma unique_row: "store_ok s \<Longrightarrow> r \<in> set (jobs s) \<Longrightarrow> q \<in> set (jobs s) \<Longrightarrow> row_id r = row_id q \<Longrightarrow> r = q"
  using ids_distinct [of s] by (metis distinct_map inj_onD)

definition is_pending :: "job_row \<Rightarrow> bool" where
  "is_pending r \<longleftrightarrow> state r = JobPending \<or> state r = JobRetrying"

lemma pending_rows: "store_ok s \<Longrightarrow> GetPendingJobs runID ph s =
  map scanJob (filter (\<lambda>r. run_id r = runID \<and> phase r = ph \<and> is_pending r) (jobs s))"
  by (simp add: GetPendingJobs_def order_by_id_filter is_pending_def)

text \<open>The ids of the jobs of a run that are marked as running.\<close>

definition running_of :: "string \<Rightarrow> job_db \<Rightarrow> int set" where
  "running_of runID s = row_id ` {r \<in> set (jobs s). run_id r = runID \<and> state r = JobRunning}"

text \<open>Two stores that differ in the row with id \<open>i\<close> only, which keeps its id and key and is in state \<open>st\<close> in the second.\<close>

definition only_row :: "int \<Rightarrow> JobState \<Rightarrow> job_db \<Rightarrow> job_db \<Rightarrow> bool" where
  "only_row i st s s' \<longleftrightarrow> runs s' = runs s \<and> next_id s' = next_id s \<and> length (jobs s') = length (jobs s) \<and>
     (\<forall>k < length (jobs s). row_id (jobs s' ! k) = row_id (jobs s ! k) \<and> job_key (jobs s' ! k) = job_key (jobs s ! k) \<and>
        (if row_id (jobs s ! k) = i then state (jobs s' ! k) = st else jobs s' ! k = jobs s ! k))"

text \<open>
  The contract that the operations on one job share: they change the fields of that row only, and
  neither its id nor its key.
\<close>

locale job_update =
  fixes upd :: "int \<Rightarrow> job_db \<Rightarrow> job_db"
    and f :: "job_row \<Rightarrow> job_row"
  assumes upd_where: "upd i s = update_where (\<lambda>r. row_id r = i) f s"
    and f_id: "row_id (f r) = row_id r"
    and f_key: "job_key (f r) = job_key r"
begin

lemma upd_maps:
  "map row_id (jobs (upd i s)) = map row_id (jobs s)" "map job_key (jobs (upd i s)) = map job_key (jobs s)"
  "runs (upd i s) = runs s" "next_id (upd i s) = next_id s"
  by (simp_all add: upd_where update_where_def f_id f_key)

lemma keeps_ok:
  assumes "store_ok s"
  shows "store_ok (upd i s)"
proof -
  have ids: "row_id ` set (jobs (upd i s)) = row_id ` set (jobs s)" by (metis set_map upd_maps(1))
  have "row_id r < next_id s" if "r \<in> set (jobs (upd i s))" for r
  proof -
    have "row_id r \<in> row_id ` set (jobs s)" using that ids by blast
    then show ?thesis using assms by (auto simp: store_ok_def)
  qed
  then show ?thesis using assms by (simp add: store_ok_def upd_maps)
qed

lemma same_ids: "row_id ` set (jobs (upd i s)) = row_id ` set (jobs s)"
  by (metis set_map upd_maps(1))

lemma others: "r \<in> set (jobs s) \<Longrightarrow> row_id r \<noteq> i \<Longrightarrow> r \<in> set (jobs (upd i s))"
  by (force simp: upd_where update_where_def)

lemma changed: "r \<in> set (jobs s) \<Longrightarrow> row_id r = i \<Longrightarrow> f r \<in> set (jobs (upd i s))"
  by (force simp: upd_where update_where_def)

lemma same_run: "run_id (f r) = run_id r" "phase (f r) = phase r" "table_name (f r) = table_name r"
  "row_partition (f r) = row_partition r"
  using f_key [of r] by (simp_all add: job_key_def)

lemma same_keys: "job_key ` set (jobs (upd i s)) = job_key ` set (jobs s)"
  by (metis set_map upd_maps(2))

lemma running_more: "running_of run (upd i s) \<subseteq> insert i (running_of run s)"
  by (auto simp: running_of_def upd_where update_where_def same_run f_id)

lemma only: "(\<And>r. state (f r) = st) \<Longrightarrow> only_row i st s (upd i s)"
  by (simp add: only_row_def upd_where update_where_def f_id f_key)

lemma running_less: "(\<And>r. state (f r) \<noteq> JobRunning) \<Longrightarrow> running_of run (upd i s) = running_of run s - {i}"
  by (auto simp: running_of_def upd_where update_where_def same_run f_id image_iff split: if_splits)

text \<open>An operation that ends a job takes exactly that job off the list of pending ones.\<close>

lemma ends_job:
  assumes "store_ok s" and "\<And>r. \<not> is_pending (f r)"
  shows "GetPendingJobs runID ph (upd i s) = filter (\<lambda>j. ID j \<noteq> i) (GetPendingJobs runID ph s)"
proof -
  let ?p = "\<lambda>r. run_id r = runID \<and> phase r = ph \<and> is_pending r"
  have "filter ?p (map (\<lambda>r. if row_id r = i then f r else r) rs) = filter (\<lambda>r. row_id r \<noteq> i) (filter ?p rs)" for rs
    by (induction rs) (auto simp: assms(2))
  then show ?thesis
    using assms(1) keeps_ok [OF assms(1)]
    by (simp add: pending_rows upd_where update_where_def filter_map comp_def scanJob_def)
qed

end

interpretation set_running: job_update "SetRunning now"
  "\<lambda>r. r\<lparr>state := JobRunning, started_at := Some now, attempt := attempt r + 1, updated_at := now\<rparr>" for now
  by unfold_locales (simp_all add: SetRunning_def job_key_def)

interpretation set_completed: job_update "\<lambda>i. SetCompleted now i n b"
  "\<lambda>r. r\<lparr>state := JobCompleted, rows_copied := n, bytes_copied := b, finished_at := Some now, updated_at := now\<rparr>"
  for now n b
  by unfold_locales (simp_all add: SetCompleted_def job_key_def)

interpretation set_skipped: job_update "\<lambda>i. SetSkipped now i n"
  "\<lambda>r. r\<lparr>state := JobSkipped, rows_copied := n, finished_at := Some now, updated_at := now\<rparr>" for now n
  by unfold_locales (simp_all add: SetSkipped_def job_key_def)

interpretation set_failed: job_update "\<lambda>i. SetFailed now i e"
  "\<lambda>r. r\<lparr>state := JobFailed, error_message := Some e, finished_at := Some now, updated_at := now\<rparr>" for now e
  by unfold_locales (simp_all add: SetFailed_def job_key_def)

interpretation update_state: job_update "\<lambda>i. UpdateState now i st"
  "\<lambda>r. r\<lparr>state := st, updated_at := now\<rparr>" for now st
  by unfold_locales (simp_all add: UpdateState_def job_key_def)

lemma CreateRun_Inr:
  assumes "CreateRun err now runID h s = Inr s'"
  shows "s' = s\<lparr>runs := runs s @ [\<lparr>run_key = runID, config_hash = h, run_status = ''RUNNING'', run_created_at = now\<rparr>]\<rparr>"
    "runID \<notin> run_key ` set (runs s)"
  using assms by (auto simp: CreateRun_def list_ex_iff split: if_splits option.splits)

lemma CreateRun_ok: "CreateRun err now runID h s = Inr s' \<Longrightarrow> store_ok s \<Longrightarrow> store_ok s'"
  by (frule CreateRun_Inr(1), drule CreateRun_Inr(2)) (auto simp: store_ok_def)

lemma CreateJob_Inr:
  assumes "CreateJob err now job s = Inr (i, s')"
  shows "i = next_id s" "s' = s\<lparr>jobs := jobs s @ [new_row now i job], next_id := i + 1\<rparr>"
    "job_key (new_row now i job) \<notin> job_key ` set (jobs s)"
  using assms by (auto simp: CreateJob_def Let_def list_ex_iff split: if_splits option.splits)

lemma CreateJob_ok:
  assumes "CreateJob err now job s = Inr (i, s')" and "store_ok s"
  shows "store_ok s'"
proof -
  have id: "row_id (new_row now i job) = i" by (simp add: new_row_def)
  have "\<forall>r \<in> set (jobs s). row_id r < i" using assms(2) unfolding CreateJob_Inr(1) [OF assms(1)] store_ok_def by blast
  then show ?thesis
    using assms(2) CreateJob_Inr(3) [OF assms(1)] unfolding CreateJob_Inr(2) [OF assms(1)]
    by (auto simp: store_ok_def sorted_wrt_append id)
qed

lemma MarkFailed_ok: "store_ok s \<Longrightarrow> store_ok (snd (MarkFailedAsRetrying now runID s))"
proof -
  assume ok: "store_ok s"
  have maps: "map row_id (jobs (snd (MarkFailedAsRetrying now runID s))) = map row_id (jobs s)"
    "map job_key (jobs (snd (MarkFailedAsRetrying now runID s))) = map job_key (jobs s)"
    by (simp_all add: MarkFailedAsRetrying_def update_where_def job_key_def)
  have "row_id ` set (jobs (snd (MarkFailedAsRetrying now runID s))) = row_id ` set (jobs s)"
    by (metis set_map maps(1))
  then have "\<forall>r \<in> set (jobs (snd (MarkFailedAsRetrying now runID s))). row_id r < next_id s"
    using ok by (metis (no_types, lifting) imageE image_eqI store_ok_def)
  then show ?thesis using ok maps
    by (simp add: store_ok_def) (simp add: MarkFailedAsRetrying_def update_where_def)
qed

lemma DeleteRun_ok: "store_ok s \<Longrightarrow> store_ok (DeleteRun runID s)"
  by (auto simp: store_ok_def DeleteRun_def sorted_wrt_map intro!: sorted_wrt_filter distinct_map_filter)

section \<open>Sequences of operations\<close>

text \<open>The operations that SQLite executed one after the other, with the ids that \<open>CreateJob\<close> returned.\<close>

inductive store_run :: "job_db \<Rightarrow> int list \<Rightarrow> job_db \<Rightarrow> bool" where
  start: "store_run s [] s"
| run_created: "store_run s ids s1 \<Longrightarrow> CreateRun err now runID h s1 = Inr s2 \<Longrightarrow> store_run s ids s2"
| created: "store_run s ids s1 \<Longrightarrow> CreateJob err now job s1 = Inr (i, s2) \<Longrightarrow> store_run s (ids @ [i]) s2"
| set_to_running: "store_run s ids s1 \<Longrightarrow> store_run s ids (SetRunning now i s1)"
| set_to_completed: "store_run s ids s1 \<Longrightarrow> store_run s ids (SetCompleted now i n b s1)"
| set_to_skipped: "store_run s ids s1 \<Longrightarrow> store_run s ids (SetSkipped now i n s1)"
| set_to_failed: "store_run s ids s1 \<Longrightarrow> store_run s ids (SetFailed now i e s1)"
| state_updated: "store_run s ids s1 \<Longrightarrow> store_run s ids (UpdateState now i st s1)"
| marked: "store_run s ids s1 \<Longrightarrow> store_run s ids (snd (MarkFailedAsRetrying now runID s1))"
| deleted: "store_run s ids s1 \<Longrightarrow> store_run s ids (DeleteRun runID s1)"

lemma store_run_ok:
  assumes "store_run s ids s'" and "store_ok s"
  shows "store_ok s' \<and> sorted_wrt (<) ids \<and> (\<forall>i \<in> set ids. next_id s \<le> i \<and> i < next_id s') \<and> next_id s \<le> next_id s'"
  using assms
proof (induction rule: store_run.induct)
  case (run_created s ids s1 err now runID h s2)
  then show ?case using CreateRun_ok [OF run_created.hyps(2)] CreateRun_Inr(1) [OF run_created.hyps(2)] by simp
next
  case (created s ids s1 err now job i s2)
  then have IH: "store_ok s1" "sorted_wrt (<) ids" "\<forall>i \<in> set ids. next_id s \<le> i \<and> i < next_id s1" "next_id s \<le> next_id s1"
    by simp_all
  have i: "i = next_id s1" "next_id s2 = i + 1" using CreateJob_Inr [OF created.hyps(2)] by simp_all
  have "\<forall>j \<in> set (ids @ [i]). next_id s \<le> j \<and> j < next_id s2" using IH(3,4) i by (auto intro: less_trans)
  moreover have "sorted_wrt (<) (ids @ [i])" using IH(2,3) i(1) by (simp add: sorted_wrt_append)
  ultimately show ?case using CreateJob_ok [OF created.hyps(2) IH(1)] i IH(4) by simp
next
  case (marked s ids s1 now runID)
  then show ?case using MarkFailed_ok [of s1 now runID] by (simp add: MarkFailedAsRetrying_def update_where_def)
next
  case (deleted s ids s1 runID)
  then show ?case using DeleteRun_ok [of s1 runID] by (simp add: DeleteRun_def)
qed (simp_all add: set_running.keeps_ok set_running.upd_maps set_completed.keeps_ok set_completed.upd_maps
    set_skipped.keeps_ok set_skipped.upd_maps set_failed.keeps_ok set_failed.upd_maps
    update_state.keeps_ok update_state.upd_maps)

section \<open>Properties\<close>

text \<open>
  C33. Over any sequence of operations that SQLite executes, from any consistent store: no two runs
  share an id and no two jobs of a run share table, partition and phase; the ids that \<open>CreateJob\<close>
  returns increase strictly, so none is given twice, not even after its run was deleted; and each of
  the methods that update one job by its id changes the state of that job as it says, and nothing of
  any other job, of the runs, or of the ids. (Primary keys, \<open>AUTOINCREMENT\<close> and the unique index are
  those of \<open>internal/jobstore/sql/001_init.sql\<close>.)
\<close>

theorem store_operations_ok:
  assumes "store_ok s" and "store_run s ids s'"
  shows "distinct (map run_key (runs s')) \<and> distinct (map job_key (jobs s')) \<and> distinct (map row_id (jobs s')) \<and>
    sorted_wrt (<) ids \<and> (\<forall>i \<in> set ids. next_id s \<le> i) \<and>
    only_row i JobRunning s' (SetRunning now i s') \<and> only_row i JobCompleted s' (SetCompleted now i n b s') \<and>
    only_row i JobSkipped s' (SetSkipped now i n s') \<and> only_row i JobFailed s' (SetFailed now i e s') \<and>
    only_row i st s' (UpdateState now i st s')"
  using store_run_ok [OF assms(2,1)] ids_distinct [of s']
  by (simp add: store_ok_def set_running.only set_completed.only set_skipped.only set_failed.only update_state.only)

definition sample_job :: "string \<Rightarrow> string \<Rightarrow> string \<Rightarrow> Job" where
  "sample_job t p ph = \<lparr>ID = 0, RunID = ''r1'', TableSchema = ''HR'', TableName = t, j_Partition = p, Phase = ph,
     State = JobPending, RowsExpected = 0, RowsCopied = 0, BytesCopied = 0, Error = '''', Attempt = 0,
     StartedAt = None, FinishedAt = None\<rparr>"

text \<open>Two runs with one job each, the first one deleted before the second starts.\<close>

definition one_job_run :: "string \<Rightarrow> job_db \<Rightarrow> job_db" where
  "one_job_run r s = (case CreateRun None ''t0'' r ''h'' s of
     Inl _ \<Rightarrow> s
   | Inr s1 \<Rightarrow> (case CreateJob None ''t0'' (sample_job ''EMP'' '''' ''data'') s1 of Inl _ \<Rightarrow> s1 | Inr (i, s2) \<Rightarrow> s2))"

lemma one_job_run_steps:
  assumes "r \<notin> run_key ` set (runs s)" and "jobs s = []"
  shows "store_run s [next_id s] (one_job_run r s)" "next_id (one_job_run r s) = next_id s + 1"
proof -
  have "\<not> list_ex (\<lambda>x. run_key x = r) (runs s)" using assms(1) by (force simp: list_ex_iff)
  then obtain s1 where 1: "CreateRun None ''t0'' r ''h'' s = Inr s1" "jobs s1 = []" "next_id s1 = next_id s"
    using assms(2) by (simp add: CreateRun_def)
  obtain s2 where 2: "CreateJob None ''t0'' (sample_job ''EMP'' '''' ''data'') s1 = Inr (next_id s, s2)"
    "next_id s2 = next_id s + 1"
    using 1 by (simp add: CreateJob_def Let_def)
  have "store_run s ([] @ [next_id s]) s2"
    by (rule store_run.created [OF store_run.run_created [OF store_run.start 1(1)] 2(1)])
  then show "store_run s [next_id s] (one_job_run r s)" "next_id (one_job_run r s) = next_id s + 1"
    using 1(1) 2 by (simp_all add: one_job_run_def)
qed

lemma store_run_trans:
  assumes "store_run s1 js s2" and "store_run s ids s1"
  shows "store_run s (ids @ js) s2"
  using assms
proof (induction s1 js s2 rule: store_run.induct)
  case (created s1 js s2 err now job i s3)
  have "store_run s ((ids @ js) @ [i]) s3" by (rule store_run.created [OF created.IH [OF created.prems] created.hyps(2)])
  then show ?case by simp
qed (auto intro: store_run.intros)

theorem store_operations_ok_witness:
  "\<exists>s'. store_run empty_db [1, 2] s' \<and> map row_id (jobs s') = [2] \<and> only_row 2 JobCompleted s' (SetCompleted ''t1'' 2 7 0 s')"
proof -
  let ?a = "one_job_run ''r1'' empty_db"
  let ?b = "one_job_run ''r1'' (DeleteRun ''r1'' ?a)"
  have a: "store_run empty_db [1] ?a" "next_id ?a = 2"
    using one_job_run_steps [of "''r1''" empty_db] by (simp_all add: empty_db_def)
  have rows: "jobs (DeleteRun ''r1'' ?a) = []" "runs (DeleteRun ''r1'' ?a) = []" "map row_id (jobs ?b) = [2]"
    by code_simp+
  have "store_run (DeleteRun ''r1'' ?a) [2] ?b"
  proof -
    have "next_id (DeleteRun ''r1'' ?a) = 2" using a(2) by (simp add: DeleteRun_def)
    then show ?thesis using one_job_run_steps(1) [of "''r1''" "DeleteRun ''r1'' ?a"] rows by simp
  qed
  then have "store_run empty_db ([1] @ [2]) ?b" by (rule store_run_trans) (rule store_run.deleted [OF a(1)])
  then have run: "store_run empty_db [1, 2] ?b" by simp
  have "only_row 2 JobCompleted ?b (SetCompleted ''t1'' 2 7 0 ?b)"
    using store_operations_ok [OF store_ok_empty run, of 2 "''t1''" 7 0] by simp
  with run rows(3) show ?thesis by (intro exI [of _ ?b] conjI)
qed

text \<open>
  A job that was created can be found: \<open>CreateJob\<close> fails exactly when the run already has a job
  for that table, partition and phase; otherwise it returns a new id, and the job is listed last among
  the pending jobs of its run and phase, with nothing else changed.
\<close>

theorem CreateJob_listed:
  assumes "store_ok s"
  shows "case CreateJob None now job s of
      Inl _ \<Rightarrow> (RunID job, TableName job, j_Partition job, Phase job) \<in> job_key ` set (jobs s)
    | Inr (i, s') \<Rightarrow>
        (\<forall>r \<in> set (jobs s). row_id r \<noteq> i) \<and>
        GetPendingJobs (RunID job) (Phase job) s' =
          GetPendingJobs (RunID job) (Phase job) s @
            [job\<lparr>ID := i, State := JobPending, RowsCopied := 0, BytesCopied := 0, Error := '''', Attempt := 0,
                 StartedAt := None, FinishedAt := None\<rparr>]"
proof (cases "CreateJob None now job s")
  case (Inl e)
  then show ?thesis by (force simp: CreateJob_def Let_def list_ex_iff new_row_def job_key_def split: if_splits)
next
  case (Inr res)
  obtain i s' where res: "res = (i, s')" by force
  have "store_ok s'" using CreateJob_ok Inr res assms by blast
  then show ?thesis
    using CreateJob_Inr [of None now job s i s'] Inr res assms
    by (auto simp: pending_rows new_row_def is_pending_def scanJob_def store_ok_def)
qed

theorem CreateJob_listed_witness:
  "case CreateJob None ''now'' (sample_job ''EMP'' '''' ''data'') empty_db of
     Inl _ \<Rightarrow> False | Inr (i, s') \<Rightarrow> map TableName (GetPendingJobs ''r1'' ''data'' s') = [''EMP'']"
  using CreateJob_listed [OF store_ok_empty, of "sample_job ''EMP'' '''' ''data''" "''now''"]
  by (auto simp: sample_job_def empty_db_def GetPendingJobs_def order_by_id_def split: sum.splits)

text \<open>
  \<open>MarkFailedAsRetrying\<close> makes a run resumable: it reports how many jobs had failed or were left
  running by a crash, no job of the run is in either state afterwards, all of them are offered again as
  pending together with the jobs that were pending already, and no other job changes.
\<close>

theorem MarkFailedAsRetrying_resumes:
  assumes "store_ok s"
  shows "case MarkFailedAsRetrying now runID s of (n, s') \<Rightarrow>
    n = count_state JobFailed (run_jobs runID s) + count_state JobRunning (run_jobs runID s) \<and>
    count_state JobFailed (run_jobs runID s') = 0 \<and> count_state JobRunning (run_jobs runID s') = 0 \<and>
    map ID (GetPendingJobs runID ph s') = map row_id (filter (\<lambda>r. run_id r = runID \<and> phase r = ph \<and>
      state r \<in> {JobPending, JobRetrying, JobFailed, JobRunning}) (jobs s)) \<and>
    (\<forall>r \<in> set (jobs s). \<not> interrupted runID r \<longrightarrow> r \<in> set (jobs s'))"
proof -
  let ?s' = "snd (MarkFailedAsRetrying now runID s)"
  let ?f = "\<lambda>r. if interrupted runID r then r\<lparr>state := JobRetrying, error_message := None, updated_at := now\<rparr> else r"
  have jobs': "jobs ?s' = map ?f (jobs s)" by (simp add: MarkFailedAsRetrying_def update_where_def)
  have n: "int (length (filter (interrupted runID) rs)) =
      count_state JobFailed (filter (\<lambda>r. run_id r = runID) rs) +
      count_state JobRunning (filter (\<lambda>r. run_id r = runID) rs)" for rs
    by (induction rs) (auto simp: interrupted_def count_state_def)
  have none: "count_state st (run_jobs runID ?s') = 0" if "st \<in> {JobFailed, JobRunning}" for st
    using that by (auto simp: count_state_def run_jobs_def jobs' interrupted_def filter_empty_conv)
  have pend: "map ID (map scanJob (filter (\<lambda>r. run_id r = runID \<and> phase r = ph \<and> is_pending r) (map ?f rs))) =
      map row_id (filter (\<lambda>r. run_id r = runID \<and> phase r = ph \<and>
        state r \<in> {JobPending, JobRetrying, JobFailed, JobRunning}) rs)" for rs
    by (induction rs) (auto simp: interrupted_def is_pending_def scanJob_def)
  have "map ID (GetPendingJobs runID ph ?s') = map row_id (filter (\<lambda>r. run_id r = runID \<and> phase r = ph \<and>
        state r \<in> {JobPending, JobRetrying, JobFailed, JobRunning}) (jobs s))"
    using pend [of "jobs s"] by (simp only: pending_rows [OF MarkFailed_ok [OF assms]] jobs')
  moreover have "r \<in> set (jobs ?s')" if "r \<in> set (jobs s)" "\<not> interrupted runID r" for r
    using that by (force simp: jobs')
  moreover have "fst (MarkFailedAsRetrying now runID s) =
      count_state JobFailed (run_jobs runID s) + count_state JobRunning (run_jobs runID s)"
    using n [of "jobs s"] by (simp add: MarkFailedAsRetrying_def run_jobs_def)
  ultimately show ?thesis using none by (simp add: case_prod_beta)
qed

definition crashed_db :: job_db where
  "crashed_db = (case CreateJob None ''t0'' (sample_job ''EMP'' '''' ''data'') empty_db of
     Inr (i, s) \<Rightarrow> SetRunning ''t1'' i s | Inl _ \<Rightarrow> empty_db)"

theorem MarkFailedAsRetrying_resumes_witness:
  "map ID (GetPendingJobs ''r1'' ''data'' (snd (MarkFailedAsRetrying ''t2'' ''r1'' crashed_db))) = [1]"
proof -
  have ok: "store_ok crashed_db" by code_simp
  have rows: "map row_id (filter (\<lambda>r. run_id r = ''r1'' \<and> phase r = ''data'' \<and>
      state r \<in> {JobPending, JobRetrying, JobFailed, JobRunning}) (jobs crashed_db)) = [1]"
    by code_simp
  show ?thesis
    using MarkFailedAsRetrying_resumes [OF ok, where now = "''t2''" and runID = "''r1''" and ph = "''data''"] rows
    by (simp only: case_prod_beta)
qed

text \<open>
  The summary of a run accounts for every job: the total is the number of jobs of the run and the
  sum of the six per-state counts, and a finish time is reported only when no job is pending, running
  or retrying.
\<close>

theorem GetRunSummary_totals:
  "Total (GetRunSummary parse runID s) = int (length (run_jobs runID s)) \<and>
   Total (GetRunSummary parse runID s) = Pending (GetRunSummary parse runID s) + Running (GetRunSummary parse runID s) +
     Completed (GetRunSummary parse runID s) + Failed (GetRunSummary parse runID s) +
     Retrying (GetRunSummary parse runID s) + Skipped (GetRunSummary parse runID s) \<and>
   (sum_FinishedAt (GetRunSummary parse runID s) \<noteq> None \<longrightarrow>
     (\<forall>r \<in> set (run_jobs runID s). state r \<in> {JobCompleted, JobFailed, JobSkipped}))"
proof -
  have total: "count_state JobPending rs + count_state JobRunning rs + count_state JobCompleted rs +
      count_state JobFailed rs + count_state JobRetrying rs + count_state JobSkipped rs = int (length rs)" for rs
  proof (induction rs)
    case (Cons r rs)
    then show ?case by (cases "state r") (simp_all add: count_state_def)
  qed (simp add: count_state_def)
  have zero: "state r \<noteq> st" if "count_state st rs = 0" "r \<in> set rs" for st rs r
    using that by (auto simp: count_state_def filter_empty_conv)
  have "state r \<in> {JobCompleted, JobFailed, JobSkipped}"
    if "sum_FinishedAt (GetRunSummary parse runID s) \<noteq> None" "r \<in> set (run_jobs runID s)" for r
  proof -
    have "count_state JobRunning (run_jobs runID s) = 0 \<and> count_state JobPending (run_jobs runID s) = 0 \<and>
        count_state JobRetrying (run_jobs runID s) = 0"
      using that(1) by (auto simp: GetRunSummary_def Let_def split: if_splits)
    then have "state r \<noteq> JobRunning" "state r \<noteq> JobPending" "state r \<noteq> JobRetrying"
      using zero [OF _ that(2)] by auto
    then show ?thesis by (cases "state r") auto
  qed
  then show ?thesis by (auto simp: GetRunSummary_def Let_def total)
qed

theorem GetRunSummary_totals_witness:
  "Total (GetRunSummary (\<lambda>_. None) ''r1'' crashed_db) = 1"
proof -
  have "length (run_jobs ''r1'' crashed_db) = 1" by code_simp
  then show ?thesis using GetRunSummary_totals [of "\<lambda>_. None" "''r1''" crashed_db] by simp
qed

text \<open>
  \<open>DeleteRun\<close> removes the run and its jobs and nothing else: the other runs keep their jobs, and
  the deleted id can be used again.
\<close>

theorem DeleteRun_isolated:
  "run_jobs runID (DeleteRun runID s) = [] \<and>
   (\<forall>other. other \<noteq> runID \<longrightarrow> run_jobs other (DeleteRun runID s) = run_jobs other s) \<and>
   (\<exists>s'. CreateRun None now runID h (DeleteRun runID s) = Inr s') \<and>
   GetLatestRunID (DeleteRun runID s) \<noteq> Inr runID"
proof -
  have latest: "x \<in> run_key ` set (runs q)" if "GetLatestRunID q = Inr x" for q x
  proof -
    have ne: "runs q \<noteq> []" and x: "x = run_key (last (sort_key run_created_at (runs q)))"
      using that by (simp_all add: GetLatestRunID_def split: if_splits)
    have "last (sort_key run_created_at (runs q)) \<in> set (sort_key run_created_at (runs q))"
      by (rule last_in_set) (metis ne length_0_conv length_sort)
    then show ?thesis by (simp add: x)
  qed
  have gone: "runID \<notin> run_key ` set (runs (DeleteRun runID s))" by (auto simp: DeleteRun_def)
  have "GetLatestRunID (DeleteRun runID s) \<noteq> Inr runID" using latest gone by blast
  moreover have "\<exists>s'. CreateRun None now runID h (DeleteRun runID s) = Inr s'"
    using gone by (force simp: CreateRun_def list_ex_iff)
  moreover have "run_jobs other (DeleteRun runID s) = run_jobs other s" if "other \<noteq> runID" for other
    using that by (auto simp: run_jobs_def DeleteRun_def intro: filter_cong)
  ultimately show ?thesis by (simp add: run_jobs_def DeleteRun_def)
qed

theorem DeleteRun_isolated_witness:
  "run_jobs ''r1'' (DeleteRun ''r0'' crashed_db) = run_jobs ''r1'' crashed_db"
  using DeleteRun_isolated [of "''r0''" crashed_db] by simp

end
