(* ===== verification/Engine_Jobs.thy ===== *)
theory Engine_Jobs
  imports Plan_Build Job_Store Pg_Writer
begin

text \<open>
  The bookkeeping of \<open>internal/migration/engine.go\<close>: \<open>initJobs\<close>, which files one job per table and
  phase and one per data task, and \<open>resetFailedChunkedTables\<close>, which prepares chunked tables for a
  resume. \<open>clock\<close> is the time that SQLite reads when a statement executes, as a function of the store,
  and \<open>sql\<close> its answer to each statement.
  The lemmas give the list of jobs that \<open>initJobs\<close> creates and what is pending afterwards.
\<close>

section \<open>Loops with early return\<close>

text \<open>
  A step on a state returns its error, \<open>None\<close> for \<open>nil\<close>, and the new state, which is kept when the
  caller returns early.
\<close>

definition and_then :: "string option \<times> 's \<Rightarrow> ('s \<Rightarrow> string option \<times> 's) \<Rightarrow> string option \<times> 's" where
  "and_then r k = (case r of (Some e, s) \<Rightarrow> (Some e, s) | (None, s) \<Rightarrow> k s)"

lemma and_then_simps [simp]: "and_then (Some e, s) k = (Some e, s)" "and_then (None, s) k = k s"
  by (simp_all add: and_then_def)

fun each_until :: "('a \<Rightarrow> 's \<Rightarrow> string option \<times> 's) \<Rightarrow> 'a list \<Rightarrow> 's \<Rightarrow> string option \<times> 's" where
  "each_until f [] s = (None, s)"
| "each_until f (x # xs) s = and_then (f x s) (each_until f xs)"

lemma each_until_append: "each_until f (xs @ ys) = (\<lambda>s. and_then (each_until f xs s) (each_until f ys))"
proof
  show "each_until f (xs @ ys) s = and_then (each_until f xs s) (each_until f ys)" for s
    by (induction xs arbitrary: s) (auto simp: and_then_def split: prod.splits option.splits)
qed

lemma each_until_map: "each_until f (map g xs) = each_until (\<lambda>x. f (g x)) xs"
proof
  show "each_until f (map g xs) s = each_until (\<lambda>x. f (g x)) xs s" for s
    by (induction xs arbitrary: s) (auto simp: and_then_def split: prod.splits option.splits)
qed

section \<open>\<open>initJobs\<close>\<close>

definition target_mode :: "Config \<Rightarrow> string \<Rightarrow> TargetMode" where
  "target_mode cfg name = ResolveTargetMode (override_of (Migration cfg) name) (DropTarget (Postgres cfg))"

definition incrementalTables :: "Config \<Rightarrow> MigrationPlan \<Rightarrow> string \<Rightarrow> bool" where
  "incrementalTables cfg plan name \<longleftrightarrow>
     list_ex (\<lambda>t. tbl_Name t = name \<and> target_mode cfg (tbl_Name t) = TargetModeTruncatePartition) (DDLOrder plan)"

text \<open>
  A table is complete when it has data tasks, is incremental, and the previous run completed each of
  them. With an empty \<open>prevCompleted\<close> no table is, so the code's length test needs no branch.
\<close>

definition tableFullyCompleted :: "Config \<Rightarrow> MigrationPlan \<Rightarrow> (string \<rightharpoonup> int) \<Rightarrow> string \<Rightarrow> bool" where
  "tableFullyCompleted cfg plan prevCompleted name \<longleftrightarrow>
     incrementalTables cfg plan name \<and>
     (let parts = map jobPartitionKey (filter (\<lambda>task. tbl_Name (t_Table task) = name) (DataTasks plan))
      in parts \<noteq> [] \<and> list_all (\<lambda>p. prevCompleted (name @ '':'' @ p) \<noteq> None) parts)"

definition rowsExpected :: "TableTask \<Rightarrow> int" where
  "rowsExpected task =
     (case (t_Partition task, t_Chunk task) of
        (Some p, Some ch) \<Rightarrow> if TotalChunks task > 0 then go_div (part_NumRows p) (TotalChunks task) else 0
      | (Some p, None) \<Rightarrow> part_NumRows p
      | (None, Some ch) \<Rightarrow> if TotalChunks task > 0 then go_div (tbl_NumRows (t_Table task)) (TotalChunks task) else 0
      | (None, None) \<Rightarrow> tbl_NumRows (t_Table task))"

definition table_job :: "string \<Rightarrow> string \<Rightarrow> Table \<Rightarrow> Job" where
  "table_job runID ph t = \<lparr>ID = 0, RunID = runID, TableSchema = tbl_Owner t, TableName = tbl_Name t,
     j_Partition = '''', Phase = ph, State = JobPending, RowsExpected = 0, RowsCopied = 0, BytesCopied = 0,
     Error = '''', Attempt = 0, StartedAt = None, FinishedAt = None\<rparr>"

definition data_job :: "string \<Rightarrow> TableTask \<Rightarrow> Job" where
  "data_job runID task =
     (table_job runID ''data'' (t_Table task))\<lparr>j_Partition := jobPartitionKey task, RowsExpected := rowsExpected task\<rparr>"

text \<open>
  \<open>CreateJob\<close> and, for a job that the previous run completed, \<open>SetSkipped\<close> with its row count, whose
  error is ignored.
\<close>

definition add_job :: "sqlite \<Rightarrow> (job_db \<Rightarrow> string) \<Rightarrow> Job \<times> int option \<Rightarrow> job_db \<Rightarrow> string option \<times> job_db" where
  "add_job sql clock jq s =
     (case CreateJob (sql ''CreateJob'' 0 s) (clock s) (fst jq) s of
        Inl e \<Rightarrow> (Some e, s)
      | Inr (i, s') \<Rightarrow>
          (None, case snd jq of
                   None \<Rightarrow> s'
                 | Some n \<Rightarrow> snd (exec_on (sql ''SetSkipped'' i s') (SetSkipped (clock s') i n) s')))"

definition initJobs ::
    "sqlite \<Rightarrow> (job_db \<Rightarrow> string) \<Rightarrow> Config \<Rightarrow> string \<Rightarrow> MigrationPlan \<Rightarrow> (string \<rightharpoonup> int) \<Rightarrow> job_db \<Rightarrow> string option \<times> job_db" where
  "initJobs sql clock cfg runID plan prevCompleted s =
     (let full = (\<lambda>t. if tableFullyCompleted cfg plan prevCompleted (tbl_Name t) then Some 0 else None);
          done = (\<lambda>task. if incrementalTables cfg plan (tbl_Name (t_Table task))
                         then prevCompleted (tbl_Name (t_Table task) @ '':'' @ jobPartitionKey task) else None);
          tables = (\<lambda>ph. each_until (\<lambda>t. add_job sql clock (table_job runID ph t, full t)))
      in and_then (tables ''ddl'' (DDLOrder plan) s) (\<lambda>s.
         and_then (each_until (\<lambda>task. add_job sql clock (data_job runID task, done task)) (DataTasks plan) s) (\<lambda>s.
         and_then (tables ''constraints'' (ConstraintOrder plan) s) (\<lambda>s.
         tables ''validate'' (DDLOrder plan) s))))"

section \<open>The list of jobs\<close>

definition skip_table :: "Config \<Rightarrow> MigrationPlan \<Rightarrow> (string \<rightharpoonup> int) \<Rightarrow> Table \<Rightarrow> int option" where
  "skip_table cfg plan prev t = (if tableFullyCompleted cfg plan prev (tbl_Name t) then Some 0 else None)"

definition skip_task :: "Config \<Rightarrow> MigrationPlan \<Rightarrow> (string \<rightharpoonup> int) \<Rightarrow> TableTask \<Rightarrow> int option" where
  "skip_task cfg plan prev task =
     (if incrementalTables cfg plan (tbl_Name (t_Table task))
      then prev (tbl_Name (t_Table task) @ '':'' @ jobPartitionKey task) else None)"

definition init_list :: "Config \<Rightarrow> string \<Rightarrow> MigrationPlan \<Rightarrow> (string \<rightharpoonup> int) \<Rightarrow> (Job \<times> int option) list" where
  "init_list cfg runID plan prev =
     map (\<lambda>t. (table_job runID ''ddl'' t, skip_table cfg plan prev t)) (DDLOrder plan) @
     map (\<lambda>task. (data_job runID task, skip_task cfg plan prev task)) (DataTasks plan) @
     map (\<lambda>t. (table_job runID ''constraints'' t, skip_table cfg plan prev t)) (ConstraintOrder plan) @
     map (\<lambda>t. (table_job runID ''validate'' t, skip_table cfg plan prev t)) (DDLOrder plan)"

lemma initJobs_list:
  "initJobs sql clock cfg runID plan prev s = each_until (add_job sql clock) (init_list cfg runID plan prev) s"
  by (simp add: initJobs_def init_list_def each_until_append each_until_map skip_table_def skip_task_def Let_def
      cong: if_cong)

definition jkey :: "Job \<Rightarrow> string \<times> string \<times> string \<times> string" where
  "jkey j = (RunID j, TableName j, j_Partition j, Phase j)"

definition view :: "Job \<Rightarrow> string \<times> string" where
  "view j = (TableName j, j_Partition j)"

text \<open>One new job: the keys in the store grow by its key, and it is pending unless it was skipped.\<close>

lemma add_job_fresh:
  assumes "store_ok s" and "jkey (fst jq) \<notin> job_key ` set (jobs s)" and "reliable sql"
  shows "\<exists>s'. add_job sql clock jq s = (None, s') \<and> store_ok s' \<and>
    job_key ` set (jobs s') = insert (jkey (fst jq)) (job_key ` set (jobs s)) \<and>
    runs s' = runs s \<and> (\<forall>run. running_of run s' = running_of run s) \<and>
    (\<forall>run ph. map view (GetPendingJobs run ph s') = map view (GetPendingJobs run ph s) @
      (if RunID (fst jq) = run \<and> Phase (fst jq) = ph \<and> snd jq = None then [view (fst jq)] else []))"
proof -
  obtain job q where jq: "jq = (job, q)" by force
  let ?now = "clock s"
  let ?row = "new_row ?now (next_id s) job"
  let ?s1 = "s\<lparr>jobs := jobs s @ [?row], next_id := next_id s + 1\<rparr>"
  have key: "job_key ?row = jkey job" by (simp add: job_key_def new_row_def jkey_def)
  note ans = reliable_answer [OF assms(3)]
  have create: "CreateJob None ?now job s = Inr (next_id s, ?s1)"
    using assms(2) by (auto simp: CreateJob_def Let_def list_ex_iff key jq image_iff)
  then have ok1: "store_ok ?s1" by (rule CreateJob_ok) (rule assms(1))
  have new: "run_id ?row = RunID job" "phase ?row = Phase job" "is_pending ?row" "row_id ?row = next_id s"
    "view (scanJob ?row) = view job"
    by (simp_all add: new_row_def is_pending_def view_def scanJob_def)
  have pend1: "map view (GetPendingJobs run ph ?s1) = map view (GetPendingJobs run ph s) @
      (if RunID job = run \<and> Phase job = ph then [view job] else [])" for run ph
    by (simp add: pending_rows [OF ok1] pending_rows [OF assms(1)] new)
  have run1: "running_of run ?s1 = running_of run s" for run
    by (auto simp: running_of_def new_row_def)
  show ?thesis
  proof (cases q)
    case None
    then show ?thesis using ok1 pend1 run1 by (simp add: add_job_def ans create jq key)
  next
    case (Some n)
    let ?s2 = "SetSkipped (clock ?s1) (next_id s) n ?s1"
    have "\<forall>r \<in> set (jobs s). row_id r \<noteq> next_id s" using assms(1) by (force simp: store_ok_def)
    then have "GetPendingJobs run ph ?s2 = GetPendingJobs run ph s" for run ph
      using set_skipped.ends_job [OF ok1, of "clock ?s1" n run ph "next_id s"]
      by (simp add: is_pending_def pending_rows [OF ok1] pending_rows [OF assms(1)] scanJob_def new filter_map comp_def)
        (auto intro!: arg_cong [where f = "map scanJob"] filter_cong)
    moreover have "job_key ` set (jobs ?s2) = job_key ` set (jobs ?s1)" by (rule set_skipped.same_keys)
    moreover have "running_of run ?s2 = running_of run s" for run
    proof -
      have "running_of run ?s2 = running_of run ?s1 - {next_id s}" by (rule set_skipped.running_less) simp
      moreover have "next_id s \<notin> running_of run s" using assms(1) by (force simp: running_of_def store_ok_def)
      ultimately show ?thesis using run1 by simp
    qed
    moreover have "store_ok ?s2" by (rule set_skipped.keeps_ok) (rule ok1)
    ultimately show ?thesis by (simp add: add_job_def ans create jq key Some set_skipped.upd_maps)
  qed
qed

lemma add_jobs_fresh:
  assumes "store_ok s" and "distinct (map (\<lambda>jq. jkey (fst jq)) jqs)"
    and "\<forall>jq \<in> set jqs. jkey (fst jq) \<notin> job_key ` set (jobs s)" and "reliable sql"
  shows "\<exists>s'. each_until (add_job sql clock) jqs s = (None, s') \<and> store_ok s' \<and> runs s' = runs s \<and>
    job_key ` set (jobs s') = job_key ` set (jobs s) \<union> (\<lambda>jq. jkey (fst jq)) ` set jqs \<and>
    (\<forall>run. running_of run s' = running_of run s) \<and>
    (\<forall>run ph. map view (GetPendingJobs run ph s') = map view (GetPendingJobs run ph s) @
      map (\<lambda>jq. view (fst jq)) (filter (\<lambda>jq. RunID (fst jq) = run \<and> Phase (fst jq) = ph \<and> snd jq = None) jqs))"
  using assms(1-3)
proof (induction jqs arbitrary: s)
  case (Cons jq jqs)
  obtain s1 where s1: "add_job sql clock jq s = (None, s1)" "store_ok s1"
    "job_key ` set (jobs s1) = insert (jkey (fst jq)) (job_key ` set (jobs s))" "runs s1 = runs s"
    "\<forall>run. running_of run s1 = running_of run s"
    "\<forall>run ph. map view (GetPendingJobs run ph s1) = map view (GetPendingJobs run ph s) @
      (if RunID (fst jq) = run \<and> Phase (fst jq) = ph \<and> snd jq = None then [view (fst jq)] else [])"
    using add_job_fresh [OF Cons.prems(1) _ assms(4), of jq clock] Cons.prems(3) by auto
  have "\<forall>x \<in> set jqs. jkey (fst x) \<notin> job_key ` set (jobs s1)"
    using Cons.prems(2,3) by (auto simp: s1(3)) (metis fst_conv image_eqI)
  with Cons.IH [OF s1(2)] Cons.prems(2) obtain s2 where
    "each_until (add_job sql clock) jqs s1 = (None, s2)" "store_ok s2" "runs s2 = runs s1"
    "job_key ` set (jobs s2) = job_key ` set (jobs s1) \<union> (\<lambda>jq. jkey (fst jq)) ` set jqs"
    "\<forall>run. running_of run s2 = running_of run s1"
    "\<forall>run ph. map view (GetPendingJobs run ph s2) = map view (GetPendingJobs run ph s1) @
      map (\<lambda>jq. view (fst jq)) (filter (\<lambda>jq. RunID (fst jq) = run \<and> Phase (fst jq) = ph \<and> snd jq = None) jqs)"
    by auto
  then show ?case using s1 by auto
qed simp

section \<open>\<open>resetFailedChunkedTables\<close>\<close>

definition is_chunk_job :: "Job \<Rightarrow> bool" where
  "is_chunk_job j \<longleftrightarrow> HasPrefix (j_Partition j) ''chunk:''"

text \<open>
  One iteration of the second loop: \<open>dataJobs\<close> is the list that the first loop grouped. A table
  without a retrying chunk is left alone, one whose \<open>TRUNCATE\<close> fails keeps its job states; an error
  of \<open>UpdateState\<close> is logged.
\<close>

definition reset_table ::
    "sqlite \<Rightarrow> (job_db \<Rightarrow> string) \<Rightarrow> pg_server \<Rightarrow> Writer \<Rightarrow> Job list \<Rightarrow> job_db \<times> history \<Rightarrow> string \<Rightarrow> job_db \<times> history" where
  "reset_table sql clock srv w dataJobs st name =
     (let chunks = filter (\<lambda>j. is_chunk_job j \<and> TableName j = name) dataJobs
      in if \<not> list_ex (\<lambda>j. State j = JobRetrying) chunks then st
         else case TruncateTable srv w name (snd st) of
                (Some e, h) \<Rightarrow> (fst st, h)
              | (None, h) \<Rightarrow>
                  (foldl (\<lambda>s j. snd (exec_on (sql ''UpdateState'' (ID j) s) (UpdateState (clock s) (ID j) JobRetrying) s))
                     (fst st) chunks, h))"

text \<open>
  \<open>order\<close> is the order in which Go iterates over the map of tables. The error that the function
  returns when \<open>GetJobsByPhase\<close> fails is only logged by \<open>Resume\<close>.
\<close>

definition resetFailedChunkedTables ::
    "sqlite \<Rightarrow> (job_db \<Rightarrow> string) \<Rightarrow> pg_server \<Rightarrow> Writer \<Rightarrow> string list \<Rightarrow> string \<Rightarrow> job_db \<times> history \<Rightarrow>
     string option \<times> job_db \<times> history" where
  "resetFailedChunkedTables sql clock srv w order runID st =
     (case query_on (sql ''GetJobsByPhase'' 0 (fst st)) (Inr (GetJobsByPhase runID ''data'' (fst st))) of
        Inl e \<Rightarrow> (Some e, st)
      | Inr dataJobs \<Rightarrow> (None, foldl (reset_table sql clock srv w dataJobs) st order))"

text \<open>Rows up to the time stamp of the last update.\<close>

definition blank :: "job_row \<Rightarrow> job_row" where
  "blank r = r\<lparr>updated_at := ''''\<rparr>"

definition set_retrying :: "int set \<Rightarrow> job_row \<Rightarrow> job_row" where
  "set_retrying ids r = blank (if row_id r \<in> ids then r\<lparr>state := JobRetrying\<rparr> else r)"

lemma update_states:
  "map blank (jobs (foldl (\<lambda>s j. UpdateState (clock s) (ID j) JobRetrying s) s js)) =
   map (set_retrying (ID ` set js)) (jobs s)"
proof (induction js rule: rev_induct)
  case Nil
  then show ?case by (simp add: set_retrying_def)
next
  case (snoc j js)
  have row: "blank (if row_id q = i then q\<lparr>state := JobRetrying, updated_at := t\<rparr> else q) =
      set_retrying (insert i A) r" if "blank q = set_retrying A r" for q r i t A
    using that by (cases q, cases r) (auto simp: set_retrying_def blank_def split: if_splits)
  have "map blank (jobs (UpdateState t i JobRetrying s')) = map (set_retrying (insert i A)) rs"
    if "map blank (jobs s') = map (set_retrying A) rs" for s' A rs t i
  proof -
    have "map (\<lambda>q. blank (if row_id q = i then q\<lparr>state := JobRetrying, updated_at := t\<rparr> else q)) qs =
        map (set_retrying (insert i A)) rs" if "map blank qs = map (set_retrying A) rs" for qs
      using that unfolding list_eq_iff_nth_eq by (simp add: row del: if_split)
    then show ?thesis using that by (simp add: UpdateState_def update_where_def comp_def)
  qed
  from this [OF snoc.IH] show ?case by simp
qed

definition trunc_stmt :: "Writer \<Rightarrow> string \<Rightarrow> string" where
  "trunc_stmt w name = ''TRUNCATE TABLE '' @ w_table w name"

definition chunk_row :: "string \<Rightarrow> job_row \<Rightarrow> bool" where
  "chunk_row runID r \<longleftrightarrow> run_id r = runID \<and> phase r = ''data'' \<and> HasPrefix (row_partition r) ''chunk:''"

definition chunk_retrying :: "string \<Rightarrow> job_db \<Rightarrow> string \<Rightarrow> bool" where
  "chunk_retrying runID s name =
     list_ex (\<lambda>r. chunk_row runID r \<and> table_name r = name \<and> state r = JobRetrying) (jobs s)"

text \<open>The tables whose \<open>TRUNCATE\<close> the server accepts when the statements are sent in order.\<close>

fun truncated :: "pg_server \<Rightarrow> Writer \<Rightarrow> (string \<Rightarrow> bool) \<Rightarrow> history \<Rightarrow> string list \<Rightarrow> string list" where
  "truncated srv w needs h [] = []"
| "truncated srv w needs h (n # ns) =
     (if \<not> needs n then truncated srv w needs h ns
      else if pg_exec srv h (trunc_stmt w n) = None then n # truncated srv w needs (h @ [trunc_stmt w n]) ns
      else truncated srv w needs (h @ [trunc_stmt w n]) ns)"

lemma blank_simps [simp]:
  "row_id (blank r) = row_id r" "blank (blank r) = blank r" "blank (r\<lparr>state := x\<rparr>) = (blank r)\<lparr>state := x\<rparr>"
  by (simp_all add: blank_def)

lemma set_retrying_if: "set_retrying A r = (if row_id r \<in> A then (blank r)\<lparr>state := JobRetrying\<rparr> else blank r)"
  by (simp add: set_retrying_def)

lemma set_retrying_set_retrying: "set_retrying B (set_retrying A r) = set_retrying (A \<union> B) r"
  by (cases "row_id r \<in> A"; cases "row_id r \<in> B") (simp_all add: set_retrying_if)

lemma set_retrying_blank: "set_retrying B (blank r) = set_retrying B r"
  by (simp add: set_retrying_if)

lemma set_retrying_twice: "blank q = set_retrying A r \<Longrightarrow> set_retrying B q = set_retrying (A \<union> B) r"
  by (rule trans [OF set_retrying_blank [symmetric]]) (simp only: set_retrying_set_retrying)

lemma set_retrying_again:
  assumes "map blank qs = map (set_retrying A) rs"
  shows "map (set_retrying B) qs = map (set_retrying (A \<union> B)) rs"
proof (rule nth_equalityI)
  show len: "length (map (set_retrying B) qs) = length (map (set_retrying (A \<union> B)) rs)"
    using map_eq_imp_length_eq [OF assms] by simp
  fix i assume i: "i < length (map (set_retrying B) qs)"
  with len have "blank (qs ! i) = set_retrying A (rs ! i)"
    using arg_cong [OF assms, of "\<lambda>xs. xs ! i"] by simp
  from set_retrying_twice [OF this] i len
  show "map (set_retrying B) qs ! i = map (set_retrying (A \<union> B)) rs ! i" by simp
qed

definition chunk_ids :: "Job list \<Rightarrow> string set \<Rightarrow> int set" where
  "chunk_ids js names = ID ` {j \<in> set js. is_chunk_job j \<and> TableName j \<in> names}"

lemma reset_tables:
  assumes "foldl (reset_table sql clock srv w js) (s, h) order = (s', h')"
    and needs: "\<And>n. needs n \<longleftrightarrow> list_ex (\<lambda>j. is_chunk_job j \<and> TableName j = n \<and> State j = JobRetrying) js"
    and rel: "reliable sql"
  shows "h' = h @ map (trunc_stmt w) (filter needs order) \<and>
    map blank (jobs s') = map (set_retrying (chunk_ids js (set (truncated srv w needs h order)))) (jobs s)"
  using assms(1)
proof (induction order arbitrary: s h)
  case Nil
  then show ?case by (simp add: set_retrying_def chunk_ids_def)
next
  case (Cons n ns)
  let ?chunks = "filter (\<lambda>j. is_chunk_job j \<and> TableName j = n) js"
  have none: "\<not> list_ex (\<lambda>j. State j = JobRetrying) ?chunks \<longleftrightarrow> \<not> needs n"
    by (auto simp: needs list_ex_iff)
  show ?case
  proof (cases "needs n")
    case False
    then have "reset_table sql clock srv w js (s, h) n = (s, h)" using none by (simp add: reset_table_def Let_def)
    then show ?thesis using Cons.IH [of s h] Cons.prems False by simp
  next
    case True
    let ?h = "h @ [trunc_stmt w n]"
    have stmt: "TruncateTable srv w n h = (pg_exec srv h (trunc_stmt w n), ?h)"
      by (simp add: TruncateTable_def ExecDDL_def trunc_stmt_def)
    show ?thesis
    proof (cases "pg_exec srv h (trunc_stmt w n)")
      case None
      let ?s = "foldl (\<lambda>s j. UpdateState (clock s) (ID j) JobRetrying s) s ?chunks"
      have "reset_table sql clock srv w js (s, h) n = (?s, ?h)"
        using True none None stmt by (simp add: reset_table_def Let_def reliable_answer [OF rel])
      then have "foldl (reset_table sql clock srv w js) (?s, ?h) ns = (s', h')" using Cons.prems by simp
      from Cons.IH [OF this] have IH: "h' = ?h @ map (trunc_stmt w) (filter needs ns)"
        "map blank (jobs s') = map (set_retrying (chunk_ids js (set (truncated srv w needs ?h ns)))) (jobs ?s)"
        by simp_all
      have ids: "ID ` {j \<in> set js. is_chunk_job j \<and> TableName j = n} \<union> chunk_ids js A = chunk_ids js (insert n A)" for A
        by (auto simp: chunk_ids_def)
      show ?thesis
        using IH True None by (simp add: set_retrying_again [OF update_states] ids)
    next
      case (Some e)
      then have "reset_table sql clock srv w js (s, h) n = (s, ?h)"
        using True none stmt by (simp add: reset_table_def Let_def)
      then have "foldl (reset_table sql clock srv w js) (s, ?h) ns = (s', h')" using Cons.prems by simp
      from Cons.IH [OF this] show ?thesis using True Some by simp
    qed
  qed
qed

lemma initJobs_result:
  assumes "store_ok s" and "run_jobs runID s = []"
    and "distinct (map tbl_Name (DDLOrder plan))" "distinct (map tbl_Name (ConstraintOrder plan))"
    and "distinct (map (\<lambda>k. (tbl_Name (t_Table k), jobPartitionKey k)) (DataTasks plan))" and "reliable sql"
  shows "\<exists>s'. initJobs sql clock cfg runID plan prev s = (None, s') \<and> store_ok s' \<and>
    job_key ` set (jobs s') = job_key ` set (jobs s) \<union> (\<lambda>jq. jkey (fst jq)) ` set (init_list cfg runID plan prev) \<and>
    running_of runID s' = running_of runID s \<and>
    map view (GetPendingJobs runID ''ddl'' s') =
      map (\<lambda>t. (tbl_Name t, '''')) (filter (\<lambda>t. \<not> tableFullyCompleted cfg plan prev (tbl_Name t)) (DDLOrder plan)) \<and>
    map view (GetPendingJobs runID ''data'' s') =
      map (\<lambda>k. (tbl_Name (t_Table k), jobPartitionKey k)) (filter (\<lambda>k. skip_task cfg plan prev k = None) (DataTasks plan)) \<and>
    map view (GetPendingJobs runID ''constraints'' s') =
      map (\<lambda>t. (tbl_Name t, '''')) (filter (\<lambda>t. \<not> tableFullyCompleted cfg plan prev (tbl_Name t)) (ConstraintOrder plan)) \<and>
    map view (GetPendingJobs runID ''validate'' s') =
      map (\<lambda>t. (tbl_Name t, '''')) (filter (\<lambda>t. \<not> tableFullyCompleted cfg plan prev (tbl_Name t)) (DDLOrder plan))"
proof -
  let ?l = "init_list cfg runID plan prev"
  have keys: "jkey (table_job runID ph t) = (runID, tbl_Name t, '''', ph)"
    "jkey (data_job runID k) = (runID, tbl_Name (t_Table k), jobPartitionKey k, ''data'')" for ph t k
    by (simp_all add: jkey_def table_job_def data_job_def)
  have "distinct (map (\<lambda>jq. jkey (fst jq)) ?l)"
    using assms(3-5) by (auto simp: init_list_def keys comp_def distinct_map inj_on_def)
  moreover have "\<forall>jq \<in> set ?l. jkey (fst jq) \<notin> job_key ` set (jobs s)"
    using assms(2) by (auto simp: init_list_def keys run_jobs_def filter_empty_conv job_key_def)
  ultimately have "\<exists>s'. each_until (add_job sql clock) ?l s = (None, s') \<and> store_ok s' \<and> runs s' = runs s \<and>
    job_key ` set (jobs s') = job_key ` set (jobs s) \<union> (\<lambda>jq. jkey (fst jq)) ` set ?l \<and>
    (\<forall>run. running_of run s' = running_of run s) \<and>
    (\<forall>run ph. map view (GetPendingJobs run ph s') = map view (GetPendingJobs run ph s) @
      map (\<lambda>jq. view (fst jq)) (filter (\<lambda>jq. RunID (fst jq) = run \<and> Phase (fst jq) = ph \<and> snd jq = None) ?l))"
    by (rule add_jobs_fresh [OF assms(1) _ _ assms(6)])
  then obtain s' where s': "each_until (add_job sql clock) ?l s = (None, s')" "store_ok s'"
    "job_key ` set (jobs s') = job_key ` set (jobs s) \<union> (\<lambda>jq. jkey (fst jq)) ` set ?l"
    "\<forall>run. running_of run s' = running_of run s"
    "\<forall>run ph. map view (GetPendingJobs run ph s') = map view (GetPendingJobs run ph s) @
      map (\<lambda>jq. view (fst jq)) (filter (\<lambda>jq. RunID (fst jq) = run \<and> Phase (fst jq) = ph \<and> snd jq = None) ?l)"
    by - (elim exE conjE, rule that)
  have none: "GetPendingJobs runID ph s = []" for ph
    using assms(2) by (auto simp: pending_rows [OF assms(1)] run_jobs_def filter_empty_conv)
  have pend: "map view (GetPendingJobs runID ph s') =
      map (\<lambda>jq. view (fst jq)) (filter (\<lambda>jq. RunID (fst jq) = runID \<and> Phase (fst jq) = ph \<and> snd jq = None) ?l)" for ph
    using s'(5) none by simp
  note pend = pend [unfolded init_list_def]
  have jobs: "RunID (table_job runID ph t) = runID" "Phase (table_job runID ph t) = ph"
    "view (table_job runID ph t) = (tbl_Name t, '''')" "RunID (data_job runID k) = runID"
    "Phase (data_job runID k) = ''data''" "view (data_job runID k) = (tbl_Name (t_Table k), jobPartitionKey k)" for ph t k
    by (simp_all add: table_job_def data_job_def view_def)
  have skip: "skip_table cfg plan prev t = None \<longleftrightarrow> \<not> tableFullyCompleted cfg plan prev (tbl_Name t)" for t
    by (simp add: skip_table_def)
  show ?thesis
    using s'(1,2,3,4) pend by (simp add: initJobs_list filter_map comp_def jobs skip)
qed

section \<open>Properties\<close>

text \<open>
  On resume, \<open>resetFailedChunkedTables\<close> truncates exactly the tables that have a chunk job in
  state \<open>RETRYING\<close>, and puts every chunk job of a table whose truncation succeeded back to \<open>RETRYING\<close>,
  finished chunks included; all other jobs keep their state. Only keys that start with \<open>chunk:\<close> count,
  so chunks of partitions (\<open>P1:chunk:0\<close>) are never reset.
\<close>

theorem resetFailedChunkedTables_effect:
  assumes "store_ok s" and "reliable sql"
    and "resetFailedChunkedTables sql clock srv w order runID (s, h) = (err, (s', h'))"
  shows "h' = h @ map (trunc_stmt w) (filter (chunk_retrying runID s) order) \<and>
    map blank (jobs s') = map (\<lambda>r. blank (if chunk_row runID r \<and>
        table_name r \<in> set (truncated srv w (chunk_retrying runID s) h order)
      then r\<lparr>state := JobRetrying\<rparr> else r)) (jobs s)"
proof -
  let ?js = "GetJobsByPhase runID ''data'' s"
  let ?T = "set (truncated srv w (chunk_retrying runID s) h order)"
  have js: "?js = map scanJob (filter (\<lambda>r. run_id r = runID \<and> phase r = ''data'') (jobs s))"
    by (simp add: GetJobsByPhase_def order_by_id_filter [OF assms(1)])
  have needs: "chunk_retrying runID s n \<longleftrightarrow>
      list_ex (\<lambda>j. is_chunk_job j \<and> TableName j = n \<and> State j = JobRetrying) ?js" for n
    by (auto simp: js chunk_retrying_def list_ex_iff chunk_row_def is_chunk_job_def scanJob_def)
  have "row_id r \<in> chunk_ids ?js ?T \<longleftrightarrow> chunk_row runID r \<and> table_name r \<in> ?T" if "r \<in> set (jobs s)" for r
    using unique_row [OF assms(1) that]
    by (auto simp: chunk_ids_def js is_chunk_job_def chunk_row_def scanJob_def image_iff)
      (use that in \<open>auto intro!: bexI [where x = r]\<close>)
  then show ?thesis
    using reset_tables [OF _ needs assms(2), of clock srv w s h order s' h'] assms(3)
    by (auto simp: resetFailedChunkedTables_def set_retrying_def reliable_answer [OF assms(2)])
qed

definition sample_row :: "int \<Rightarrow> string \<Rightarrow> string \<Rightarrow> JobState \<Rightarrow> job_row" where
  "sample_row i t p st = (new_row ''t0'' i (sample_job t p ''data''))\<lparr>state := st\<rparr>"

definition resume_db :: job_db where
  "resume_db = \<lparr>runs = [\<lparr>run_key = ''r1'', config_hash = '''', run_status = ''RUNNING'', run_created_at = ''t0''\<rparr>],
     jobs = [sample_row 1 ''ORDERS'' ''chunk:0'' JobCompleted, sample_row 2 ''ORDERS'' ''chunk:1'' JobRetrying,
             sample_row 3 ''SALES'' ''P1:chunk:0'' JobRetrying, sample_row 4 ''SALES'' ''P1:chunk:1'' JobCompleted],
     next_id = 5\<rparr>"

definition quiet_server :: pg_server where
  "quiet_server = \<lparr>pg_exec = \<lambda>h stmt. None, pg_exists = \<lambda>h s t. Inr True, pg_count = \<lambda>h q. Inr 0,
     pg_reltuples = \<lambda>h s t. Inr 0\<rparr>"

lemma resume_db_ok: "store_ok resume_db"
  by code_simp

theorem resetFailedChunkedTables_effect_witness:
  "case resetFailedChunkedTables (\<lambda>_ _ _. None) (\<lambda>_. ''t1'') quiet_server (NewWriter ''public'') [''ORDERS'', ''SALES''] ''r1'' (resume_db, []) of
     (err, s', h') \<Rightarrow> h' = [trunc_stmt (NewWriter ''public'') ''ORDERS''] \<and>
       map state (map blank (jobs s')) = [JobRetrying, JobRetrying, JobRetrying, JobCompleted]"
proof -
  obtain err s' h' where r: "resetFailedChunkedTables (\<lambda>_ _ _. None) (\<lambda>_. ''t1'') quiet_server (NewWriter ''public'')
      [''ORDERS'', ''SALES''] ''r1'' (resume_db, []) = (err, (s', h'))" by (metis prod.exhaust)
  have need: "chunk_retrying ''r1'' resume_db ''ORDERS''" "\<not> chunk_retrying ''r1'' resume_db ''SALES''"
    by code_simp+
  then have T: "truncated quiet_server (NewWriter ''public'') (chunk_retrying ''r1'' resume_db) [] [''ORDERS'', ''SALES''] = [''ORDERS'']"
    by (simp add: quiet_server_def)
  have rows: "map (\<lambda>r. state (blank (if chunk_row ''r1'' r \<and> table_name r \<in> set [''ORDERS'']
      then r\<lparr>state := JobRetrying\<rparr> else r))) (jobs resume_db) = [JobRetrying, JobRetrying, JobRetrying, JobCompleted]"
    by code_simp
  have "h' = [trunc_stmt (NewWriter ''public'') ''ORDERS'']"
    using resetFailedChunkedTables_effect [OF resume_db_ok reliable_None r] need by simp
  moreover have "map state (map blank (jobs s')) = map (\<lambda>r. state (blank (if chunk_row ''r1'' r \<and> table_name r \<in> set [''ORDERS'']
      then r\<lparr>state := JobRetrying\<rparr> else r))) (jobs resume_db)"
    using resetFailedChunkedTables_effect [OF resume_db_ok reliable_None r] T by (simp del: blank_simps cong: if_cong)
  ultimately show ?thesis using r rows by simp
qed

text \<open>
  \<open>initJobs\<close> succeeds for a new run when no two tables share a name and no two data tasks share a
  job key, and it leaves exactly the right work pending: one job per table of the DDL order in phases
  \<open>ddl\<close> and \<open>validate\<close>, one per table of the constraint order, in these orders, without the incremental
  tables that the previous run completed, and one data job per task, in plan order, without the
  partitions of incremental tables that were completed before.
\<close>

theorem initJobs_pending:
  assumes "store_ok s" and "run_jobs runID s = []"
    and "distinct (map tbl_Name (DDLOrder plan))" "distinct (map tbl_Name (ConstraintOrder plan))"
    and "distinct (map (\<lambda>k. (tbl_Name (t_Table k), jobPartitionKey k)) (DataTasks plan))" and "reliable sql"
  shows "\<exists>s'. initJobs sql clock cfg runID plan prev s = (None, s') \<and> store_ok s' \<and>
    map view (GetPendingJobs runID ''ddl'' s') =
      map (\<lambda>t. (tbl_Name t, '''')) (filter (\<lambda>t. \<not> tableFullyCompleted cfg plan prev (tbl_Name t)) (DDLOrder plan)) \<and>
    map view (GetPendingJobs runID ''data'' s') =
      map (\<lambda>k. (tbl_Name (t_Table k), jobPartitionKey k)) (filter (\<lambda>k. skip_task cfg plan prev k = None) (DataTasks plan)) \<and>
    map view (GetPendingJobs runID ''constraints'' s') =
      map (\<lambda>t. (tbl_Name t, '''')) (filter (\<lambda>t. \<not> tableFullyCompleted cfg plan prev (tbl_Name t)) (ConstraintOrder plan)) \<and>
    map view (GetPendingJobs runID ''validate'' s') =
      map (\<lambda>t. (tbl_Name t, '''')) (filter (\<lambda>t. \<not> tableFullyCompleted cfg plan prev (tbl_Name t)) (DDLOrder plan))"
  using initJobs_result [OF assms, of clock cfg prev] by blast

text \<open>Two tables; the second one has two chunks.\<close>

definition two_tables_plan :: MigrationPlan where
  "two_tables_plan = \<lparr>DDLOrder = [bare_table ''DEPT'' 4, bare_table ''EMP'' 14],
     DataTasks = [plain_task (bare_table ''DEPT'' 4), chunk_task ''EMP'' 0, chunk_task ''EMP'' 1],
     ConstraintOrder = [bare_table ''EMP'' 14, bare_table ''DEPT'' 4], plan_Sequences = [], ChunkableTasks = [],
     PartitionChunkTables = []\<rparr>"

theorem initJobs_pending_witness:
  "\<exists>s'. initJobs (\<lambda>_ _ _. None) (\<lambda>_. ''t0'') sample_config ''r1'' two_tables_plan Map.empty empty_db = (None, s') \<and>
    map view (GetPendingJobs ''r1'' ''data'' s') = [(''DEPT'', ''''), (''EMP'', ''chunk:0''), (''EMP'', ''chunk:1'')]"
proof -
  have plan: "run_jobs ''r1'' empty_db = []" "distinct (map tbl_Name (DDLOrder two_tables_plan))"
    "distinct (map tbl_Name (ConstraintOrder two_tables_plan))"
    "distinct (map (\<lambda>k. (tbl_Name (t_Table k), jobPartitionKey k)) (DataTasks two_tables_plan))"
    by code_simp+
  have keys: "map (\<lambda>k. (tbl_Name (t_Table k), jobPartitionKey k)) (DataTasks two_tables_plan) =
      [(''DEPT'', ''''), (''EMP'', ''chunk:0''), (''EMP'', ''chunk:1'')]"
    by code_simp
  have "filter (\<lambda>k. skip_task sample_config two_tables_plan Map.empty k = None) (DataTasks two_tables_plan) =
      DataTasks two_tables_plan"
    by (simp add: skip_task_def)
  then show ?thesis
    using initJobs_pending [OF store_ok_empty plan reliable_None, of "\<lambda>_. ''t0''" sample_config Map.empty] keys by auto
qed

end
