(* ===== verification/Engine_Ddl.thy ===== *)
theory Engine_Ddl
  imports Engine_Jobs
begin

text \<open>
  \<open>executeDDL\<close> and \<open>executeConstraints\<close> of \<open>internal/migration/engine.go\<close>. A phase takes the job
  store and the history of the PostgreSQL server and returns its error, \<open>None\<close> for \<open>nil\<close>, and both.
  The environment holds what the phases ask the outside world, the answers of SQLite included: a
  statement of the store may fail, and the code returns that error or ignores it. The lemmas follow
  the list of pending jobs through a phase whose store is reliable.
\<close>

record engine_env =
  clock :: "job_db \<Rightarrow> string"
  store_answer :: sqlite
  server :: pg_server
  ora_query :: "string \<Rightarrow> string + int" \<comment> \<open>the result of a \<open>SELECT COUNT(*)\<close>\<close>
  ora_stats :: "string \<Rightarrow> string \<Rightarrow> string + int" \<comment> \<open>\<open>NUM_ROWS\<close> of \<open>ALL_TABLES\<close> for owner and table\<close>

type_synonym world = "job_db \<times> history"

section \<open>\<open>executeDDL\<close>\<close>

text \<open>The calls of the store that the phases share, each with its error.\<close>

definition pending_jobs :: "'z engine_env_scheme \<Rightarrow> string \<Rightarrow> string \<Rightarrow> job_db \<Rightarrow> string + Job list" where
  "pending_jobs env runID ph s =
     query_on (store_answer env ''GetPendingJobs'' 0 s) (Inr (GetPendingJobs runID ph s))"

definition running :: "'z engine_env_scheme \<Rightarrow> int \<Rightarrow> job_db \<Rightarrow> string option \<times> job_db" where
  "running env job s = exec_on (store_answer env ''SetRunning'' job s) (SetRunning (clock env s) job) s"

definition completed :: "'z engine_env_scheme \<Rightarrow> int \<Rightarrow> int \<Rightarrow> int \<Rightarrow> job_db \<Rightarrow> string option \<times> job_db" where
  "completed env job rows bytes s =
     exec_on (store_answer env ''SetCompleted'' job s) (SetCompleted (clock env s) job rows bytes) s"

definition failed :: "'z engine_env_scheme \<Rightarrow> int \<Rightarrow> string \<Rightarrow> job_db \<Rightarrow> string option \<times> job_db" where
  "failed env job msg s = exec_on (store_answer env ''SetFailed'' job s) (SetFailed (clock env s) job msg) s"

lemma reliable_env:
  assumes "reliable (store_answer env)"
  shows "pending_jobs env runID ph s = Inr (GetPendingJobs runID ph s)"
    "running env job s = (None, SetRunning (clock env s) job s)"
    "completed env job rows bytes s = (None, SetCompleted (clock env s) job rows bytes s)"
    "failed env job msg s = (None, SetFailed (clock env s) job msg s)"
  by (simp_all add: pending_jobs_def running_def completed_def failed_def reliable_answer [OF assms])

text \<open>A DDL action fails with the error that is stored and the wrapped one that is returned.\<close>

type_synonym ddl_outcome = "(string \<times> string) option \<times> history"

definition or_fail :: "string \<Rightarrow> outcome \<Rightarrow> (history \<Rightarrow> ddl_outcome) \<Rightarrow> ddl_outcome" where
  "or_fail msg r k = (case r of (Some e, h) \<Rightarrow> (Some (e, msg @ '': '' @ e), h) | (None, h) \<Rightarrow> k h)"

definition create_partitioned :: "pg_server \<Rightarrow> Writer \<Rightarrow> Table \<Rightarrow> bool \<Rightarrow> history \<Rightarrow> ddl_outcome" where
  "create_partitioned srv w t dropIfExists h =
     or_fail (''create table '' @ tbl_Name t) (CreateTable srv w t dropIfExists h) (\<lambda>h.
       if IsPartitioned t then
         or_fail (''create partitions for '' @ tbl_Name t)
           (CreatePartitions srv w t (BuildPartitionBounds t) h) (\<lambda>h. (None, h))
       else (None, h))"

definition ddl_action :: "pg_server \<Rightarrow> Writer \<Rightarrow> TargetMode \<Rightarrow> Table \<Rightarrow> history \<Rightarrow> ddl_outcome" where
  "ddl_action srv w mode t h =
     (let exists = TableExists srv w (tbl_Name t) h
      in if mode = TargetModeAppend then
           (case exists of
              Inl e \<Rightarrow> (Some (e, ''check table '' @ tbl_Name t @ '': '' @ e), h)
            | Inr ex \<Rightarrow> if ex then (None, h) else create_partitioned srv w t False h)
         else if mode = TargetModeTruncate then
           (if exists = Inr True then
              or_fail (''truncate table '' @ tbl_Name t) (TruncateTable srv w (tbl_Name t) h) (\<lambda>h. (None, h))
            else create_partitioned srv w t False h)
         else if mode = TargetModeTruncatePartition then
           (if exists = Inr True then (None, h) else create_partitioned srv w t False h)
         else create_partitioned srv w t True h)"

definition ddl_job :: "engine_env \<Rightarrow> Config \<Rightarrow> Writer \<Rightarrow> MigrationPlan \<Rightarrow> Job \<Rightarrow> world \<Rightarrow> string option \<times> world" where
  "ddl_job env cfg w plan job st =
     (let (s, h) = st
      in case buildTableMap (DDLOrder plan) (TableName job) of
           None \<Rightarrow> (None, st)
         | Some t \<Rightarrow>
             let mode = target_mode cfg (tbl_Name t)
             in if mode = TargetModeSkip then (None, (snd (completed env (ID job) 0 0 s), h))
                else
                  (case running env (ID job) s of
                     (Some e, s1) \<Rightarrow> (Some e, (s1, h))
                   | (None, s1) \<Rightarrow>
                       (case ddl_action (server env) w mode t h of
                          (Some (e, wrapped), h') \<Rightarrow> (Some wrapped, (snd (failed env (ID job) e s1), h'))
                        | (None, h') \<Rightarrow>
                            let (err, s2) = completed env (ID job) 0 0 s1 in (err, (s2, h')))))"

definition executeDDL ::
    "engine_env \<Rightarrow> Config \<Rightarrow> Writer \<Rightarrow> string \<Rightarrow> MigrationPlan \<Rightarrow> world \<Rightarrow> string option \<times> world" where
  "executeDDL env cfg w runID plan st =
     (case pending_jobs env runID ''ddl'' (fst st) of
        Inl e \<Rightarrow> (Some e, st)
      | Inr pending \<Rightarrow> each_until (ddl_job env cfg w plan) pending st)"

section \<open>\<open>executeConstraints\<close>\<close>

definition both_skipped :: "Config \<Rightarrow> string \<Rightarrow> bool" where
  "both_skipped cfg name =
     (let override = override_of (Migration cfg) name
      in SkipConstraints override \<and> ResolveIndexMode override = IndexModeSkip)"

text \<open>Pass 1, primary keys and indexes: errors of PostgreSQL are logged only.\<close>

definition keys_pass :: "engine_env \<Rightarrow> Config \<Rightarrow> Writer \<Rightarrow> MigrationPlan \<Rightarrow> Job \<Rightarrow> world \<Rightarrow> string option \<times> world" where
  "keys_pass env cfg w plan job st =
     (let (s, h) = st
      in case buildTableMap (ConstraintOrder plan) (TableName job) of
           None \<Rightarrow> (None, st)
         | Some t \<Rightarrow>
             let indexMode = ResolveIndexMode (override_of (Migration cfg) (tbl_Name t))
             in if both_skipped cfg (tbl_Name t) then (None, (snd (completed env (ID job) 0 0 s), h))
                else
                  (case running env (ID job) s of
                     (Some e, s1) \<Rightarrow> (Some e, (s1, h))
                   | (None, s1) \<Rightarrow>
                       let h1 = snd (CreatePrimaryKey (server env) w t h)
                       in (None, (s1, snd (CreateIndexesRaw (server env) w t indexMode h1)))))"

text \<open>Pass 2, foreign keys and the other constraints.\<close>

definition constraints_pass ::
    "engine_env \<Rightarrow> Config \<Rightarrow> Writer \<Rightarrow> MigrationPlan \<Rightarrow> Job \<Rightarrow> world \<Rightarrow> string option \<times> world" where
  "constraints_pass env cfg w plan job st =
     (let (s, h) = st;
          finish = (\<lambda>h'. let (err, s') = completed env (ID job) 0 0 s in (err, (s', h')))
      in case buildTableMap (ConstraintOrder plan) (TableName job) of
           None \<Rightarrow> (None, st)
         | Some t \<Rightarrow>
             if both_skipped cfg (tbl_Name t) then (None, st)
             else if \<not> SkipConstraints (override_of (Migration cfg) (tbl_Name t)) then
               (case CreateFKAndOtherConstraints (server env) w t h of
                  (Some e, h') \<Rightarrow> (None, (snd (failed env (ID job) e s), h'))
                | (None, h') \<Rightarrow> finish h')
             else finish h)"

definition executeConstraints ::
    "engine_env \<Rightarrow> Config \<Rightarrow> Writer \<Rightarrow> string \<Rightarrow> MigrationPlan \<Rightarrow> world \<Rightarrow> string option \<times> world" where
  "executeConstraints env cfg w runID plan st =
     (case pending_jobs env runID ''constraints'' (fst st) of
        Inl e \<Rightarrow> (Some e, st)
      | Inr pending \<Rightarrow>
          and_then (each_until (keys_pass env cfg w plan) pending st) (each_until (constraints_pass env cfg w plan) pending))"

section \<open>Pending jobs\<close>

text \<open>The store after an operation on job \<open>i\<close> that takes it off the list of pending jobs.\<close>

definition settles :: "int \<Rightarrow> job_db \<Rightarrow> job_db \<Rightarrow> bool" where
  "settles i s s' \<longleftrightarrow> store_ok s' \<and>
     (\<forall>run ph. GetPendingJobs run ph s' = filter (\<lambda>j. ID j \<noteq> i) (GetPendingJobs run ph s))"

lemma settles_ops:
  assumes "store_ok s"
  shows "settles i s (SetRunning t i s)" "settles i s (SetCompleted t i n b s)" "settles i s (SetFailed t i e s)"
  using assms
  by (simp_all add: settles_def set_running.ends_job set_running.keeps_ok
      set_completed.ends_job set_completed.keeps_ok set_failed.ends_job set_failed.keeps_ok is_pending_def)

lemma settles_trans: "settles i s s1 \<Longrightarrow> settles i s1 s2 \<Longrightarrow> settles i s s2"
  by (simp add: settles_def)

lemma settles_ok: "settles i s s' \<Longrightarrow> store_ok s'"
  by (simp add: settles_def)

lemma settles_twice:
  assumes "store_ok s"
  shows "settles i s (SetCompleted t2 i n b (SetRunning t1 i s))" "settles i s (SetFailed t2 i e (SetRunning t1 i s))"
  by (rule settles_trans [OF settles_ops(1) [OF assms]], rule settles_ops, rule settles_ok,
      rule settles_ops(1) [OF assms])+

text \<open>
  What a phase may do to the store of a run: jobs keep their keys, jobs that were not pending do not
  become pending, and only the jobs in \<open>I\<close> may be newly marked as running.
\<close>

definition grows :: "int set \<Rightarrow> string \<Rightarrow> job_db \<Rightarrow> job_db \<Rightarrow> bool" where
  "grows I run s s' \<longleftrightarrow> store_ok s' \<and> job_key ` set (jobs s') = job_key ` set (jobs s) \<and>
     running_of run s' \<subseteq> running_of run s \<union> I \<and>
     (\<forall>ph. set (GetPendingJobs run ph s') \<subseteq> set (GetPendingJobs run ph s))"

lemma grows_refl: "store_ok s \<Longrightarrow> grows I run s s"
  by (simp add: grows_def)

lemma grows_trans:
  assumes "grows I run s s1" and "grows I run s1 s2"
  shows "grows I run s s2"
proof -
  have "running_of run s1 \<subseteq> running_of run s \<union> I" "running_of run s2 \<subseteq> running_of run s1 \<union> I"
    using assms by (simp_all add: grows_def)
  then have "running_of run s2 \<subseteq> running_of run s \<union> I" by blast
  moreover have "set (GetPendingJobs run ph s2) \<subseteq> set (GetPendingJobs run ph s)" for ph
    using assms by (meson grows_def subset_trans)
  ultimately show ?thesis using assms by (simp add: grows_def)
qed

lemma grows_ok: "grows I run s s' \<Longrightarrow> store_ok s'"
  by (simp add: grows_def)

lemma ended_running:
  "running_of run (SetCompleted t i n b s) = running_of run s - {i}" "running_of run (SetFailed t i e s) = running_of run s - {i}"
  by (rule set_completed.running_less set_failed.running_less; simp)+

lemma ended_pending:
  assumes "store_ok s"
  shows "GetPendingJobs run ph (SetCompleted t i n b s) = filter (\<lambda>j. ID j \<noteq> i) (GetPendingJobs run ph s)"
    "GetPendingJobs run ph (SetFailed t i e s) = filter (\<lambda>j. ID j \<noteq> i) (GetPendingJobs run ph s)"
    "GetPendingJobs run ph (SetRunning t i s) = filter (\<lambda>j. ID j \<noteq> i) (GetPendingJobs run ph s)"
  by (rule set_completed.ends_job [OF assms] set_failed.ends_job [OF assms] set_running.ends_job [OF assms];
      simp add: is_pending_def)+

lemma grows_ended:
  assumes "store_ok s"
  shows "grows I run s (SetCompleted t i n b s)" "grows I run s (SetFailed t i e s)"
  by (auto simp: grows_def ended_running ended_pending [OF assms] set_completed.keeps_ok [OF assms]
      set_failed.keeps_ok [OF assms] set_completed.same_keys set_failed.same_keys)

lemma grows_running:
  assumes "store_ok s" and "i \<in> I"
  shows "grows I run s (SetRunning t i s)"
  using set_running.running_more [of run t i s] assms(2)
  by (auto simp: grows_def ended_pending [OF assms(1)] set_running.keeps_ok [OF assms(1)] set_running.same_keys)

lemma grows_run_ended:
  assumes "store_ok s"
  shows "grows {} run s (SetCompleted t2 i n b (SetRunning t1 i s))" "grows {} run s (SetFailed t2 i e (SetRunning t1 i s))"
proof -
  let ?s = "SetRunning t1 i s"
  have 1: "grows {i} run s ?s" by (rule grows_running [OF assms]) simp
  have "grows {i} run s (SetCompleted t2 i n b ?s)" "grows {i} run s (SetFailed t2 i e ?s)"
    using grows_trans [OF 1] grows_ended [OF grows_ok [OF 1]] by blast+
  then show "grows {} run s (SetCompleted t2 i n b ?s)" "grows {} run s (SetFailed t2 i e ?s)"
    by (auto simp: grows_def ended_running)
qed

text \<open>What the store keeps about a job that ended: its error, or its row count.\<close>

definition ended_as :: "string + int \<Rightarrow> int \<Rightarrow> job_db \<Rightarrow> bool" where
  "ended_as v i s \<longleftrightarrow>
     (\<exists>r \<in> set (jobs s). row_id r = i \<and>
        (case v of Inl msg \<Rightarrow> state r = JobFailed \<and> error_message r = Some msg
                 | Inr n \<Rightarrow> state r = JobCompleted \<and> rows_copied r = n))"

abbreviation verdict_stored :: "string + int \<Rightarrow> Job \<Rightarrow> job_db \<Rightarrow> bool" where
  "verdict_stored v job s \<equiv> ended_as v (ID job) s"

lemma ended_once:
  assumes "store_ok s" and "ended_as v i s" and "ended_as v' i s"
  shows "isl v = isl v'" "v = Inr n \<Longrightarrow> v' = Inr n' \<Longrightarrow> n = n'"
proof -
  obtain r where r: "r \<in> set (jobs s)" "row_id r = i" "case v of
      Inl msg \<Rightarrow> state r = JobFailed \<and> error_message r = Some msg | Inr n \<Rightarrow> state r = JobCompleted \<and> rows_copied r = n"
    using assms(2) unfolding ended_as_def by blast
  obtain q where q: "q \<in> set (jobs s)" "row_id q = i" "case v' of
      Inl msg \<Rightarrow> state q = JobFailed \<and> error_message q = Some msg | Inr n \<Rightarrow> state q = JobCompleted \<and> rows_copied q = n"
    using assms(3) unfolding ended_as_def by blast
  have "q = r" using unique_row [OF assms(1) q(1) r(1)] q(2) r(2) by simp
  then show "isl v = isl v'" "v = Inr n \<Longrightarrow> v' = Inr n' \<Longrightarrow> n = n'" using r(3) q(3) by (auto split: sum.splits)
qed

definition has_row :: "job_db \<Rightarrow> Job \<Rightarrow> bool" where
  "has_row s job \<longleftrightarrow> (\<exists>r \<in> set (jobs s). row_id r = ID job)"

lemma has_row_iff: "has_row s job \<longleftrightarrow> ID job \<in> row_id ` set (jobs s)"
  unfolding has_row_def by (metis image_iff)

lemma has_row_ops [simp]:
  "has_row (SetRunning t i s) job = has_row s job" "has_row (SetCompleted t i n b s) job = has_row s job"
  "has_row (SetFailed t i e s) job = has_row s job"
  by (simp_all add: has_row_iff set_running.same_ids set_completed.same_ids set_failed.same_ids)

lemma stored_at:
  assumes "has_row s job"
  shows "verdict_stored (Inr n) job (SetCompleted t (ID job) n b s)" "verdict_stored (Inl e) job (SetFailed t (ID job) e s)"
proof -
  obtain r where r: "r \<in> set (jobs s)" "row_id r = ID job" using assms by (auto simp: has_row_def)
  show "verdict_stored (Inr n) job (SetCompleted t (ID job) n b s)"
    unfolding ended_as_def by (rule bexI [OF _ set_completed.changed [OF r]]) (simp add: r)
  show "verdict_stored (Inl e) job (SetFailed t (ID job) e s)"
    unfolding ended_as_def by (rule bexI [OF _ set_failed.changed [OF r]]) (simp add: r)
qed

lemma others_stored:
  assumes "i \<noteq> ID job" and "verdict_stored v job s"
  shows "verdict_stored v job (SetRunning t i s)" "verdict_stored v job (SetCompleted t i n b s)"
    "verdict_stored v job (SetFailed t i e s)"
proof -
  obtain r where r: "r \<in> set (jobs s)" "row_id r = ID job" "case v of
      Inl msg \<Rightarrow> state r = JobFailed \<and> error_message r = Some msg | Inr n \<Rightarrow> state r = JobCompleted \<and> rows_copied r = n"
    using assms(2) unfolding ended_as_def by blast
  have other: "row_id r \<noteq> i" using r(2) assms(1) by simp
  show "verdict_stored v job (SetRunning t i s)" "verdict_stored v job (SetCompleted t i n b s)"
    "verdict_stored v job (SetFailed t i e s)"
    unfolding ended_as_def
    using r(2,3) set_running.others [OF r(1) other] set_completed.others [OF r(1) other] set_failed.others [OF r(1) other]
    by blast+
qed

lemma pending_has_row: "store_ok s \<Longrightarrow> job \<in> set (GetPendingJobs run ph s) \<Longrightarrow> has_row s job"
  by (auto simp: pending_rows has_row_def scanJob_def)

text \<open>A job of the DDL phase ends with the verdict of its action, and nothing else changes.\<close>

lemma ddl_job_effect:
  assumes "reliable (store_answer env)" and "buildTableMap (DDLOrder plan) (TableName job) = Some t"
  shows "ddl_job env cfg w plan job (s, h) =
    (if target_mode cfg (tbl_Name t) = TargetModeSkip then (None, (SetCompleted (clock env s) (ID job) 0 0 s, h))
     else
       let s1 = SetRunning (clock env s) (ID job) s
       in case ddl_action (server env) w (target_mode cfg (tbl_Name t)) t h of
            (Some (e, wrapped), h') \<Rightarrow> (Some wrapped, (SetFailed (clock env s1) (ID job) e s1, h'))
          | (None, h') \<Rightarrow> (None, (SetCompleted (clock env s1) (ID job) 0 0 s1, h')))"
  by (simp add: ddl_job_def Let_def assms(2) reliable_env [OF assms(1)] split: prod.split option.split)

lemma ddl_job_settles:
  assumes "store_ok s" and "buildTableMap (DDLOrder plan) (TableName job) \<noteq> None" and "reliable (store_answer env)"
  shows "settles (ID job) s (fst (snd (ddl_job env cfg w plan job (s, h))))"
proof -
  obtain t where t: "buildTableMap (DDLOrder plan) (TableName job) = Some t" using assms(2) by blast
  show ?thesis
    unfolding ddl_job_effect [OF assms(3) t]
    by (auto simp: Let_def intro: settles_ops [OF assms(1)] settles_twice [OF assms(1)] split: option.splits prod.splits)
qed

definition wraps :: "ddl_outcome \<Rightarrow> bool" where
  "wraps r \<longleftrightarrow> (\<forall>e wrapped. fst r = Some (e, wrapped) \<longrightarrow> (\<exists>p. wrapped = p @ '': '' @ e))"

lemma wraps_intros:
  "wraps (None, h)" "wraps (Some (e, p @ q @ '': '' @ e), h)" "(\<And>h. wraps (k h)) \<Longrightarrow> wraps (or_fail msg r k)"
  "wraps r1 \<Longrightarrow> wraps r2 \<Longrightarrow> wraps (if c then r1 else r2)"
  "(\<And>e. wraps (f e)) \<Longrightarrow> (\<And>b. wraps (g b)) \<Longrightarrow> wraps (case x of Inl e \<Rightarrow> f e | Inr b \<Rightarrow> g b)"
  by (auto simp: wraps_def or_fail_def split: prod.splits option.splits sum.splits)

lemma create_partitioned_wraps: "wraps (create_partitioned srv w t d h)"
  unfolding create_partitioned_def by (intro wraps_intros)

lemma ddl_action_wraps: "wraps (ddl_action srv w mode t h)"
  unfolding ddl_action_def Let_def by (intro wraps_intros create_partitioned_wraps)

lemma ddl_action_wrapped: "ddl_action srv w mode t h = (Some (e, wrapped), h') \<Longrightarrow> \<exists>p. wrapped = p @ '': '' @ e"
  using ddl_action_wraps [of srv w mode t h] by (simp only: wraps_def fst_conv option.inject prod.inject)

lemma ddl_job_verdict:
  assumes "reliable (store_answer env)" and "buildTableMap (DDLOrder plan) (TableName job) \<noteq> None" and "has_row s job"
    and "ddl_job env cfg w plan job (s, h) = (err, (s', h'))"
  shows "case err of
      None \<Rightarrow> verdict_stored (Inr 0) job s'
    | Some e \<Rightarrow> \<exists>p msg. e = p @ '': '' @ msg \<and> verdict_stored (Inl msg) job s'"
proof -
  obtain t where t: "buildTableMap (DDLOrder plan) (TableName job) = Some t" using assms(2) by blast
  let ?mode = "target_mode cfg (tbl_Name t)" and ?s1 = "SetRunning (clock env s) (ID job) s"
  have row: "has_row ?s1 job" using assms(3) by simp
  show ?thesis
  proof (cases "?mode = TargetModeSkip")
    case True
    then show ?thesis using assms(4) stored_at(1) [OF assms(3)] unfolding ddl_job_effect [OF assms(1) t] by auto
  next
    case False
    obtain res g where act: "ddl_action (server env) w ?mode t h = (res, g)" by force
    show ?thesis
    proof (cases res)
      case None
      then show ?thesis
        using assms(4) stored_at(1) [OF row] False act unfolding ddl_job_effect [OF assms(1) t] by (auto simp: Let_def)
    next
      case (Some ew)
      obtain e wrapped where ew: "ew = (e, wrapped)" by force
      have "err = Some wrapped" "verdict_stored (Inl e) job s'"
        using assms(4) stored_at(2) [OF row] False act Some ew unfolding ddl_job_effect [OF assms(1) t] by (auto simp: Let_def)
      then show ?thesis using ddl_action_wrapped [of "server env" w ?mode t h e wrapped g] act Some ew by auto
    qed
  qed
qed

lemma ddl_job_others:
  assumes "reliable (store_answer env)" and "buildTableMap (DDLOrder plan) (TableName job) \<noteq> None"
    and "ddl_job env cfg w plan job (s, h) = (err, (s', h'))"
  shows "has_row s' j = has_row s j" "ID j \<noteq> ID job \<Longrightarrow> verdict_stored v j s \<Longrightarrow> verdict_stored v j s'"
proof -
  obtain t where t: "buildTableMap (DDLOrder plan) (TableName job) = Some t" using assms(2) by blast
  show "has_row s' j = has_row s j"
    using assms(3) unfolding ddl_job_effect [OF assms(1) t]
    by (auto simp: Let_def split: if_splits option.splits prod.splits)
  show "verdict_stored v j s'" if "ID j \<noteq> ID job" "verdict_stored v j s"
    using assms(3) that(2) others_stored [where i = "ID job" and job = j] that(1)
    unfolding ddl_job_effect [OF assms(1) t]
    by (auto simp: Let_def split: if_splits option.splits prod.splits)
qed

lemma pending_ids: "store_ok s \<Longrightarrow> distinct (map ID (GetPendingJobs run ph s))"
  using ids_distinct [of s] by (simp add: pending_rows scanJob_def comp_def distinct_map_filter)

text \<open>The loop: the jobs it reached, the verdicts on them, and what it leaves pending.\<close>

lemma ddl_jobs:
  assumes "store_ok s" and "\<forall>j \<in> set js. has_row s j \<and> buildTableMap (DDLOrder plan) (TableName j) \<noteq> None"
    and "distinct (map ID js)" and "each_until (ddl_job env cfg w plan) js (s, h) = (err, (s', h'))"
    and "reliable (store_answer env)"
  shows "\<exists>pre post. js = pre @ post \<and> store_ok s' \<and>
    (\<forall>run ph. GetPendingJobs run ph s' = filter (\<lambda>j. ID j \<notin> ID ` set pre) (GetPendingJobs run ph s)) \<and>
    (\<forall>v i. ID i \<notin> ID ` set pre \<longrightarrow> verdict_stored v i s \<longrightarrow> verdict_stored v i s') \<and>
    (case err of
       None \<Rightarrow> post = [] \<and> (\<forall>j \<in> set pre. verdict_stored (Inr 0) j s')
     | Some e \<Rightarrow> \<exists>before j p msg. pre = before @ [j] \<and> e = p @ '': '' @ msg \<and> verdict_stored (Inl msg) j s' \<and>
         (\<forall>i \<in> set before. verdict_stored (Inr 0) i s'))"
  using assms(1-4)
proof (induction js arbitrary: s h)
  case (Cons j js)
  obtain e1 s1 h1 where 1: "ddl_job env cfg w plan j (s, h) = (e1, (s1, h1))" by (metis prod.exhaust)
  have j: "buildTableMap (DDLOrder plan) (TableName j) \<noteq> None" "has_row s j" using Cons.prems(2) by simp_all
  note verdict = ddl_job_verdict [OF assms(5) j 1] and others = ddl_job_others [OF assms(5) j(1) 1]
  have set1: "settles (ID j) s s1" using ddl_job_settles [OF Cons.prems(1) j(1) assms(5), of cfg w h] 1 by simp
  show ?case
  proof (cases e1)
    case (Some e)
    then have "err = Some e" "s' = s1" using Cons.prems(4) 1 by auto
    then show ?thesis
      using set1 verdict others(2) Some by (intro exI [of _ "[j]"] exI [of _ js]) (auto simp: settles_def)
  next
    case None
    then have rest: "each_until (ddl_job env cfg w plan) js (s1, h1) = (err, (s', h'))" using Cons.prems(4) 1 by simp
    have "\<forall>j \<in> set js. has_row s1 j \<and> buildTableMap (DDLOrder plan) (TableName j) \<noteq> None"
      using Cons.prems(2) others(1) by simp
    from Cons.IH [OF settles_ok [OF set1] this _ rest] Cons.prems(3) obtain pre post where
      IH: "js = pre @ post" "store_ok s'"
        "\<forall>run ph. GetPendingJobs run ph s' = filter (\<lambda>j. ID j \<notin> ID ` set pre) (GetPendingJobs run ph s1)"
        "\<forall>v i. ID i \<notin> ID ` set pre \<longrightarrow> verdict_stored v i s1 \<longrightarrow> verdict_stored v i s'"
        "case err of
           None \<Rightarrow> post = [] \<and> (\<forall>j \<in> set pre. verdict_stored (Inr 0) j s')
         | Some e \<Rightarrow> \<exists>before j p msg. pre = before @ [j] \<and> e = p @ '': '' @ msg \<and> verdict_stored (Inl msg) j s' \<and>
             (\<forall>i \<in> set before. verdict_stored (Inr 0) i s')"
      by auto
    have "ID j \<notin> ID ` set pre" using Cons.prems(3) IH(1) by auto
    then have first: "verdict_stored (Inr 0) j s'" using verdict None IH(4) by simp
    have pend: "GetPendingJobs run ph s' = filter (\<lambda>x. ID x \<notin> ID ` set (j # pre)) (GetPendingJobs run ph s)" for run ph
      using IH(3) set1 by (auto simp: settles_def intro: filter_cong)
    have keeps: "verdict_stored v i s'" if "ID i \<notin> ID ` set (j # pre)" "verdict_stored v i s" for v i
      using that IH(4) others(2) by simp
    have verdicts: "case err of
        None \<Rightarrow> post = [] \<and> (\<forall>i \<in> set (j # pre). verdict_stored (Inr 0) i s')
      | Some e \<Rightarrow> \<exists>before i p msg. j # pre = before @ [i] \<and> e = p @ '': '' @ msg \<and> verdict_stored (Inl msg) i s' \<and>
          (\<forall>k \<in> set before. verdict_stored (Inr 0) k s')"
    proof (cases err)
      case (Some e)
      then obtain before i p msg where "pre = before @ [i]" "e = p @ '': '' @ msg" "verdict_stored (Inl msg) i s'"
        "\<forall>k \<in> set before. verdict_stored (Inr 0) k s'"
        using IH(5) by auto
      then show ?thesis using Some first by (intro option.case_eq_if [THEN iffD2]) auto
    qed (use IH(5) first in simp)
    show ?thesis using IH(1,2) pend keeps verdicts by (intro exI [of _ "j # pre"] exI [of _ post]) simp
  qed
qed simp

lemma ddl_job_grows:
  assumes "store_ok s" and "reliable (store_answer env)"
  shows "grows {} run s (fst (snd (ddl_job env cfg w plan job (s, h))))"
proof (cases "buildTableMap (DDLOrder plan) (TableName job)")
  case None
  then show ?thesis by (simp add: ddl_job_def grows_refl [OF assms(1)])
next
  case (Some t)
  show ?thesis
    unfolding ddl_job_effect [OF assms(2) Some]
    by (auto simp: Let_def intro: grows_ended [OF assms(1)] grows_run_ended [OF assms(1)] split: option.splits prod.splits)
qed

lemma executeDDL_grows:
  assumes rel: "reliable (store_answer env)"
  shows "store_ok (fst st) \<Longrightarrow> grows {} run (fst st) (fst (snd (executeDDL env cfg w runID plan st)))"
proof -
  have loop: "grows {} run s (fst (snd (each_until (ddl_job env cfg w plan) js (s, h))))" if "store_ok s" for js s h
    using that
  proof (induction js arbitrary: s h)
    case Nil
    then show ?case by (simp add: grows_refl)
  next
    case (Cons j js)
    obtain e s1 h1 where 1: "ddl_job env cfg w plan j (s, h) = (e, (s1, h1))" by (metis prod.exhaust)
    have g: "grows {} run s s1" using ddl_job_grows [OF Cons.prems rel, of run cfg w plan j h] 1 by simp
    show ?case
      using 1 g grows_trans [OF g Cons.IH [OF grows_ok [OF g]]] by (cases e) auto
  qed
  show "store_ok (fst st) \<Longrightarrow> grows {} run (fst st) (fst (snd (executeDDL env cfg w runID plan st)))"
    using loop [of "fst st" _ "snd st"] by (simp add: executeDDL_def reliable_env [OF rel])
qed

text \<open>The jobs of the phase, when each has its table.\<close>

lemma executeDDL_jobs:
  assumes "store_ok s" and "reliable (store_answer env)"
    and "\<forall>j \<in> set (GetPendingJobs runID ''ddl'' s). TableName j \<in> tbl_Name ` set (DDLOrder plan)"
    and "executeDDL env cfg w runID plan (s, h) = (err, (s', h'))"
  shows "store_ok s' \<and> (case err of
      None \<Rightarrow> GetPendingJobs runID ''ddl'' s' = [] \<and>
        (\<forall>j \<in> set (GetPendingJobs runID ''ddl'' s). verdict_stored (Inr 0) j s')
    | Some e \<Rightarrow> \<exists>before j prefix msg.
        GetPendingJobs runID ''ddl'' s = before @ j # GetPendingJobs runID ''ddl'' s' \<and>
        (\<forall>i \<in> set before. verdict_stored (Inr 0) i s') \<and>
        verdict_stored (Inl msg) j s' \<and> e = prefix @ '': '' @ msg)"
proof -
  let ?js = "GetPendingJobs runID ''ddl'' s"
  note loop = assms(4) [unfolded executeDDL_def fst_conv reliable_env [OF assms(2)] sum.case]
  have dist: "distinct (map ID ?js)" by (rule pending_ids [OF assms(1)])
  have rows: "\<forall>j \<in> set ?js. has_row s j \<and> buildTableMap (DDLOrder plan) (TableName j) \<noteq> None"
    using assms(3) dom_buildTableMap [of "DDLOrder plan"] pending_has_row [OF assms(1)] by blast
  obtain pre post where res: "?js = pre @ post" "store_ok s'"
    "GetPendingJobs runID ''ddl'' s' = filter (\<lambda>j. ID j \<notin> ID ` set pre) ?js"
    "case err of
       None \<Rightarrow> post = [] \<and> (\<forall>j \<in> set pre. verdict_stored (Inr 0) j s')
     | Some e \<Rightarrow> \<exists>before j p msg. pre = before @ [j] \<and> e = p @ '': '' @ msg \<and> verdict_stored (Inl msg) j s' \<and>
         (\<forall>i \<in> set before. verdict_stored (Inr 0) i s')"
    using ddl_jobs [OF assms(1) rows dist loop assms(2)] by - (elim conjE exE, rule that, simp_all only: simp_thms)
  have "filter (\<lambda>j. ID j \<notin> ID ` set pre) (pre @ post) = post"
    using dist unfolding res(1) by (force intro: filter_True simp: filter_empty_conv)
  then have post: "GetPendingJobs runID ''ddl'' s' = post" using res(1,3) by simp
  show ?thesis
  proof (cases err)
    case None
    then show ?thesis using res post by simp
  next
    case (Some e)
    then show ?thesis using res(1,2,4) post by auto
  qed
qed

lemma executeDDL_settles:
  assumes "store_ok s" and "reliable (store_answer env)"
    and "\<forall>j \<in> set (GetPendingJobs runID ''ddl'' s). TableName j \<in> tbl_Name ` set (DDLOrder plan)"
    and "executeDDL env cfg w runID plan (s, h) = (None, (s', h'))"
  shows "GetPendingJobs runID ''ddl'' s' = []"
  using executeDDL_jobs [OF assms] by simp

text \<open>The statements for a table that is created anew.\<close>

definition partition_stmts :: "Writer \<Rightarrow> Table \<Rightarrow> string list" where
  "partition_stmts w t =
     (if IsPartitioned t then GeneratePartitionDDLWithNaming t (pgSchema w) (BuildPartitionBounds t) (naming w) else [])"

definition drop_stmt :: "Writer \<Rightarrow> Table \<Rightarrow> string" where
  "drop_stmt w t = GenerateDropTableWithNaming (tbl_Name t) (pgSchema w) (naming w)"

definition recreate_stmts :: "Writer \<Rightarrow> Table \<Rightarrow> string list" where
  "recreate_stmts w t = drop_stmt w t # create_table_stmt w t # partition_stmts w t"

lemma CreateTable_ok:
  "fst (CreateTable srv w t True h) = None \<Longrightarrow>
   CreateTable srv w t True h = (None, h @ [drop_stmt w t, create_table_stmt w t])"
  by (auto simp: CreateTable_def wrap_then_def ExecDDL_def Let_def drop_stmt_def split: option.splits)

lemma create_partitioned_ok:
  assumes "fst (create_partitioned srv w t True h) = None"
  shows "create_partitioned srv w t True h = (None, h @ recreate_stmts w t)"
proof -
  have c: "CreateTable srv w t True h = (None, h @ [drop_stmt w t, create_table_stmt w t])"
    using assms by (intro CreateTable_ok) (auto simp: create_partitioned_def or_fail_def split: prod.splits option.splits)
  show ?thesis
  proof (cases "IsPartitioned t")
    case True
    let ?p = "CreatePartitions srv w t (BuildPartitionBounds t) (h @ [drop_stmt w t, create_table_stmt w t])"
    have "fst ?p = None"
      using assms True by (auto simp: create_partitioned_def or_fail_def c split: prod.splits option.splits)
    then have "?p = (None, (h @ [drop_stmt w t, create_table_stmt w t]) @ partition_stmts w t)"
      using exec_each_ok by (auto simp: CreatePartitions_def partition_stmts_def True intro: prod_eqI)
    then show ?thesis by (simp add: create_partitioned_def or_fail_def c True recreate_stmts_def)
  qed (simp add: create_partitioned_def or_fail_def c recreate_stmts_def partition_stmts_def)
qed

lemma ddl_jobs_recreate:
  assumes "each_until (ddl_job env cfg w plan) js (s, h) = (None, (s', h'))"
    and "\<forall>j \<in> set js. \<exists>t. buildTableMap (DDLOrder plan) (TableName j) = Some t \<and> f j = t \<and>
      target_mode cfg (tbl_Name t) = TargetModeRecreate"
  shows "h' = h @ concat (map (\<lambda>j. recreate_stmts w (f j)) js)"
  using assms
proof (induction js arbitrary: s h)
  case (Cons j js)
  obtain e1 s1 h1 where 1: "ddl_job env cfg w plan j (s, h) = (e1, (s1, h1))" by (metis prod.exhaust)
  have none: "e1 = None" using Cons.prems(1) 1 by (cases e1) auto
  have t: "buildTableMap (DDLOrder plan) (TableName j) = Some (f j)" "target_mode cfg (tbl_Name (f j)) = TargetModeRecreate"
    using Cons.prems(2) by auto
  have act: "ddl_action (server env) w TargetModeRecreate (f j) h = create_partitioned (server env) w (f j) True h"
    by (simp add: ddl_action_def Let_def)
  have "fst (create_partitioned (server env) w (f j) True h) = None"
    using 1 none t act by (auto simp: ddl_job_def Let_def split: prod.splits option.splits) (metis fst_conv)
  from create_partitioned_ok [OF this] have "h1 = h @ recreate_stmts w (f j)"
    using 1 none t act by (auto simp: ddl_job_def Let_def split: prod.splits option.splits)
  moreover have "each_until (ddl_job env cfg w plan) js (s1, h1) = (None, (s', h'))"
    using Cons.prems(1) 1 none by simp
  ultimately show ?case using Cons.IH [of s1 h1] Cons.prems(2) by simp
qed simp

section \<open>Properties of \<open>executeDDL\<close>\<close>


definition demo_env :: engine_env where
  "demo_env = \<lparr>clock = \<lambda>_. ''t1'', store_answer = \<lambda>_ _ _. None, server = quiet_server, ora_query = \<lambda>_. Inr 0, ora_stats = \<lambda>_ _. Inr 0\<rparr>"

definition phase_db :: "string \<Rightarrow> job_db" where
  "phase_db ph = \<lparr>runs = [], jobs = [new_row ''t0'' 1 (table_job ''r1'' ph (bare_table ''DEPT'' 4)),
     new_row ''t0'' 2 (table_job ''r1'' ph (bare_table ''EMP'' 14))], next_id = 3\<rparr>"

lemma phase_db_ok: "store_ok (phase_db ''ddl'')" "store_ok (phase_db ''constraints'')" "store_ok (phase_db ''validate'')"
  by code_simp+

lemma phase_db_pending:
  "map TableName (GetPendingJobs ''r1'' ''ddl'' (phase_db ''ddl'')) = [''DEPT'', ''EMP'']"
  "map TableName (GetPendingJobs ''r1'' ''constraints'' (phase_db ''constraints'')) = [''DEPT'', ''EMP'']"
  by code_simp+

lemma two_tables_names: "map tbl_Name (DDLOrder two_tables_plan) = [''DEPT'', ''EMP'']"
  by code_simp

lemma demo_ddl: "fst (executeDDL demo_env sample_config (NewWriter ''public'') ''r1'' two_tables_plan (phase_db ''ddl'', [])) = None"
  by code_simp

lemma demo_reliable: "reliable (store_answer demo_env)"
  by (simp add: demo_env_def reliable_def)

text \<open>A server that refuses everything after the first two statements, which belong to the first table.\<close>

definition failing_env :: engine_env where
  "failing_env = demo_env\<lparr>server := quiet_server\<lparr>pg_exec := \<lambda>h stmt. if length h < 2 then None else Some ''disk full''\<rparr>\<rparr>"

lemma two_tables_known:
  "\<forall>j \<in> set (GetPendingJobs ''r1'' ''ddl'' (phase_db ''ddl'')). TableName j \<in> tbl_Name ` set (DDLOrder two_tables_plan)"
proof -
  have "TableName ` set (GetPendingJobs ''r1'' ''ddl'' (phase_db ''ddl'')) = {''DEPT'', ''EMP''}"
    using phase_db_pending(1) by (metis list.simps(15) set_map empty_set)
  moreover have "tbl_Name ` set (DDLOrder two_tables_plan) = {''DEPT'', ''EMP''}"
    using two_tables_names by (metis list.simps(15) set_map empty_set)
  ultimately show ?thesis by blast
qed


text \<open>
  A DDL phase that succeeds in \<open>recreate\<close> mode has sent exactly this: for every table in the order
  of the plan, referenced tables first, \<open>DROP TABLE\<close>, \<open>CREATE TABLE\<close> and then its partitions, and
  nothing else.
\<close>

theorem executeDDL_recreates:
  assumes "store_ok s" and "distinct (map tbl_Name (DDLOrder plan))"
    and "map TableName (GetPendingJobs runID ''ddl'' s) = map tbl_Name (DDLOrder plan)"
    and "\<forall>t \<in> set (DDLOrder plan). target_mode cfg (tbl_Name t) = TargetModeRecreate"
    and "executeDDL env cfg w runID plan (s, h) = (None, (s', h'))" and "reliable (store_answer env)"
  shows "h' = h @ concat (map (\<lambda>t. drop_stmt w t # create_table_stmt w t # partition_stmts w t) (DDLOrder plan)) \<and>
    GetPendingJobs runID ''ddl'' s' = []"
proof -
  let ?js = "GetPendingJobs runID ''ddl'' s"
  let ?f = "\<lambda>j. the (buildTableMap (DDLOrder plan) (TableName j))"
  have known: "\<forall>j \<in> set ?js. \<exists>t \<in> set (DDLOrder plan). buildTableMap (DDLOrder plan) (TableName j) = Some t"
  proof
    fix j assume "j \<in> set ?js"
    then have "TableName j \<in> tbl_Name ` set (DDLOrder plan)" by (metis assms(3) image_eqI image_set)
    then show "\<exists>t \<in> set (DDLOrder plan). buildTableMap (DDLOrder plan) (TableName j) = Some t"
      using buildTableMap_distinct [OF assms(2)] by fastforce
  qed
  have "map ?f ?js = map (\<lambda>n. the (buildTableMap (DDLOrder plan) n)) (map TableName ?js)" by simp
  also have "\<dots> = DDLOrder plan"
    unfolding assms(3) using buildTableMap_distinct [OF assms(2)] by (simp add: map_idI)
  finally have tables: "map ?f ?js = DDLOrder plan" .
  have "h' = h @ concat (map (\<lambda>j. recreate_stmts w (?f j)) ?js)"
  proof (rule ddl_jobs_recreate [OF assms(5) [unfolded executeDDL_def fst_conv reliable_env [OF assms(6)] sum.case]], rule ballI)
    fix j assume "j \<in> set ?js"
    with known obtain t where "t \<in> set (DDLOrder plan)" "buildTableMap (DDLOrder plan) (TableName j) = Some t" by blast
    then show "\<exists>t. buildTableMap (DDLOrder plan) (TableName j) = Some t \<and> ?f j = t \<and>
        target_mode cfg (tbl_Name t) = TargetModeRecreate"
      using assms(4) by simp
  qed
  also have "map (\<lambda>j. recreate_stmts w (?f j)) ?js = map (recreate_stmts w) (map ?f ?js)" by simp
  also have "\<dots> = map (recreate_stmts w) (DDLOrder plan)" unfolding tables ..
  finally have trace: "h' = h @ concat (map (recreate_stmts w) (DDLOrder plan))" .
  have "\<forall>j \<in> set ?js. TableName j \<in> tbl_Name ` set (DDLOrder plan)" by (metis assms(3) image_eqI image_set)
  then have "GetPendingJobs runID ''ddl'' s' = []" by (rule executeDDL_settles [OF assms(1,6) _ assms(5)])
  then show ?thesis using trace by (simp add: recreate_stmts_def [abs_def])
qed

theorem executeDDL_recreates_witness:
  "\<exists>s' h'. executeDDL demo_env sample_config (NewWriter ''public'') ''r1'' two_tables_plan (phase_db ''ddl'', []) = (None, (s', h')) \<and>
    h' = concat (map (\<lambda>t. drop_stmt (NewWriter ''public'') t # create_table_stmt (NewWriter ''public'') t #
      partition_stmts (NewWriter ''public'') t) (DDLOrder two_tables_plan))"
proof -
  obtain s' h' where r: "executeDDL demo_env sample_config (NewWriter ''public'') ''r1'' two_tables_plan
      (phase_db ''ddl'', []) = (None, (s', h'))"
    using demo_ddl by (metis prod.collapse)
  have mode: "target_mode sample_config n = TargetModeRecreate" for n
    by (simp add: target_mode_def override_of_def sample_config_def ResolveTargetMode_def zeroOverride_def map_get_def)
  have "distinct (map tbl_Name (DDLOrder two_tables_plan))" by (simp add: two_tables_names)
  from executeDDL_recreates [OF phase_db_ok(1) this _ _ r demo_reliable] r mode show ?thesis
    by (simp add: phase_db_pending two_tables_names)
qed

section \<open>Properties of \<open>executeConstraints\<close>\<close>

definition pk_stmt :: "Writer \<Rightarrow> Table \<Rightarrow> string" where
  "pk_stmt w t = GeneratePrimaryKeyWithNaming t (pgSchema w) (naming w)"

definition fk_stmts :: "Writer \<Rightarrow> Table \<Rightarrow> string list" where
  "fk_stmts w t = GenerateConstraintsWithNaming t (pgSchema w) (naming w)"

definition key_stmts :: "Writer \<Rightarrow> Table \<Rightarrow> string set" where
  "key_stmts w t = {pk_stmt w t} \<union> set (index_stmts w t) \<union> concurrently ` set (index_stmts w t)"

text \<open>A loop that only adds statements adds one block per element.\<close>

lemma foldl_trace:
  assumes "\<And>st x. x \<in> set xs \<Longrightarrow> \<exists>k. snd (f st x) = snd st @ k \<and> P x k"
  shows "\<exists>ks. snd (foldl f st xs) = snd st @ concat ks \<and> list_all2 P xs ks"
  using assms
proof (induction xs arbitrary: st)
  case (Cons x xs)
  obtain k where k: "snd (f st x) = snd st @ k" "P x k" using Cons.prems [of x st] by auto
  obtain ks where "snd (foldl f (f st x) xs) = snd (f st x) @ concat ks" "list_all2 P xs ks"
    using Cons.IH [of "f st x"] Cons.prems by auto
  then show ?case using k by (intro exI [of _ "k # ks"]) simp
qed simp

definition keys_block :: "Config \<Rightarrow> Writer \<Rightarrow> MigrationPlan \<Rightarrow> Job \<Rightarrow> string list \<Rightarrow> bool" where
  "keys_block cfg w plan job k \<longleftrightarrow>
     (case buildTableMap (ConstraintOrder plan) (TableName job) of
        None \<Rightarrow> k = []
      | Some t \<Rightarrow> set k \<subseteq> key_stmts w t \<and>
          (\<not> both_skipped cfg (tbl_Name t) \<and> pk_stmt w t \<noteq> '''' \<longrightarrow> pk_stmt w t \<in> set k))"

definition constraints_block :: "Writer \<Rightarrow> MigrationPlan \<Rightarrow> Job \<Rightarrow> string list \<Rightarrow> bool" where
  "constraints_block w plan job k \<longleftrightarrow>
     (case buildTableMap (ConstraintOrder plan) (TableName job) of
        None \<Rightarrow> k = [] | Some t \<Rightarrow> set k \<subseteq> set (fk_stmts w t))"

lemma CreatePrimaryKey_history:
  "snd (CreatePrimaryKey srv w t h) = h @ (if pk_stmt w t = '''' then [] else [pk_stmt w t])"
  by (simp add: CreatePrimaryKey_def pk_stmt_def Let_def ExecDDL_def split: option.splits)

lemma CreateIndexesRaw_history:
  "\<exists>k. snd (CreateIndexesRaw srv w t mode h) = h @ k \<and> set k \<subseteq> set (index_stmts w t) \<union> concurrently ` set (index_stmts w t)"
proof -
  have "\<exists>k. snd (exec_each srv already_exists m ds h) = h @ k \<and> set k \<subseteq> set ds" for m ds
    using exec_each_history [of ds srv already_exists m h] by (meson set_take_subset)
  from this [of _ "index_stmts w t"] this [of _ "map concurrently (index_stmts w t)"] show ?thesis
    by (fastforce simp: CreateIndexesRaw_def Let_def)
qed

text \<open>The world after one job of a pass, and after a pass that no error of the store ends.\<close>

abbreviation keys_step :: "engine_env \<Rightarrow> Config \<Rightarrow> Writer \<Rightarrow> MigrationPlan \<Rightarrow> world \<Rightarrow> Job \<Rightarrow> world" where
  "keys_step env cfg w plan st job \<equiv> snd (keys_pass env cfg w plan job st)"

abbreviation constraints_step :: "engine_env \<Rightarrow> Config \<Rightarrow> Writer \<Rightarrow> MigrationPlan \<Rightarrow> world \<Rightarrow> Job \<Rightarrow> world" where
  "constraints_step env cfg w plan st job \<equiv> snd (constraints_pass env cfg w plan job st)"

lemma each_until_foldl:
  "(\<And>x s. x \<in> set xs \<Longrightarrow> fst (f x s) = None) \<Longrightarrow> each_until f xs s = (None, foldl (\<lambda>s x. snd (f x s)) s xs)"
proof (induction xs arbitrary: s)
  case (Cons x xs)
  obtain s' where "f x s = (None, s')" using Cons.prems [of x s] by (metis list.set_intros(1) prod.collapse)
  then show ?case using Cons by simp
qed simp

lemma passes_go_on:
  assumes "reliable (store_answer env)"
  shows "fst (keys_pass env cfg w plan job st) = None" "fst (constraints_pass env cfg w plan job st) = None"
  by (simp_all add: keys_pass_def constraints_pass_def case_prod_beta Let_def reliable_env [OF assms]
      split: option.split)

lemma executeConstraints_loops:
  assumes "reliable (store_answer env)"
  shows "executeConstraints env cfg w runID plan st =
    (let js = GetPendingJobs runID ''constraints'' (fst st)
     in (None, foldl (constraints_step env cfg w plan) (foldl (keys_step env cfg w plan) st js) js))"
  using each_until_foldl [where f = "keys_pass env cfg w plan"] each_until_foldl [where f = "constraints_pass env cfg w plan"]
  by (simp add: executeConstraints_def reliable_env [OF assms] passes_go_on [OF assms] Let_def)

lemma keys_pass_block:
  assumes "reliable (store_answer env)"
  shows "\<exists>k. snd (keys_step env cfg w plan st job) = snd st @ k \<and> keys_block cfg w plan job k"
proof (cases "buildTableMap (ConstraintOrder plan) (TableName job)")
  case None
  then show ?thesis by (simp add: keys_pass_def keys_block_def case_prod_beta)
next
  case (Some t)
  let ?mode = "ResolveIndexMode (override_of (Migration cfg) (tbl_Name t))"
  let ?h = "snd (CreatePrimaryKey (server env) w t (snd st))"
  show ?thesis
  proof (cases "both_skipped cfg (tbl_Name t)")
    case True
    then show ?thesis by (simp add: keys_pass_def keys_block_def case_prod_beta Some)
  next
    case False
    obtain k where "snd (CreateIndexesRaw (server env) w t ?mode ?h) = ?h @ k"
      "set k \<subseteq> set (index_stmts w t) \<union> concurrently ` set (index_stmts w t)"
      using CreateIndexesRaw_history by blast
    then show ?thesis
      using False
      by (intro exI [of _ "(if pk_stmt w t = '''' then [] else [pk_stmt w t]) @ k"])
        (auto simp: keys_pass_def keys_block_def case_prod_beta Some Let_def CreatePrimaryKey_history key_stmts_def
          reliable_env [OF assms])
  qed
qed

lemma constraints_pass_block:
  "\<exists>k. snd (constraints_step env cfg w plan st job) = snd st @ k \<and> constraints_block w plan job k"
proof (cases "buildTableMap (ConstraintOrder plan) (TableName job)")
  case (Some t)
  obtain n where n: "snd (CreateFKAndOtherConstraints (server env) w t (snd st)) = snd st @ take n (fk_stmts w t)"
    using exec_each_history unfolding CreateFKAndOtherConstraints_def fk_stmts_def by blast
  have "set (take n (fk_stmts w t)) \<subseteq> set (fk_stmts w t)" by (rule set_take_subset)
  then show ?thesis
    using n Some
    by (cases "both_skipped cfg (tbl_Name t) \<or> SkipConstraints (override_of (Migration cfg) (tbl_Name t))")
      (auto simp: constraints_pass_def constraints_block_def case_prod_beta Let_def split: prod.split option.split
        intro: exI [of _ "take n (fk_stmts w t)"])
qed (simp add: constraints_pass_def constraints_block_def case_prod_beta)

text \<open>
  The contract of a pass over the pending jobs: each job adds a block of statements and settles at
  most itself. Both passes satisfy it.
\<close>

locale job_pass =
  fixes rel :: bool \<comment> \<open>the store executes every statement\<close>
    and pass :: "world \<Rightarrow> Job \<Rightarrow> world"
    and block :: "Job \<Rightarrow> string list \<Rightarrow> bool"
  assumes adds: "rel \<Longrightarrow> \<exists>k. snd (pass st job) = snd st @ k \<and> block job k"
    and effect: "rel \<Longrightarrow> store_ok (fst st) \<Longrightarrow>
      fst (pass st job) = fst st \<or> settles (ID job) (fst st) (fst (pass st job))"
begin

lemma trace: "rel \<Longrightarrow> \<exists>ks. snd (foldl pass st js) = snd st @ concat ks \<and> list_all2 block js ks"
  by (rule foldl_trace) (rule adds)

lemma one_ok: "rel \<Longrightarrow> store_ok (fst st) \<Longrightarrow> store_ok (fst (pass st job))"
  using effect [of st job] by (auto simp: settles_def)

lemma one_shrinks:
  "rel \<Longrightarrow> store_ok (fst st) \<Longrightarrow>
    set (GetPendingJobs run ph (fst (pass st job))) \<subseteq> set (GetPendingJobs run ph (fst st))"
  using effect [of st job] by (auto simp: settles_def)

lemma run_shrinks:
  assumes "rel" and "store_ok (fst st)"
  shows "store_ok (fst (foldl pass st js)) \<and>
    set (GetPendingJobs run ph (fst (foldl pass st js))) \<subseteq> set (GetPendingJobs run ph (fst st))"
  by (rule foldl_invariant) (use assms one_ok one_shrinks in blast)+

lemma run_settles:
  assumes "rel" and "store_ok (fst st)"
    and "\<And>st job. job \<in> set js \<Longrightarrow> store_ok (fst st) \<Longrightarrow> settles (ID job) (fst st) (fst (pass st job))"
    and "job \<in> set js"
  shows "\<forall>j \<in> set (GetPendingJobs run ph (fst (foldl pass st js))). ID j \<noteq> ID job"
proof (rule foldl_each [where P = "\<lambda>st. store_ok (fst st)" and
      Q = "\<lambda>job st. \<forall>j \<in> set (GetPendingJobs run ph (fst st)). ID j \<noteq> ID job"])
  show "store_ok (fst st)" "job \<in> set js" by fact+
  fix st :: world and x y
  assume x: "x \<in> set js" and ok: "store_ok (fst st)"
  show "store_ok (fst (pass st x)) \<and> (\<forall>j \<in> set (GetPendingJobs run ph (fst (pass st x))). ID j \<noteq> ID x)"
    using assms(3) [OF x ok] by (auto simp: settles_def)
  assume "\<forall>j \<in> set (GetPendingJobs run ph (fst st)). ID j \<noteq> ID y"
  then show "\<forall>j \<in> set (GetPendingJobs run ph (fst (pass st x))). ID j \<noteq> ID y"
    using one_shrinks [OF assms(1) ok] by blast
qed

end

lemma keys_pass_effect:
  assumes "store_ok (fst st)" and "reliable (store_answer env)"
  shows "if buildTableMap (ConstraintOrder plan) (TableName job) = None then fst (keys_step env cfg w plan st job) = fst st
    else settles (ID job) (fst st) (fst (keys_step env cfg w plan st job))"
  using settles_ops [OF assms(1)] by (auto simp: keys_pass_def case_prod_beta Let_def reliable_env [OF assms(2)])

interpretation keys: job_pass "reliable (store_answer env)" "keys_step env cfg w plan" "keys_block cfg w plan" for env cfg w plan
proof
  show "\<exists>k. snd (keys_step env cfg w plan st job) = snd st @ k \<and> keys_block cfg w plan job k"
    if "reliable (store_answer env)" for st job
    by (rule keys_pass_block [OF that])
  show "fst (keys_step env cfg w plan st job) = fst st \<or> settles (ID job) (fst st) (fst (keys_step env cfg w plan st job))"
    if "reliable (store_answer env)" "store_ok (fst st)" for st job
    using keys_pass_effect [OF that(2,1), of plan job cfg w] by (metis (full_types))
qed

interpretation constraints: job_pass "reliable (store_answer env)" "constraints_step env cfg w plan" "constraints_block w plan" for env cfg w plan
proof
  show "\<exists>k. snd (constraints_step env cfg w plan st job) = snd st @ k \<and> constraints_block w plan job k" for st job
    by (rule constraints_pass_block)
  show "fst (constraints_step env cfg w plan st job) = fst st \<or>
      settles (ID job) (fst st) (fst (constraints_step env cfg w plan st job))"
    if "reliable (store_answer env)" "store_ok (fst st)" for st job
    using settles_ops [OF that(2)]
    by (auto simp: constraints_pass_def case_prod_beta Let_def reliable_env [OF that(1)] split: option.splits prod.splits)
qed

lemma list_all2_concat:
  "list_all2 P xs ks \<Longrightarrow> x \<in> set xs \<Longrightarrow> \<exists>k. P x k \<and> set k \<subseteq> set (concat ks)"
  by (induction rule: list_all2_induct) auto

lemma concat_list_all2: "list_all2 P xs ks \<Longrightarrow> s \<in> set (concat ks) \<Longrightarrow> \<exists>x \<in> set xs. \<exists>k. P x k \<and> s \<in> set k"
  by (induction rule: list_all2_induct) auto

text \<open>Both passes together: the jobs that pass 1 marks as running are settled by pass 2.\<close>

lemma keys_pass_grows:
  assumes "store_ok (fst st)" and "reliable (store_answer env)"
  shows "grows {i. i = ID job \<and> (\<exists>t. buildTableMap (ConstraintOrder plan) (TableName job) = Some t \<and> \<not> both_skipped cfg (tbl_Name t))}
    run (fst st) (fst (keys_step env cfg w plan st job))"
  using assms(1)
  by (auto simp: keys_pass_def case_prod_beta Let_def reliable_env [OF assms(2)]
      intro!: grows_refl grows_ended grows_running split: option.split)

lemma constraints_pass_running:
  assumes "reliable (store_answer env)"
  shows "running_of run (fst (constraints_step env cfg w plan st job)) \<subseteq> running_of run (fst st) \<and>
    ((\<exists>t. buildTableMap (ConstraintOrder plan) (TableName job) = Some t \<and> \<not> both_skipped cfg (tbl_Name t)) \<longrightarrow>
      ID job \<notin> running_of run (fst (constraints_step env cfg w plan st job)))"
  by (auto simp: constraints_pass_def case_prod_beta Let_def reliable_env [OF assms] ended_running
      split: option.splits prod.splits)

lemma constraints_pass_grows:
  assumes "store_ok (fst st)" and "reliable (store_answer env)"
  shows "grows {} run (fst st) (fst (constraints_step env cfg w plan st job))"
  using assms(1)
  by (auto simp: constraints_pass_def case_prod_beta Let_def reliable_env [OF assms(2)]
      intro!: grows_refl grows_ended split: option.splits prod.splits)

lemma executeConstraints_grows:
  assumes "store_ok (fst st)" and rel: "reliable (store_answer env)"
  shows "grows {} run (fst st) (fst (snd (executeConstraints env cfg w runID plan st)))"
proof -
  let ?js = "GetPendingJobs runID ''constraints'' (fst st)"
  let ?act = "\<lambda>job. \<exists>t. buildTableMap (ConstraintOrder plan) (TableName job) = Some t \<and> \<not> both_skipped cfg (tbl_Name t)"
  let ?I = "{ID job | job. job \<in> set ?js \<and> ?act job}"
  let ?mid = "foldl (keys_step env cfg w plan) st ?js"
  let ?last = "foldl (constraints_step env cfg w plan) ?mid ?js"
  have mid: "grows ?I run (fst st) (fst ?mid)"
  proof (rule foldl_invariant [where P = "\<lambda>q. grows ?I run (fst st) (fst q)"])
    show "grows ?I run (fst st) (fst st)" by (rule grows_refl [OF assms(1)])
    fix q :: world and job assume job: "job \<in> set ?js" and g: "grows ?I run (fst st) (fst q)"
    have "grows ?I run (fst q) (fst (keys_step env cfg w plan q job))"
      using keys_pass_grows [OF grows_ok [OF g] rel, of job plan cfg run w] job unfolding grows_def by blast
    then show "grows ?I run (fst st) (fst (keys_step env cfg w plan q job))" by (rule grows_trans [OF g])
  qed
  have fin: "grows {} run (fst ?mid) (fst ?last)"
  proof (rule foldl_invariant [where P = "\<lambda>q. grows {} run (fst ?mid) (fst q)"])
    show "grows {} run (fst ?mid) (fst ?mid)" by (rule grows_refl [OF grows_ok [OF mid]])
    fix q :: world and job assume g: "grows {} run (fst ?mid) (fst q)"
    show "grows {} run (fst ?mid) (fst (constraints_step env cfg w plan q job))"
      by (rule grows_trans [OF g constraints_pass_grows [OF grows_ok [OF g] rel]])
  qed
  have stopped: "?act job \<longrightarrow> ID job \<notin> running_of run (fst ?last)" if "job \<in> set ?js" for job
  proof (rule foldl_each [where P = "\<lambda>q. store_ok (fst q)" and Q = "\<lambda>job q. ?act job \<longrightarrow> ID job \<notin> running_of run (fst q)"])
    show "store_ok (fst ?mid)" by (rule grows_ok [OF mid])
    show "job \<in> set ?js" by fact
    fix q :: world and x y assume ok: "store_ok (fst q)"
    show "store_ok (fst (constraints_step env cfg w plan q x)) \<and>
        (?act x \<longrightarrow> ID x \<notin> running_of run (fst (constraints_step env cfg w plan q x)))"
      using constraints_pass_running [OF rel, of run cfg w plan x q] constraints.one_ok [OF rel ok, of cfg w plan x] by blast
    assume "?act y \<longrightarrow> ID y \<notin> running_of run (fst q)"
    then show "?act y \<longrightarrow> ID y \<notin> running_of run (fst (constraints_step env cfg w plan q x))"
      using constraints_pass_running [OF rel, of run cfg w plan x q] by blast
  qed
  have "snd (executeConstraints env cfg w runID plan st) = ?last" by (simp add: executeConstraints_loops [OF rel] Let_def)
  moreover have "running_of run (fst ?last) \<subseteq> running_of run (fst st)"
  proof
    fix x assume x: "x \<in> running_of run (fst ?last)"
    have "running_of run (fst ?mid) \<subseteq> running_of run (fst st) \<union> ?I" using mid by (simp only: grows_def simp_thms)
    moreover have "running_of run (fst ?last) \<subseteq> running_of run (fst ?mid)" using fin by (simp add: grows_def)
    ultimately have "x \<in> running_of run (fst st) \<union> ?I" using x by (rule_tac subsetD [OF subset_trans])
    then show "x \<in> running_of run (fst st)"
    proof
      assume "x \<in> ?I"
      then obtain job where "job \<in> set ?js" "?act job" "x = ID job" by blast
      with stopped [of job] x show ?thesis by simp
    qed
  qed
  moreover have "set (GetPendingJobs run ph (fst ?last)) \<subseteq> set (GetPendingJobs run ph (fst st))" for ph
    using mid fin by (meson grows_def subset_trans)
  ultimately show ?thesis using mid fin by (simp add: grows_def)
qed

lemma executeConstraints_settles:
  assumes "store_ok (fst st)" and rel: "reliable (store_answer env)"
    and "\<forall>j \<in> set (GetPendingJobs runID ''constraints'' (fst st)). TableName j \<in> tbl_Name ` set (ConstraintOrder plan)"
  shows "GetPendingJobs runID ''constraints'' (fst (snd (executeConstraints env cfg w runID plan st))) = []"
proof -
  let ?js = "GetPendingJobs runID ''constraints'' (fst st)"
  let ?mid = "foldl (keys_step env cfg w plan) st ?js"
  have known: "\<forall>j \<in> set ?js. buildTableMap (ConstraintOrder plan) (TableName j) \<noteq> None"
    using assms(3) dom_buildTableMap [of "ConstraintOrder plan"] by blast
  have settle: "settles (ID job) (fst q) (fst (keys_step env cfg w plan q job))"
    if "job \<in> set ?js" "store_ok (fst q)" for q job
    using keys_pass_effect [OF that(2) rel, of plan job cfg w] that(1) known by fastforce
  have mid: "store_ok (fst ?mid)" "set (GetPendingJobs runID ''constraints'' (fst ?mid)) \<subseteq> set ?js"
    using keys.run_shrinks [OF rel assms(1)] by auto
  have "set (GetPendingJobs runID ''constraints'' (fst ?mid)) = {}"
  proof (rule equals0I)
    fix j assume j: "j \<in> set (GetPendingJobs runID ''constraints'' (fst ?mid))"
    with mid(2) have "j \<in> set ?js" by (rule subsetD)
    from bspec [OF keys.run_settles [OF rel assms(1) settle this, of runID "''constraints''"] j] show False by simp
  qed
  then show ?thesis
    using constraints.run_shrinks [OF rel mid(1), of cfg w plan ?js runID "''constraints''"]
    by (simp add: executeConstraints_loops [OF rel] Let_def)
qed



end
