(* ===== verification/Engine_Validate.thy ===== *)
theory Engine_Validate
  imports Engine_Ddl
begin

text \<open>
  \<open>executeValidation\<close> of \<open>internal/migration/engine.go\<close>: one job per table that compares the row
  count of Oracle with that of PostgreSQL, exactly for tables of up to \<open>estimateThreshold\<close> copied rows
  and by the statistics of both servers, within one per cent, above it.
\<close>

section \<open>Counting\<close>

definition estimateThreshold :: int where "estimateThreshold = 500000"

text \<open>The loop over \<open>plan.DataTasks\<close> for a table with a partition filter.\<close>

fun count_tasks :: "(string \<Rightarrow> string + int) \<Rightarrow> string \<Rightarrow> string \<Rightarrow> string \<Rightarrow> TableTask list \<Rightarrow> int \<Rightarrow> string + int" where
  "count_tasks q owner name where' [] acc = Inr acc"
| "count_tasks q owner name where' (task # tasks) acc =
     (if tbl_Name (t_Table task) \<noteq> name then count_tasks q owner name where' tasks acc
      else case q (countQuery owner name (t_Partition task) where') of
             Inl e \<Rightarrow> Inl (''oracle partition count: '' @ e)
           | Inr n \<Rightarrow> count_tasks q owner name where' tasks (i64 (acc + n)))"

text \<open>The Oracle count, and whether it is an estimate.\<close>

definition oracle_count ::
    "engine_env \<Rightarrow> MigrationPlan \<Rightarrow> Job \<Rightarrow> TableOverride \<Rightarrow> int \<Rightarrow> string + int \<times> bool" where
  "oracle_count env plan job override copied =
     (let hasPartitionFilter = (PartitionFilter override \<noteq> [] \<or> o_PartitionRange override \<noteq> None);
          exact = (if hasPartitionFilter then
              count_tasks (ora_query env) (TableSchema job) (TableName job) (o_Where override) (DataTasks plan) 0
            else (case ora_query env (countQuery (TableSchema job) (TableName job) None (o_Where override)) of
                Inl e \<Rightarrow> Inl (''oracle count: '' @ e) | Inr n \<Rightarrow> Inr n));
          with_exact = (case exact of Inl e \<Rightarrow> Inl e | Inr n \<Rightarrow> Inr (n, False))
      in if copied > estimateThreshold \<and> \<not> hasPartitionFilter \<and> o_Where override = '''' then
           (case ora_stats env (TableSchema job) (TableName job) of
              Inr est \<Rightarrow> if est > 0 then Inr (est, True) else with_exact
            | Inl _ \<Rightarrow> with_exact)
         else with_exact)"

definition postgres_count :: "engine_env \<Rightarrow> Writer \<Rightarrow> string \<Rightarrow> int \<Rightarrow> history \<Rightarrow> string + int" where
  "postgres_count env w name copied h =
     (let exact = (case w_Count (server env) w name h of Inl e \<Rightarrow> Inl (''pg count: '' @ e) | Inr n \<Rightarrow> Inr n)
      in if copied > estimateThreshold then
           (case w_EstimateCount (server env) w name h of
              Inr est \<Rightarrow> if est > 0 then Inr est else exact
            | Inl _ \<Rightarrow> exact)
         else exact)"

text \<open>The verdict on one table: the row count to store, or the message of the failure.\<close>

definition check_counts :: "bool \<Rightarrow> int \<Rightarrow> int \<Rightarrow> string + int" where
  "check_counts estimated oraCount pgCount =
     (let tolerance = (if estimated then go_div (max oraCount pgCount) 100 else 0);
          diff0 = i64 (oraCount - pgCount);
          diff = (if diff0 < 0 then i64 (- diff0) else diff0)
      in if diff > tolerance then
           Inl (''row count mismatch ('' @ (if estimated then ''estimated (~1% tolerance)'' else ''exact'') @
             ''): oracle='' @ itoa oraCount @ '' pg='' @ itoa pgCount @ '' diff='' @ itoa diff)
         else Inr oraCount)"

definition validate_table ::
    "engine_env \<Rightarrow> Writer \<Rightarrow> MigrationPlan \<Rightarrow> Job \<Rightarrow> TableOverride \<Rightarrow> int \<Rightarrow> history \<Rightarrow> string + int" where
  "validate_table env w plan job override copied h =
     (case oracle_count env plan job override copied of
        Inl e \<Rightarrow> Inl e
      | Inr (oraCount, useEstimate) \<Rightarrow>
          (case postgres_count env w (TableName job) copied h of
             Inl e \<Rightarrow> Inl e
           | Inr pgCount \<Rightarrow> check_counts (useEstimate \<or> copied > estimateThreshold) oraCount pgCount))"

section \<open>The phase\<close>

definition copiedRows :: "Job list \<Rightarrow> string \<Rightarrow> int" where
  "copiedRows dataJobs name =
     foldl (\<lambda>n dj. if State dj = JobCompleted \<and> TableName dj = name then i64 (n + RowsCopied dj) else n) 0 dataJobs"

definition validate_job ::
    "engine_env \<Rightarrow> Config \<Rightarrow> Writer \<Rightarrow> MigrationPlan \<Rightarrow> (string \<Rightarrow> int) \<Rightarrow> Job \<Rightarrow> world \<Rightarrow> string option \<times> world" where
  "validate_job env cfg w plan copied job st =
     (let (s, h) = st; override = override_of (Migration cfg) (TableName job)
      in if SkipValidation override then (None, (snd (completed env (ID job) 0 0 s), h))
         else
           (case running env (ID job) s of
              (Some e, s1) \<Rightarrow> (Some e, (s1, h))
            | (None, s1) \<Rightarrow>
                (case validate_table env w plan job override (copied (TableName job)) h of
                   Inl msg \<Rightarrow> (None, (snd (failed env (ID job) msg s1), h))
                 | Inr rows \<Rightarrow> let (err, s2) = completed env (ID job) rows 0 s1 in (err, (s2, h)))))"

definition analyze_stmt :: "Writer \<Rightarrow> Job \<Rightarrow> string" where
  "analyze_stmt w job = ''ANALYZE '' @ w_table w (TableName job)"

text \<open>
  \<open>ANALYZE\<close> errors are logged; the data jobs are read once, before the first verdict, and count as
  none when they cannot be read.
\<close>

definition executeValidation ::
    "engine_env \<Rightarrow> Config \<Rightarrow> Writer \<Rightarrow> string \<Rightarrow> MigrationPlan \<Rightarrow> world \<Rightarrow> string option \<times> world" where
  "executeValidation env cfg w runID plan st =
     (let (s, h) = st
      in case pending_jobs env runID ''validate'' s of
           Inl e \<Rightarrow> (Some e, st)
         | Inr pending \<Rightarrow>
             let h1 = foldl (\<lambda>h job. snd (ExecDDL (server env) (analyze_stmt w job) h)) h pending;
                 dataJobs = (case query_on (store_answer env ''GetJobsByPhase'' 0 s) (Inr (GetJobsByPhase runID ''data'' s)) of
                               Inl e \<Rightarrow> [] | Inr js \<Rightarrow> js)
             in each_until (validate_job env cfg w plan (copiedRows dataJobs)) pending (s, h1))"

section \<open>Lemmas\<close>

abbreviation validate_step ::
    "engine_env \<Rightarrow> Config \<Rightarrow> Writer \<Rightarrow> MigrationPlan \<Rightarrow> (string \<Rightarrow> int) \<Rightarrow> world \<Rightarrow> Job \<Rightarrow> world" where
  "validate_step env cfg w plan copied st job \<equiv> snd (validate_job env cfg w plan copied job st)"

lemma validate_job_effect:
  assumes "reliable (store_answer env)"
  shows "validate_job env cfg w plan copied job (s, h) =
    (None, (if SkipValidation (override_of (Migration cfg) (TableName job)) then SetCompleted (clock env s) (ID job) 0 0 s
      else let s1 = SetRunning (clock env s) (ID job) s
        in case validate_table env w plan job (override_of (Migration cfg) (TableName job)) (copied (TableName job)) h of
             Inl msg \<Rightarrow> SetFailed (clock env s1) (ID job) msg s1
           | Inr rows \<Rightarrow> SetCompleted (clock env s1) (ID job) rows 0 s1), h)"
  by (simp add: validate_job_def Let_def reliable_env [OF assms] split: sum.split)

lemma executeValidation_loop:
  assumes "reliable (store_answer env)"
  shows "executeValidation env cfg w runID plan (s, h) =
    (let js = GetPendingJobs runID ''validate'' s; h1 = foldl (\<lambda>h job. snd (ExecDDL (server env) (analyze_stmt w job) h)) h js
     in (None, foldl (validate_step env cfg w plan (copiedRows (GetJobsByPhase runID ''data'' s))) (s, h1) js))"
proof -
  have "fst (validate_job env cfg w plan copied job st) = None" for copied job st
    by (cases st) (simp add: validate_job_effect [OF assms])
  then show ?thesis
    using each_until_foldl [where f = "validate_job env cfg w plan (copiedRows (GetJobsByPhase runID ''data'' s))"]
    by (simp add: executeValidation_def reliable_env [OF assms] reliable_answer [OF assms] Let_def)
qed

lemma validate_job_settles:
  assumes "reliable (store_answer env)" and "store_ok (fst st)"
  shows "settles (ID job) (fst st) (fst (validate_step env cfg w plan copied st job))"
proof -
  obtain s h where st: "st = (s, h)" by force
  with assms(2) have ok: "store_ok s" by simp
  show ?thesis
    using settles_ops(2) [OF ok] settles_twice [OF ok]
    unfolding st validate_job_effect [OF assms(1)] fst_conv snd_conv by (simp add: Let_def split: sum.split)
qed

interpretation validation:
  job_pass "reliable (store_answer env)" "validate_step env cfg w plan copied" "\<lambda>job k. k = []" for env cfg w plan copied
proof
  show "\<exists>k. snd (validate_step env cfg w plan copied st job) = snd st @ k \<and> k = []"
    if "reliable (store_answer env)" for st job
    by (cases st) (simp add: validate_job_effect [OF that])
qed (use validate_job_settles in blast)

lemma analyze_history:
  "foldl (\<lambda>h job. snd (ExecDDL srv (analyze_stmt w job) h)) h js = h @ map (analyze_stmt w) js"
  by (induction js arbitrary: h) (simp_all add: ExecDDL_def)

text \<open>The verdict on the table of a job.\<close>

definition verdict ::
    "engine_env \<Rightarrow> Config \<Rightarrow> Writer \<Rightarrow> MigrationPlan \<Rightarrow> (string \<Rightarrow> int) \<Rightarrow> history \<Rightarrow> Job \<Rightarrow> string + int" where
  "verdict env cfg w plan copied h job =
     (let override = override_of (Migration cfg) (TableName job)
      in if SkipValidation override then Inr 0
         else validate_table env w plan job override (copied (TableName job)) h)"

lemma validate_job_stored:
  assumes "reliable (store_answer env)" and "has_row s job"
  shows "verdict_stored (verdict env cfg w plan copied h job) job (fst (validate_step env cfg w plan copied (s, h) job))"
  using assms(2) by (simp add: validate_job_effect [OF assms(1)] verdict_def Let_def stored_at split: sum.split)

lemma validate_job_others:
  assumes "reliable (store_answer env)" and "ID j \<noteq> ID job" and "verdict_stored v job s"
  shows "verdict_stored v job (fst (validate_step env cfg w plan copied (s, h) j))"
  using assms(2,3) by (simp add: validate_job_effect [OF assms(1)] Let_def others_stored split: sum.split)

lemma validation_stored:
  assumes "store_ok s" and "job \<in> set (GetPendingJobs run ph s)" and rel: "reliable (store_answer env)"
  shows "verdict_stored (verdict env cfg w plan copied h job) job
    (fst (foldl (validate_step env cfg w plan copied) (s, h) (GetPendingJobs run ph s)))"
proof -
  let ?js = "GetPendingJobs run ph s" and ?f = "validate_step env cfg w plan copied"
  have ids: "ID j = ID k \<Longrightarrow> j = k" if "j \<in> set ?js" "k \<in> set ?js" for j k
    using pending_ids [OF assms(1)] that by (metis distinct_map inj_onD)
  have "job \<in> set ?js \<longrightarrow>
      verdict_stored (verdict env cfg w plan copied h job) job (fst (foldl ?f (s, h) ?js))"
  proof (rule foldl_each [where P = "\<lambda>st. snd st = h \<and> (\<forall>j \<in> set ?js. has_row (fst st) j)" and
        Q = "\<lambda>job st. job \<in> set ?js \<longrightarrow>
          verdict_stored (verdict env cfg w plan copied h job) job (fst st)"])
    show "snd (s, h) = h \<and> (\<forall>j \<in> set ?js. has_row (fst (s, h)) j)"
      using pending_has_row [OF assms(1)] by auto
    show "job \<in> set ?js" by (rule assms(2))
    fix st :: world and x y
    assume P: "snd st = h \<and> (\<forall>j \<in> set ?js. has_row (fst st) j)" and x: "x \<in> set ?js"
    obtain q where st: "st = (q, h)" using P by (cases st) auto
    have new: "verdict_stored (verdict env cfg w plan copied h x) x (fst (?f st x))"
      unfolding st by (rule validate_job_stored [OF rel]) (use P x st in auto)
    moreover have "snd (?f st x) = h" unfolding st validate_job_effect [OF rel] by simp
    moreover have "has_row (fst (?f st x)) j = has_row (fst st) j" for j
      unfolding st validate_job_effect [OF rel] by (simp add: Let_def split: sum.split)
    ultimately show "(snd (?f st x) = h \<and> (\<forall>j \<in> set ?js. has_row (fst (?f st x)) j)) \<and>
        (x \<in> set ?js \<longrightarrow> verdict_stored (verdict env cfg w plan copied h x) x (fst (?f st x)))"
      using P by simp
    assume Q: "y \<in> set ?js \<longrightarrow> verdict_stored (verdict env cfg w plan copied h y) y (fst st)"
    show "y \<in> set ?js \<longrightarrow> verdict_stored (verdict env cfg w plan copied h y) y (fst (?f st x))"
    proof
      assume y: "y \<in> set ?js"
      show "verdict_stored (verdict env cfg w plan copied h y) y (fst (?f st x))"
      proof (cases "ID x = ID y")
        case True
        then have "x = y" using ids x y by blast
        then show ?thesis using new by simp
      next
        case False
        then show ?thesis using Q y unfolding st by (auto intro: validate_job_others [OF rel])
      qed
    qed
  qed
  then show ?thesis using assms(2) by simp
qed

lemma validate_job_grows:
  assumes "store_ok (fst st)" and "reliable (store_answer env)"
  shows "grows {} run (fst st) (fst (validate_step env cfg w plan copied st job))"
proof -
  obtain s h where st: "st = (s, h)" by force
  then show ?thesis
    using assms(1) unfolding st validate_job_effect [OF assms(2)] fst_conv snd_conv
    by (auto simp: Let_def intro: grows_ended grows_run_ended split: sum.split)
qed

lemma executeValidation_grows:
  assumes "store_ok (fst st)" and rel: "reliable (store_answer env)"
  shows "grows {} run (fst st) (fst (snd (executeValidation env cfg w runID plan st)))"
proof -
  have "grows {} run (fst st) (fst (foldl (validate_step env cfg w plan copied) (fst st, g) js))" for copied g js
  proof (rule foldl_invariant [where P = "\<lambda>q. grows {} run (fst st) (fst q)"])
    show "grows {} run (fst st) (fst (fst st, g))" using grows_refl [OF assms(1)] by simp
    fix q :: world and job assume g: "grows {} run (fst st) (fst q)"
    show "grows {} run (fst st) (fst (validate_step env cfg w plan copied q job))"
      by (rule grows_trans [OF g validate_job_grows [OF grows_ok [OF g] rel]])
  qed
  then show ?thesis by (cases st) (simp add: executeValidation_loop [OF rel] Let_def)
qed

lemma executeValidation_settles:
  assumes "store_ok (fst st)" and rel: "reliable (store_answer env)"
  shows "GetPendingJobs runID ''validate'' (fst (snd (executeValidation env cfg w runID plan st))) = []"
proof -
  let ?js = "GetPendingJobs runID ''validate'' (fst st)"
  let ?c = "copiedRows (GetJobsByPhase runID ''data'' (fst st))"
  let ?f = "validate_step env cfg w plan ?c"
  have settle: "settles (ID job) (fst q) (fst (?f q job))" if "job \<in> set ?js" "store_ok (fst q)" for q job
    using rel that(2) by (rule validate_job_settles)
  have "set (GetPendingJobs runID ''validate'' (fst (foldl ?f (fst st, g) ?js))) = {}" for g
  proof (rule equals0I)
    fix j assume j: "j \<in> set (GetPendingJobs runID ''validate'' (fst (foldl ?f (fst st, g) ?js)))"
    have ok: "store_ok (fst (fst st, g))" using assms(1) by simp
    have "j \<in> set ?js"
      using j validation.run_shrinks [OF rel ok, of cfg w plan ?c ?js runID "''validate''"] by auto
    from bspec [OF validation.run_settles [OF rel ok settle this, of runID "''validate''"]] j show False by auto
  qed
  then show ?thesis by (cases st) (simp add: executeValidation_loop [OF rel] Let_def)
qed

section \<open>Properties\<close>

text \<open>
  The verdict on two row counts: with exact counts validation passes exactly when they are equal,
  with estimates exactly when they differ by at most one per cent of the larger one; no count in the
  range of \<open>int64\<close> overflows the comparison.
\<close>

theorem check_counts_iff:
  assumes "0 \<le> a" "0 \<le> b" "in_i64 a" "in_i64 b"
  shows "(check_counts estimated a b = Inr a \<longleftrightarrow> \<bar>a - b\<bar> \<le> (if estimated then max a b div 100 else 0)) \<and>
    (check_counts estimated a b \<noteq> Inr a \<longrightarrow> (\<exists>msg. check_counts estimated a b = Inl msg))"
proof -
  have "in_i64 (a - b)" "in_i64 (- (a - b))" using assms by (auto simp: in_i64_def)
  moreover have "go_div (max a b) 100 = max a b div 100" using assms by (simp add: go_div_nonneg)
  ultimately show ?thesis by (auto simp: check_counts_def Let_def)
qed

theorem check_counts_iff_witness: "check_counts True 1000 1009 = Inr 1000 \<and> check_counts False 1000 1009 \<noteq> Inr 1000"
  using check_counts_iff [of 1000 1009 True] check_counts_iff [of 1000 1009 False] by (simp add: in_i64_def)

text \<open>
  What the two servers say about a table, with \<open>copied\<close> the rows that the data phase copied into it.
  Oracle: the statistics of a large table that is migrated as a whole, where there are any; otherwise
  a \<open>COUNT(*)\<close> with the \<open>where\<close> of the table, or, for a table with a partition filter, the 64-bit sum of the
  counts of the partitions of its data tasks. PostgreSQL: the estimate for a large table, where there
  is one, otherwise a \<open>COUNT(*)\<close>.
\<close>

definition filtered :: "TableOverride \<Rightarrow> bool" where
  "filtered ov \<longleftrightarrow> PartitionFilter ov \<noteq> [] \<or> o_PartitionRange ov \<noteq> None"

definition oracle_says :: "engine_env \<Rightarrow> MigrationPlan \<Rightarrow> Job \<Rightarrow> TableOverride \<Rightarrow> int \<Rightarrow> int \<Rightarrow> bool" where
  "oracle_says env plan job ov copied a \<longleftrightarrow>
     (if copied > 500000 \<and> \<not> filtered ov \<and> o_Where ov = '''' \<and>
         (\<exists>n > 0. ora_stats env (TableSchema job) (TableName job) = Inr n)
      then ora_stats env (TableSchema job) (TableName job) = Inr a
      else if filtered ov then
        (\<exists>f. (\<forall>k \<in> set (DataTasks plan). tbl_Name (t_Table k) = TableName job \<longrightarrow>
               ora_query env (countQuery (TableSchema job) (TableName job) (t_Partition k) (o_Where ov)) = Inr (f k)) \<and>
             a = i64 (sum_list (map f (filter (\<lambda>k. tbl_Name (t_Table k) = TableName job) (DataTasks plan)))))
      else ora_query env (countQuery (TableSchema job) (TableName job) None (o_Where ov)) = Inr a)"

definition postgres_says :: "engine_env \<Rightarrow> Writer \<Rightarrow> string \<Rightarrow> int \<Rightarrow> history \<Rightarrow> int \<Rightarrow> bool" where
  "postgres_says env w name copied h b \<longleftrightarrow>
     (if copied > 500000 \<and> (\<exists>n > 0. w_EstimateCount (server env) w name h = Inr n)
      then w_EstimateCount (server env) w name h = Inr b
      else w_Count (server env) w name h = Inr b)"

text \<open>The rows that completed data jobs of the run copied into a table.\<close>

definition rows_into :: "string \<Rightarrow> job_db \<Rightarrow> string \<Rightarrow> int" where
  "rows_into runID s name = i64 (sum_list (map rows_copied (filter (\<lambda>r. run_id r = runID \<and> phase r = ''data'' \<and>
     state r = JobCompleted \<and> table_name r = name) (jobs s))))"

lemma copiedRows_sum:
  assumes "store_ok s"
  shows "copiedRows (GetJobsByPhase runID ''data'' s) name = rows_into runID s name"
proof -
  have loop: "foldl (\<lambda>n dj. if State dj = JobCompleted \<and> TableName dj = name then i64 (n + RowsCopied dj) else n) (i64 a) (map scanJob rs) =
      i64 (a + sum_list (map rows_copied (filter (\<lambda>r. state r = JobCompleted \<and> table_name r = name) rs)))" for a rs
    by (induction rs arbitrary: a) (simp_all add: scanJob_def i64_add_left add.assoc)
  have "i64 0 = 0" by (simp add: in_i64_def)
  then show ?thesis
    using loop [of 0 "filter (\<lambda>r. run_id r = runID \<and> phase r = ''data'') (jobs s)"]
    by (simp add: copiedRows_def rows_into_def GetJobsByPhase_def order_by_id_filter [OF assms] conj_ac)
qed

lemma count_tasks_sum:
  "count_tasks q owner name where' tasks (i64 acc) = Inr a \<Longrightarrow>
   \<exists>f. (\<forall>k \<in> set tasks. tbl_Name (t_Table k) = name \<longrightarrow> q (countQuery owner name (t_Partition k) where') = Inr (f k)) \<and>
     a = i64 (acc + sum_list (map f (filter (\<lambda>k. tbl_Name (t_Table k) = name) tasks)))"
proof (induction tasks arbitrary: acc)
  case (Cons t ts)
  let ?f = "\<lambda>k. case q (countQuery owner name (t_Partition k) where') of Inl e \<Rightarrow> 0 | Inr n \<Rightarrow> n"
  show ?case
  proof (cases "tbl_Name (t_Table t) = name")
    case True
    then obtain n where n: "q (countQuery owner name (t_Partition t) where') = Inr n"
      using Cons.prems by (auto split: sum.splits)
    then have "count_tasks q owner name where' ts (i64 (acc + n)) = Inr a"
      using Cons.prems True by (simp add: i64_add_left)
    from Cons.IH [OF this] obtain f where
      f: "\<forall>k \<in> set ts. tbl_Name (t_Table k) = name \<longrightarrow> q (countQuery owner name (t_Partition k) where') = Inr (f k)"
        "a = i64 (acc + n + sum_list (map f (filter (\<lambda>k. tbl_Name (t_Table k) = name) ts)))" by blast
    have "map f (filter (\<lambda>k. tbl_Name (t_Table k) = name) ts) = map ?f (filter (\<lambda>k. tbl_Name (t_Table k) = name) ts)"
      using f(1) by auto
    from arg_cong [OF this, of sum_list] f(2)
    have "a = i64 (acc + (n + sum_list (map ?f (filter (\<lambda>k. tbl_Name (t_Table k) = name) ts))))"
      by (simp only: add.assoc)
    then have "a = i64 (acc + sum_list (map ?f (filter (\<lambda>k. tbl_Name (t_Table k) = name) (t # ts))))"
      using True n by simp
    moreover have "\<forall>k \<in> set (t # ts). tbl_Name (t_Table k) = name \<longrightarrow>
        q (countQuery owner name (t_Partition k) where') = Inr (?f k)"
      using f(1) n by auto
    ultimately show ?thesis by (intro exI [of _ ?f] conjI)
  qed (use Cons in simp)
qed simp

lemma count_tasks_fails:
  "count_tasks q owner name where' tasks acc = Inl e \<Longrightarrow>
   \<exists>k \<in> set tasks. tbl_Name (t_Table k) = name \<and> (\<forall>n. q (countQuery owner name (t_Partition k) where') \<noteq> Inr n)"
  by (induction tasks arbitrary: acc) (auto split: if_splits sum.splits)

text \<open>The code's counts are what the servers say.\<close>

lemma oracle_count_says:
  assumes "oracle_count env plan job ov copied = Inr (a, est)"
  shows "oracle_says env plan job ov copied a" "est \<longrightarrow> copied > 500000"
proof -
  have zero: "i64 0 = 0" by (simp add: in_i64_def)
  show "oracle_says env plan job ov copied a"
    using assms count_tasks_sum [of "ora_query env" "TableSchema job" "TableName job" "o_Where ov" "DataTasks plan" 0 a]
    by (fastforce simp: oracle_count_def oracle_says_def filtered_def estimateThreshold_def Let_def zero split: if_splits sum.splits)
  show "est \<longrightarrow> copied > 500000"
    using assms by (auto simp: oracle_count_def estimateThreshold_def Let_def split: if_splits sum.splits)
qed

lemma oracle_count_silent:
  assumes "oracle_count env plan job ov copied = Inl e"
  shows "\<not> oracle_says env plan job ov copied a"
proof -
  have "\<exists>k \<in> set (DataTasks plan). tbl_Name (t_Table k) = TableName job \<and>
      (\<forall>n. ora_query env (countQuery (TableSchema job) (TableName job) (t_Partition k) (o_Where ov)) \<noteq> Inr n)"
    if "filtered ov"
    using assms that count_tasks_fails
    by (fastforce simp: oracle_count_def filtered_def estimateThreshold_def Let_def split: if_splits sum.splits)
  moreover have "\<forall>n. ora_query env (countQuery (TableSchema job) (TableName job) None (o_Where ov)) \<noteq> Inr n"
    if "\<not> filtered ov"
    using assms that by (auto simp: oracle_count_def filtered_def Let_def split: if_splits sum.splits)
  moreover have "\<not> (copied > 500000 \<and> \<not> filtered ov \<and> o_Where ov = '''' \<and>
      (\<exists>n > 0. ora_stats env (TableSchema job) (TableName job) = Inr n))"
    using assms by (auto simp: oracle_count_def filtered_def estimateThreshold_def Let_def split: if_splits sum.splits)
  ultimately show ?thesis by (auto simp: oracle_says_def)
qed

lemma postgres_count_says:
  "postgres_count env w name copied h = Inr b \<Longrightarrow> postgres_says env w name copied h b"
  "postgres_count env w name copied h = Inl e \<Longrightarrow> \<not> postgres_says env w name copied h b"
  by (auto simp: postgres_count_def postgres_says_def estimateThreshold_def Let_def split: if_splits sum.splits)

lemma oracle_says_unique: "oracle_says env plan job ov copied a \<Longrightarrow> oracle_says env plan job ov copied b \<Longrightarrow> a = b"
proof -
  have "sum_list (map f ks) = sum_list (map g ks)"
    if "\<forall>k \<in> set ks. q k = Inr (f k)" "\<forall>k \<in> set ks. q k = Inr (g k)"
    for f g :: "TableTask \<Rightarrow> int" and ks and q :: "TableTask \<Rightarrow> string + int"
  proof -
    have "map f ks = map g ks" using that by (intro map_cong) auto
    then show ?thesis by (rule arg_cong)
  qed
  note same = this [where ks = "filter (\<lambda>k. tbl_Name (t_Table k) = TableName job) (DataTasks plan)" and
      q = "\<lambda>k. ora_query env (countQuery (TableSchema job) (TableName job) (t_Partition k) (o_Where ov))"]
  assume says: "oracle_says env plan job ov copied a" "oracle_says env plan job ov copied b"
  show "a = b"
  proof (cases "filtered ov")
    case True
    let ?ks = "filter (\<lambda>k. tbl_Name (t_Table k) = TableName job) (DataTasks plan)"
    let ?q = "\<lambda>k. ora_query env (countQuery (TableSchema job) (TableName job) (t_Partition k) (o_Where ov))"
    have sums: "\<exists>f. (\<forall>k \<in> set ?ks. ?q k = Inr (f k)) \<and> c = i64 (sum_list (map f ?ks))"
      if "oracle_says env plan job ov copied c" for c
      using that True unfolding oracle_says_def by (simp only: simp_thms if_True if_False) fastforce
    obtain f where f: "\<forall>k \<in> set ?ks. ?q k = Inr (f k)" "a = i64 (sum_list (map f ?ks))" using sums [OF says(1)] by blast
    obtain g where g: "\<forall>k \<in> set ?ks. ?q k = Inr (g k)" "b = i64 (sum_list (map g ?ks))" using sums [OF says(2)] by blast
    show ?thesis using same [OF f(1) g(1)] f(2) g(2) by (simp only:)
  next
    case False
    then show ?thesis using says by (auto simp: oracle_says_def split: if_splits)
  qed
qed

lemma verdict_says:
  fixes copied :: "string \<Rightarrow> int"
  assumes "\<not> SkipValidation (override_of (Migration cfg) (TableName job))"
  defines "ov \<equiv> override_of (Migration cfg) (TableName job)"
    and "c \<equiv> copied (TableName job)"
  shows "(\<forall>a b. oracle_says env plan job ov c a \<and> postgres_says env w (TableName job) c h b \<and>
        0 \<le> a \<and> 0 \<le> b \<and> in_i64 a \<and> in_i64 b \<longrightarrow>
      (if \<bar>a - b\<bar> \<le> (if c > 500000 then max a b div 100 else 0) then verdict env cfg w plan copied h job = Inr a
       else \<exists>msg. verdict env cfg w plan copied h job = Inl msg)) \<and>
    ((\<nexists>a. oracle_says env plan job ov c a) \<or> (\<nexists>b. postgres_says env w (TableName job) c h b) \<longrightarrow>
      (\<exists>msg. verdict env cfg w plan copied h job = Inl msg))"
proof (cases "oracle_count env plan job ov c")
  case (Inl e)
  then show ?thesis
    using oracle_count_silent [OF Inl] assms(1)
    by (auto simp: verdict_def validate_table_def ov_def [symmetric] c_def [symmetric])
next
  case ora: (Inr p)
  obtain a est where p: "p = (a, est)" by force
  note says = oracle_count_says [OF ora [unfolded p]]
  show ?thesis
  proof (cases "postgres_count env w (TableName job) c h")
    case (Inl e)
    then show ?thesis
      using postgres_count_says(2) [OF Inl] ora says(1) p assms(1)
      by (auto simp: verdict_def validate_table_def ov_def [symmetric] c_def [symmetric])
  next
    case (Inr b)
    note pg = postgres_count_says(1) [OF Inr]
    have v: "verdict env cfg w plan copied h job = check_counts (c > 500000) a b"
      using Inr ora p assms(1) says(2)
      by (auto simp: verdict_def validate_table_def ov_def [symmetric] c_def [symmetric] estimateThreshold_def)
    have pg_unique: "postgres_says env w (TableName job) c h b' \<Longrightarrow> b' = b" for b'
      using pg by (auto simp: postgres_says_def split: if_splits)
    have "if \<bar>a - b\<bar> \<le> (if c > 500000 then max a b div 100 else 0) then check_counts (c > 500000) a b = Inr a
        else \<exists>msg. check_counts (c > 500000) a b = Inl msg" if "0 \<le> a" "0 \<le> b" "in_i64 a" "in_i64 b"
      using check_counts_iff [OF that, of "c > 500000"] by auto
    then show ?thesis
      using says(1) pg pg_unique oracle_says_unique [OF says(1)] unfolding v by blast
  qed
qed


text \<open>Both servers count 100 rows in each of the two tables; with another count on one side, both fail.\<close>

definition hundred_env :: engine_env where
  "hundred_env = demo_env\<lparr>ora_query := \<lambda>_. Inr 100, server := quiet_server\<lparr>pg_count := \<lambda>_ _. Inr 100\<rparr>\<rparr>"


text \<open>
  With a partition filter, the Oracle side is the sum over the data tasks of the table, so a
  partition that is copied in several chunks is counted once per chunk: a table whose only selected
  partition holds \<open>n > 0\<close> rows and was copied in \<open>k > 1\<close> chunks fails validation although PostgreSQL
  holds exactly its \<open>n\<close> rows.
\<close>

theorem chunked_filter_fails:
  assumes "PartitionFilter override \<noteq> []" and "copied \<le> estimateThreshold"
    and "filter (\<lambda>k. tbl_Name (t_Table k) = TableName job) (DataTasks plan) = tasks"
    and "\<forall>k \<in> set tasks. t_Partition k = Some p" and "1 < length tasks"
    and "ora_query env (countQuery (TableSchema job) (TableName job) (Some p) (o_Where override)) = Inr n"
    and "w_Count (server env) w (TableName job) h = Inr n"
    and "0 < n" "in_i64 (int (length tasks) * n)"
  shows "oracle_count env plan job override copied = Inr (int (length tasks) * n, False) \<and>
    (\<exists>msg. validate_table env w plan job override copied h = Inl msg)"
proof -
  let ?q = "ora_query env" and ?k = "int (length tasks)"
  have range: "in_i64 (acc + n)" "in_i64 (acc + m * n + n)" if "0 \<le> acc" "0 \<le> m" "acc + (m + 1) * n \<le> ?k * n" for acc m
  proof -
    have "0 \<le> m * n" "(m + 1) * n = m * n + n" using that(2) assms(8) by (simp_all add: distrib_right)
    with that assms(8) have "0 \<le> acc + n" "acc + n \<le> ?k * n" "0 \<le> acc + m * n + n" "acc + m * n + n \<le> ?k * n"
      by linarith+
    then show "in_i64 (acc + n)" "in_i64 (acc + m * n + n)" using assms(9) by (auto simp: in_i64_def)
  qed
  have loop: "count_tasks ?q (TableSchema job) (TableName job) (o_Where override) ts acc =
      Inr (acc + int (length (filter (\<lambda>k. tbl_Name (t_Table k) = TableName job) ts)) * n)"
    if "0 \<le> acc" "acc + int (length (filter (\<lambda>k. tbl_Name (t_Table k) = TableName job) ts)) * n \<le> ?k * n"
      "\<forall>k \<in> set (filter (\<lambda>k. tbl_Name (t_Table k) = TableName job) ts). t_Partition k = Some p" for ts acc
    using that
  proof (induction ts arbitrary: acc)
    case (Cons t ts)
    let ?m = "int (length (filter (\<lambda>k. tbl_Name (t_Table k) = TableName job) ts))"
    show ?case
    proof (cases "tbl_Name (t_Table t) = TableName job")
      case True
      have le: "acc + (?m + 1) * n \<le> ?k * n" using Cons.prems(2) True by (simp add: algebra_simps)
      have "i64 (acc + n) = acc + n" by (rule i64_id) (rule range(1) [OF Cons.prems(1) _ le], simp)
      then show ?thesis
        using Cons.IH [of "acc + n"] Cons.prems True assms(6,8) le by (simp add: algebra_simps)
    qed (use Cons in simp)
  qed simp
  have ora: "oracle_count env plan job override copied = Inr (?k * n, False)"
    using loop [of 0 "DataTasks plan"] assms(1-4) by (simp add: oracle_count_def Let_def)
  have pg: "postgres_count env w (TableName job) copied h = Inr n"
    using assms(2,7) by (simp add: postgres_count_def Let_def)
  have "?k * n - n = (?k - 1) * n" by (simp add: algebra_simps)
  moreover have "0 < (?k - 1) * n" using assms(5,8) by simp
  ultimately have pos: "0 < ?k * n - n" by simp
  moreover have "in_i64 (?k * n - n)" using assms(8) assms(9) [unfolded in_i64_def] pos unfolding in_i64_def by linarith
  ultimately have "\<exists>msg. check_counts False (?k * n) n = Inl msg"
    by (simp add: check_counts_def Let_def)
  then show ?thesis using ora pg assms(2) by (simp add: validate_table_def)
qed

definition filtered_plan :: MigrationPlan where
  "filtered_plan = two_tables_plan\<lparr>DataTasks := map (\<lambda>i.
     (chunk_task ''SALES'' i)\<lparr>t_Partition := Some (sample_part ''P1'' ''MAXVALUE'')\<rparr>) [0, 1]\<rparr>"

theorem chunked_filter_fails_witness:
  "\<exists>msg. validate_table hundred_env (NewWriter ''public'') filtered_plan
     (table_job ''r1'' ''validate'' (bare_table ''SALES'' 0)) (zeroOverride\<lparr>PartitionFilter := [''P1'']\<rparr>) 100 [] = Inl msg"
proof -
  let ?ov = "zeroOverride\<lparr>PartitionFilter := [''P1'']\<rparr>" and ?job = "table_job ''r1'' ''validate'' (bare_table ''SALES'' 0)"
  let ?p = "sample_part ''P1'' ''MAXVALUE''"
  have 1: "PartitionFilter ?ov \<noteq> []" "100 \<le> estimateThreshold" by (simp_all add: estimateThreshold_def)
  have 2: "filter (\<lambda>k. tbl_Name (t_Table k) = TableName ?job) (DataTasks filtered_plan) = DataTasks filtered_plan"
    "\<forall>k \<in> set (DataTasks filtered_plan). t_Partition k = Some ?p" "1 < length (DataTasks filtered_plan)"
    by (simp_all add: filtered_plan_def chunk_task_def plain_task_def bare_table_def table_job_def)
  have 3: "ora_query hundred_env (countQuery (TableSchema ?job) (TableName ?job) (Some ?p) (o_Where ?ov)) = Inr 100"
    "w_Count (server hundred_env) (NewWriter ''public'') (TableName ?job) [] = Inr 100"
    by (simp_all add: hundred_env_def w_Count_def)
  have 4: "(0 :: int) < 100" "in_i64 (int (length (DataTasks filtered_plan)) * 100)"
    by (simp_all add: filtered_plan_def in_i64_def)
  show ?thesis using chunked_filter_fails [OF 1 2 3 4] by blast
qed

end
