(* ===== verification/Engine_Data.thy ===== *)
theory Engine_Data
  imports Engine_Validate
begin

text \<open>
  \<open>executeDataMigration\<close> of \<open>internal/migration/engine.go\<close>: the match of pending jobs and tasks, and the
  function that a worker runs for one task (clean-up before a retry, up to four attempts of the
  pipeline read, transform, write, and the final state of the job). One attempt is the answer
  \<open>copy_result\<close> of the environment (\<open>CopyData\<close>, theory \<open>Copy_Data\<close>, resolves its own
  nondeterminism) and one entry \<open>COPY target\<close> of the history. The tasks run one after the other in an
  order \<open>ord\<close> that the worker pool chooses; theory \<open>Worker_Pool\<close> has the pool itself. A write to the job
  store with a cancelled context fails and changes nothing. Waiting times, the progress watchdog and
  log lines are left out; the per-table semaphore only delays tasks.
\<close>

record data_env = engine_env +
  copy_result :: "history \<Rightarrow> TableTask \<Rightarrow> int \<Rightarrow> string + nat" \<comment> \<open>one pipeline attempt with a batch size\<close>
  ctx_done :: "history \<Rightarrow> bool" \<comment> \<open>\<open>ctx.Err() != nil\<close> when checked\<close>
  ctx_expires :: "history \<Rightarrow> bool" \<comment> \<open>\<open>ctx\<close> is cancelled while waiting for the next attempt\<close>

section \<open>One task\<close>

definition copy_stmt :: "Writer \<Rightarrow> TableTask \<Rightarrow> string" where
  "copy_stmt w task = ''COPY '' @ targetTable w (t_Table task) (t_Partition task)"

text \<open>Truncation of what the task writes; errors are ignored.\<close>

definition clear_target :: "pg_server \<Rightarrow> Writer \<Rightarrow> TableTask \<Rightarrow> history \<Rightarrow> history" where
  "clear_target srv w task h =
     (case t_Partition task of
        Some p \<Rightarrow> snd (TruncatePartition srv w (tbl_Name (t_Table task)) (part_Name p) h)
      | None \<Rightarrow> snd (TruncateTable srv w (tbl_Name (t_Table task)) h))"

text \<open>
  The retry loop with \<open>n\<close> retries left: the number of rows, or whether the loop ended because the
  context was cancelled, the message for \<open>SetFailed\<close>, and the error that is returned.
\<close>

fun pipeline ::
    "data_env \<Rightarrow> Writer \<Rightarrow> TableTask \<Rightarrow> int \<Rightarrow> nat \<Rightarrow> nat \<Rightarrow> history \<Rightarrow> (bool \<times> string \<times> string + nat) \<times> history" where
  "pipeline env w task batch maxRetries n h =
     (let h1 = h @ [copy_stmt w task]
      in case copy_result env h task batch of
           Inr rows \<Rightarrow> (Inr rows, h1)
         | Inl e \<Rightarrow>
             if ctx_done env h1 then (Inl (True, e, e), h1)
             else
               (case n of
                  0 \<Rightarrow> (Inl (False, ''failed after '' @ itoa (int maxRetries) @ '' retries: '' @ e, e), h1)
                | Suc m \<Rightarrow>
                    if ctx_expires env h1 then (Inl (True, ''context canceled'', ''context canceled''), h1)
                    else pipeline env w task batch maxRetries m
                      (if t_Chunk task \<noteq> None then h1 else clear_target (server env) w task h1)))"

declare pipeline.simps [simp del]

definition maxPipelineRetries :: "TableTask \<Rightarrow> nat" where
  "maxPipelineRetries task = (if t_Chunk task \<noteq> None then 0 else 3)"

definition prepare :: "pg_server \<Rightarrow> Writer \<Rightarrow> bool \<Rightarrow> TableTask \<Rightarrow> history \<Rightarrow> history" where
  "prepare srv w isRetry task h =
     (if isRetry then
        (if t_Chunk task \<noteq> None \<and> t_Where task \<noteq> '''' then h else clear_target srv w task h)
      else if t_TargetMode task = TargetModeTruncatePartition \<and> t_Partition task \<noteq> None then
        clear_target srv w task h
      else h)"

definition task_batch :: "Config \<Rightarrow> TableTask \<Rightarrow> int" where
  "task_batch cfg task = (if t_BatchSize task > 0 then t_BatchSize task else m_BatchSize (Migration cfg))"

text \<open>
  \<open>stats.BytesCopied\<close> is never set by \<open>CopyData\<close>, so 0 is stored. After a cancellation the code calls
  \<open>SetFailed\<close> with the cancelled context: nothing is written, and the error of the call is ignored.
\<close>

definition with_ctx :: "bool \<Rightarrow> (job_db \<Rightarrow> string option \<times> job_db) \<Rightarrow> job_db \<Rightarrow> string option \<times> job_db" where
  "with_ctx cancelled call s = (if cancelled then (Some ''context canceled'', s) else call s)"

definition data_task ::
    "data_env \<Rightarrow> Config \<Rightarrow> Writer \<Rightarrow> Job list \<Rightarrow> (string \<rightharpoonup> int) \<Rightarrow> TableTask \<Rightarrow> world \<Rightarrow> string option \<times> world" where
  "data_task env cfg w pending jobLookup task st =
     (let (s, h) = st;
          jobID = map_get 0 jobLookup (taskKey task);
          isRetry = list_ex (\<lambda>j. ID j = jobID \<and> State j = JobRetrying) pending;
          n = maxPipelineRetries task
      in case with_ctx (ctx_done env h) (running env jobID) s of
           (Some e, s1) \<Rightarrow> (Some e, (s1, h))
         | (None, s1) \<Rightarrow>
             (case pipeline env w task (task_batch cfg task) n n (prepare (server env) w isRetry task h) of
                (Inr rows, h') \<Rightarrow>
                  let (err, s2) = with_ctx (ctx_done env h') (completed env jobID (int rows) 0) s1 in (err, (s2, h'))
              | (Inl (cancelled, msg, e), h') \<Rightarrow>
                  (Some e, (snd (with_ctx cancelled (failed env jobID msg) s1), h'))))"

section \<open>The phase\<close>

text \<open>Workers skip the rest after a cancellation; the first error of a task is the result.\<close>

fun run_tasks ::
    "(TableTask \<Rightarrow> world \<Rightarrow> string option \<times> world) \<Rightarrow> (history \<Rightarrow> bool) \<Rightarrow> string option \<Rightarrow> TableTask list \<Rightarrow>
     world \<Rightarrow> string option \<times> world" where
  "run_tasks fn cancelled first [] st = (first, st)"
| "run_tasks fn cancelled first (t # ts) st =
     (if cancelled (snd st) then (first, st)
      else case fn t st of
             (None, st') \<Rightarrow> run_tasks fn cancelled first ts st'
           | (Some e, st') \<Rightarrow>
               if cancelled (snd st') then (first, st')
               else run_tasks fn cancelled (if first = None then Some e else first) ts st')"

definition taskMap :: "TableTask list \<Rightarrow> string \<rightharpoonup> TableTask" where
  "taskMap tasks = foldl (\<lambda>m task. m(taskKey task \<mapsto> task)) Map.empty tasks"

definition job_key_of :: "Job \<Rightarrow> string" where
  "job_key_of j = jobKey (TableName j) (j_Partition j)"

definition matched :: "TableTask list \<Rightarrow> Job list \<Rightarrow> (Job \<times> TableTask) list" where
  "matched tasks js =
     concat (map (\<lambda>j. case taskMap tasks (job_key_of j) of None \<Rightarrow> [] | Some t \<Rightarrow> [(j, t)]) js)"

definition jobLookup :: "(Job \<times> TableTask) list \<Rightarrow> string \<rightharpoonup> int" where
  "jobLookup ms = foldl (\<lambda>m (j, t). m(job_key_of j \<mapsto> ID j)) Map.empty ms"

definition executeDataMigration ::
    "data_env \<Rightarrow> Config \<Rightarrow> Writer \<Rightarrow> string \<Rightarrow> MigrationPlan \<Rightarrow> (TableTask list \<Rightarrow> TableTask list) \<Rightarrow> world \<Rightarrow>
     string option \<times> world" where
  "executeDataMigration env cfg w runID plan ord st =
     (case pending_jobs env runID ''data'' (fst st) of
        Inl e \<Rightarrow> (Some e, st)
      | Inr pending \<Rightarrow>
          let ms = matched (DataTasks plan) pending
          in if pending = [] then (None, st)
             else run_tasks (data_task env cfg w pending (jobLookup ms)) (ctx_done env) None (ord (map snd ms)) st)"

section \<open>Statements of one task\<close>

definition clear_stmt :: "Writer \<Rightarrow> TableTask \<Rightarrow> string" where
  "clear_stmt w task = ''TRUNCATE TABLE '' @ targetTable w (t_Table task) (t_Partition task)"

lemma clear_table: "t_Partition task = None \<Longrightarrow> clear_target srv w task h = h @ [clear_stmt w task]"
  by (simp add: clear_target_def clear_stmt_def TruncateTable_def ExecDDL_def targetTable_def w_table_def)

lemma clear_partition:
  assumes "t_Partition task = Some p"
    and "pg_exists srv h (lookup_schema w) (pg_part_name w (tbl_Name (t_Table task)) (part_Name p)) = Inr True"
  shows "clear_target srv w task h = h @ [clear_stmt w task]"
  using assms
  by (simp add: clear_target_def clear_stmt_def TruncatePartition_def ExecDDL_def targetTable_def pg_part_name_def Let_def)

text \<open>The statements of a task that writes a whole table or a chunk.\<close>

lemma pipeline_history:
  assumes "t_Partition task = None \<or> t_Chunk task \<noteq> None"
  shows "\<exists>k \<le> n. snd (pipeline env w task batch m n h) = h @ [copy_stmt w task] @
    concat (replicate k ((if t_Chunk task \<noteq> None then [] else [clear_stmt w task]) @ [copy_stmt w task]))"
proof (induction n arbitrary: h)
  case 0
  show ?case by (subst pipeline.simps) (auto simp: Let_def split: sum.splits)
next
  case (Suc n)
  let ?h1 = "h @ [copy_stmt w task]"
  let ?h2 = "if t_Chunk task \<noteq> None then ?h1 else clear_target (server env) w task ?h1"
  obtain k where k: "k \<le> n" "snd (pipeline env w task batch m n ?h2) = ?h2 @ [copy_stmt w task] @
      concat (replicate k ((if t_Chunk task \<noteq> None then [] else [clear_stmt w task]) @ [copy_stmt w task]))"
    using Suc.IH [of ?h2] by blast
  show ?case
  proof (cases "\<exists>e. copy_result env h task batch = Inl e \<and> \<not> ctx_done env ?h1 \<and> \<not> ctx_expires env ?h1")
    case True
    then have "snd (pipeline env w task batch m (Suc n) h) = snd (pipeline env w task batch m n ?h2)"
      by (subst pipeline.simps) (auto simp: Let_def)
    then show ?thesis
      using k assms by (intro exI [of _ "Suc k"]) (auto simp: clear_table)
  next
    case False
    then have "snd (pipeline env w task batch m (Suc n) h) = ?h1"
      by (subst pipeline.simps) (auto simp: Let_def split: sum.splits)
    then show ?thesis by (intro exI [of _ 0]) simp
  qed
qed

lemma pipeline_rows:
  "fst (pipeline env w task batch m n h) = Inr rows \<Longrightarrow>
   \<exists>h0. snd (pipeline env w task batch m n h) = h0 @ [copy_stmt w task] \<and> copy_result env h0 task batch = Inr rows"
proof (induction n arbitrary: h)
  case 0
  then show ?case by (subst (asm) pipeline.simps, subst pipeline.simps) (auto simp: Let_def split: sum.splits if_splits)
next
  case (Suc n)
  let ?h1 = "h @ [copy_stmt w task]"
  let ?h2 = "if t_Chunk task \<noteq> None then ?h1 else clear_target (server env) w task ?h1"
  show ?case
  proof (cases "copy_result env h task batch")
    case (Inl e)
    then have "pipeline env w task batch m (Suc n) h = pipeline env w task batch m n ?h2"
      using Suc.prems by (subst pipeline.simps, subst (asm) pipeline.simps) (auto simp: Let_def split: if_splits)
    then show ?thesis using Suc by simp
  next
    case (Inr r)
    then have "pipeline env w task batch m (Suc n) h = (Inr r, ?h1)" by (subst pipeline.simps) (simp add: Let_def)
    then show ?thesis using Suc.prems Inr by auto
  qed
qed

text \<open>The job of a task, through \<open>jobLookup\<close>.\<close>

definition task_job :: "(string \<rightharpoonup> int) \<Rightarrow> TableTask \<Rightarrow> int" where
  "task_job lookup task = map_get 0 lookup (taskKey task)"

definition is_retry :: "Job list \<Rightarrow> (string \<rightharpoonup> int) \<Rightarrow> TableTask \<Rightarrow> bool" where
  "is_retry pending lookup task = list_ex (\<lambda>j. ID j = task_job lookup task \<and> State j = JobRetrying) pending"

definition attempts ::
    "data_env \<Rightarrow> Config \<Rightarrow> Writer \<Rightarrow> Job list \<Rightarrow> (string \<rightharpoonup> int) \<Rightarrow> TableTask \<Rightarrow> history \<Rightarrow>
     (bool \<times> string \<times> string + nat) \<times> history" where
  "attempts env cfg w pending lookup task h =
     pipeline env w task (task_batch cfg task) (maxPipelineRetries task) (maxPipelineRetries task)
       (prepare (server env) w (is_retry pending lookup task) task h)"

lemma data_task_result:
  assumes "reliable (store_answer env)" and "\<not> ctx_done env h"
  shows "data_task env cfg w pending lookup task (s, h) =
    (let job = task_job lookup task; s1 = SetRunning (clock env s) job s; r = attempts env cfg w pending lookup task h
     in case fst r of
          Inr n \<Rightarrow>
            if ctx_done env (snd r) then (Some ''context canceled'', (s1, snd r))
            else (None, (SetCompleted (clock env s1) job (int n) 0 s1, snd r))
        | Inl (cancelled, msg, e) \<Rightarrow>
            (Some e, (if cancelled then s1 else SetFailed (clock env s1) job msg s1, snd r)))"
  by (auto simp: data_task_def attempts_def is_retry_def task_job_def Let_def with_ctx_def assms(2) reliable_env [OF assms(1)]
      split: sum.split prod.split)

text \<open>The history of a task does not depend on its writes to the store.\<close>

lemma data_task_history:
  assumes "reliable (store_answer env)" and "\<not> ctx_done env h"
  shows "snd (snd (data_task env cfg w pending lookup task (s, h))) = snd (attempts env cfg w pending lookup task h)"
  by (simp add: data_task_result [OF assms] Let_def split: sum.split prod.split)

text \<open>Nothing outside the migration disturbs it: the store executes every statement and the context is not cancelled.\<close>

definition undisturbed :: "data_env \<Rightarrow> bool" where
  "undisturbed env \<longleftrightarrow> reliable (store_answer env) \<and> (\<forall>h. \<not> ctx_done env h \<and> \<not> ctx_expires env h)"

lemma pipeline_undisturbed:
  assumes "\<forall>h. \<not> ctx_done env h \<and> \<not> ctx_expires env h"
  shows "fst (pipeline env w task batch m n h) = Inl (c, msg, e) \<Longrightarrow> \<not> c"
proof (induction n arbitrary: h)
  case 0
  then show ?case by (subst (asm) pipeline.simps) (auto simp: Let_def assms split: sum.splits)
next
  case (Suc n)
  then show ?case by (subst (asm) pipeline.simps) (auto simp: Let_def assms split: sum.splits)
qed

lemma pipeline_cancelled:
  "fst (pipeline env w task batch m n h) = Inl (c, msg, e) \<Longrightarrow> ctx_done env (snd (pipeline env w task batch m n h)) \<Longrightarrow> c"
proof (induction n arbitrary: h)
  case 0
  then show ?case by (simp add: pipeline.simps [of env w task batch m 0 h] Let_def split: sum.splits if_splits)
next
  case (Suc n)
  then show ?case by (simp add: pipeline.simps [of env w task batch m "Suc n" h] Let_def split: sum.splits if_splits)
qed

lemma data_task_undisturbed:
  assumes "undisturbed env"
  shows "data_task env cfg w pending lookup task (s, h) =
    (let job = task_job lookup task; s1 = SetRunning (clock env s) job s; r = attempts env cfg w pending lookup task h
     in case fst r of
          Inr n \<Rightarrow> (None, (SetCompleted (clock env s1) job (int n) 0 s1, snd r))
        | Inl (cancelled, msg, e) \<Rightarrow> (Some e, (SetFailed (clock env s1) job msg s1, snd r)))"
proof -
  have env: "reliable (store_answer env)" "\<forall>h. \<not> ctx_done env h \<and> \<not> ctx_expires env h"
    using assms by (simp_all add: undisturbed_def)
  have "\<not> c" if "fst (attempts env cfg w pending lookup task h) = Inl (c, msg, e)" for c msg e
    using pipeline_undisturbed [OF env(2)] that unfolding attempts_def by blast
  then show ?thesis
    using data_task_result [OF env(1), of h cfg w pending lookup task s] env(2)
    by (auto simp: Let_def split: sum.split prod.split)
qed

text \<open>
  A phase that succeeds was not disturbed by an expiring context: it runs in the same way when the
  context cannot expire.
\<close>

definition calm :: "data_env \<Rightarrow> data_env" where
  "calm env = env\<lparr>ctx_expires := \<lambda>_. False\<rparr>"

lemma calm_simps [simp]:
  "clock (calm env) = clock env" "store_answer (calm env) = store_answer env" "server (calm env) = server env"
  "copy_result (calm env) = copy_result env" "ctx_done (calm env) = ctx_done env" "\<not> ctx_expires (calm env) h"
  by (simp_all add: calm_def)

lemma pipeline_calm:
  "fst (pipeline env w task batch m n h) = Inr r \<Longrightarrow> pipeline (calm env) w task batch m n h = pipeline env w task batch m n h"
proof (induction n arbitrary: h)
  case 0
  then show ?case
    by (simp add: pipeline.simps [of env w task batch m 0 h] pipeline.simps [of "calm env" w task batch m 0 h] Let_def
        split: sum.splits)
next
  case (Suc n)
  then show ?case
    by (simp add: pipeline.simps [of env w task batch m "Suc n" h] pipeline.simps [of "calm env" w task batch m "Suc n" h] Let_def
        split: sum.splits if_splits)
qed

lemma same_calls:
  "running (calm env) i = running env i" "completed (calm env) i n b = completed env i n b"
  "failed (calm env) i e = failed env i e" "pending_jobs (calm env) run ph = pending_jobs env run ph"
  by (rule ext, simp add: running_def completed_def failed_def pending_jobs_def)+

lemma data_task_calm:
  "data_task env cfg w pending lookup task st = (None, st') \<Longrightarrow> data_task (calm env) cfg w pending lookup task st = (None, st')"
proof -
  obtain s h where st: "st = (s, h)" by force
  let ?n = "maxPipelineRetries task"
  let ?p = "\<lambda>env r. pipeline env w task (task_batch cfg task) ?n ?n (prepare (server env) w r task h)"
  assume none: "data_task env cfg w pending lookup task st = (None, st')"
  then obtain r where "fst (?p env (list_ex (\<lambda>j. ID j = map_get 0 lookup (taskKey task) \<and> State j = JobRetrying) pending)) = Inr r"
    by (auto simp: data_task_def st Let_def split: prod.splits option.splits sum.splits)
  note same = pipeline_calm [OF this]
  show ?thesis
    using none unfolding data_task_def st Let_def prod.case same_calls calm_simps(1-5) same .
qed

lemma run_tasks_first: "fst (run_tasks fn cancelled first ts st) = None \<Longrightarrow> first = None"
  by (induction fn cancelled first ts st rule: run_tasks.induct) (auto split: if_splits prod.splits option.splits)

lemma run_tasks_calm:
  assumes "\<And>h. \<not> cancelled h"
  shows "run_tasks (data_task env cfg w pending lookup) cancelled first ts st = (None, st') \<Longrightarrow>
    run_tasks (data_task (calm env) cfg w pending lookup) cancelled first ts st = (None, st')"
proof (induction ts arbitrary: first st)
  case (Cons t ts)
  obtain err st1 where r: "data_task env cfg w pending lookup t st = (err, st1)" by (metis prod.exhaust)
  have "first = None" using run_tasks_first Cons.prems by (metis fst_conv)
  have some: "fst (run_tasks fn cancelled (Some e) ts st1) \<noteq> None" for fn e
    using run_tasks_first by (metis option.distinct(1))
  have none: "err = None"
  proof (rule ccontr)
    assume "err \<noteq> None"
    then obtain e where "err = Some e" by blast
    then have "run_tasks (data_task env cfg w pending lookup) cancelled (Some e) ts st1 = (None, st')"
    proof -
      have "\<not> cancelled (snd st)" "\<not> cancelled (snd st1)" by (rule assms)+
      then show ?thesis using Cons.prems r \<open>first = None\<close> \<open>err = Some e\<close> by simp
    qed
    then show False using some by (metis fst_conv)
  qed
  then show ?case
    using Cons r data_task_calm [of env cfg w pending lookup t st st1] assms by simp
qed simp

lemma executeDataMigration_calm:
  assumes "\<forall>h. \<not> ctx_done env h" and "executeDataMigration env cfg w runID plan ord st = (None, st')"
  shows "executeDataMigration (calm env) cfg w runID plan ord st = (None, st')"
proof (cases "pending_jobs env runID ''data'' (fst st)")
  case (Inl e)
  then show ?thesis using assms(2) by (simp add: executeDataMigration_def)
next
  case (Inr pending)
  show ?thesis
  proof (cases "pending = []")
    case False
    let ?ms = "matched (DataTasks plan) pending"
    have "run_tasks (data_task env cfg w pending (jobLookup ?ms)) (ctx_done env) None (ord (map snd ?ms)) st = (None, st')"
      using assms(2) Inr False by (simp add: executeDataMigration_def Let_def)
    from run_tasks_calm [OF _ this] assms(1) Inr False show ?thesis
      by (simp add: executeDataMigration_def same_calls Let_def)
  qed (use assms(2) Inr in \<open>simp add: executeDataMigration_def same_calls Let_def\<close>)
qed

text \<open>What an undisturbed task does to the store: it settles its job with a verdict, and changes no other.\<close>

lemma data_task_settles:
  assumes "undisturbed env" and "store_ok (fst st)"
  shows "settles (task_job lookup task) (fst st) (fst (snd (data_task env cfg w pending lookup task st)))"
  using settles_twice [OF assms(2)]
  by (cases st) (simp add: data_task_undisturbed [OF assms(1)] Let_def split: sum.split prod.split)

lemma data_task_grows:
  assumes "undisturbed env" and "store_ok (fst st)"
  shows "grows {} run (fst st) (fst (snd (data_task env cfg w pending lookup task st)))"
  using assms(2)
  by (cases st) (auto simp: data_task_undisturbed [OF assms(1)] Let_def intro: grows_run_ended split: sum.split prod.split)

text \<open>How a task may end: with the row count of one of its attempts, or with a message.\<close>

definition task_outcome :: "data_env \<Rightarrow> Config \<Rightarrow> TableTask \<Rightarrow> string + int \<Rightarrow> bool" where
  "task_outcome env cfg task v \<longleftrightarrow> (case v of
     Inl msg \<Rightarrow> True | Inr n \<Rightarrow> \<exists>g m. copy_result env g task (task_batch cfg task) = Inr m \<and> n = int m)"

lemma data_task_verdict:
  assumes "undisturbed env" and "i = task_job lookup task" and "i \<in> row_id ` set (jobs s)"
    and "data_task env cfg w pending lookup task (s, h) = (err, (s', h'))"
  shows "\<exists>v. task_outcome env cfg task v \<and> ended_as v i s' \<and> (isl v \<longleftrightarrow> err \<noteq> None)"
proof -
  let ?job = "(data_job [] task)\<lparr>ID := i\<rparr>"
  let ?s1 = "SetRunning (clock env s) i s" and ?r = "attempts env cfg w pending lookup task h"
  have row: "has_row ?s1 ?job" using assms(3) by (simp add: has_row_iff set_running.same_ids)
  show ?thesis
  proof (cases "fst ?r")
    case (Inr n)
    then have "err = None" "ended_as (Inr (int n)) i s'"
      using assms(2,4) stored_at(1) [OF row] by (auto simp: data_task_undisturbed [OF assms(1)] Let_def)
    moreover have "task_outcome env cfg task (Inr (int n))"
      using pipeline_rows [OF Inr [unfolded attempts_def]] by (auto simp: task_outcome_def)
    ultimately show ?thesis by fastforce
  next
    case (Inl cme)
    obtain c msg e where cme: "cme = (c, msg, e)" by (metis prod.exhaust)
    have "err = Some e" "ended_as (Inl msg) i s'"
      using assms(2,4) stored_at(2) [OF row] Inl cme by (auto simp: data_task_undisturbed [OF assms(1)] Let_def)
    then show ?thesis by (intro exI [of _ "Inl msg"]) (simp add: task_outcome_def)
  qed
qed

lemma data_task_others:
  assumes "undisturbed env" and "data_task env cfg w pending lookup task (s, h) = (err, (s', h'))"
  shows "row_id ` set (jobs s') = row_id ` set (jobs s)"
    "i \<noteq> task_job lookup task \<Longrightarrow> ended_as v i s \<Longrightarrow> ended_as v i s'"
proof -
  show "row_id ` set (jobs s') = row_id ` set (jobs s)"
  proof -
    have "row_id ` set (jobs (fst (snd (data_task env cfg w pending lookup task (s, h))))) = row_id ` set (jobs s)"
      by (simp add: data_task_undisturbed [OF assms(1)] Let_def set_running.same_ids set_completed.same_ids
          set_failed.same_ids split: sum.split prod.split)
    then show ?thesis by (simp add: assms(2))
  qed
  let ?job = "(data_job [] task)\<lparr>ID := i\<rparr>"
  show "ended_as v i s'" if "i \<noteq> task_job lookup task" "ended_as v i s"
    using assms(2) others_stored [where job = ?job and i = "task_job lookup task"] that
    by (auto simp: data_task_undisturbed [OF assms(1)] Let_def split: sum.splits prod.splits)
qed

text \<open>The contract of a task function and what a run without cancellation does with it.\<close>

locale task_function =
  fixes calm_env :: bool
    and fn :: "TableTask \<Rightarrow> world \<Rightarrow> string option \<times> world"
    and job_of :: "TableTask \<Rightarrow> int"
    and outcome :: "TableTask \<Rightarrow> string + int \<Rightarrow> bool"
  assumes settles: "calm_env \<Longrightarrow> store_ok (fst st) \<Longrightarrow> settles (job_of task) (fst st) (fst (snd (fn task st)))"
    and verdict: "calm_env \<Longrightarrow> job_of task \<in> row_id ` set (jobs (fst st)) \<Longrightarrow>
      \<exists>v. outcome task v \<and> ended_as v (job_of task) (fst (snd (fn task st))) \<and> (isl v \<longleftrightarrow> fst (fn task st) \<noteq> None)"
    and same_ids: "calm_env \<Longrightarrow> row_id ` set (jobs (fst (snd (fn task st)))) = row_id ` set (jobs (fst st))"
    and others: "calm_env \<Longrightarrow> i \<noteq> job_of task \<Longrightarrow> ended_as v i (fst st) \<Longrightarrow> ended_as v i (fst (snd (fn task st)))"
begin

lemma run_settles:
  assumes "calm_env" and "store_ok (fst st)" and "\<And>h. \<not> cancelled h"
  shows "store_ok (fst (snd (run_tasks fn cancelled first ts st))) \<and>
    GetPendingJobs run ph (fst (snd (run_tasks fn cancelled first ts st))) =
      filter (\<lambda>j. ID j \<notin> job_of ` set ts) (GetPendingJobs run ph (fst st))"
  using assms(2)
proof (induction ts arbitrary: first st)
  case (Cons t ts)
  obtain err st' where r: "fn t st = (err, st')" by (metis prod.exhaust)
  have set: "settles (job_of t) (fst st) (fst st')" using settles [OF assms(1) Cons.prems, of t] r by simp
  obtain first' where "run_tasks fn cancelled first (t # ts) st = run_tasks fn cancelled first' ts st'"
    using r assms(3) by (cases err) auto
  then show ?case
    using Cons.IH [OF settles_ok [OF set], of first'] set
    by (auto simp: settles_def intro: filter_cong)
qed simp

text \<open>Every job ends with a verdict of its task, and there is an error exactly if one of them failed.\<close>

lemma run_verdicts:
  assumes "calm_env" and "\<And>h. \<not> cancelled h" and "distinct (map job_of ts)"
    and "\<forall>t \<in> set ts. job_of t \<in> row_id ` set (jobs (fst st))"
  shows "\<exists>v. (\<forall>t \<in> set ts. outcome t (v t) \<and> ended_as (v t) (job_of t) (fst (snd (run_tasks fn cancelled first ts st)))) \<and>
    (fst (run_tasks fn cancelled first ts st) = None \<longleftrightarrow> first = None \<and> (\<forall>t \<in> set ts. \<not> isl (v t))) \<and>
    (\<forall>i u. i \<notin> job_of ` set ts \<longrightarrow> ended_as u i (fst st) \<longrightarrow> ended_as u i (fst (snd (run_tasks fn cancelled first ts st))))"
  using assms(3,4)
proof (induction ts arbitrary: first st)
  case (Cons t ts)
  obtain err st1 where r: "fn t st = (err, st1)" by (metis prod.exhaust)
  define first' where "first' = (if first = None then err else first)"
  have run: "run_tasks fn cancelled first (t # ts) st = run_tasks fn cancelled first' ts st1"
    using r assms(2) by (cases err) (auto simp: first'_def)
  have rows: "row_id ` set (jobs (fst st1)) = row_id ` set (jobs (fst st))" using same_ids [OF assms(1), of t st] r by simp
  obtain u where u: "outcome t u" "ended_as u (job_of t) (fst st1)" "isl u \<longleftrightarrow> err \<noteq> None"
    using verdict [OF assms(1), of t st] Cons.prems(2) r by auto
  have "distinct (map job_of ts)" "\<forall>x \<in> set ts. job_of x \<in> row_id ` set (jobs (fst st1))"
    using Cons.prems by (simp_all add: rows)
  from Cons.IH [OF this, of first'] obtain v where
    v [rule_format]: "\<forall>x \<in> set ts. outcome x (v x) \<and> ended_as (v x) (job_of x) (fst (snd (run_tasks fn cancelled first' ts st1)))"
      "fst (run_tasks fn cancelled first' ts st1) = None \<longleftrightarrow> first' = None \<and> (\<forall>x \<in> set ts. \<not> isl (v x))"
      "\<forall>i u. i \<notin> job_of ` set ts \<longrightarrow> ended_as u i (fst st1) \<longrightarrow> ended_as u i (fst (snd (run_tasks fn cancelled first' ts st1)))"
    by (elim exE conjE)
  have fresh: "job_of t \<notin> job_of ` set ts" and ne: "t \<notin> set ts" using Cons.prems(1) by auto
  then have "ended_as u (job_of t) (fst (snd (run_tasks fn cancelled first' ts st1)))" using u(2) v(3) by blast
  moreover have "ended_as q i (fst (snd (run_tasks fn cancelled first' ts st1)))"
    if "i \<notin> job_of ` set (t # ts)" "ended_as q i (fst st)" for i q
    using v(3) others [OF assms(1), of i t q st] r that by simp
  moreover have "first' = None \<longleftrightarrow> first = None \<and> \<not> isl u" using u(3) by (cases first) (simp_all add: first'_def)
  ultimately show ?case
    unfolding run using u(1) v(1,2) ne
    by (intro exI [of _ "v(t := u)"]) auto
qed simp

end

interpretation data:
  task_function "undisturbed env" "data_task env cfg w pending lookup" "task_job lookup" "task_outcome env cfg"
  for env cfg w pending lookup
proof
  fix task and st :: world assume env: "undisturbed env"
  obtain s h where st: "st = (s, h)" by force
  obtain err s' h' where r: "data_task env cfg w pending lookup task (s, h) = (err, (s', h'))" by (metis prod.exhaust)
  show "store_ok (fst st) \<Longrightarrow> settles (task_job lookup task) (fst st) (fst (snd (data_task env cfg w pending lookup task st)))"
    by (rule data_task_settles [OF env])
  show "\<exists>v. task_outcome env cfg task v \<and>
        ended_as v (task_job lookup task) (fst (snd (data_task env cfg w pending lookup task st))) \<and>
        (isl v \<longleftrightarrow> fst (data_task env cfg w pending lookup task st) \<noteq> None)"
    if "task_job lookup task \<in> row_id ` set (jobs (fst st))"
    using data_task_verdict [OF env refl _ r] that by (simp add: st r)
  show "row_id ` set (jobs (fst (snd (data_task env cfg w pending lookup task st)))) = row_id ` set (jobs (fst st))"
    using data_task_others(1) [OF env r] by (simp add: st r)
  show "ended_as v i (fst (snd (data_task env cfg w pending lookup task st)))"
    if "i \<noteq> task_job lookup task" "ended_as v i (fst st)" for v i
    using data_task_others(2) [OF env r] that by (simp add: st r)
qed

section \<open>Matching jobs and tasks\<close>

lemma taskMap_Some: "taskMap tasks k = Some t \<Longrightarrow> t \<in> set tasks \<and> taskKey t = k"
proof -
  have fold: "m k = Some t \<or> t \<in> set ts \<and> taskKey t = k"
    if "foldl (\<lambda>m task. m(taskKey task \<mapsto> task)) m ts k = Some t" for m ts
    using that
  proof (induction ts arbitrary: m)
    case (Cons a ts)
    from Cons.IH [of "m(taskKey a \<mapsto> a)"] Cons.prems show ?case by (auto split: if_splits)
  qed simp
  show "taskMap tasks k = Some t \<Longrightarrow> t \<in> set tasks \<and> taskKey t = k"
    using fold [of Map.empty tasks] by (simp add: taskMap_def)
qed

lemma taskMap_dom: "dom (taskMap tasks) = taskKey ` set tasks"
proof -
  have "dom (foldl (\<lambda>m task. m(taskKey task \<mapsto> task)) m ts) = dom m \<union> taskKey ` set ts" for m ts
    by (induction ts arbitrary: m) auto
  from this [of Map.empty tasks] show ?thesis by (simp add: taskMap_def)
qed

lemma matched_in: "(j, t) \<in> set (matched tasks js) \<longleftrightarrow> j \<in> set js \<and> taskMap tasks (job_key_of j) = Some t"
  by (auto simp: matched_def split: option.splits)

lemma jobLookup_matched:
  assumes "distinct (map job_key_of js)" and "(j, t) \<in> set (matched tasks js)"
  shows "jobLookup (matched tasks js) (taskKey t) = Some (ID j)"
proof -
  have fold: "foldl (\<lambda>m (j, t). m(job_key_of j \<mapsto> ID j)) m ms (job_key_of j) = Some (ID j)"
    if "(j, t) \<in> set ms \<or> m (job_key_of j) = Some (ID j)"
      "\<forall>(i, u) \<in> set ms. job_key_of i = job_key_of j \<longrightarrow> i = j" for m ms
    using that by (induction ms arbitrary: m) auto
  have uniq: "i = j" if "i \<in> set js" "job_key_of i = job_key_of j" for i
    using assms that matched_in by (metis distinct_map inj_onD)
  have "taskKey t = job_key_of j" using assms(2) taskMap_Some by (auto simp: matched_in)
  moreover have "jobLookup (matched tasks js) (job_key_of j) = Some (ID j)"
    unfolding jobLookup_def by (rule fold) (use assms(2) uniq in \<open>auto simp: matched_in\<close>)
  ultimately show ?thesis by simp
qed

lemma matched_jobs:
  assumes "\<forall>j \<in> set js. job_key_of j \<in> taskKey ` set tasks"
  shows "map fst (matched tasks js) = js"
  using assms
proof (induction js)
  case (Cons j js)
  then obtain t where "taskMap tasks (job_key_of j) = Some t"
    by (metis domD list.set_intros(1) taskMap_dom)
  then show ?case using Cons by (simp add: matched_def)
qed (simp add: matched_def)

lemma matched_ids:
  assumes "distinct (map job_key_of js)" and "\<forall>j \<in> set js. job_key_of j \<in> taskKey ` set tasks"
  shows "map (task_job (jobLookup (matched tasks js))) (map snd (matched tasks js)) = map ID js"
proof -
  have "task_job (jobLookup (matched tasks js)) t = ID j" if "(j, t) \<in> set (matched tasks js)" for j t
    using jobLookup_matched [OF assms(1) that] by (simp add: task_job_def)
  then have "map (\<lambda>p. task_job (jobLookup (matched tasks js)) (snd p)) (matched tasks js) =
      map (\<lambda>p. ID (fst p)) (matched tasks js)" by auto
  then show ?thesis using matched_jobs [OF assms(2)] by (metis (no_types, lifting) comp_def list.map_comp map_eq_conv)
qed

lemma executeDataMigration_grows:
  assumes "store_ok (fst st)" and env: "undisturbed env"
  shows "grows {} run (fst st) (fst (snd (executeDataMigration env cfg w runID plan ord st)))"
proof -
  have "grows {} run (fst q) (fst (snd (run_tasks (data_task env cfg w pending lookup) cancelled first ts q)))"
    if "store_ok (fst q)" for pending lookup cancelled first ts q
    using that
  proof (induction ts arbitrary: first q)
    case Nil
    then show ?case by (simp add: grows_refl)
  next
    case (Cons t ts)
    obtain err q' where r: "data_task env cfg w pending lookup t q = (err, q')" by (metis prod.exhaust)
    have g: "grows {} run (fst q) (fst q')" using data_task_grows [OF env Cons.prems, of run cfg w pending lookup t] r by simp
    then show ?case
      using r grows_refl [OF Cons.prems] grows_trans [OF g Cons.IH [OF grows_ok [OF g]]] by (cases err) auto
  qed
  then show ?thesis
    using assms(1) grows_refl [OF assms(1)] env by (simp add: executeDataMigration_def Let_def undisturbed_def reliable_env)
qed

lemma executeDataMigration_settles:
  assumes "store_ok s" and env: "undisturbed env" and "\<forall>ts. set (ord ts) = set ts"
    and "\<forall>j \<in> set (GetPendingJobs runID ''data'' s). job_key_of j \<in> taskKey ` set (DataTasks plan)"
    and "distinct (map job_key_of (GetPendingJobs runID ''data'' s))"
  shows "GetPendingJobs runID ''data'' (fst (snd (executeDataMigration env cfg w runID plan ord (s, h)))) = []"
proof -
  let ?js = "GetPendingJobs runID ''data'' s"
  let ?ms = "matched (DataTasks plan) ?js"
  let ?ids = "task_job (jobLookup ?ms) ` set (ord (map snd ?ms))"
  have env': "reliable (store_answer env)" "\<And>h. \<not> ctx_done env h" using env by (simp_all add: undisturbed_def)
  have "?ids = set (map (task_job (jobLookup ?ms)) (map snd ?ms))" unfolding set_map [of _ "map snd ?ms"] using assms(3) by (simp only:)
  also have "\<dots> = set (map ID ?js)" by (simp only: matched_ids [OF assms(5,4)])
  finally have "filter (\<lambda>j. ID j \<notin> ?ids) ?js = []" by (simp add: filter_empty_conv)
  moreover have "store_ok (fst (s, h))" by (simp add: assms(1))
  ultimately show ?thesis
    using data.run_settles [OF env, of "(s, h)" "ctx_done env"] env'(2)
    by (simp add: executeDataMigration_def Let_def reliable_env [OF env'(1)])
qed

section \<open>Properties\<close>



definition data_demo_env :: "(history \<Rightarrow> TableTask \<Rightarrow> int \<Rightarrow> string + nat) \<Rightarrow> data_env" where
  "data_demo_env copy = \<lparr>clock = \<lambda>_. ''t1'', store_answer = \<lambda>_ _ _. None, server = quiet_server, ora_query = \<lambda>_. Inr 0, ora_stats = \<lambda>_ _. Inr 0,
     copy_result = copy, ctx_done = \<lambda>_. False, ctx_expires = \<lambda>_. False\<rparr>"

lemma demo_data_env:
  "reliable (store_answer (data_demo_env copy))" "\<not> ctx_done (data_demo_env copy) h" "\<not> ctx_expires (data_demo_env copy) h"
  by (simp_all add: data_demo_env_def reliable_def)

text \<open>The first attempt fails, the next one copies ten rows.\<close>

definition flaky_copy :: "history \<Rightarrow> TableTask \<Rightarrow> int \<Rightarrow> string + nat" where
  "flaky_copy h task batch = (if length h \<le> 1 then Inl ''ORA-03113'' else Inr 10)"

definition append_task :: TableTask where
  "append_task = (plain_task (bare_table ''DEPT'' 4))\<lparr>t_TargetMode := TargetModeAppend\<rparr>"

definition data_db :: job_db where
  "data_db = \<lparr>runs = [], jobs = [new_row ''t0'' 1 (data_job ''r1'' append_task)], next_id = 2\<rparr>"

text \<open>The context is cancelled during the only attempt.\<close>

definition cancelled_env :: data_env where
  "cancelled_env = (data_demo_env (\<lambda>_ _ _. Inl ''ORA-01013''))\<lparr>ctx_done := \<lambda>h. h \<noteq> []\<rparr>"



text \<open>
  C19. Chunks of one partition in \<open>truncate_partition\<close> mode destroy each other: the truncation before
  the copy is done per task, so when two chunk tasks of a partition run one after the other, the
  statements are truncate, copy, truncate, copy on the same target; both tasks succeed, and the rows
  of the first chunk are gone. (The job store executes every statement, the copies succeed, and the
  context is not cancelled.)
\<close>

theorem truncate_partition_chunks_lose_rows:
  assumes "t_Partition a = Some p" "t_Chunk a = Some c" "t_TargetMode a = TargetModeTruncatePartition"
    and "b = a\<lparr>t_Chunk := Some d, t_Where := where'\<rparr>"
    and "\<not> is_retry pending lookup a" "\<not> is_retry pending lookup b"
    and "\<forall>h n. pg_exists (server env) h (lookup_schema w) n = Inr True"
    and "\<forall>h k n. \<exists>r. copy_result env h k n = Inr r" "\<forall>h. \<not> ctx_done env h"
    and "run_tasks (data_task env cfg w pending lookup) (ctx_done env) None [a, b] (s, h) = (err, (s', h'))"
    and "reliable (store_answer env)"
  shows "err = None \<and> h' = h @ [clear_stmt w a, copy_stmt w a, clear_stmt w a, copy_stmt w a]"
proof -
  have one: "fst (data_task env cfg w pending lookup k st) = None \<and>
      snd (snd (data_task env cfg w pending lookup k st)) = snd st @ [clear_stmt w k, copy_stmt w k]"
    if "t_Partition k = Some p" "t_TargetMode k = TargetModeTruncatePartition" "\<not> is_retry pending lookup k" for k st
  proof -
    obtain q g where st: "st = (q, g)" by force
    have "prepare (server env) w (is_retry pending lookup k) k g = g @ [clear_stmt w k]"
      using that clear_partition [of k p "server env" g w] assms(7) by (simp add: prepare_def)
    moreover obtain r where "copy_result env (g @ [clear_stmt w k]) k (task_batch cfg k) = Inr r"
      using assms(8) by blast
    ultimately have "attempts env cfg w pending lookup k g = (Inr r, g @ [clear_stmt w k, copy_stmt w k])"
      unfolding attempts_def by (subst pipeline.simps) (simp add: Let_def)
    moreover have "\<not> ctx_done env g" using assms(9) by simp
    ultimately show ?thesis using assms(9) by (simp add: st data_task_result [OF assms(11)] Let_def)
  qed
  have same: "clear_stmt w b = clear_stmt w a" "copy_stmt w b = copy_stmt w a"
    by (simp_all add: assms(4) clear_stmt_def copy_stmt_def)
  obtain st1 where 1: "data_task env cfg w pending lookup a (s, h) = (None, st1)"
    "snd st1 = h @ [clear_stmt w a, copy_stmt w a]"
    using one [OF assms(1,3,5), of "(s, h)"] by (metis prod.collapse snd_conv)
  obtain st2 where 2: "data_task env cfg w pending lookup b st1 = (None, st2)"
    "snd st2 = snd st1 @ [clear_stmt w b, copy_stmt w b]"
    using one [of b st1] assms(1,3,4,6) by (metis TableTask.select_convs(2,9) TableTask.surjective TableTask.update_convs(3,5) prod.collapse)
  show ?thesis using assms(9,10) 1 2 same by auto
qed

definition part_chunk :: "int \<Rightarrow> TableTask" where
  "part_chunk i = (chunk_task ''SALES'' i)\<lparr>t_Partition := Some (sample_part ''P1'' ''MAXVALUE''), t_Where := ''w'' @ itoa i,
     t_TargetMode := TargetModeTruncatePartition\<rparr>"

theorem truncate_partition_chunks_lose_rows_witness:
  "snd (snd (run_tasks (data_task (data_demo_env (\<lambda>_ _ _. Inr 10)) sample_config (NewWriter ''public'') [] Map.empty)
      (\<lambda>_. False) None [part_chunk 0, part_chunk 1] (empty_db, []))) =
    [''TRUNCATE TABLE \"sales_p1\"'', ''COPY \"sales_p1\"'', ''TRUNCATE TABLE \"sales_p1\"'', ''COPY \"sales_p1\"'']"
proof -
  let ?env = "data_demo_env (\<lambda>_ _ _. Inr 10)" and ?w = "NewWriter ''public''" and ?a = "part_chunk 0"
  let ?c = "\<lambda>i. \<lparr>ch_ID = i, StartRID = '''', EndRID = '''', ch_PartitionName = ''''\<rparr>"
  obtain err s' h' where r: "run_tasks (data_task ?env sample_config ?w [] Map.empty) (ctx_done ?env) None
      [?a, part_chunk 1] (empty_db, []) = (err, (s', h'))" by (metis prod.exhaust)
  have a: "t_Partition ?a = Some (sample_part ''P1'' ''MAXVALUE'')" "t_Chunk ?a = Some (?c 0)"
    "t_TargetMode ?a = TargetModeTruncatePartition"
    "part_chunk 1 = ?a\<lparr>t_Chunk := Some (?c 1), t_Where := ''w'' @ itoa 1\<rparr>"
    "\<not> is_retry [] Map.empty ?a" "\<not> is_retry [] Map.empty (part_chunk 1)"
    by (simp_all add: part_chunk_def chunk_task_def is_retry_def)
  have env: "\<forall>h n. pg_exists (server ?env) h (lookup_schema ?w) n = Inr True"
    "\<forall>h k n. \<exists>r. copy_result ?env h k n = Inr r" "\<forall>h. \<not> ctx_done ?env h"
    by (simp_all add: data_demo_env_def quiet_server_def)
  have "clear_stmt ?w ?a = ''TRUNCATE TABLE \"sales_p1\"''" "copy_stmt ?w ?a = ''COPY \"sales_p1\"''"
    by code_simp+
  then have "h' = [''TRUNCATE TABLE \"sales_p1\"'', ''COPY \"sales_p1\"'', ''TRUNCATE TABLE \"sales_p1\"'', ''COPY \"sales_p1\"'']"
    using truncate_partition_chunks_lose_rows [OF a env r demo_data_env(1)] by simp
  moreover have "ctx_done ?env = (\<lambda>_. False)" by (simp add: data_demo_env_def)
  ultimately show ?thesis using r by simp
qed

text \<open>
  A chunk of a partition is copied again on resume without any clean-up: its job key
  (\<open>P1:chunk:0\<close>) does not start with \<open>chunk:\<close>, so \<open>resetFailedChunkedTables\<close> neither truncates the
  table nor touches the job, and the task itself sends nothing but the copy. Rows that the failed attempt had
  committed are there twice afterwards.
\<close>

theorem retried_partition_chunk_duplicates:
  assumes "t_Partition task = Some p" "t_Chunk task \<noteq> None" "t_Where task \<noteq> ''''"
    and "part_Name p \<noteq> ''''" "\<not> HasPrefix (part_Name p @ '':chunk:'') ''chunk:''"
    and "is_retry pending lookup task" and "reliable (store_answer env)" "\<not> ctx_done env h"
  shows "\<not> chunk_row runID (new_row now i (data_job runID task)) \<and>
    snd (snd (data_task env cfg w pending lookup task (s, h))) = h @ [copy_stmt w task]"
proof -
  obtain c where c: "t_Chunk task = Some c" using assms(2) by blast
  have "HasPrefix ((part_Name p @ '':chunk:'') @ itoa (ch_ID c)) ''chunk:'' = HasPrefix (part_Name p @ '':chunk:'') ''chunk:''"
    by (rule HasPrefix_shorter) simp
  then have "\<not> HasPrefix (part_Name p @ '':chunk:'' @ itoa (ch_ID c)) ''chunk:''"
    using assms(5) by (simp only: append_assoc simp_thms)
  then have "\<not> chunk_row runID (new_row now i (data_job runID task))"
    by (simp add: chunk_row_def new_row_def data_job_def jobPartitionKey_def Let_def assms(1,4) c)
  moreover have "snd (attempts env cfg w pending lookup task h) = h @ [copy_stmt w task]"
    using pipeline_history [of task 0 env w "task_batch cfg task" 0 h] assms(2,3,6)
    by (simp add: attempts_def prepare_def maxPipelineRetries_def)
  ultimately show ?thesis by (simp add: data_task_history [OF assms(7,8)])
qed

theorem retried_partition_chunk_duplicates_witness:
  "snd (snd (data_task (data_demo_env (\<lambda>_ _ _. Inr 10)) sample_config (NewWriter ''public'')
     [(data_job ''r1'' (part_chunk 0))\<lparr>ID := 3, State := JobRetrying\<rparr>] [taskKey (part_chunk 0) \<mapsto> 3] (part_chunk 0) (resume_db, []))) =
   [copy_stmt (NewWriter ''public'') (part_chunk 0)]"
proof -
  have 1: "t_Partition (part_chunk 0) = Some (sample_part ''P1'' ''MAXVALUE'')" "t_Chunk (part_chunk 0) \<noteq> None"
    "t_Where (part_chunk 0) \<noteq> ''''"
    by (simp_all add: part_chunk_def chunk_task_def)
  have 2: "part_Name (sample_part ''P1'' ''MAXVALUE'') \<noteq> ''''"
    "\<not> HasPrefix (part_Name (sample_part ''P1'' ''MAXVALUE'') @ '':chunk:'') ''chunk:''"
    by (simp_all add: sample_part_def HasPrefix_def)
  have 3: "is_retry [(data_job ''r1'' (part_chunk 0))\<lparr>ID := 3, State := JobRetrying\<rparr>] [taskKey (part_chunk 0) \<mapsto> 3] (part_chunk 0)"
    by (simp add: is_retry_def task_job_def)
  show ?thesis using retried_partition_chunk_duplicates [OF 1 2 3 demo_data_env(1,2)] by simp
qed

end
