(* ===== verification/Engine_Run.thy ===== *)
theory Engine_Run
  imports Engine_Data Plan_Resolve
begin

text \<open>
  \<open>Run\<close> and \<open>Resume\<close> of \<open>internal/migration/engine.go\<close>: the phases in order. The environment adds
  what the planning needs from Oracle (the extracted schema, the row estimates and the ROWID chunks)
  and the answers of the server's clock. The outer \<open>option\<close> is a Go panic (an index out of range while
  chunks are resolved, or the use of a summary that could not be read). Connections, the phase
  callback and log lines are left out.
\<close>

record 'f run_env = data_env +
  extracted :: "string + Schema"
  estimate_rows :: "string \<Rightarrow> string \<Rightarrow> string + int"
  part_rowids :: "string \<Rightarrow> string \<Rightarrow> int \<Rightarrow> string + RowIDChunk list"
  table_rowids :: "string \<Rightarrow> string \<Rightarrow> int \<Rightarrow> string + RowIDChunk list"
  parse_float :: "string \<Rightarrow> 'f option"
  less_float :: "'f \<Rightarrow> 'f \<Rightarrow> bool"
  worker_order :: "TableTask list \<Rightarrow> TableTask list"
  table_order :: "string list" \<comment> \<open>Go's iteration order over a map keyed by table\<close>
  parse_time :: "string \<Rightarrow> string option"

section \<open>Planning\<close>

text \<open>\<open>BuildPlan\<close>, chunk resolution and interleaving, as \<open>Run\<close> and \<open>Resume\<close> do them.\<close>

definition make_plan :: "'f run_env \<Rightarrow> Config \<Rightarrow> Schema \<Rightarrow> MigrationPlan option" where
  "make_plan env cfg s =
     Option.bind
       (resolve_plan (estimate_rows env) (part_rowids env) (table_rowids env) (Migration cfg)
         (BuildPlan (parse_float env) (less_float env) s (Migration cfg) (DropTarget (Postgres cfg))))
       (\<lambda>plan. Option.bind (interleaveTasksByTable (DataTasks plan)) (\<lambda>ts. Some (plan\<lparr>DataTasks := ts\<rparr>)))"

section \<open>\<open>Run\<close>\<close>

definition prevCompleted :: "sqlite \<Rightarrow> job_db \<Rightarrow> string \<rightharpoonup> int" where
  "prevCompleted sql s =
     (case query_on (sql ''GetLatestRunID'' 0 s) (GetLatestRunID s) of
        Inl e \<Rightarrow> Map.empty
      | Inr prevRunID \<Rightarrow>
          (case query_on (sql ''GetCompletedPartitions'' 0 s) (Inr (GetCompletedPartitions prevRunID s)) of
             Inl e \<Rightarrow> Map.empty | Inr m \<Rightarrow> m))"

definition run_writer :: "Config \<Rightarrow> Writer \<Rightarrow> Writer" where
  "run_writer cfg w =
     SetNaming \<lparr>Convention = NamingConvention (Migration cfg), TypeOverrides = m_TypeOverrides (Migration cfg),
        NameOverrides = m_NameOverrides (Migration cfg)\<rparr>
       (if Unlogged (Postgres cfg) then SetUnlogged True w else w)"

text \<open>An error of a phase gets the prefix of the phase and ends the run.\<close>

definition phase_err :: "string \<Rightarrow> string option \<times> world \<Rightarrow> string option \<times> world" where
  "phase_err prefix r = (case r of (None, st) \<Rightarrow> (None, st) | (Some e, st) \<Rightarrow> (Some (prefix @ e), st))"

definition create_sequences :: "pg_server \<Rightarrow> Writer \<Rightarrow> Sequence list \<Rightarrow> history \<Rightarrow> history" where
  "create_sequences srv w seqs h = foldl (\<lambda>h seq. snd (CreateSequence srv w seq h)) h seqs"

text \<open>The phases after the data phase.\<close>

definition finish_run ::
    "'f run_env \<Rightarrow> Config \<Rightarrow> Writer \<Rightarrow> string \<Rightarrow> MigrationPlan \<Rightarrow> world \<Rightarrow> string option \<times> world" where
  "finish_run env cfg w runID plan st =
     (let base = engine_env.truncate env;
          (s, h) = st;
          h1 = (if Unlogged (Postgres cfg)
                then snd (ConvertToLogged (server env) w (map tbl_Name (DDLOrder plan)) h) else h)
      in and_then (phase_err ''constraints phase: '' (executeConstraints base cfg w runID plan (s, h1))) (\<lambda>(s2, h2).
         let h3 = create_sequences (server env) w (plan_Sequences plan) h2
         in if ValidateAfter (Migration cfg)
            then phase_err ''validation phase: '' (executeValidation base cfg w runID plan (s2, h3))
            else (None, (s2, h3))))"

text \<open>The error of \<open>GetRunSummary\<close> is ignored and its \<open>nil\<close> summary used: a panic.\<close>

definition run_verdict :: "'f run_env \<Rightarrow> string \<Rightarrow> world \<Rightarrow> (string option \<times> world) option" where
  "run_verdict env runID st =
     (case query_on (store_answer env ''GetRunSummary'' 0 (fst st)) (Inr (GetRunSummary (parse_time env) runID (fst st))) of
        Inl e \<Rightarrow> None
      | Inr summary \<Rightarrow>
          let n = Failed summary
          in Some (if n > 0 then Some (itoa n @ '' jobs failed, use '' @ [CHR 0x27] @ ''resume'' @ [CHR 0x27] @ '' command to retry'')
                   else None, st))"

text \<open>Everything after the look at the previous run; \<open>prev\<close> is what that run completed.\<close>

definition run_plan ::
    "'f run_env \<Rightarrow> Config \<Rightarrow> Writer \<Rightarrow> string \<Rightarrow> MigrationPlan \<Rightarrow> (string \<rightharpoonup> int) \<Rightarrow> world \<Rightarrow> (string option \<times> world) option" where
  "run_plan env cfg w0 runID plan prev st =
     (let (s, h) = st;
          w = run_writer cfg w0;
          (err, s1) = initJobs (store_answer env) (clock env) cfg runID plan prev s;
          phases =
            and_then (phase_err ''init jobs: '' (err, (s1, h))) (\<lambda>st.
            and_then (phase_err ''ddl phase: '' (executeDDL (engine_env.truncate env) cfg w runID plan st)) (\<lambda>st.
            and_then (phase_err ''data phase: ''
                (executeDataMigration (data_env.truncate env) cfg w runID plan (worker_order env) st)) (\<lambda>st.
            finish_run env cfg w runID plan st)))
      in case phases of
           (Some e, st) \<Rightarrow> Some (Some e, st)
         | (None, st) \<Rightarrow> run_verdict env runID st)"

definition Run ::
    "'f run_env \<Rightarrow> Config \<Rightarrow> Writer \<Rightarrow> string \<Rightarrow> string \<Rightarrow> world \<Rightarrow> (string option \<times> world) option" where
  "Run env cfg w0 runID configHash st =
     (let (s, h) = st
      in case CreateRun (store_answer env ''CreateRun'' 0 s) (clock env s) runID configHash s of
           Inl e \<Rightarrow> Some (Some (''create run: '' @ e), st)
         | Inr s1 \<Rightarrow>
             (case extracted env of
                Inl e \<Rightarrow> Some (Some (''extract: '' @ e), (s1, h))
              | Inr sch \<Rightarrow>
                  (case make_plan env cfg sch of
                     None \<Rightarrow> None
                   | Some plan \<Rightarrow>
                       run_plan env cfg w0 runID plan (prevCompleted (store_answer env) s1) (s1, h))))"

section \<open>\<open>Resume\<close>\<close>

definition Resume :: "'f run_env \<Rightarrow> Config \<Rightarrow> Writer \<Rightarrow> world \<Rightarrow> (string option \<times> world) option" where
  "Resume env cfg w st =
     (let (s, h) = st
      in case query_on (store_answer env ''GetLatestRunID'' 0 s) (GetLatestRunID s) of
           Inl e \<Rightarrow> Some (Some (''get latest run: '' @ e), st)
         | Inr runID \<Rightarrow>
             (case exec_on (store_answer env ''MarkFailedAsRetrying'' 0 s)
                     (\<lambda>s. snd (MarkFailedAsRetrying (clock env s) runID s)) s of
                (Some e, s1) \<Rightarrow> Some (Some (''mark retrying: '' @ e), (s1, h))
              | (None, s1) \<Rightarrow>
                  let st2 = snd (resetFailedChunkedTables (store_answer env) (clock env) (server env) w
                                   (table_order env) runID (s1, h))
                  in (case extracted env of
                        Inl e \<Rightarrow> Some (Some (''extract for resume: '' @ e), st2)
                      | Inr sch \<Rightarrow>
                          (case make_plan env cfg sch of
                             None \<Rightarrow> None
                           | Some plan \<Rightarrow>
                               (case and_then (phase_err ''data phase resume: ''
                                    (executeDataMigration (data_env.truncate env) cfg w runID plan (worker_order env) st2))
                                  (\<lambda>st. phase_err ''constraints phase resume: ''
                                    (executeConstraints (engine_env.truncate env) cfg w runID plan st)) of
                                  (Some e, st) \<Rightarrow> Some (Some e, st)
                                | (None, st) \<Rightarrow>
                                    if store_answer env ''GetRunSummary'' 0 (fst st) = None then Some (None, st) else None)))))"

section \<open>Lemmas\<close>


text \<open>What planning gives the phases: names that identify tables and tasks.\<close>

definition plan_ok :: "MigrationPlan \<Rightarrow> bool" where
  "plan_ok plan \<longleftrightarrow> distinct (map tbl_Name (DDLOrder plan)) \<and> distinct (map tbl_Name (ConstraintOrder plan)) \<and>
     distinct (map (\<lambda>k. (tbl_Name (t_Table k), jobPartitionKey k)) (DataTasks plan)) \<and>
     distinct (map taskKey (DataTasks plan)) \<and> (\<forall>k \<in> set (DataTasks plan). named_task k)"

text \<open>
  The environment lets the phases finish: the store executes every statement, no cancellation, and
  the workers run all tasks.
\<close>

definition fair :: "'f run_env \<Rightarrow> bool" where
  "fair env \<longleftrightarrow> reliable (store_answer env) \<and> (\<forall>h. \<not> ctx_done env h) \<and> (\<forall>ts. set (worker_order env ts) = set ts)"

lemma truncate_simps [simp]:
  "store_answer (engine_env.truncate env) = store_answer env" "clock (engine_env.truncate env) = clock env"
  "store_answer (data_env.truncate env) = store_answer env" "ctx_done (data_env.truncate env) = ctx_done env"
  by (simp_all add: engine_env.truncate_def data_env.truncate_def)

lemma view_names: "map view js = map f ts \<Longrightarrow> j \<in> set js \<Longrightarrow> view j \<in> f ` set ts"
  by (metis image_eqI image_set)

lemma finish_run_state:
  assumes "store_ok s"
    and "\<forall>j \<in> set (GetPendingJobs runID ''constraints'' s). TableName j \<in> tbl_Name ` set (ConstraintOrder plan)"
    and "finish_run env cfg w runID plan (s, h) = (None, (s', h'))" and "reliable (store_answer env)"
  shows "grows {} runID s s' \<and> GetPendingJobs runID ''constraints'' s' = [] \<and>
    (ValidateAfter (Migration cfg) \<longrightarrow> GetPendingJobs runID ''validate'' s' = [])"
proof -
  let ?base = "engine_env.truncate env"
  let ?h1 = "if Unlogged (Postgres cfg) then snd (ConvertToLogged (server env) w (map tbl_Name (DDLOrder plan)) h) else h"
  obtain e2 s2 h2 where c2: "executeConstraints ?base cfg w runID plan (s, ?h1) = (e2, (s2, h2))" by (metis prod.exhaust)
  have "e2 = None" using executeConstraints_loops [of ?base cfg w runID plan "(s, ?h1)"] assms(4) c2 by (simp add: Let_def)
  then have c: "executeConstraints ?base cfg w runID plan (s, ?h1) = (None, (s2, h2))" using c2 by simp
  have g2: "grows {} runID s s2"
    using executeConstraints_grows [of "(s, ?h1)" ?base runID cfg w runID plan] assms(1,4) c by simp
  have none: "GetPendingJobs runID ''constraints'' s2 = []"
    using executeConstraints_settles [of "(s, ?h1)" ?base runID plan cfg w] assms(1,2,4) c by simp
  define h3 where "h3 = create_sequences (server env) w (plan_Sequences plan) h2"
  show ?thesis
  proof (cases "ValidateAfter (Migration cfg)")
    case True
    obtain ev sv hv where v0: "executeValidation ?base cfg w runID plan (s2, h3) = (ev, (sv, hv))" by (metis prod.exhaust)
    have v: "executeValidation ?base cfg w runID plan (s2, h3) = (ev, (s', h'))"
      using assms(3) c v0 True by (cases ev) (simp_all add: finish_run_def Let_def h3_def phase_err_def)
    have g: "grows {} runID s2 s'"
      using executeValidation_grows [of "(s2, h3)" ?base runID cfg w runID plan] grows_ok [OF g2] v assms(4) by simp
    have "GetPendingJobs runID ''validate'' s' = []"
      using executeValidation_settles [of "(s2, h3)" ?base runID cfg w plan] grows_ok [OF g2] v assms(4) by simp
    moreover have "GetPendingJobs runID ''constraints'' s' = []"
      using g none unfolding grows_def by (metis set_empty subset_empty)
    ultimately show ?thesis using grows_trans [OF g2 g] by simp
  next
    case False
    then have "s' = s2" using assms(3) c by (simp add: finish_run_def Let_def phase_err_def)
    then show ?thesis using g2 none False by simp
  qed
qed

lemma pending_row: "store_ok s \<Longrightarrow> r \<in> set (jobs s) \<Longrightarrow> is_pending r \<Longrightarrow> GetPendingJobs (run_id r) (phase r) s \<noteq> []"
  by (force simp: pending_rows filter_empty_conv)

lemma init_phases: "(\<lambda>jq. jkey (fst jq)) ` set (init_list cfg runID plan prev) \<subseteq>
  {(r, n, p, ph). r = runID \<and> ph \<in> {''ddl'', ''data'', ''constraints'', ''validate''}}"
  by (auto simp: init_list_def jkey_def table_job_def data_job_def)

text \<open>Pending data jobs find their tasks.\<close>

lemma pending_data_tasks:
  assumes "store_ok s" "store_ok q" and "distinct (map taskKey ts)" "\<forall>k \<in> set ts. named_task k"
    and "map view (GetPendingJobs runID ''data'' s) = map (\<lambda>k. (tbl_Name (t_Table k), jobPartitionKey k)) (filter p ts)"
    and sub: "set (GetPendingJobs runID ''data'' q) \<subseteq> set (GetPendingJobs runID ''data'' s)"
  shows "\<forall>j \<in> set (GetPendingJobs runID ''data'' q). job_key_of j \<in> taskKey ` set ts"
    "distinct (map job_key_of (GetPendingJobs runID ''data'' q))"
proof -
  let ?js = "GetPendingJobs runID ''data'' s" and ?qs = "GetPendingJobs runID ''data'' q"
  have "map job_key_of ?js = map (\<lambda>(n, p). jobKey n p) (map view ?js)"
    by (simp add: job_key_of_def view_def)
  also have "\<dots> = map taskKey (filter p ts)"
    unfolding assms(5) using assms(4) by (simp add: jobKey_task)
  finally have keys: "map job_key_of ?js = map taskKey (filter p ts)" .
  then have "job_key_of ` set ?js = taskKey ` set (filter p ts)" by (metis set_map)
  then have "job_key_of ` set ?js \<subseteq> taskKey ` set ts" by auto
  then have "job_key_of j \<in> taskKey ` set ts" if "j \<in> set ?qs" for j
    by (rule subsetD [OF _ imageI]) (rule subsetD [OF sub that])
  then show "\<forall>j \<in> set ?qs. job_key_of j \<in> taskKey ` set ts" by (rule ballI)
  have "distinct (map job_key_of ?js)" unfolding keys using assms(3) by (simp add: distinct_map_filter)
  then have "inj_on job_key_of (set ?js)" by (simp add: distinct_map)
  then have "inj_on job_key_of (set ?qs)" by (rule inj_on_subset [OF _ sub])
  moreover have "distinct ?qs" using pending_ids [OF assms(2)] by (simp add: distinct_map)
  ultimately show "distinct (map job_key_of ?qs)" by (simp add: distinct_map)
qed

text \<open>A run that ends with a verdict: every phase went through and left nothing pending or running.\<close>

lemma run_plan_phases:
  assumes "store_ok s" and "run_jobs runID s = []" and "plan_ok plan" and "fair env" and "ValidateAfter (Migration cfg)"
    and "run_plan env cfg w0 runID plan prev (s, h) = Some (None, (s', h'))"
  shows "store_ok s' \<and> running_of runID s' = {} \<and> count_state JobFailed (run_jobs runID s') = 0 \<and>
    (\<forall>ph \<in> {''ddl'', ''data'', ''constraints'', ''validate''}. GetPendingJobs runID ph s' = []) \<and>
    (\<forall>r \<in> set (run_jobs runID s'). phase r \<in> {''ddl'', ''data'', ''constraints'', ''validate''})"
proof -
  let ?w = "run_writer cfg w0" and ?prev = prev
  let ?base = "engine_env.truncate env" and ?denv = "data_env.truncate env"
  have plan: "distinct (map tbl_Name (DDLOrder plan))" "distinct (map tbl_Name (ConstraintOrder plan))"
    "distinct (map (\<lambda>k. (tbl_Name (t_Table k), jobPartitionKey k)) (DataTasks plan))"
    "distinct (map taskKey (DataTasks plan))" "\<forall>k \<in> set (DataTasks plan). named_task k"
    using assms(3) by (simp_all add: plan_ok_def)
  have rel: "reliable (store_answer env)" using assms(4) by (simp add: fair_def)
  have rel': "reliable (store_answer ?base)" using rel by simp
  obtain s1 where 1: "initJobs (store_answer env) (clock env) cfg runID plan ?prev s = (None, s1)" "store_ok s1"
    "job_key ` set (jobs s1) = job_key ` set (jobs s) \<union> (\<lambda>jq. jkey (fst jq)) ` set (init_list cfg runID plan ?prev)"
    "running_of runID s1 = running_of runID s"
    "map view (GetPendingJobs runID ''ddl'' s1) =
      map (\<lambda>t. (tbl_Name t, '''')) (filter (\<lambda>t. \<not> tableFullyCompleted cfg plan ?prev (tbl_Name t)) (DDLOrder plan))"
    "map view (GetPendingJobs runID ''data'' s1) =
      map (\<lambda>k. (tbl_Name (t_Table k), jobPartitionKey k)) (filter (\<lambda>k. skip_task cfg plan ?prev k = None) (DataTasks plan))"
    "map view (GetPendingJobs runID ''constraints'' s1) =
      map (\<lambda>t. (tbl_Name t, '''')) (filter (\<lambda>t. \<not> tableFullyCompleted cfg plan ?prev (tbl_Name t)) (ConstraintOrder plan))"
    using initJobs_result [OF assms(1,2) plan(1-3) rel, of "clock env" cfg ?prev] by - (elim exE conjE, rule that)
  obtain e2 s2 h2 where 2: "executeDDL ?base cfg ?w runID plan (s1, h) = (e2, (s2, h2))" by (metis prod.exhaust)
  obtain e3 s3 h3 where 3: "executeDataMigration ?denv cfg ?w runID plan (worker_order env) (s2, h2) = (e3, (s3, h3))"
    by (metis prod.exhaust)
  have e2: "e2 = None" using assms(6) 1(1) 2 by (cases e2) (simp_all add: run_plan_def phase_err_def Let_def)
  have e3: "e3 = None" using assms(6) 1(1) 2 e2 3 by (cases e3) (simp_all add: run_plan_def phase_err_def Let_def)
  obtain e4 s4 h4 where 4: "finish_run env cfg ?w runID plan (s3, h3) = (e4, (s4, h4))" by (metis prod.exhaust)
  have e4: "e4 = None" using assms(6) 1(1) 2 e2 3 e3 4 by (cases e4) (simp_all add: run_plan_def phase_err_def Let_def)
  have v: "run_verdict env runID (s4, h4) = Some (None, (s', h'))"
    using assms(6) 1(1) 2 3 4 by (simp add: run_plan_def phase_err_def Let_def e2 e3 e4)
  then have "(s4, h4) = (s', h')" by (simp add: run_verdict_def Let_def split: sum.splits if_splits)
  then have fin: "finish_run env cfg ?w runID plan (s3, h3) = (None, (s', h'))" using 4 e4 by simp
  have nofail: "count_state JobFailed (run_jobs runID s') = 0"
    using v \<open>(s4, h4) = (s', h')\<close>
    by (auto simp: run_verdict_def Let_def GetRunSummary_def count_state_def reliable_answer [OF rel] split: if_splits)
  let ?calm = "calm ?denv"
  have calm: "undisturbed ?calm" using assms(4) by (simp add: undisturbed_def fair_def)
  have 3: "executeDataMigration ?calm cfg ?w runID plan (worker_order env) (s2, h2) = (None, (s3, h3))"
    using executeDataMigration_calm [of ?denv] 3 e3 assms(4) by (simp add: fair_def)
  have g2: "grows {} runID s1 s2" using executeDDL_grows [OF rel', of "(s1, h)" runID cfg ?w runID plan] 1(2) 2 by simp
  have g3: "grows {} runID s2 s3"
    using executeDataMigration_grows [of "(s2, h2)" ?calm runID cfg ?w runID plan "worker_order env"] grows_ok [OF g2] 3 calm
    by simp
  have sub: "set (GetPendingJobs runID ph s2) \<subseteq> set (GetPendingJobs runID ph s1)"
    "set (GetPendingJobs runID ph s3) \<subseteq> set (GetPendingJobs runID ph s2)" for ph
    using g2 g3 by (simp_all add: grows_def)
  have names: "TableName j \<in> tbl_Name ` set ts" if "map view js = map (\<lambda>t. (tbl_Name t, '''')) (filter p ts)" "j \<in> set js"
    for js p ts j
    using view_names [OF that] by (auto simp: view_def)
  have "GetPendingJobs runID ''ddl'' s2 = []"
    using executeDDL_settles [OF 1(2) rel' _ 2 [unfolded e2]] names [OF 1(5)] by blast
  moreover have "GetPendingJobs runID ''data'' s3 = []"
    using executeDataMigration_settles [OF grows_ok [OF g2] calm, of "worker_order env" runID plan cfg ?w h2]
      pending_data_tasks [OF 1(2) grows_ok [OF g2] plan(4,5) 1(6) sub(1)] 3 assms(4)
    by (simp add: fair_def)
  moreover have con: "\<forall>j \<in> set (GetPendingJobs runID ''constraints'' s3). TableName j \<in> tbl_Name ` set (ConstraintOrder plan)"
    using names [OF 1(7)] sub by blast
  note state = finish_run_state [OF grows_ok [OF g3] con fin rel]
  then have g4: "grows {} runID s3 s'" and none: "GetPendingJobs runID ''constraints'' s' = []"
    "GetPendingJobs runID ''validate'' s' = []"
    using assms(5) by simp_all
  have g: "grows {} runID s1 s'" by (rule grows_trans [OF grows_trans [OF g2 g3] g4])
  have "set (GetPendingJobs runID ph s') \<subseteq> set (GetPendingJobs runID ph s3)" for ph using g4 by (simp add: grows_def)
  ultimately have pending: "\<forall>ph \<in> {''ddl'', ''data'', ''constraints'', ''validate''}. GetPendingJobs runID ph s' = []"
    using none sub by (metis empty_iff insert_iff set_empty subset_empty)
  have "running_of runID s = {}" using assms(2) by (auto simp: running_of_def run_jobs_def filter_empty_conv)
  then have run: "running_of runID s' = {}" using g 1(4) by (simp add: grows_def)
  have "phase r \<in> {''ddl'', ''data'', ''constraints'', ''validate''}" if r: "r \<in> set (run_jobs runID s')" for r
  proof -
    have "job_key r \<in> job_key ` set (jobs s')" "run_id r = runID" using r by (simp_all add: run_jobs_def)
    moreover have "job_key ` set (jobs s') = job_key ` set (jobs s) \<union> (\<lambda>jq. jkey (fst jq)) ` set (init_list cfg runID plan ?prev)"
      using g 1(3) by (simp add: grows_def)
    moreover have "job_key r \<notin> job_key ` set (jobs s)" if "run_id r = runID"
      using assms(2) that by (auto simp: run_jobs_def filter_empty_conv job_key_def)
    ultimately have "job_key r \<in> (\<lambda>jq. jkey (fst jq)) ` set (init_list cfg runID plan ?prev)" by blast
    then show ?thesis using init_phases [of cfg runID plan ?prev] by (auto simp: job_key_def)
  qed
  then show ?thesis using grows_ok [OF g] run nofail pending by blast
qed

section \<open>What the phases after \<open>initJobs\<close> keep\<close>

text \<open>
  The phases write to the store through \<open>SetRunning\<close>, \<open>SetCompleted\<close> and \<open>SetFailed\<close> only, each of
  which SQLite may refuse. What these three keep, every phase keeps, however it ends.
\<close>

lemma each_until_keeps: "(\<And>x q. P q \<Longrightarrow> P (snd (f x q))) \<Longrightarrow> P q \<Longrightarrow> P (snd (each_until f xs q))"
  by (induction xs arbitrary: q) (auto simp: and_then_def split_beta split: option.split)

lemma run_tasks_keeps: "(\<And>x q. P q \<Longrightarrow> P (snd (fn x q))) \<Longrightarrow> P q \<Longrightarrow> P (snd (run_tasks fn cancelled first ts q))"
  by (induction ts arbitrary: first q) (auto simp: split_beta split: option.split)

lemma and_then_keeps: "P (snd r) \<Longrightarrow> (\<And>q. P q \<Longrightarrow> P (snd (k q))) \<Longrightarrow> P (snd (and_then r k))"
  by (cases r) (auto simp: and_then_def split: option.splits)

lemma phase_err_state [simp]: "snd (phase_err p r) = snd r"
  by (cases r) (auto simp: phase_err_def split: option.splits)

locale store_invariant =
  fixes P :: "job_db \<Rightarrow> bool"
  assumes set_running_keeps: "P s \<Longrightarrow> P (SetRunning t i s)"
    and set_completed_keeps: "P s \<Longrightarrow> P (SetCompleted t i n b s)"
    and set_failed_keeps: "P s \<Longrightarrow> P (SetFailed t i e s)"
begin

lemma calls_keep:
  "P s \<Longrightarrow> P (snd (running env i s))" "P s \<Longrightarrow> P (snd (completed env i n b s))" "P s \<Longrightarrow> P (snd (failed env i e s))"
  by (simp_all add: running_def completed_def failed_def exec_on_def set_running_keeps set_completed_keeps set_failed_keeps
      split: option.split)

lemma with_ctx_keeps: "P s \<Longrightarrow> (P s \<Longrightarrow> P (snd (call s))) \<Longrightarrow> P (snd (with_ctx c call s))"
  by (simp add: with_ctx_def)

lemma ddl_job_keeps: "P (fst q) \<Longrightarrow> P (fst (snd (ddl_job env cfg w plan job q)))"
  by (auto simp: ddl_job_def Let_def calls_keep split_beta split: option.split)

lemma executeDDL_keeps: "P (fst q) \<Longrightarrow> P (fst (snd (executeDDL env cfg w runID plan q)))"
  unfolding executeDDL_def
  by (auto split: sum.split intro: each_until_keeps [where P = "\<lambda>q. P (fst q)"] ddl_job_keeps)

lemma keys_pass_keeps: "P (fst q) \<Longrightarrow> P (fst (snd (keys_pass env cfg w plan job q)))"
  by (auto simp: keys_pass_def Let_def calls_keep split_beta split: option.split)

lemma constraints_pass_keeps: "P (fst q) \<Longrightarrow> P (fst (snd (constraints_pass env cfg w plan job q)))"
  by (auto simp: constraints_pass_def Let_def calls_keep split_beta split: option.split)

lemma executeConstraints_keeps: "P (fst q) \<Longrightarrow> P (fst (snd (executeConstraints env cfg w runID plan q)))"
  unfolding executeConstraints_def
  by (auto split: sum.split intro!: and_then_keeps [where P = "\<lambda>q. P (fst q)"]
      each_until_keeps [where P = "\<lambda>q. P (fst q)"] keys_pass_keeps constraints_pass_keeps)

lemma data_task_keeps: "P (fst q) \<Longrightarrow> P (fst (snd (data_task env cfg w pending lookup task q)))"
  by (auto simp: data_task_def Let_def split_beta with_ctx_keeps calls_keep split: option.split sum.split)

lemma executeDataMigration_keeps: "P (fst q) \<Longrightarrow> P (fst (snd (executeDataMigration env cfg w runID plan ord q)))"
  unfolding executeDataMigration_def
  by (auto simp: Let_def split: sum.split intro!: run_tasks_keeps [where P = "\<lambda>q. P (fst q)"] data_task_keeps)

lemma validate_job_keeps: "P (fst q) \<Longrightarrow> P (fst (snd (validate_job env cfg w plan copied job q)))"
  by (auto simp: validate_job_def Let_def calls_keep split_beta split: option.split sum.split)

lemma executeValidation_keeps: "P (fst q) \<Longrightarrow> P (fst (snd (executeValidation env cfg w runID plan q)))"
  unfolding executeValidation_def
  by (auto simp: Let_def split: prod.split sum.split intro!: each_until_keeps [where P = "\<lambda>q. P (fst q)"] validate_job_keeps)

lemma finish_run_keeps:
  assumes "P (fst q)"
  shows "P (fst (snd (finish_run env cfg w runID plan q)))"
proof -
  obtain s h where q: "q = (s, h)" by force
  show ?thesis
    using assms unfolding q finish_run_def Let_def prod.case
    by (intro and_then_keeps [where P = "\<lambda>q. P (fst q)"])
      (auto split: prod.split intro: executeConstraints_keeps executeValidation_keeps)
qed

lemma run_verdict_state: "run_verdict env runID q = Some (e, q') \<Longrightarrow> q' = q"
  by (simp add: run_verdict_def Let_def split: sum.splits if_splits)

lemma run_plan_keeps:
  assumes "run_plan env cfg w0 runID plan prev (s, h) = Some (err, (s', h'))"
    and "P (snd (initJobs (store_answer env) (clock env) cfg runID plan prev s))"
  shows "P s'"
proof -
  obtain e s1 where 1: "initJobs (store_answer env) (clock env) cfg runID plan prev s = (e, s1)" by force
  let ?w = "run_writer cfg w0"
  define phases where "phases =
    and_then (phase_err ''init jobs: '' (e, (s1, h))) (\<lambda>st.
    and_then (phase_err ''ddl phase: '' (executeDDL (engine_env.truncate env) cfg ?w runID plan st)) (\<lambda>st.
    and_then (phase_err ''data phase: ''
        (executeDataMigration (data_env.truncate env) cfg ?w runID plan (worker_order env) st)) (\<lambda>st.
    finish_run env cfg ?w runID plan st)))"
  have "P (fst (snd phases))"
    unfolding phases_def using assms(2) 1
    by (intro and_then_keeps [where P = "\<lambda>q. P (fst q)"])
      (simp_all add: executeDDL_keeps executeDataMigration_keeps finish_run_keeps)
  moreover have "snd phases = (s', h')"
    using assms(1) unfolding run_plan_def Let_def prod.case 1 phases_def [symmetric]
    by (auto split: prod.splits option.splits dest!: run_verdict_state)
  ultimately show ?thesis by simp
qed

end

definition no_skips :: "string \<Rightarrow> job_db \<Rightarrow> bool" where
  "no_skips runID s \<longleftrightarrow> (\<forall>r \<in> set (jobs s). run_id r = runID \<longrightarrow> state r \<noteq> JobSkipped)"

definition has_keys :: "(string \<times> string \<times> string \<times> string) set \<Rightarrow> job_db \<Rightarrow> bool" where
  "has_keys K s \<longleftrightarrow> job_key ` set (jobs s) = K"

interpretation unskipped: store_invariant "no_skips runID" for runID
  by unfold_locales (auto simp: no_skips_def SetRunning_def SetCompleted_def SetFailed_def update_where_def)

interpretation keyed: store_invariant "has_keys K" for K
  by unfold_locales (simp_all add: has_keys_def set_running.same_keys set_completed.same_keys set_failed.same_keys)

text \<open>Without a previous run nothing is filed as skipped.\<close>

lemma initJobs_unskipped:
  assumes "no_skips runID s"
  shows "no_skips runID (snd (initJobs sql clk cfg run plan Map.empty s))"
proof -
  have skip: "skip_table cfg plan Map.empty = (\<lambda>t. None)" "skip_task cfg plan Map.empty = (\<lambda>k. None)"
    by (rule ext, auto simp: skip_table_def skip_task_def tableFullyCompleted_def Let_def list_all_iff filter_empty_conv)+
  have one: "no_skips runID q \<Longrightarrow> no_skips runID (snd (add_job sql clk (job, None) q))" for job q
    by (auto simp: add_job_def CreateJob_def Let_def no_skips_def new_row_def split: option.split)
  have none: "snd jq = None" if "jq \<in> set (init_list cfg run plan Map.empty)" for jq
    using that by (auto simp: init_list_def skip)
  have "no_skips runID q \<Longrightarrow> no_skips runID (snd (each_until (add_job sql clk) jqs q))"
    if "set jqs \<subseteq> set (init_list cfg run plan Map.empty)" for jqs q
    using that
  proof (induction jqs arbitrary: q)
    case (Cons jq jqs)
    have "snd jq = None" using none subsetD [OF Cons.prems(2) list.set_intros(1)] by blast
    then obtain job where jq: "jq = (job, None)" by (metis surjective_pairing)
    have rest: "set jqs \<subseteq> set (init_list cfg run plan Map.empty)" using Cons.prems(2) by simp
    show ?case
      using Cons.IH [OF one [OF Cons.prems(1)]] one [OF Cons.prems(1)] rest
      by (simp add: jq and_then_def split_beta split: option.split)
  qed simp
  then show ?thesis using assms by (simp add: initJobs_list)
qed

lemma CreateRun_new:
  assumes "err = None" and "runID \<notin> run_key ` set (runs s)"
  shows "\<exists>s1. CreateRun err now runID configHash s = Inr s1"
proof -
  have "\<not> list_ex (\<lambda>r. run_key r = runID) (runs s)" using assms(2) by (force simp: list_ex_iff)
  then show ?thesis by (simp add: CreateRun_def assms(1))
qed

text \<open>The run that was just created is the latest one.\<close>

lemma prevCompleted_new_run:
  assumes "run_jobs runID s = []" and "\<forall>r \<in> set (runs s). run_created_at r \<le> now"
    and "CreateRun err now runID configHash s = Inr s1"
  shows "prevCompleted sql s1 = Map.empty"
proof -
  let ?r = "\<lparr>run_key = runID, config_hash = configHash, run_status = ''RUNNING'', run_created_at = now\<rparr>"
  have runs: "runs s1 = runs s @ [?r]" and jobs: "jobs s1 = jobs s"
    using CreateRun_Inr [OF assms(3)] by simp_all
  have stable: "filter (\<lambda>x. k = run_created_at x) (sort_key run_created_at xs) = filter (\<lambda>x. k = run_created_at x) xs" for k xs
    by (simp only: eq_commute [of k] sort_key_stable)
  have "sort_key run_created_at (runs s @ [?r]) = sort_key run_created_at (runs s) @ [?r]"
    by (rule properties_for_sort_key) (use assms(2) in \<open>auto simp: sorted_append stable\<close>)
  then have "GetLatestRunID s1 = Inr runID" by (simp add: GetLatestRunID_def runs)
  moreover have "GetCompletedPartitions runID s1 = Map.empty"
    using assms(1) by (auto simp: GetCompletedPartitions_def run_jobs_def jobs filter_empty_conv intro!: foldl_cong)
  ultimately show ?thesis by (auto simp: prevCompleted_def query_on_def split: option.split)
qed

section \<open>Properties\<close>


definition run_demo_env :: "Table list \<Rightarrow> int run_env" where
  "run_demo_env ts = \<lparr>clock = \<lambda>_. ''t1'', store_answer = \<lambda>_ _ _. None, server = quiet_server, ora_query = \<lambda>_. Inr 0, ora_stats = \<lambda>_ _. Inr 0,
     copy_result = \<lambda>_ _ _. Inr 10, ctx_done = \<lambda>_. False, ctx_expires = \<lambda>_. False,
     extracted = Inr \<lparr>sch_Owner = ''HR'', Tables = ts, Sequences = [], Views = [], MaterializedViews = [],
        Triggers = [], Procedures = []\<rparr>,
     estimate_rows = \<lambda>_ _. Inr 0, part_rowids = \<lambda>_ _ _. Inr [], table_rowids = \<lambda>_ _ _. Inr [],
     parse_float = \<lambda>_. None, less_float = (<), worker_order = rev, table_order = [], parse_time = \<lambda>_. None\<rparr>"


text \<open>
  C18. \<open>Run\<close> never skips what an earlier run completed, however it ends and whatever statements of
  the store fail: after it, no job of the run is in state SKIPPED, even when an earlier run completed
  partitions of an incremental table. The cause is the order in \<open>Run\<close>: \<open>CreateRun\<close> comes before
  \<open>GetLatestRunID\<close>, so the previous run that it looks up is the run itself, which has no completed jobs.
  And if the store executes every statement, the run id is new and the extraction and the planning
  succeed, then every data task of the plan got its job. The hypotheses: the store has no jobs of the
  new run and run rows are not dated in the future; for the second part the names of tables and tasks
  are distinct.
\<close>

theorem incremental_never_skips:
  assumes "run_jobs runID s = []" and "\<forall>r \<in> set (runs s). run_created_at r \<le> clock env s"
    and "Run env cfg w0 runID configHash (s, h) = Some (err, (s', h'))"
  shows "(\<forall>r \<in> set (run_jobs runID s'). state r \<noteq> JobSkipped) \<and>
    (store_ok s \<and> reliable (store_answer env) \<and> runID \<notin> run_key ` set (runs s) \<and>
     extracted env = Inr sch \<and> make_plan env cfg sch = Some plan \<and>
     distinct (map tbl_Name (DDLOrder plan)) \<and> distinct (map tbl_Name (ConstraintOrder plan)) \<and>
     distinct (map (\<lambda>k. (tbl_Name (t_Table k), jobPartitionKey k)) (DataTasks plan)) \<longrightarrow>
     (\<forall>k \<in> set (DataTasks plan). \<exists>r \<in> set (run_jobs runID s').
        table_name r = tbl_Name (t_Table k) \<and> row_partition r = jobPartitionKey k \<and> phase r = ''data''))"
proof (intro conjI impI)
  have start: "no_skips runID s" using assms(1) by (auto simp: no_skips_def run_jobs_def filter_empty_conv)
  show "\<forall>r \<in> set (run_jobs runID s'). state r \<noteq> JobSkipped"
  proof (cases "CreateRun (store_answer env ''CreateRun'' 0 s) (clock env s) runID configHash s")
    case (Inl e)
    then show ?thesis using assms(1,3) by (simp add: Run_def)
  next
    case (Inr s1)
    have fresh: "no_skips runID s1" using start CreateRun_Inr(1) [OF Inr] by (simp add: no_skips_def)
    have prev: "prevCompleted (store_answer env) s1 = Map.empty" by (rule prevCompleted_new_run [OF assms(1,2) Inr])
    have "no_skips runID s'"
      using assms(3) Inr fresh prev unskipped.run_plan_keeps [OF _ initJobs_unskipped [OF fresh]]
      by (auto simp: Run_def split: sum.splits option.splits)
    then show ?thesis by (simp add: no_skips_def run_jobs_def)
  qed
next
  assume more: "store_ok s \<and> reliable (store_answer env) \<and> runID \<notin> run_key ` set (runs s) \<and>
     extracted env = Inr sch \<and> make_plan env cfg sch = Some plan \<and>
     distinct (map tbl_Name (DDLOrder plan)) \<and> distinct (map tbl_Name (ConstraintOrder plan)) \<and>
     distinct (map (\<lambda>k. (tbl_Name (t_Table k), jobPartitionKey k)) (DataTasks plan))"
  then have "store_answer env ''CreateRun'' 0 s = None" "runID \<notin> run_key ` set (runs s)" by (simp_all add: reliable_answer)
  then obtain s1 where s1: "CreateRun (store_answer env ''CreateRun'' 0 s) (clock env s) runID configHash s = Inr s1"
    using CreateRun_new by blast
  let ?prev = "prevCompleted (store_answer env) s1"
  have "run_jobs runID s1 = []" using assms(1) CreateRun_Inr(1) [OF s1] by (simp add: run_jobs_def)
  note init = initJobs_result [OF CreateRun_ok [OF s1 conjunct1 [OF more]] this, of plan "store_answer env" "clock env" cfg ?prev]
  have "\<exists>s2. initJobs (store_answer env) (clock env) cfg runID plan ?prev s1 = (None, s2) \<and>
    job_key ` set (jobs s2) = job_key ` set (jobs s1) \<union> (\<lambda>jq. jkey (fst jq)) ` set (init_list cfg runID plan ?prev)"
    using init more by blast
  then obtain s2 where s2: "initJobs (store_answer env) (clock env) cfg runID plan ?prev s1 = (None, s2)"
    "job_key ` set (jobs s2) = job_key ` set (jobs s1) \<union> (\<lambda>jq. jkey (fst jq)) ` set (init_list cfg runID plan ?prev)"
    by blast
  have "run_plan env cfg w0 runID plan ?prev (s1, h) = Some (err, (s', h'))"
    using assms(3) more s1 by (simp add: Run_def)
  then have "has_keys (job_key ` set (jobs s2)) s'" by (rule keyed.run_plan_keeps) (simp add: s2(1) has_keys_def)
  then have keys: "(\<lambda>jq. jkey (fst jq)) ` set (init_list cfg runID plan ?prev) \<subseteq> job_key ` set (jobs s')"
    using s2(2) by (auto simp: has_keys_def)
  show "\<forall>k \<in> set (DataTasks plan). \<exists>r \<in> set (run_jobs runID s').
      table_name r = tbl_Name (t_Table k) \<and> row_partition r = jobPartitionKey k \<and> phase r = ''data''"
  proof
    fix k assume "k \<in> set (DataTasks plan)"
    then have "(data_job runID k, skip_task cfg plan ?prev k) \<in> set (init_list cfg runID plan ?prev)"
      by (simp add: init_list_def)
    with keys have "jkey (data_job runID k) \<in> job_key ` set (jobs s')" by force
    then show "\<exists>r \<in> set (run_jobs runID s').
        table_name r = tbl_Name (t_Table k) \<and> row_partition r = jobPartitionKey k \<and> phase r = ''data''"
      by (force simp: jkey_def job_key_def data_job_def table_job_def run_jobs_def)
  qed
qed

text \<open>
  A run \<open>r1\<close> completed the only task of an incremental table; the map that \<open>Run\<close> should use has it,
  and yet the next run copies the table again.
\<close>

definition second_run_db :: job_db where
  "second_run_db = \<lparr>runs = [\<lparr>run_key = ''r1'', config_hash = '''', run_status = ''RUNNING'', run_created_at = ''t0''\<rparr>],
     jobs = [(new_row ''t0'' 1 (data_job ''r1'' (plain_task (bare_table ''DEPT'' 4))))\<lparr>state := JobCompleted\<rparr>], next_id = 2\<rparr>"

definition incremental_config :: Config where
  "incremental_config = sample_config\<lparr>Migration := (Migration sample_config)
     \<lparr>TableOverrides := [''DEPT'' \<mapsto> zeroOverride\<lparr>o_TargetMode := ''truncate_partition''\<rparr>]\<rparr>\<rparr>"

theorem incremental_never_skips_witness:
  "prevCompleted (\<lambda>_ _ _. None) second_run_db ''DEPT:'' = Some 0 \<and>
   (\<exists>s' h'. Run (run_demo_env [bare_table ''DEPT'' 4]) incremental_config (NewWriter ''public'') ''r2'' ''hash''
       (second_run_db, []) = Some (None, (s', h')) \<and>
     (\<forall>r \<in> set (run_jobs ''r2'' s'). state r \<noteq> JobSkipped) \<and>
     (\<exists>r \<in> set (run_jobs ''r2'' s'). table_name r = ''DEPT'' \<and> row_partition r = '''' \<and> phase r = ''data''))"
proof -
  let ?ts = "[bare_table ''DEPT'' 4]" and ?w = "NewWriter ''public''"
  let ?sch = "\<lparr>sch_Owner = ''HR'', Tables = ?ts, Sequences = [], Views = [], MaterializedViews = [], Triggers = [], Procedures = []\<rparr>"
  let ?env = "run_demo_env ?ts"
  let ?run = "Run ?env incremental_config ?w ''r2'' ''hash'' (second_run_db, [])"
  have prev: "prevCompleted (\<lambda>_ _ _. None) second_run_db ''DEPT:'' = Some 0" by code_simp
  have "case ?run of Some (None, q) \<Rightarrow> True | _ \<Rightarrow> False" by code_simp
  then obtain s' h' where r: "?run = Some (None, (s', h'))" by (auto split: option.splits)
  have "case make_plan ?env incremental_config ?sch of None \<Rightarrow> False
    | Some p \<Rightarrow> distinct (map tbl_Name (DDLOrder p)) \<and> distinct (map tbl_Name (ConstraintOrder p)) \<and>
        map (\<lambda>k. (tbl_Name (t_Table k), jobPartitionKey k)) (DataTasks p) = [(''DEPT'', '''')]"
    by code_simp
  then obtain p k where p: "make_plan ?env incremental_config ?sch = Some p"
    "distinct (map tbl_Name (DDLOrder p))" "distinct (map tbl_Name (ConstraintOrder p))" "DataTasks p = [k]"
    "tbl_Name (t_Table k) = ''DEPT''" "jobPartitionKey k = ''''"
    by (auto split: option.splits)
  have db: "run_jobs ''r2'' second_run_db = []" "store_ok second_run_db"
    "\<forall>r \<in> set (runs second_run_db). run_created_at r \<le> clock ?env second_run_db" "''r2'' \<notin> run_key ` set (runs second_run_db)"
    by (code_simp, code_simp, simp_all add: second_run_db_def run_demo_env_def)
  have env: "reliable (store_answer ?env)" "extracted ?env = Inr ?sch" by (simp_all add: run_demo_env_def reliable_def)
  show ?thesis
    using incremental_never_skips [OF db(1,3) r, of ?sch p] db env p prev r by auto
qed
end
