(* ===== verification/Table_Filter.thy ===== *)
theory Table_Filter
  imports Go_Prelude
begin

text \<open>
  The string functions of \<open>internal/oracle/extractor.go\<close>: the table filter with Go's \<open>filepath.Match\<close>
  (ASCII patterns on a system with \<open>/\<close> as separator; a malformed pattern matches nothing, as the callers
  drop its error), the conversion of \<open>DEFAULT\<close> expressions and the recognition of \<open>NOT NULL\<close> checks.
\<close>

section \<open>\<open>filepath.Match\<close>\<close>

text \<open>One end of a range in a class: the byte and the rest; nothing may follow the end of the pattern.\<close>

definition class_char :: "string \<Rightarrow> (char \<times> string) option" where
  "class_char p =
     (case p of
        [] \<Rightarrow> None
      | c # r \<Rightarrow>
          if c = CHR ''-'' \<or> c = CHR '']'' then None
          else if c = CHR 0x5C then (case r of [] \<Rightarrow> None | d # r' \<Rightarrow> if r' = [] then None else Some (d, r'))
          else if r = [] then None else Some (c, r))"

lemma class_char_shorter: "class_char p = Some (c, r) \<Longrightarrow> length r < length p"
  by (auto simp: class_char_def split: list.splits if_splits)

text \<open>The ranges up to the closing bracket: whether \<open>x\<close> is in one, and the rest of the pattern.\<close>

function class_ranges :: "char \<Rightarrow> bool \<Rightarrow> bool \<Rightarrow> string \<Rightarrow> (bool \<times> string) option" where
  "class_ranges x any found p =
     (if any \<and> p \<noteq> [] \<and> hd p = CHR '']'' then Some (found, tl p)
      else case class_char p of
             None \<Rightarrow> None
           | Some (lo, r) \<Rightarrow>
               if hd r = CHR ''-'' then
                 (case class_char (tl r) of
                    None \<Rightarrow> None
                  | Some (hi, r') \<Rightarrow> class_ranges x True (found \<or> (byte lo \<le> byte x \<and> byte x \<le> byte hi)) r')
               else class_ranges x True (found \<or> x = lo) r)"
  by pat_completeness auto
termination
proof (relation "measure (\<lambda>(x, any, found, p). length p)")
  show "((x, True, found \<or> (byte lo \<le> byte x \<and> byte x \<le> byte hi), r'), x, any, found, p)
      \<in> measure (\<lambda>(x, any, found, p). length p)"
    if "class_char p = Some lr" "(lo, r) = lr" "class_char (tl r) = Some hr" "(hi, r') = hr" for x any found p lr lo r hr hi r'
    using that class_char_shorter [of p lo r] class_char_shorter [of "tl r" hi r'] by (cases r) auto
  show "((x, True, found \<or> x = lo, r), x, any, found, p) \<in> measure (\<lambda>(x, any, found, p). length p)"
    if "class_char p = Some lr" "(lo, r) = lr" for x any found p lr lo r
    using that class_char_shorter [of p lo r] by auto
qed simp

declare class_ranges.simps [simp del]

lemma class_ranges_shorter: "class_ranges x any found p = Some (b, r) \<Longrightarrow> length r < length p"
proof (induction x any found p rule: class_ranges.induct)
  case (1 x any found p)
  show ?case
  proof (cases "any \<and> p \<noteq> [] \<and> hd p = CHR '']''")
    case True
    then show ?thesis using 1(3) by (subst (asm) class_ranges.simps) (cases p; auto)
  next
    case False
    then obtain lo q where q: "class_char p = Some (lo, q)"
      using 1(3) by (subst (asm) class_ranges.simps) (auto split: option.splits)
    show ?thesis
    proof (cases "hd q = CHR ''-''")
      case True
      then obtain hi q' where q': "class_char (tl q) = Some (hi, q')"
        using 1(3) q False by (subst (asm) class_ranges.simps) (auto split: option.splits)
      have "class_ranges x True (found \<or> (byte lo \<le> byte x \<and> byte x \<le> byte hi)) q' = Some (b, r)"
        using 1(3) q q' False True by (subst (asm) class_ranges.simps) auto
      from 1(1) [OF False q refl True q' refl this] show ?thesis
        using class_char_shorter [OF q] class_char_shorter [OF q'] by (cases q) auto
    next
      case no: False
      have "class_ranges x True (found \<or> x = lo) q = Some (b, r)"
        using 1(3) q False no by (subst (asm) class_ranges.simps) auto
      from 1(2) [OF False q refl no this] show ?thesis using class_char_shorter [OF q] by simp
    qed
  qed
qed

definition match_class :: "char \<Rightarrow> string \<Rightarrow> (bool \<times> string) option" where
  "match_class x p =
     (let negated = HasPrefix p ''^''
      in map_option (\<lambda>(found, r). (found \<noteq> negated, r)) (class_ranges x False False (if negated then tl p else p)))"

lemma match_class_shorter: "match_class x p = Some (b, r) \<Longrightarrow> length r \<le> length p"
  by (cases p) (auto simp: match_class_def Let_def dest!: class_ranges_shorter split: if_splits)

function glob_match :: "string \<Rightarrow> string \<Rightarrow> bool" where
  "glob_match [] s = (s = [])"
| "glob_match (c # p) s =
     (if c = CHR ''*'' then
        glob_match p s \<or> (case s of [] \<Rightarrow> False | x # t \<Rightarrow> x \<noteq> CHR ''/'' \<and> glob_match (c # p) t)
      else case s of
        [] \<Rightarrow> False
      | x # t \<Rightarrow>
          if c = CHR ''?'' then x \<noteq> CHR ''/'' \<and> glob_match p t
          else if c = CHR ''['' then
            (case match_class x p of None \<Rightarrow> False | Some (ok, r) \<Rightarrow> ok \<and> glob_match r t)
          else if c = CHR 0x5C then
            (case p of [] \<Rightarrow> False | d # r \<Rightarrow> x = d \<and> glob_match r t)
          else x = c \<and> glob_match p t)"
  by pat_completeness auto
termination
proof (relation "measures [\<lambda>(p, s). length p, \<lambda>(p, s). length s]")
  show "((r, t), c # p, s) \<in> measures [\<lambda>(p, s). length p, \<lambda>(p, s). length s]"
    if "match_class x p = Some y" "(ok, r) = y" for c p s x t y ok r
    using that match_class_shorter [of x p ok r] by simp
qed auto

declare glob_match.simps(2) [simp del]

section \<open>The filter\<close>

record TableFilter =
  Include :: "string list"
  Exclude :: "string list"
  f_IncludeSequences :: "string list"

definition matchFilter :: "string \<Rightarrow> TableFilter \<Rightarrow> bool" where
  "matchFilter name flt =
     (let name = ToUpper name
      in (Include flt = [] \<or> list_ex (\<lambda>pattern. glob_match (ToUpper pattern) name) (Include flt)) \<and>
         \<not> list_ex (\<lambda>pattern. glob_match (ToUpper pattern) name) (Exclude flt))"

section \<open>Expressions\<close>

definition convertDefaultExpr :: "string \<Rightarrow> string" where
  "convertDefaultExpr expr =
     (let upper = ToUpper (TrimSpace expr); rest = TrimSpace (drop 7 upper)
      in if upper = ''SYSDATE'' then ''CURRENT_DATE''
         else if upper = ''SYSTIMESTAMP'' then ''CURRENT_TIMESTAMP''
         else if upper = ''SYS_GUID()'' then ''gen_random_uuid()''
         else if upper = ''USER'' then ''CURRENT_USER''
         else if upper = ''NULL'' then ''NULL''
         else if HasPrefix upper ''SYSDATE'' \<and> length upper > 7 \<and> rest \<noteq> '''' \<and> (hd rest = CHR ''+'' \<or> hd rest = CHR ''-'')
           then ''CURRENT_DATE '' @ rest
         else
           case (if HasPrefix upper ''TO_DATE('' then
                   (case IndexOf expr [CHR 0x27] of
                      None \<Rightarrow> None
                    | Some i \<Rightarrow>
                        (case IndexOf (drop (i + 1) expr) [CHR 0x27] of
                           None \<Rightarrow> None
                         | Some n \<Rightarrow> Some ([CHR 0x27] @ TrimSpace (take n (drop (i + 1) expr)) @ [CHR 0x27])))
                 else None) of
             Some text \<Rightarrow> text
           | None \<Rightarrow> if HasPrefix upper ''TO_CHAR(SYSDATE'' then ''CURRENT_DATE::text'' else expr)"

definition isNotNullCheck :: "string \<Rightarrow> bool" where
  "isNotNullCheck condition \<longleftrightarrow> Contains (ToUpper (TrimSpace condition)) ''IS NOT NULL''"

section \<open>Lemmas\<close>

text \<open>A pattern without special bytes matches itself only, and a star at its end any extension.\<close>

definition plain_pattern :: "string \<Rightarrow> bool" where
  "plain_pattern p \<longleftrightarrow> list_all (\<lambda>c. c \<noteq> CHR ''*'' \<and> c \<noteq> CHR ''?'' \<and> c \<noteq> CHR ''['' \<and> c \<noteq> CHR 0x5C) p"

lemma glob_plain: "plain_pattern p \<Longrightarrow> glob_match (p @ q) s \<longleftrightarrow> (\<exists>t. s = p @ t \<and> glob_match q t)"
proof (induction p arbitrary: s)
  case (Cons c p)
  then have "glob_match ((c # p) @ q) s \<longleftrightarrow> (case s of [] \<Rightarrow> False | x # t \<Rightarrow> x = c \<and> glob_match (p @ q) t)"
    by (simp add: plain_pattern_def glob_match.simps(2) split: list.splits)
  then show ?case using Cons by (cases s) (auto simp: plain_pattern_def)
qed simp

lemma glob_star: "glob_match ''*'' s \<longleftrightarrow> CHR ''/'' \<notin> set s"
  by (induction s) (auto simp: glob_match.simps(2))

end
