(* ===== verification/Extractor_Model.thy ===== *)
theory Extractor_Model
  imports Table_Filter Schema_Types
begin

text \<open>
  \<open>internal/oracle/extractor.go\<close>. Oracle's dictionary views are lists of rows with the columns that the
  queries read, and a query is what its SQL text selects from them: the \<open>WHERE\<close> clause is a filter, \<open>ORDER BY\<close>
  a sort. \<open>fails\<close> gives the error of a query, \<open>None\<close> if it succeeds; an error in the middle of a result
  is the error of its query. Sizes are floating point numbers that the model does not compute with:
  \<open>megabytes\<close>, \<open>float_add\<close> and \<open>float_pos\<close> are Oracle's division and the two operations of the code.
  Log lines are left out.
\<close>

section \<open>The dictionary\<close>

record cat_table = tb_owner :: string tb_name :: string tb_temporary :: string tb_num_rows :: "int option"
record cat_mview = mw_owner :: string mw_name :: string mw_query :: "string option" mw_refresh :: "string option"
record cat_column =
  cl_owner :: string cl_table :: string cl_name :: string cl_type :: string
  cl_precision :: "int option" cl_scale :: "int option" cl_length :: "int option"
  cl_nullable :: string cl_default :: "string option" cl_id :: int
record cat_constraint =
  kn_owner :: string kn_table :: string kn_name :: string kn_type :: string kn_condition :: "string option"
  kn_ref :: "string option" kn_rule :: "string option" kn_status :: string
record cat_cons_column = kc_owner :: string kc_constraint :: string kc_column :: string kc_position :: int
record cat_index =
  ix_table_owner :: string ix_table :: string ix_name :: string ix_uniqueness :: string ix_type :: string ix_partitioned :: string
record cat_ind_column = ci_owner :: string ci_index :: string ci_column :: string ci_descend :: string ci_position :: int
record cat_part_table = pt_owner :: string pt_table :: string pt_type :: "string option"
record cat_part_key = pk_owner :: string pk_table :: string pk_column :: string pk_position :: int
record cat_partition =
  pa_owner :: string pa_table :: string pa_name :: string pa_high_value :: "string option" pa_position :: int pa_num_rows :: "int option"
record cat_segment = sg_owner :: string sg_name :: string sg_partition :: string sg_type :: string sg_bytes :: int
record cat_sequence =
  sq_owner :: string sq_name :: string sq_min :: int sq_max :: int sq_increment :: int sq_last :: int sq_cache :: int sq_cycle :: string
record cat_view = vw_row_owner :: string vw_row_name :: string vw_row_text :: "string option"
record cat_trigger =
  tg_owner :: string tg_name :: string tg_table :: "string option" tg_type :: string tg_event :: string tg_body :: "string option"
record cat_object = ob_owner :: string ob_name :: string ob_type :: string
record cat_source = sr_owner :: string sr_name :: string sr_type :: string sr_line :: int sr_text :: string

datatype ora_query =
    Q_tables | Q_num_rows | Q_sizes | Q_columns string | Q_constraints string | Q_cons_columns string | Q_reference string
  | Q_indexes string | Q_ind_columns string | Q_part_type string | Q_part_keys string | Q_partitions string
  | Q_part_sizes string | Q_sequences | Q_views | Q_mviews | Q_triggers | Q_objects | Q_source string string

record ora_db =
  all_tables :: "cat_table list"
  all_mviews :: "cat_mview list"
  all_tab_columns :: "cat_column list"
  all_constraints :: "cat_constraint list"
  all_cons_columns :: "cat_cons_column list"
  all_indexes :: "cat_index list"
  all_ind_columns :: "cat_ind_column list"
  all_part_tables :: "cat_part_table list"
  all_part_key_columns :: "cat_part_key list"
  all_tab_partitions :: "cat_partition list"
  all_segments :: "cat_segment list"
  all_sequences :: "cat_sequence list"
  all_views :: "cat_view list"
  all_triggers :: "cat_trigger list"
  all_objects :: "cat_object list"
  all_source :: "cat_source list"
  fails :: "ora_query \<Rightarrow> string option"
  megabytes :: "int \<Rightarrow> float64_bits"
  float_add :: "float64_bits \<Rightarrow> float64_bits \<Rightarrow> float64_bits"
  float_pos :: "float64_bits \<Rightarrow> bool"

definition query :: "ora_db \<Rightarrow> ora_query \<Rightarrow> 'a list \<Rightarrow> string + 'a list" where
  "query db q rows = (case fails db q of Some e \<Rightarrow> Inl e | None \<Rightarrow> Inr rows)"

text \<open>\<open>LIKE\<close>: \<open>%\<close> is any text and \<open>_\<close> any byte.\<close>

fun sql_like :: "string \<Rightarrow> string \<Rightarrow> bool" where
  "sql_like [] s = (s = [])"
| "sql_like (c # p) s =
     (if c = CHR ''%'' then list_ex (\<lambda>n. sql_like p (drop n s)) [0..<length s + 1]
      else if c = CHR ''_'' then s \<noteq> [] \<and> sql_like p (tl s)
      else s \<noteq> [] \<and> hd s = c \<and> sql_like p (tl s))"

section \<open>Tables and columns\<close>

definition extractTables :: "ora_db \<Rightarrow> string \<Rightarrow> TableFilter \<Rightarrow> string + Table list" where
  "extractTables db owner flt =
     chain (query db Q_tables
       (sort_key (\<lambda>n. n) (map tb_name (filter (\<lambda>r. tb_owner r = owner \<and> tb_temporary r = ''N'' \<and>
          \<not> list_ex (\<lambda>m. mw_owner m = owner \<and> mw_name m = tb_name r) (all_mviews db)) (all_tables db)))))
       (\<lambda>names. Inr (map (\<lambda>n. \<lparr>tbl_Owner = owner, tbl_Name = n, Columns = [], PrimaryKey = None, Constraints = [],
          Indexes = [], Partitioning = None, Comment = '''', tbl_NumRows = 0, tbl_SizeMB = 0\<rparr>)
          (filter (\<lambda>n. matchFilter n flt) names)))"

definition scan_column :: "cat_column \<Rightarrow> Column" where
  "scan_column r =
     \<lparr>col_Name = cl_name r, OracleType = cl_type r, PGType = '''', Precision = cl_precision r, Scale = cl_scale r,
      Length = cl_length r, Nullable = (cl_nullable r = ''Y''),
      DefaultExpr = (case cl_default r of
                       None \<Rightarrow> None
                     | Some d \<Rightarrow> if TrimSpace d \<noteq> '''' then Some (convertDefaultExpr (TrimSpace d)) else None),
      col_Position = cl_id r\<rparr>"

definition extractColumns :: "ora_db \<Rightarrow> string \<Rightarrow> Table \<Rightarrow> string + Table" where
  "extractColumns db owner t =
     chain (query db (Q_columns (tbl_Name t))
       (sort_key cl_id (filter (\<lambda>r. cl_owner r = owner \<and> cl_table r = tbl_Name t) (all_tab_columns db))))
       (\<lambda>rows. Inr (t\<lparr>Columns := Columns t @ map scan_column rows\<rparr>))"

section \<open>Constraints\<close>

definition getConstraintColumns :: "ora_db \<Rightarrow> string \<Rightarrow> string \<Rightarrow> string + string list" where
  "getConstraintColumns db owner name =
     query db (Q_cons_columns name)
       (map kc_column (sort_key kc_position (filter (\<lambda>r. kc_owner r = owner \<and> kc_constraint r = name) (all_cons_columns db))))"

text \<open>\<open>QueryRow\<close> on no row is an error.\<close>

definition resolveRefConstraint :: "ora_db \<Rightarrow> string \<Rightarrow> string \<Rightarrow> string + string \<times> string list" where
  "resolveRefConstraint db owner name =
     chain (query db (Q_reference name)
       (map kn_table (filter (\<lambda>r. kn_owner r = owner \<and> kn_name r = name) (all_constraints db))))
       (\<lambda>rows. case rows of
          [] \<Rightarrow> Inl ''sql: no rows in result set''
        | refTable # _ \<Rightarrow> chain (getConstraintColumns db owner name) (\<lambda>cols. Inr (refTable, cols)))"

definition constraint_type :: "string \<Rightarrow> ConstraintType" where
  "constraint_type s =
     (if s = ''P'' then ConstraintPK else if s = ''R'' then ConstraintFK else if s = ''U'' then ConstraintUniq else ConstraintCheck)"

text \<open>The referenced table and columns of a foreign key.\<close>

definition fk_reference :: "ora_db \<Rightarrow> string \<Rightarrow> cat_constraint \<Rightarrow> string + string \<times> string list" where
  "fk_reference db owner rc =
     (case kn_ref rc of
        Some r \<Rightarrow> if constraint_type (kn_type rc) = ConstraintFK
                  then wrap_err (''resolve FK '' @ kn_name rc) (resolveRefConstraint db owner r)
                  else Inr ('''', [])
      | None \<Rightarrow> Inr ('''', []))"

definition add_constraint :: "ora_db \<Rightarrow> string \<Rightarrow> Table \<Rightarrow> cat_constraint \<Rightarrow> string + Table" where
  "add_constraint db owner t rc =
     chain (getConstraintColumns db owner (kn_name rc)) (\<lambda>cols.
       let ty = constraint_type (kn_type rc);
           cond = (case kn_condition rc of None \<Rightarrow> '''' | Some s \<Rightarrow> TrimSpace s);
           rule = (case kn_rule rc of None \<Rightarrow> '''' | Some s \<Rightarrow> s)
       in if ty = ConstraintCheck \<and> isNotNullCheck cond then Inr t
          else chain (fk_reference db owner rc) (\<lambda>(refTable, refCols).
            let c = \<lparr>con_Name = kn_name rc, con_Type = ty, con_Columns = cols, RefTable = refTable, RefColumns = refCols,
                     OnDelete = rule, Condition = cond\<rparr>
            in Inr (if ty = ConstraintPK then t\<lparr>PrimaryKey := Some c\<rparr>
                    else t\<lparr>Constraints := Constraints t @ [c]\<rparr>)))"

definition constraint_rows :: "ora_db \<Rightarrow> string \<Rightarrow> string \<Rightarrow> cat_constraint list" where
  "constraint_rows db owner table =
     sort_key kn_type (sort_key kn_name (filter (\<lambda>r. kn_owner r = owner \<and> kn_table r = table \<and>
       List.member [''P'', ''R'', ''U'', ''C''] (kn_type r) \<and> kn_status r = ''ENABLED'') (all_constraints db)))"

definition extractConstraints :: "ora_db \<Rightarrow> string \<Rightarrow> Table \<Rightarrow> string + Table" where
  "extractConstraints db owner t =
     chain (query db (Q_constraints (tbl_Name t)) (constraint_rows db owner (tbl_Name t)))
       (fold_err (add_constraint db owner) t)"

section \<open>Indexes\<close>

definition constraint_indexes :: "Table \<Rightarrow> string list" where
  "constraint_indexes t =
     (case PrimaryKey t of None \<Rightarrow> [] | Some c \<Rightarrow> [con_Name c]) @
     map con_Name (filter (\<lambda>c. con_Type c = ConstraintUniq) (Constraints t))"

definition index_columns :: "ora_db \<Rightarrow> string \<Rightarrow> string \<Rightarrow> string + IndexColumn list" where
  "index_columns db owner name =
     query db (Q_ind_columns name)
       (map (\<lambda>r. \<lparr>ic_Name = ci_column r, Descending = (ci_descend r = ''DESC''), ic_Position = ci_position r\<rparr>)
         (sort_key ci_position (filter (\<lambda>r. ci_owner r = owner \<and> ci_index r = name) (all_ind_columns db))))"

definition add_index :: "ora_db \<Rightarrow> string \<Rightarrow> string list \<Rightarrow> Table \<Rightarrow> cat_index \<Rightarrow> string + Table" where
  "add_index db owner skip t r =
     (if List.member skip (ix_name r) then Inr t
      else chain (index_columns db owner (ix_name r)) (\<lambda>cols.
        if cols = [] then Inr t
        else Inr (t\<lparr>Indexes := Indexes t @ [\<lparr>idx_Name = ix_name r, idx_Columns = cols, Unique = (ix_uniqueness r = ''UNIQUE''),
               idx_Type = ix_type r, Local = (ix_partitioned r = ''YES'')\<rparr>]\<rparr>)))"

definition extractIndexes :: "ora_db \<Rightarrow> string \<Rightarrow> Table \<Rightarrow> string + Table" where
  "extractIndexes db owner t =
     chain (query db (Q_indexes (tbl_Name t))
       (sort_key ix_name (filter (\<lambda>r. ix_table_owner r = owner \<and> ix_table r = tbl_Name t \<and>
          List.member [''NORMAL'', ''NORMAL/REV'', ''BITMAP'', ''FUNCTION-BASED NORMAL''] (ix_type r)) (all_indexes db))))
       (fold_err (add_index db owner (constraint_indexes t)) t)"

section \<open>Partitions\<close>

definition getPartitionKeyColumns :: "ora_db \<Rightarrow> string \<Rightarrow> string \<Rightarrow> string + string list" where
  "getPartitionKeyColumns db owner table =
     query db (Q_part_keys table)
       (map pk_column (sort_key pk_position (filter (\<lambda>r. pk_owner r = owner \<and> pk_table r = table) (all_part_key_columns db))))"

text \<open>
  The partitioning type. Every error of this query, not only a missing row, leaves the scanned value
  invalid and counts as not partitioned.
\<close>

definition partitioning_type :: "ora_db \<Rightarrow> string \<Rightarrow> string \<Rightarrow> string option" where
  "partitioning_type db owner table =
     (case query db (Q_part_type table)
             (map pt_type (filter (\<lambda>r. pt_owner r = owner \<and> pt_table r = table) (all_part_tables db))) of
        Inl e \<Rightarrow> None
      | Inr [] \<Rightarrow> None
      | Inr (ty # _) \<Rightarrow> ty)"

definition partition_rows :: "ora_db \<Rightarrow> string \<Rightarrow> string \<Rightarrow> string + Partition list" where
  "partition_rows db owner table =
     query db (Q_partitions table)
       (map (\<lambda>r. \<lparr>part_Name = pa_name r, HighValue = (case pa_high_value r of None \<Rightarrow> '''' | Some v \<Rightarrow> v),
            part_Position = pa_position r, part_NumRows = (case pa_num_rows r of None \<Rightarrow> 0 | Some n \<Rightarrow> n), part_SizeMB = 0\<rparr>)
         (sort_key pa_position (filter (\<lambda>r. pa_owner r = owner \<and> pa_table r = table) (all_tab_partitions db))))"

text \<open>The size of the segments that \<open>p\<close> selects, \<open>None\<close> if there are none.\<close>

definition segments_size :: "ora_db \<Rightarrow> (cat_segment \<Rightarrow> bool) \<Rightarrow> float64_bits option" where
  "segments_size db p =
     (let rows = filter p (all_segments db)
      in if rows = [] then None else Some (megabytes db (sum_list (map sg_bytes rows))))"

definition partition_sizes :: "ora_db \<Rightarrow> string \<Rightarrow> string \<Rightarrow> Partition list \<Rightarrow> Partition list" where
  "partition_sizes db owner table parts =
     (if fails db (Q_part_sizes table) \<noteq> None then parts
      else map (\<lambda>p. case segments_size db (\<lambda>r. sg_owner r = owner \<and> sg_name r = table \<and>
                         sg_type r = ''TABLE PARTITION'' \<and> sg_partition r = part_Name p) of
                      None \<Rightarrow> p
                    | Some sz \<Rightarrow> p\<lparr>part_SizeMB := sz\<rparr>) parts)"

definition partition_strategy :: "string \<Rightarrow> PartitionStrategy" where
  "partition_strategy ty =
     (if ToUpper ty = ''LIST'' then PartitionList else if ToUpper ty = ''HASH'' then PartitionHash else PartitionRange)"

text \<open>The table-level statistics fall back on the sums over the partitions.\<close>

definition summed_stats :: "ora_db \<Rightarrow> Partition list \<Rightarrow> Table \<Rightarrow> Table" where
  "summed_stats db parts t =
     (let rows = foldl (\<lambda>a p. i64 (a + part_NumRows p)) 0 parts;
          sz = foldl (\<lambda>a p. float_add db a (part_SizeMB p)) 0 parts;
          t = (if tbl_NumRows t = 0 \<and> rows > 0 then t\<lparr>tbl_NumRows := rows\<rparr> else t)
      in if tbl_SizeMB t = 0 \<and> float_pos db sz then t\<lparr>tbl_SizeMB := sz\<rparr> else t)"

definition extractPartitions :: "ora_db \<Rightarrow> string \<Rightarrow> Table \<Rightarrow> string + Table" where
  "extractPartitions db owner t =
     (case partitioning_type db owner (tbl_Name t) of
        None \<Rightarrow> Inr t
      | Some ty \<Rightarrow>
          chain (getPartitionKeyColumns db owner (tbl_Name t)) (\<lambda>keyCols.
          chain (partition_rows db owner (tbl_Name t)) (\<lambda>rows.
            let parts = (if rows = [] then [] else partition_sizes db owner (tbl_Name t) rows)
            in if parts = [] then Inr t
               else Inr (summed_stats db parts (t\<lparr>Partitioning :=
                      Some \<lparr>Strategy = partition_strategy ty, KeyColumns = keyCols, Partitions = parts\<rparr>\<rparr>)))))"

section \<open>Statistics\<close>

text \<open>\<open>tableMap\<close>: the last index of each name.\<close>

definition table_index :: "Table list \<Rightarrow> string \<rightharpoonup> nat" where
  "table_index ts = foldl (\<lambda>m i. m(tbl_Name (ts ! i) \<mapsto> i)) Map.empty [0..<length ts]"

definition set_stats :: "(Table \<Rightarrow> Table) \<Rightarrow> string \<Rightarrow> (string \<rightharpoonup> nat) \<Rightarrow> Table list \<Rightarrow> Table list" where
  "set_stats f name tableMap ts = (case tableMap name of None \<Rightarrow> ts | Some i \<Rightarrow> ts[i := f (ts ! i)])"

text \<open>An error of the first query leaves the tables as they are, one of the second is ignored.\<close>

definition extractTableStats :: "ora_db \<Rightarrow> string \<Rightarrow> Table list \<Rightarrow> Table list" where
  "extractTableStats db owner tables =
     (let tableMap = table_index tables
      in if fails db Q_num_rows \<noteq> None then tables
         else
           let tables = foldl (\<lambda>ts r. set_stats (\<lambda>t. t\<lparr>tbl_NumRows := (case tb_num_rows r of None \<Rightarrow> 0 | Some n \<Rightarrow> n)\<rparr>)
                            (tb_name r) tableMap ts) tables (filter (\<lambda>r. tb_owner r = owner) (all_tables db))
           in if fails db Q_sizes \<noteq> None then tables
              else foldl (\<lambda>ts name. case segments_size db (\<lambda>r. sg_owner r = owner \<and> sg_name r = name \<and> sql_like ''TABLE%'' (sg_type r)) of
                                None \<Rightarrow> ts
                              | Some sz \<Rightarrow> set_stats (\<lambda>t. t\<lparr>tbl_SizeMB := sz\<rparr>) name tableMap ts)
                     tables (remdups (map sg_name (filter (\<lambda>r. sg_owner r = owner) (all_segments db)))))"

section \<open>Sequences and the objects for review\<close>

definition extractSequences :: "ora_db \<Rightarrow> string \<Rightarrow> string + Sequence list" where
  "extractSequences db owner =
     query db Q_sequences
       (map (\<lambda>r. \<lparr>seq_Name = sq_name r,
              MinValue = (if sq_min r < - 9223372036854775807 then - 9223372036854775807 else sq_min r),
              MaxValue = (if sq_max r > 9223372036854775807 then 9223372036854775807 else sq_max r),
              Increment = sq_increment r, LastValue = sq_last r, CacheSize = sq_cache r, Cycle = (sq_cycle r = ''Y'')\<rparr>)
         (sort_key sq_name (filter (\<lambda>r. sq_owner r = owner) (all_sequences db))))"

definition filter_sequences :: "string list \<Rightarrow> Sequence list \<Rightarrow> Sequence list" where
  "filter_sequences include seqs =
     (if include = [] then seqs
      else filter (\<lambda>s. List.member (map ToUpper include) (ToUpper (seq_Name s))) seqs)"

definition extractViews :: "ora_db \<Rightarrow> string \<Rightarrow> string + View list" where
  "extractViews db owner =
     query db Q_views
       (map (\<lambda>r. \<lparr>vw_Owner = owner, vw_Name = vw_row_name r, vw_Definition = (case vw_row_text r of None \<Rightarrow> '''' | Some s \<Rightarrow> s)\<rparr>)
         (sort_key vw_row_name (filter (\<lambda>r. vw_row_owner r = owner) (all_views db))))"

definition extractMaterializedViews :: "ora_db \<Rightarrow> string \<Rightarrow> string + MaterializedView list" where
  "extractMaterializedViews db owner =
     query db Q_mviews
       (map (\<lambda>r. \<lparr>mv_Owner = owner, mv_Name = mw_name r, mv_Definition = (case mw_query r of None \<Rightarrow> '''' | Some s \<Rightarrow> s),
              mv_RefreshMode = (case mw_refresh r of None \<Rightarrow> '''' | Some s \<Rightarrow> s)\<rparr>)
         (sort_key mw_name (filter (\<lambda>r. mw_owner r = owner) (all_mviews db))))"

text \<open>
  \<open>NVL(table_name, ...)\<close> with an empty string is \<open>NULL\<close> for a trigger without a table, as Oracle's empty string is \<open>NULL\<close>; it
  cannot be scanned into a string, so one such trigger fails the whole list.
\<close>

definition scan_trigger :: "string \<Rightarrow> cat_trigger \<Rightarrow> string + Trigger" where
  "scan_trigger owner r =
     (case tg_table r of
        None \<Rightarrow> Inl ''sql: Scan error on column index 1: converting NULL to string is unsupported''
      | Some table \<Rightarrow> Inr \<lparr>trg_Owner = owner, trg_Name = tg_name r, trg_TableName = table, trg_TriggerType = tg_type r,
              trg_Event = tg_event r, trg_Definition = (case tg_body r of None \<Rightarrow> '''' | Some s \<Rightarrow> s)\<rparr>)"

definition extractTriggers :: "ora_db \<Rightarrow> string \<Rightarrow> string + Trigger list" where
  "extractTriggers db owner =
     chain (query db Q_triggers (sort_key tg_name (filter (\<lambda>r. tg_owner r = owner) (all_triggers db))))
       (map_err (scan_trigger owner))"

text \<open>An object whose source cannot be read is left out.\<close>

definition source_of :: "ora_db \<Rightarrow> string \<Rightarrow> cat_object \<Rightarrow> Procedure list" where
  "source_of db owner r =
     (case query db (Q_source (ob_name r) (ob_type r))
             (map sr_text (sort_key sr_line (filter (\<lambda>s. sr_owner s = owner \<and> sr_name s = ob_name r \<and> sr_type s = ob_type r)
                (all_source db)))) of
        Inl e \<Rightarrow> []
      | Inr ls \<Rightarrow> [\<lparr>prc_Owner = owner, prc_Name = ob_name r, prc_ObjectType = ob_type r, prc_Definition = concat ls\<rparr>])"

definition extractProcedures :: "ora_db \<Rightarrow> string \<Rightarrow> string + Procedure list" where
  "extractProcedures db owner =
     chain (query db Q_objects
       (sort_key ob_type (sort_key ob_name (filter (\<lambda>r. ob_owner r = owner \<and>
          List.member [''PROCEDURE'', ''FUNCTION'', ''PACKAGE'', ''PACKAGE BODY''] (ob_type r) \<and>
          \<not> sql_like ''SYS_%'' (ob_name r) \<and> \<not> sql_like ''BIN$%'' (ob_name r)) (all_objects db)))))
       (\<lambda>refs. Inr (concat (map (source_of db owner) refs)))"

section \<open>\<open>Extract\<close>\<close>

definition extract_table :: "ora_db \<Rightarrow> string \<Rightarrow> Table \<Rightarrow> string + Table" where
  "extract_table db owner t =
     chain (wrap_err (''extract columns for '' @ tbl_Name t) (extractColumns db owner t)) (\<lambda>t.
     chain (wrap_err (''extract constraints for '' @ tbl_Name t) (extractConstraints db owner t)) (\<lambda>t.
     chain (wrap_err (''extract indexes for '' @ tbl_Name t) (extractIndexes db owner t)) (\<lambda>t.
     wrap_err (''extract partitions for '' @ tbl_Name t) (extractPartitions db owner t))))"

text \<open>What an object list is after an error, which is only logged: \<open>nil\<close>.\<close>

definition or_nil :: "string + 'a list \<Rightarrow> 'a list" where
  "or_nil r = (case r of Inl e \<Rightarrow> [] | Inr xs \<Rightarrow> xs)"

definition Extract :: "ora_db \<Rightarrow> string \<Rightarrow> TableFilter \<Rightarrow> string + Schema" where
  "Extract db name flt =
     (let owner = ToUpper name
      in chain (wrap_err ''extract tables'' (extractTables db owner flt)) (\<lambda>tables.
         chain (map_err (extract_table db owner) (extractTableStats db owner tables)) (\<lambda>tables.
         chain (wrap_err ''extract sequences'' (extractSequences db owner)) (\<lambda>sequences.
         Inr (ApplyTypeMappings
           \<lparr>sch_Owner = owner, Tables = tables, Sequences = filter_sequences (f_IncludeSequences flt) sequences,
            Views = or_nil (extractViews db owner), MaterializedViews = or_nil (extractMaterializedViews db owner),
            Triggers = or_nil (extractTriggers db owner), Procedures = or_nil (extractProcedures db owner)\<rparr>)))))"

section \<open>What the steps keep\<close>

lemma query_Inr: "query db q rows = Inr x \<longleftrightarrow> fails db q = None \<and> x = rows"
  by (auto simp: query_def split: option.splits)

text \<open>The steps after the columns leave name, owner and columns alone.\<close>

definition same_columns :: "Table \<Rightarrow> Table \<Rightarrow> bool" where
  "same_columns t t' \<longleftrightarrow> tbl_Name t' = tbl_Name t \<and> tbl_Owner t' = tbl_Owner t \<and> Columns t' = Columns t"

lemma same_columns_refl [simp]: "same_columns t t"
  by (simp add: same_columns_def)

lemma same_columns_trans: "same_columns t u \<Longrightarrow> same_columns u v \<Longrightarrow> same_columns t v"
  by (simp add: same_columns_def)

lemma add_constraint_keeps: "add_constraint db owner t rc = Inr t' \<Longrightarrow> same_columns t t'"
  by (auto simp: add_constraint_def chain_Inr Let_def same_columns_def split: if_splits prod.splits)

lemma add_index_keeps: "add_index db owner skip t r = Inr t' \<Longrightarrow> same_columns t t' \<and> Constraints t' = Constraints t \<and> PrimaryKey t' = PrimaryKey t"
  by (auto simp: add_index_def chain_Inr same_columns_def split: if_splits)

lemma extractConstraints_keeps: "extractConstraints db owner t = Inr t' \<Longrightarrow> same_columns t t'"
  unfolding extractConstraints_def chain_Inr
  by (elim exE conjE, rule fold_err_invariant [where P = "same_columns t"])
    (auto intro: same_columns_trans add_constraint_keeps)

lemma extractIndexes_keeps:
  assumes "extractIndexes db owner t = Inr t'"
  shows "same_columns t t' \<and> Constraints t' = Constraints t \<and> PrimaryKey t' = PrimaryKey t"
proof -
  obtain rows where "fold_err (add_index db owner (constraint_indexes t)) t rows = Inr t'"
    using assms by (auto simp: extractIndexes_def chain_Inr)
  then show ?thesis
  proof (rule fold_err_invariant)
    fix u r u'
    assume "same_columns t u \<and> Constraints u = Constraints t \<and> PrimaryKey u = PrimaryKey t"
      and "add_index db owner (constraint_indexes t) u r = Inr u'"
    then show "same_columns t u' \<and> Constraints u' = Constraints t \<and> PrimaryKey u' = PrimaryKey t"
      using add_index_keeps by (metis same_columns_trans)
  qed simp
qed

lemma summed_stats_keeps: "same_columns t (summed_stats db ps t) \<and> Constraints (summed_stats db ps t) = Constraints t \<and>
    PrimaryKey (summed_stats db ps t) = PrimaryKey t \<and> Partitioning (summed_stats db ps t) = Partitioning t"
  by (simp add: summed_stats_def Let_def same_columns_def)

lemma extractPartitions_keeps:
  assumes "extractPartitions db owner t = Inr t'"
  shows "same_columns t t' \<and> Constraints t' = Constraints t \<and> PrimaryKey t' = PrimaryKey t"
proof (cases "t' = t")
  case False
  then obtain info ps where "t' = summed_stats db ps (t\<lparr>Partitioning := info\<rparr>)"
    using assms by (auto simp: extractPartitions_def chain_Inr Let_def split: option.splits if_splits)
  then show ?thesis using summed_stats_keeps [of "t\<lparr>Partitioning := info\<rparr>" db ps] by (simp add: same_columns_def)
qed simp

lemma set_stats_names:
  assumes "\<And>t. tbl_Name (f t) = tbl_Name t \<and> tbl_Owner (f t) = tbl_Owner t \<and> Columns (f t) = Columns t \<and> Constraints (f t) = Constraints t \<and> PrimaryKey (f t) = PrimaryKey t"
  shows "map (\<lambda>t. (tbl_Name t, tbl_Owner t, Columns t, Constraints t, PrimaryKey t)) (set_stats f n m ts) =
    map (\<lambda>t. (tbl_Name t, tbl_Owner t, Columns t, Constraints t, PrimaryKey t)) ts"
  using assms by (auto simp: set_stats_def map_update list_update_same_conv split: option.splits intro!: nth_equalityI)
    (metis (no_types, lifting) length_map list_update_beyond list_update_id map_update not_le_imp_less nth_map)

text \<open>A table as \<open>extractTables\<close> starts it; statistics do not change this part.\<close>

definition head_of :: "Table \<Rightarrow> string \<times> string \<times> Column list \<times> Constraint list \<times> Constraint option" where
  "head_of t = (tbl_Name t, tbl_Owner t, Columns t, Constraints t, PrimaryKey t)"

lemma stats_heads: "map head_of (extractTableStats db owner ts) = map head_of ts"
proof -
  have step: "map head_of (set_stats f n m us) = map head_of ts"
    if "map head_of us = map head_of ts" "\<And>t. head_of (f t) = head_of t" for f n m us
    using set_stats_names [of f n m us] that by (simp add: head_of_def [abs_def])
  have fold: "map head_of (foldl g us xs) = map head_of ts"
    if "map head_of us = map head_of ts" "\<And>us x. map head_of us = map head_of ts \<Longrightarrow> map head_of (g us x) = map head_of ts"
    for g us and xs :: "'b list"
    using that by (induction xs arbitrary: us) auto
  have rows: "map head_of (foldl (\<lambda>ts r. set_stats (\<lambda>t. t\<lparr>tbl_NumRows := k r\<rparr>) (tb_name r) m ts) ts xs) = map head_of ts" for k m xs
    by (rule fold) (auto intro!: step simp: head_of_def)
  show ?thesis
    unfolding extractTableStats_def Let_def
    by (auto intro!: fold step rows simp: head_of_def split: option.splits)
qed

text \<open>The constraints that are kept, in the order of the query.\<close>

definition not_null_row :: "cat_constraint \<Rightarrow> bool" where
  "not_null_row rc \<longleftrightarrow> constraint_type (kn_type rc) = ConstraintCheck \<and>
     isNotNullCheck (case kn_condition rc of None \<Rightarrow> '''' | Some s \<Rightarrow> TrimSpace s)"

definition kept_rows :: "cat_constraint list \<Rightarrow> cat_constraint list" where
  "kept_rows rows = filter (\<lambda>rc. constraint_type (kn_type rc) \<noteq> ConstraintPK \<and> \<not> not_null_row rc) rows"

definition key_names :: "Table \<Rightarrow> (string \<times> ConstraintType) list" where
  "key_names t = map (\<lambda>c. (con_Name c, con_Type c)) (Constraints t)"

lemma add_constraint_cases:
  assumes "add_constraint db owner t rc = Inr t'"
  shows "if not_null_row rc then t' = t
    else \<exists>c. con_Name c = kn_name rc \<and> con_Type c = constraint_type (kn_type rc) \<and>
      t' = (if constraint_type (kn_type rc) = ConstraintPK then t\<lparr>PrimaryKey := Some c\<rparr>
            else t\<lparr>Constraints := Constraints t @ [c]\<rparr>)"
proof (cases "not_null_row rc")
  case True
  then show ?thesis using assms by (auto simp: add_constraint_def chain_Inr Let_def not_null_row_def)
next
  case False
  let ?cond = "case kn_condition rc of None \<Rightarrow> '''' | Some s \<Rightarrow> TrimSpace s"
  let ?c = "\<lambda>cols rt rcs. \<lparr>con_Name = kn_name rc, con_Type = constraint_type (kn_type rc), con_Columns = cols, RefTable = rt,
      RefColumns = rcs, OnDelete = (case kn_rule rc of None \<Rightarrow> '''' | Some s \<Rightarrow> s), Condition = ?cond\<rparr>"
  obtain cols where "chain (fk_reference db owner rc) (\<lambda>(rt, rcs).
      Inr (if constraint_type (kn_type rc) = ConstraintPK then t\<lparr>PrimaryKey := Some (?c cols rt rcs)\<rparr>
           else t\<lparr>Constraints := Constraints t @ [?c cols rt rcs]\<rparr>)) = Inr t'"
    using assms False unfolding add_constraint_def chain_Inr Let_def not_null_row_def by - (elim exE conjE, rule that, simp only: if_False)
  then obtain rt rcs where "t' = (if constraint_type (kn_type rc) = ConstraintPK then t\<lparr>PrimaryKey := Some (?c cols rt rcs)\<rparr>
      else t\<lparr>Constraints := Constraints t @ [?c cols rt rcs]\<rparr>)"
    unfolding chain_Inr by - (elim exE conjE, rule that, simp only: case_prod_unfold sum.inject, erule sym)
  then show ?thesis using False by (simp only: if_False) (intro exI [of _ "?c cols rt rcs"], simp)
qed

lemma add_constraint_names:
  "add_constraint db owner t rc = Inr t' \<Longrightarrow>
   key_names t' = key_names t @ map (\<lambda>rc. (kn_name rc, constraint_type (kn_type rc))) (kept_rows [rc])"
  by (drule add_constraint_cases) (auto simp: key_names_def kept_rows_def split: if_splits)

lemma fold_constraints_names:
  "fold_err (add_constraint db owner) t rows = Inr t' \<Longrightarrow>
   key_names t' = key_names t @ map (\<lambda>rc. (kn_name rc, constraint_type (kn_type rc))) (kept_rows rows)"
proof (induction rows arbitrary: t)
  case (Cons rc rows)
  then obtain u where "add_constraint db owner t rc = Inr u" "fold_err (add_constraint db owner) u rows = Inr t'"
    by (auto simp: chain_Inr)
  then show ?case using Cons.IH add_constraint_names by (fastforce simp: kept_rows_def)
qed (simp add: kept_rows_def)

definition column_rows :: "ora_db \<Rightarrow> string \<Rightarrow> string \<Rightarrow> cat_column list" where
  "column_rows db owner table = sort_key cl_id (filter (\<lambda>r. cl_owner r = owner \<and> cl_table r = table) (all_tab_columns db))"

lemma extract_table_result:
  assumes "extract_table db owner t = Inr t'" and "Columns t = []" "Constraints t = []"
  shows "tbl_Name t' = tbl_Name t \<and> tbl_Owner t' = tbl_Owner t \<and>
    Columns t' = map scan_column (column_rows db owner (tbl_Name t)) \<and>
    key_names t' = map (\<lambda>rc. (kn_name rc, constraint_type (kn_type rc))) (kept_rows (constraint_rows db owner (tbl_Name t)))"
proof -
  obtain t1 t2 t3 where 1: "extractColumns db owner t = Inr t1" and 2: "extractConstraints db owner t1 = Inr t2"
    and 3: "extractIndexes db owner t2 = Inr t3" and 4: "extractPartitions db owner t3 = Inr t'"
    using assms(1) by (auto simp: extract_table_def chain_Inr)
  have t1: "tbl_Name t1 = tbl_Name t" "tbl_Owner t1 = tbl_Owner t" "Constraints t1 = []"
    "Columns t1 = map scan_column (column_rows db owner (tbl_Name t))"
    using 1 assms(2,3) by (auto simp: extractColumns_def chain_Inr query_Inr column_rows_def)
  have "fold_err (add_constraint db owner) t1 (constraint_rows db owner (tbl_Name t1)) = Inr t2"
    using 2 by (auto simp: extractConstraints_def chain_Inr query_Inr)
  from fold_constraints_names [OF this] extractConstraints_keeps [OF 2] extractIndexes_keeps [OF 3] extractPartitions_keeps [OF 4]
  show ?thesis using t1 by (simp add: same_columns_def key_names_def)
qed

text \<open>The names that \<open>extractTables\<close> selects.\<close>

definition base_tables :: "ora_db \<Rightarrow> string \<Rightarrow> string list" where
  "base_tables db owner =
     map tb_name (filter (\<lambda>r. tb_owner r = owner \<and> tb_temporary r = ''N'' \<and>
       \<not> list_ex (\<lambda>m. mw_owner m = owner \<and> mw_name m = tb_name r) (all_mviews db)) (all_tables db))"

lemma extractTables_heads:
  assumes "extractTables db owner flt = Inr ts"
  shows "map head_of ts = map (\<lambda>n. (n, owner, [], [], None)) (filter (\<lambda>n. matchFilter n flt) (sort (base_tables db owner)))"
  using assms by (auto simp: extractTables_def chain_Inr query_Inr base_tables_def head_of_def)

lemma Extract_tables:
  assumes "Extract db name flt = Inr sch"
  shows "\<exists>ts ts'. map head_of ts = map (\<lambda>n. (n, ToUpper name, [], [], None))
      (filter (\<lambda>n. matchFilter n flt) (sort (base_tables db (ToUpper name)))) \<and>
    list_all2 (\<lambda>t t'. extract_table db (ToUpper name) t = Inr t') ts ts' \<and>
    Tables sch = map (\<lambda>t. t\<lparr>Columns := map map_column (Columns t)\<rparr>) ts'"
proof -
  let ?o = "ToUpper name"
  obtain ts0 ts' where ts0: "extractTables db ?o flt = Inr ts0"
    and ts': "map_err (extract_table db ?o) (extractTableStats db ?o ts0) = Inr ts'"
    and sch: "Tables sch = map (\<lambda>t. t\<lparr>Columns := map map_column (Columns t)\<rparr>) ts'"
    using assms by (auto simp: Extract_def Let_def chain_Inr ApplyTypeMappings_def)
  show ?thesis
    by (rule exI [of _ "extractTableStats db ?o ts0"], rule exI [of _ ts'])
      (use ts' sch extractTables_heads [OF ts0] in \<open>simp add: stats_heads map_err_Inr\<close>)
qed

section \<open>Properties\<close>

text \<open>
  C8. A successful \<open>Extract\<close> has exactly the right tables and columns: the tables are the schema's
  permanent tables that are not materialized views and pass the filter, in order of name and each
  once, and the columns of a table are those of the dictionary, in the order of their column ids,
  each with the PostgreSQL type that \<open>MapOracleToPG\<close> gives for its Oracle type.
\<close>

theorem Extract_tables_exact:
  assumes "Extract db name flt = Inr sch" and "distinct (map (\<lambda>r. (tb_owner r, tb_name r)) (all_tables db))"
  shows "map tbl_Name (Tables sch) = filter (\<lambda>n. matchFilter n flt) (sort (base_tables db (ToUpper name))) \<and>
    distinct (map tbl_Name (Tables sch)) \<and>
    (\<forall>t \<in> set (Tables sch). tbl_Owner t = ToUpper name \<and>
       Columns t = map (\<lambda>r. map_column (scan_column r)) (column_rows db (ToUpper name) (tbl_Name t)))"
proof -
  let ?o = "ToUpper name" and ?ns = "filter (\<lambda>n. matchFilter n flt) (sort (base_tables db (ToUpper name)))"
  obtain ts ts' where ts: "map head_of ts = map (\<lambda>n. (n, ?o, [], [], None)) ?ns"
    "list_all2 (\<lambda>t t'. extract_table db ?o t = Inr t') ts ts'"
    "Tables sch = map (\<lambda>t. t\<lparr>Columns := map map_column (Columns t)\<rparr>) ts'"
    using Extract_tables [OF assms(1)] by blast
  have len: "length ts = length ?ns" "length ts' = length ts" using ts(1,2) by (metis length_map, simp add: list_all2_lengthD)
  have each: "tbl_Name (ts' ! i) = ?ns ! i \<and> tbl_Owner (ts' ! i) = ?o \<and>
      Columns (ts' ! i) = map scan_column (column_rows db ?o (?ns ! i))" if i: "i < length ts'" for i
  proof -
    have "head_of (ts ! i) = (?ns ! i, ?o, [], [], None)" using ts(1) i len by (metis (no_types, lifting) nth_map)
    moreover have "extract_table db ?o (ts ! i) = Inr (ts' ! i)" using ts(2) i by (simp add: list_all2_conv_all_nth)
    ultimately show ?thesis using extract_table_result [of db ?o "ts ! i" "ts' ! i"] by (simp add: head_of_def)
  qed
  have names: "map tbl_Name (Tables sch) = ?ns" by (rule nth_equalityI) (use each len ts(3) in auto)
  have "distinct (map (\<lambda>r. (tb_owner r, tb_name r)) rs) \<Longrightarrow> distinct (map tb_name (filter (\<lambda>r. tb_owner r = ?o \<and> q r) rs))" for q rs
    by (induction rs) (auto simp: image_iff)
  from this [OF assms(2)] have "distinct (base_tables db ?o)" by (simp only: base_tables_def)
  then have "distinct ?ns" by simp
  then show ?thesis using names each ts(3) by (auto simp: in_set_conv_nth)
qed

text \<open>
  C26. The constraints of an extracted table are the enabled primary, foreign, unique and check constraints
  of the dictionary, in the order of the query, apart from the primary key, which is kept on its own, and
  apart from every check constraint whose condition contains \<open>IS NOT NULL\<close> anywhere: a condition like
  \<open>A IS NOT NULL AND B > 0\<close> is lost although it says more than \<open>NOT NULL\<close>.
\<close>

theorem Extract_constraints_exact:
  assumes "Extract db name flt = Inr sch" and "t \<in> set (Tables sch)"
  shows "map (\<lambda>c. (con_Name c, con_Type c)) (Constraints t) =
    map (\<lambda>rc. (kn_name rc, constraint_type (kn_type rc)))
      (filter (\<lambda>rc. constraint_type (kn_type rc) \<noteq> ConstraintPK \<and>
         \<not> (constraint_type (kn_type rc) = ConstraintCheck \<and>
            Contains (ToUpper (case kn_condition rc of None \<Rightarrow> '''' | Some s \<Rightarrow> TrimSpace s)) ''IS NOT NULL''))
        (constraint_rows db (ToUpper name) (tbl_Name t)))"
proof -
  let ?o = "ToUpper name"
  obtain ts ts' where ts: "map head_of ts = map (\<lambda>n. (n, ?o, [], [], None)) (filter (\<lambda>n. matchFilter n flt) (sort (base_tables db ?o)))"
    "list_all2 (\<lambda>t t'. extract_table db ?o t = Inr t') ts ts'"
    "Tables sch = map (\<lambda>t. t\<lparr>Columns := map map_column (Columns t)\<rparr>) ts'"
    using Extract_tables [OF assms(1)] by blast
  obtain t' where t': "t' \<in> set ts'" "t = t'\<lparr>Columns := map map_column (Columns t')\<rparr>" using assms(2) ts(3) by auto
  then obtain u where u: "u \<in> set ts" "extract_table db ?o u = Inr t'" using list_all2_right [OF ts(2) t'(1)] by blast
  have "head_of u \<in> set (map (\<lambda>n. (n, ?o, [], [], None)) (filter (\<lambda>n. matchFilter n flt) (sort (base_tables db ?o))))"
    unfolding ts(1) [symmetric] using u(1) by simp
  then have "Columns u = []" "Constraints u = []" by (auto simp: head_of_def)
  have trim: "TrimSpace (case kn_condition rc of None \<Rightarrow> '''' | Some s \<Rightarrow> TrimSpace s) =
      (case kn_condition rc of None \<Rightarrow> '''' | Some s \<Rightarrow> TrimSpace s)" for rc
    by (cases "kn_condition rc") simp_all
  from extract_table_result [OF u(2) \<open>Columns u = []\<close> \<open>Constraints u = []\<close>] t'(2)
  show ?thesis by (simp add: key_names_def kept_rows_def not_null_row_def isNotNullCheck_def trim)
qed

text \<open>
  A foreign key to a table of another schema stops the whole migration: the referenced constraint is
  looked up among the constraints of the schema itself, finds no row, and the error ends \<open>Extract\<close>, for
  every database, filter and set of other tables.
\<close>

theorem foreign_schema_reference_fails:
  assumes "n \<in> set (base_tables db (ToUpper name))" "matchFilter n flt"
    and "rc \<in> set (constraint_rows db (ToUpper name) n)" "kn_type rc = ''R''" "kn_ref rc = Some r"
    and "\<forall>k \<in> set (all_constraints db). \<not> (kn_owner k = ToUpper name \<and> kn_name k = r)"
  shows "\<exists>e. Extract db name flt = Inl e"
proof (rule ccontr)
  assume "\<not> ?thesis"
  then obtain sch where ok: "Extract db name flt = Inr sch" by (cases "Extract db name flt") auto
  let ?o = "ToUpper name"
  obtain ts ts' where ts: "map head_of ts = map (\<lambda>n. (n, ?o, [], [], None)) (filter (\<lambda>n. matchFilter n flt) (sort (base_tables db ?o)))"
    "list_all2 (\<lambda>t t'. extract_table db ?o t = Inr t') ts ts'"
    using Extract_tables [OF ok] by blast
  have "(n, ?o, [], [], None) \<in> set (map head_of ts)" unfolding ts(1) using assms(1,2) by simp
  then obtain t where t: "t \<in> set ts" "tbl_Name t = n" by (auto simp: head_of_def)
  then obtain t' where "extract_table db ?o t = Inr t'" using list_all2_left [OF ts(2) t(1)] by blast
  then obtain t1 t2 where "extractColumns db ?o t = Inr t1" "extractConstraints db ?o t1 = Inr t2"
    by (auto simp: extract_table_def chain_Inr)
  moreover from this(1) have "tbl_Name t1 = n" using t(2) by (auto simp: extractColumns_def chain_Inr)
  ultimately have fold: "fold_err (add_constraint db ?o) t1 (constraint_rows db ?o n) = Inr t2"
    by (auto simp: extractConstraints_def chain_Inr query_Inr)
  have fk: "\<exists>e. fk_reference db ?o rc = Inl e"
    using assms(4-6) by (cases "fails db (Q_reference r)")
      (auto simp: fk_reference_def constraint_type_def resolveRefConstraint_def query_def filter_empty_conv)
  have bad: "\<exists>e. add_constraint db ?o u rc = Inl e" for u
    using fk assms(4) by (cases "getConstraintColumns db ?o (kn_name rc)") (auto simp: add_constraint_def constraint_type_def Let_def)
  have "add_constraint db ?o u rc \<noteq> Inr v" for u v using bad [of u] by auto
  then have "fold_err (add_constraint db ?o) u rows \<noteq> Inr v" if "rc \<in> set rows" for u rows v
    using that by (induction rows arbitrary: u) (auto simp: chain_Inr)
  then show False using fold assms(3) by blast
qed

text \<open>A schema with two tables: \<open>ORDERS\<close> has a check that says more than \<open>NOT NULL\<close>, and a foreign key.\<close>

definition demo_constraint :: "string \<Rightarrow> string \<Rightarrow> string option \<Rightarrow> string option \<Rightarrow> cat_constraint" where
  "demo_constraint n ty cond ref = \<lparr>kn_owner = ''HR'', kn_table = ''ORDERS'', kn_name = n, kn_type = ty, kn_condition = cond,
     kn_ref = ref, kn_rule = None, kn_status = ''ENABLED''\<rparr>"

definition demo_db :: "string \<Rightarrow> ora_db" where
  "demo_db ref = \<lparr>all_tables = [\<lparr>tb_owner = ''HR'', tb_name = ''ORDERS'', tb_temporary = ''N'', tb_num_rows = Some 7\<rparr>,
       \<lparr>tb_owner = ''HR'', tb_name = ''DEPT'', tb_temporary = ''N'', tb_num_rows = None\<rparr>],
     all_mviews = [], all_tab_columns = [\<lparr>cl_owner = ''HR'', cl_table = ''ORDERS'', cl_name = ''ID'', cl_type = ''NUMBER'', cl_precision = Some 9,
       cl_scale = Some 0, cl_length = None, cl_nullable = ''N'', cl_default = None, cl_id = 1\<rparr>],
     all_constraints = [demo_constraint ''CK'' ''C'' (Some ''A IS NOT NULL AND B > 0'') None, demo_constraint ''PK'' ''P'' None None,
       demo_constraint ''FK'' ''R'' None (Some ref)],
     all_cons_columns = [], all_indexes = [], all_ind_columns = [], all_part_tables = [], all_part_key_columns = [],
     all_tab_partitions = [], all_segments = [], all_sequences = [], all_views = [], all_triggers = [], all_objects = [], all_source = [],
     fails = \<lambda>q. None, megabytes = \<lambda>n. 0, float_add = \<lambda>x y. 0, float_pos = \<lambda>x. False\<rparr>"

definition no_filter :: TableFilter where
  "no_filter = \<lparr>Include = [], Exclude = [''DEPT*''], f_IncludeSequences = []\<rparr>"

lemma demo_extract: "case Extract (demo_db ''PK'') ''hr'' no_filter of Inl e \<Rightarrow> False
  | Inr sch \<Rightarrow> map (\<lambda>t. (tbl_Name t, map (\<lambda>c. (con_Name c, con_Type c)) (Constraints t))) (Tables sch) = [(''ORDERS'', [(''FK'', ConstraintFK)])]"
  by code_simp

theorem Extract_tables_exact_witness:
  "\<exists>sch. Extract (demo_db ''PK'') ''hr'' no_filter = Inr sch \<and> map tbl_Name (Tables sch) = [''ORDERS'']"
proof -
  obtain sch where r: "Extract (demo_db ''PK'') ''hr'' no_filter = Inr sch" using demo_extract by (auto split: sum.splits)
  have key: "distinct (map (\<lambda>r. (tb_owner r, tb_name r)) (all_tables (demo_db ''PK'')))" by (simp add: demo_db_def)
  have "filter (\<lambda>n. matchFilter n no_filter) (sort (base_tables (demo_db ''PK'') (ToUpper ''hr''))) = [''ORDERS'']" by code_simp
  then show ?thesis using Extract_tables_exact [OF r key] r by simp
qed

theorem Extract_constraints_exact_witness:
  "\<exists>sch t. Extract (demo_db ''PK'') ''hr'' no_filter = Inr sch \<and> t \<in> set (Tables sch) \<and>
    map (\<lambda>c. (con_Name c, con_Type c)) (Constraints t) = [(''FK'', ConstraintFK)]"
proof -
  obtain sch where r: "Extract (demo_db ''PK'') ''hr'' no_filter = Inr sch"
    "map tbl_Name (Tables sch) = [''ORDERS'']"
    using demo_extract by (auto split: sum.splits)
  then obtain t where t: "t \<in> set (Tables sch)" "tbl_Name t = ''ORDERS''" by (cases "Tables sch") auto
  have rows: "map (\<lambda>rc. (kn_name rc, constraint_type (kn_type rc)))
      (filter (\<lambda>rc. constraint_type (kn_type rc) \<noteq> ConstraintPK \<and>
         \<not> (constraint_type (kn_type rc) = ConstraintCheck \<and>
            Contains (ToUpper (case kn_condition rc of None \<Rightarrow> '''' | Some s \<Rightarrow> TrimSpace s)) ''IS NOT NULL''))
        (constraint_rows (demo_db ''PK'') (ToUpper ''hr'') ''ORDERS'')) = [(''FK'', ConstraintFK)]"
    by code_simp
  show ?thesis using r(1) t Extract_constraints_exact [OF r(1) t(1)] rows by auto
qed

theorem foreign_schema_reference_fails_witness: "\<exists>e. Extract (demo_db ''SALES_PK'') ''hr'' no_filter = Inl e"
proof -
  have 1: "''ORDERS'' \<in> set (base_tables (demo_db ''SALES_PK'') (ToUpper ''hr''))" "matchFilter ''ORDERS'' no_filter"
    "\<forall>k \<in> set (all_constraints (demo_db ''SALES_PK'')). \<not> (kn_owner k = ToUpper ''hr'' \<and> kn_name k = ''SALES_PK'')"
    by code_simp+
  have 2: "demo_constraint ''FK'' ''R'' None (Some ''SALES_PK'') \<in> set (constraint_rows (demo_db ''SALES_PK'') (ToUpper ''hr'') ''ORDERS'')"
    by code_simp
  show ?thesis
    by (rule foreign_schema_reference_fails [OF 1(1,2) 2 _ _ 1(3)]) (simp_all add: demo_constraint_def)
qed

end
