(* ===== verification/Go_Regexp.thy ===== *)
theory Go_Regexp
  imports Go_Prelude
begin

text \<open>
  The part of Go's package \<open>regexp\<close> that the program uses. A regular expression is a datatype, and
  \<open>match_at\<close> lists the ways in which it matches at a position, in order of preference, so that the
  head of the list is the leftmost-first match that Go takes. All patterns of the program are
  case-insensitive on ASCII letters (flag \<open>i\<close>), and none matches the empty string, so \<open>ReplaceAll\<close>
  needs no rule for empty matches. Texts are lists of bytes: the patterns mention ASCII characters
  only, and the case folding of non-ASCII letters onto \<open>K\<close> and \<open>S\<close> is left out.
\<close>

section \<open>Patterns\<close>

datatype char_class = One_of string | None_of string | Word | Digit | Space

definition is_word :: "char \<Rightarrow> bool" where
  "is_word c \<longleftrightarrow> (97 \<le> byte c \<and> byte c \<le> 122) \<or> (65 \<le> byte c \<and> byte c \<le> 90) \<or> (48 \<le> byte c \<and> byte c \<le> 57) \<or> byte c = 95"

lemma is_word_bits [code]:
  "is_word (Char b0 b1 b2 b3 b4 b5 b6 b7) =
     (\<not> b7 \<and> (if b6 then letter_bits b0 b1 b2 b3 b4 \<or> (\<not> b5 \<and> b4 \<and> b3 \<and> b2 \<and> b1 \<and> b0)
               else b5 \<and> b4 \<and> \<not> (b3 \<and> (b2 \<or> b1))))"
  by (cases b0; cases b1; cases b2; cases b3; cases b4; cases b5; cases b6; cases b7;
      simp add: is_word_def letter_bits_def; simp add: byte_def)

definition is_re_space :: "char \<Rightarrow> bool" where
  "is_re_space c \<longleftrightarrow> byte c = 32 \<or> byte c = 9 \<or> byte c = 10 \<or> byte c = 12 \<or> byte c = 13"

fun in_class :: "char_class \<Rightarrow> char \<Rightarrow> bool" where
  "in_class (One_of cs) c = (c \<in> set cs)"
| "in_class (None_of cs) c = (c \<notin> set cs)"
| "in_class Word c = is_word c"
| "in_class Digit c = is_digit c"
| "in_class Space c = is_re_space c"

datatype regexp =
    Empty
  | Cls char_class
  | Then regexp regexp
  | Or regexp regexp
  | Many bool regexp \<comment> \<open>\<open>r*\<close>, or \<open>r*?\<close> for \<open>False\<close>\<close>
  | Group nat regexp
  | Boundary \<comment> \<open>\<open>\b\<close>\<close>
  | LineStart \<comment> \<open>\<open>^\<close> with flag \<open>m\<close>\<close>
  | TextEnd \<comment> \<open>\<open>$\<close> without it\<close>

text \<open>A match: the byte before the position, the rest of the text and the captured groups.\<close>

type_synonym captures = "(nat \<times> string) list"
type_synonym matched_at = "char option \<times> string \<times> captures"

definition word_at :: "char option \<Rightarrow> bool" where
  "word_at c = (case c of None \<Rightarrow> False | Some c \<Rightarrow> is_word c)"

definition first_char :: "string \<Rightarrow> char option" where
  "first_char s = (case s of [] \<Rightarrow> None | c # t \<Rightarrow> Some c)"

fun match_at :: "regexp \<Rightarrow> char option \<Rightarrow> string \<Rightarrow> captures \<Rightarrow> matched_at list" where
  "match_at Empty p s c = [(p, s, c)]"
| "match_at (Cls k) p s c = (case s of [] \<Rightarrow> [] | x # t \<Rightarrow> if in_class k x then [(Some x, t, c)] else [])"
| "match_at (Then a b) p s c = concat (map (\<lambda>(p, s, c). match_at b p s c) (match_at a p s c))"
| "match_at (Or a b) p s c = match_at a p s c @ match_at b p s c"
| "match_at (Many greedy a) p s c =
     (let more = concat (map (\<lambda>(q, t, d). if length t < length s then match_at (Many greedy a) q t d else [])
                   (match_at a p s c))
      in if greedy then more @ [(p, s, c)] else (p, s, c) # more)"
| "match_at (Group n a) p s c =
     map (\<lambda>(q, t, d). (q, t, (n, take (length s - length t) s) # d)) (match_at a p s c)"
| "match_at Boundary p s c = (if word_at p \<noteq> word_at (first_char s) then [(p, s, c)] else [])"
| "match_at LineStart p s c = (if p = None \<or> p = Some (CHR 0x0A) then [(p, s, c)] else [])"
| "match_at TextEnd p s c = (if s = [] then [(p, s, c)] else [])"

declare match_at.simps(5) [simp del]

section \<open>Notation for patterns\<close>

definition any_of :: "regexp list \<Rightarrow> regexp" where
  "any_of rs = (case rs of [] \<Rightarrow> Empty | r # rs \<Rightarrow> foldl Or r rs)"

fun seq :: "regexp list \<Rightarrow> regexp" where
  "seq [] = Empty"
| "seq [r] = r"
| "seq (r # q # rs) = Then r (seq (q # rs))"

definition re_many :: "regexp \<Rightarrow> regexp" where "re_many r = Many True r"
definition re_some :: "regexp \<Rightarrow> regexp" where "re_some r = Then r (Many True r)"
definition re_opt :: "regexp \<Rightarrow> regexp" where "re_opt r = Or r Empty"
definition lazy_some :: "regexp \<Rightarrow> regexp" where "lazy_some r = Then r (Many False r)"

text \<open>A literal, letters in either case; a dot is any byte but a newline.\<close>

definition fold_char :: "char \<Rightarrow> regexp" where
  "fold_char c = Cls (One_of (if upper_char c = lower_char c then [c] else [upper_char c, lower_char c]))"

definition lit :: "string \<Rightarrow> regexp" where
  "lit s = seq (map fold_char s)"

definition dot :: regexp where "dot = Cls (None_of [CHR 0x0A])"
definition sp0 :: regexp where "sp0 = re_many (Cls Space)"
definition sp1 :: regexp where "sp1 = re_some (Cls Space)"
definition word1 :: regexp where "word1 = re_some (Cls Word)"
definition not1 :: "string \<Rightarrow> regexp" where "not1 cs = re_some (Cls (None_of cs))"
definition not0 :: "string \<Rightarrow> regexp" where "not0 cs = re_many (Cls (None_of cs))"

section \<open>Searching and replacing\<close>

text \<open>The match at the first position that has one: the text before it, the matched text, the byte before
  the rest, the rest, and the groups.\<close>

fun find_from :: "regexp \<Rightarrow> char option \<Rightarrow> string \<Rightarrow> (string \<times> string \<times> matched_at) option" where
  "find_from r p s =
     (case match_at r p s [] of
        (q, t, c) # _ \<Rightarrow> Some ([], take (length s - length t) s, q, t, c)
      | [] \<Rightarrow> (case s of [] \<Rightarrow> None
               | x # u \<Rightarrow> map_option (\<lambda>(before, rest). (x # before, rest)) (find_from r (Some x) u)))"

declare find_from.simps [simp del]

definition MatchString :: "regexp \<Rightarrow> string \<Rightarrow> bool" where
  "MatchString r s \<longleftrightarrow> find_from r None s \<noteq> None"

text \<open>The groups of \<open>FindStringSubmatch\<close>; a group that took no part is empty.\<close>

definition group_of :: "captures \<Rightarrow> nat \<Rightarrow> string" where
  "group_of c n = (case map_of c n of None \<Rightarrow> [] | Some s \<Rightarrow> s)"

definition FindStringSubmatch :: "regexp \<Rightarrow> string \<Rightarrow> (nat \<Rightarrow> string) option" where
  "FindStringSubmatch r s = map_option (\<lambda>(before, m, q, t, c). group_of c) (find_from r None s)"

text \<open>The preferred match at a position, if it is not empty.\<close>

definition best_match :: "regexp \<Rightarrow> char option \<Rightarrow> string \<Rightarrow> matched_at option" where
  "best_match r p s =
     (case match_at r p s [] of
        (q, t, c) # _ \<Rightarrow> if length t < length s then Some (q, t, c) else None
      | [] \<Rightarrow> None)"

function replace_from :: "regexp \<Rightarrow> (string \<Rightarrow> captures \<Rightarrow> string) \<Rightarrow> char option \<Rightarrow> string \<Rightarrow> string" where
  "replace_from r f p s =
     (case best_match r p s of
        Some (q, t, c) \<Rightarrow> f (take (length s - length t) s) c @ replace_from r f q t
      | None \<Rightarrow> (case s of [] \<Rightarrow> [] | x # u \<Rightarrow> x # replace_from r f (Some x) u))"
  by pat_completeness auto
termination
  by (relation "measure (\<lambda>(r, f, p, s). length s)") (auto simp: best_match_def split: list.splits if_splits)

declare replace_from.simps [simp del]

text \<open>\<open>ReplaceAllString\<close> with a template is a function of the groups; \<open>ReplaceAllStringFunc\<close> one of the matched text.\<close>

definition ReplaceAllString :: "regexp \<Rightarrow> string \<Rightarrow> ((nat \<Rightarrow> string) \<Rightarrow> string) \<Rightarrow> string" where
  "ReplaceAllString r s f = replace_from r (\<lambda>m c. f (group_of c)) None s"

definition ReplaceAllStringFunc :: "regexp \<Rightarrow> string \<Rightarrow> (string \<Rightarrow> string) \<Rightarrow> string" where
  "ReplaceAllStringFunc r s f = replace_from r (\<lambda>m c. f m) None s"

text \<open>The matched texts, in order.\<close>

function all_matches :: "regexp \<Rightarrow> char option \<Rightarrow> string \<Rightarrow> string list" where
  "all_matches r p s =
     (case best_match r p s of
        Some (q, t, c) \<Rightarrow> take (length s - length t) s # all_matches r q t
      | None \<Rightarrow> (case s of [] \<Rightarrow> [] | x # u \<Rightarrow> all_matches r (Some x) u))"
  by pat_completeness auto
termination
  by (relation "measure (\<lambda>(r, p, s). length s)") (auto simp: best_match_def split: list.splits if_splits)

declare all_matches.simps [simp del]

text \<open>
  The common form of \<open>ReplaceAllStringFunc\<close> in the program: the groups of the pattern in the matched
  text alone, and the matched text itself if the pattern does not match there.
\<close>

definition on_match :: "regexp \<Rightarrow> string \<Rightarrow> (string \<Rightarrow> (nat \<Rightarrow> string) \<Rightarrow> string) \<Rightarrow> string" where
  "on_match r s f =
     ReplaceAllStringFunc r s (\<lambda>m. case FindStringSubmatch r m of None \<Rightarrow> m | Some parts \<Rightarrow> f m parts)"

section \<open>Lemmas\<close>

text \<open>A match consumes a prefix of the text.\<close>

definition after :: "char option \<Rightarrow> string \<Rightarrow> char option" where
  "after p u = (if u = [] then p else Some (last u))"

lemma after_append: "after (after p u) v = after p (u @ v)"
  by (auto simp: after_def)

lemma match_at_prefix: "(q, t, d) \<in> set (match_at r p s c) \<Longrightarrow> \<exists>u. s = u @ t \<and> q = after p u"
proof (induction r p s c arbitrary: q t d rule: match_at.induct)
  case (3 a b p s c)
  then obtain p1 s1 c1 where 1: "(p1, s1, c1) \<in> set (match_at a p s c)" "(q, t, d) \<in> set (match_at b p1 s1 c1)"
    by auto
  obtain u where "s = u @ s1" "p1 = after p u" using 3(1) [OF 1(1)] by blast
  moreover obtain v where "s1 = v @ t" "q = after p1 v" using 3(2) [OF 1(1) refl refl 1(2)] by blast
  ultimately show ?case by (auto simp: after_append)
next
  case (5 g a p s c)
  show ?case
  proof (cases "(q, t, d) = (p, s, c)")
    case True
    then show ?thesis by (auto simp: after_def)
  next
    case False
    then obtain p1 s1 c1 where 1: "(p1, s1, c1) \<in> set (match_at a p s c)" "length s1 < length s"
      "(q, t, d) \<in> set (match_at (Many g a) p1 s1 c1)"
      using 5(3) by (auto simp: match_at.simps(5) [of g a p s c] Let_def split: if_splits)
    obtain u where "s = u @ s1" "p1 = after p u" using 5(1) [OF 1(1)] by blast
    moreover obtain v where "s1 = v @ t" "q = after p1 v"
      using 5(2) [OF 1(1) refl refl 1(2,3)] by blast
    ultimately show ?thesis by (auto simp: after_append)
  qed
next
  case (6 n a p s c)
  then obtain e where "(q, t, e) \<in> set (match_at a p s c)" by auto
  then show ?case by (rule 6(1))
next
  case (2 k p s c)
  then obtain x where "s = x # t" "q = Some x" by (auto split: list.splits if_splits)
  then show ?case by (intro exI [of _ "[x]"]) (simp add: after_def)
next
  case (4 a b p s c)
  then show ?case unfolding match_at.simps set_append Un_iff by blast
qed (intro exI [of _ "[]"], simp add: after_def split: if_splits)+

lemma best_match_Some:
  assumes "best_match r p s = Some (q, t, c)"
  shows "\<exists>u. u \<noteq> [] \<and> s = u @ t \<and> q = Some (last u)"
proof -
  have "(q, t, c) \<in> set (match_at r p s [])" "length t < length s"
    using assms by (auto simp: best_match_def split: list.splits if_splits)
  moreover obtain u where "s = u @ t" "q = after p u" using match_at_prefix [OF calculation(1)] by blast
  ultimately show ?thesis by (intro exI [of _ u]) (auto simp: after_def)
qed

text \<open>Text without a match is left alone.\<close>

lemma replace_no_match:
  "find_from r p s = None \<Longrightarrow> replace_from r f p s = s"
proof (induction s arbitrary: p)
  case Nil
  then show ?case
    by (simp add: replace_from.simps [of _ _ _ "[]"] find_from.simps [of _ _ "[]"] best_match_def split: list.splits)
next
  case (Cons x u)
  then have "match_at r p (x # u) [] = []" "find_from r (Some x) u = None"
    by (auto simp: find_from.simps [of _ _ "x # u"] split: list.splits prod.splits)
  then show ?case using Cons.IH by (simp add: replace_from.simps [of _ _ _ "x # u"] best_match_def)
qed

lemma ReplaceAll_no_match: "\<not> MatchString r s \<Longrightarrow> ReplaceAllString r s f = s \<and> ReplaceAllStringFunc r s g = s"
  unfolding MatchString_def ReplaceAllString_def ReplaceAllStringFunc_def not_not
  by (intro conjI replace_no_match)

section \<open>Whole words\<close>

text \<open>A literal matches the bytes that are equal to it up to case, in one way.\<close>

lemma in_fold_char: "match_at (fold_char c) p s d =
  (case s of [] \<Rightarrow> [] | x # t \<Rightarrow> if upper_char x = upper_char c then [(Some x, t, d)] else [])"
proof (cases s)
  case (Cons x t)
  have "(if upper_char c = lower_char c then x = c else x = upper_char c \<or> x = lower_char c) \<longleftrightarrow> upper_char x = upper_char c"
    by (auto simp: byte_inj [symmetric] byte_upper_char byte_lower_char split: if_splits)
  moreover have "in_class (One_of (if upper_char c = lower_char c then [c] else [upper_char c, lower_char c])) x \<longleftrightarrow>
      (if upper_char c = lower_char c then x = c else x = upper_char c \<or> x = lower_char c)" by auto
  ultimately show ?thesis by (simp only: Cons fold_char_def match_at.simps list.case)
qed (simp add: fold_char_def)

lemma lit_Cons: "match_at (lit (c # w)) p s d = concat (map (\<lambda>(p, s, d). match_at (lit w) p s d) (match_at (fold_char c) p s d))"
  by (cases w) (simp_all add: lit_def case_prod_unfold)

lemma match_at_lit: "match_at (lit w) p s d =
  (if ToUpper (take (length w) s) = ToUpper w then [(after p (take (length w) s), drop (length w) s, d)] else [])"
proof (induction w arbitrary: p s)
  case Nil
  then show ?case by (simp add: lit_def after_def)
next
  case (Cons c w)
  show ?case
  proof (cases s)
    case Nil
    then show ?thesis by (auto simp: lit_Cons in_fold_char ToUpper_def)
  next
    case (Cons x t)
    have "after p (x # u) = after (Some x) u" for u by (simp add: after_def)
    then show ?thesis by (auto simp: lit_Cons in_fold_char Cons Cons.IH ToUpper_def)
  qed
qed

lemma is_word_upper: "upper_char c = upper_char d \<Longrightarrow> is_word c = is_word d"
  by (auto simp: byte_inj [symmetric] byte_upper_char is_word_def split: if_splits)

definition whole_word :: "string \<Rightarrow> regexp" where
  "whole_word w = seq [Boundary, lit w, Boundary]"

lemma match_whole_word: "match_at (whole_word w) p s d =
  (if word_at p \<noteq> word_at (first_char s) \<and> ToUpper (take (length w) s) = ToUpper w \<and>
      word_at (after p (take (length w) s)) \<noteq> word_at (first_char (drop (length w) s))
   then [(after p (take (length w) s), drop (length w) s, d)] else [])"
  by (auto simp: whole_word_def match_at_lit)

lemma no_word_after: "\<not> word_at (first_char (dropWhile is_word s))"
  by (induction s) (auto simp: first_char_def word_at_def)

text \<open>A text as its maximal runs of word characters and the single bytes between them.\<close>

function word_runs :: "string \<Rightarrow> string list" where
  "word_runs [] = []"
| "word_runs (c # s) =
     (if is_word c then (c # takeWhile is_word s) # word_runs (dropWhile is_word s) else [c] # word_runs s)"
  by pat_completeness auto
termination
  by (relation "measure length") (auto simp: le_imp_less_Suc length_dropWhile_le)

lemma words_all2: "list_all2 (\<lambda>x c. upper_char x = upper_char c) u w \<Longrightarrow> \<forall>c \<in> set w. is_word c \<Longrightarrow> \<forall>c \<in> set u. is_word c"
  by (induction rule: list_all2_induct) (auto dest: is_word_upper)

lemma words_of_text:
  assumes "w \<noteq> []" "\<forall>c \<in> set w. is_word c" "ToUpper (take (length w) s) = ToUpper w"
  shows "\<forall>c \<in> set (take (length w) s). is_word c" "take (length w) s \<noteq> []" "word_at (first_char s)"
proof -
  have all2: "list_all2 (\<lambda>x c. upper_char x = upper_char c) (take (length w) s) w"
    using assms(3) unfolding ToUpper_def list.rel_eq [symmetric] list.rel_map .
  then show words: "\<forall>c \<in> set (take (length w) s). is_word c"
    by (rule words_all2 [OF _ assms(2)])
  show "take (length w) s \<noteq> []" using all2 assms(1) by auto
  then show "word_at (first_char s)"
    using words by (cases s; cases w) (auto simp: first_char_def word_at_def)
qed

lemma best_whole_word:
  assumes "w \<noteq> []" "\<forall>c \<in> set w. is_word c"
  shows "best_match (whole_word w) p s =
    (if \<not> word_at p \<and> ToUpper (takeWhile is_word s) = ToUpper w
     then Some (after p (takeWhile is_word s), dropWhile is_word s, []) else None)"
proof (cases "ToUpper (take (length w) s) = ToUpper w")
  case True
  note words = words_of_text [OF assms True]
  have len: "length (take (length w) s) = length w" using True by (metis length_ToUpper)
  have last: "word_at (after p (take (length w) s))" using words(1,2) by (auto simp: after_def word_at_def)
  have ends: "\<not> word_at (first_char (drop (length w) s)) \<longleftrightarrow> takeWhile is_word s = take (length w) s"
  proof
    assume "\<not> word_at (first_char (drop (length w) s))"
    then have "takeWhile is_word (drop (length w) s) = []"
      by (cases "drop (length w) s") (simp_all add: first_char_def word_at_def)
    then have "takeWhile is_word (take (length w) s @ drop (length w) s) = take (length w) s"
      using words(1) by (subst takeWhile_append2) auto
    then show "takeWhile is_word s = take (length w) s" by simp
  next
    assume eq: "takeWhile is_word s = take (length w) s"
    have "drop (length w) s = dropWhile is_word s"
      by (metis append_same_eq append_take_drop_id eq takeWhile_dropWhile_id same_append_eq)
    then show "\<not> word_at (first_char (drop (length w) s))" by (simp add: no_word_after)
  qed
  have run: "ToUpper (takeWhile is_word s) = ToUpper w \<longleftrightarrow> takeWhile is_word s = take (length w) s"
  proof
    assume "ToUpper (takeWhile is_word s) = ToUpper w"
    then have "length (takeWhile is_word s) = length w" by (metis length_ToUpper)
    then show "takeWhile is_word s = take (length w) s" by (metis takeWhile_eq_take)
  qed (simp add: True)
  have "drop (length w) s = dropWhile is_word s" if "takeWhile is_word s = take (length w) s"
    by (metis append_take_drop_id takeWhile_dropWhile_id same_append_eq that)
  moreover have "length (drop (length w) s) < length s" using len assms(1) by (cases s) auto
  ultimately show ?thesis
    unfolding best_match_def match_whole_word using words(3) last ends run True
    by (cases "takeWhile is_word s = take (length w) s") simp_all
next
  case False
  then have "match_at (whole_word w) p s [] = []" by (simp add: match_whole_word)
  moreover have "ToUpper (takeWhile is_word s) \<noteq> ToUpper w"
  proof
    assume eq: "ToUpper (takeWhile is_word s) = ToUpper w"
    then have "length (takeWhile is_word s) = length w" by (metis length_ToUpper)
    then have "takeWhile is_word s = take (length w) s" by (metis takeWhile_eq_take)
    with eq False show False by simp
  qed
  ultimately show ?thesis by (simp add: best_match_def)
qed

lemma replace_None: "best_match r p (x # u) = None \<Longrightarrow> replace_from r f p (x # u) = x # replace_from r f (Some x) u"
  by (subst replace_from.simps) simp

lemma replace_Some: "best_match r p s = Some (q, t, c) \<Longrightarrow>
  replace_from r f p s = f (take (length s - length t) s) c @ replace_from r f q t"
  by (subst replace_from.simps) simp

lemma replace_end: "best_match r p [] = None"
  by (auto simp: best_match_def split: list.splits)

text \<open>Inside a word nothing matches.\<close>

lemma replace_inside:
  assumes "w \<noteq> []" "\<forall>c \<in> set w. is_word c" "word_at p" "\<forall>c \<in> set u. is_word c"
  shows "replace_from (whole_word w) f p (u @ v) = u @ replace_from (whole_word w) f (after p u) v"
  using assms(3,4)
proof (induction u arbitrary: p)
  case (Cons x u)
  have "best_match (whole_word w) p ((x # u) @ v) = None" using best_whole_word [OF assms(1,2)] Cons.prems(1) by simp
  then have "replace_from (whole_word w) f p ((x # u) @ v) = x # replace_from (whole_word w) f (Some x) (u @ v)"
    using replace_None [of "whole_word w" p x "u @ v" f] by simp
  moreover have "after (Some x) u = after p (x # u)" by (simp add: after_def)
  ultimately show ?case using Cons by (simp add: word_at_def)
qed (simp add: after_def)

lemma replace_words:
  assumes "w \<noteq> []" "\<forall>c \<in> set w. is_word c" "\<not> word_at p \<or> \<not> word_at (first_char s)"
  shows "replace_from (whole_word w) f p s =
    concat (map (\<lambda>u. if ToUpper u = ToUpper w then f u [] else u) (word_runs s))"
  using assms(3)
proof (induction s arbitrary: p rule: word_runs.induct)
  case 1
  show ?case by (subst replace_from.simps) (simp add: replace_end)
next
  case (2 c s)
  have best: "best_match (whole_word w) p (c # s) =
      (if \<not> word_at p \<and> ToUpper (takeWhile is_word (c # s)) = ToUpper w
       then Some (after p (takeWhile is_word (c # s)), dropWhile is_word (c # s), []) else None)"
    by (rule best_whole_word [OF assms(1,2)])
  have w: "ToUpper w \<noteq> []" using assms(1) by (simp add: ToUpper_def)
  show ?case
  proof (cases "is_word c")
    case False
    then have "best_match (whole_word w) p (c # s) = None" using best w by (auto simp: ToUpper_def)
    moreover have "ToUpper [c] \<noteq> ToUpper w"
    proof
      assume "ToUpper [c] = ToUpper w"
      then have "list_all2 (\<lambda>x c. upper_char x = upper_char c) [c] w"
        unfolding ToUpper_def list.rel_eq [symmetric] list.rel_map .
      from words_all2 [OF this assms(2)] False show False by simp
    qed
    moreover have "replace_from (whole_word w) f (Some c) s =
        concat (map (\<lambda>u. if ToUpper u = ToUpper w then f u [] else u) (word_runs s))"
      using 2(2) [OF False, of "Some c"] False by (simp add: word_at_def)
    ultimately show ?thesis using False by (simp add: replace_None)
  next
    case True
    let ?u = "takeWhile is_word (c # s)" and ?v = "dropWhile is_word (c # s)"
    have v: "\<not> word_at (first_char (dropWhile is_word s))"
      by (rule no_word_after)
    have p: "\<not> word_at p" using 2(3) True by (auto simp: first_char_def word_at_def)
    have IH: "replace_from (whole_word w) f q (dropWhile is_word s) =
        concat (map (\<lambda>u. if ToUpper u = ToUpper w then f u [] else u) (word_runs (dropWhile is_word s)))" for q
      using 2(1) [OF True] v by blast
    have split: "?u @ ?v = c # s" by (rule takeWhile_dropWhile_id)
    show ?thesis
    proof (cases "ToUpper ?u = ToUpper w")
      case match: True
      have "take (length (c # s) - length ?v) (c # s) = ?u"
        using split by (metis add_diff_cancel_right' append_eq_conv_conj length_append)
      moreover have "best_match (whole_word w) p (c # s) = Some (after p ?u, ?v, [])" using best p match by simp
      ultimately have "replace_from (whole_word w) f p (c # s) = f ?u [] @ replace_from (whole_word w) f (after p ?u) ?v"
        using replace_Some [of "whole_word w" p "c # s" "after p ?u" ?v "[]" f] by (simp del: takeWhile.simps dropWhile.simps)
      then show ?thesis using True match IH by simp
    next
      case no: False
      then have "best_match (whole_word w) p (c # s) = None" using best by simp
      then have "replace_from (whole_word w) f p (c # s) = c # replace_from (whole_word w) f (Some c) s" by (rule replace_None)
      also have "replace_from (whole_word w) f (Some c) s =
          replace_from (whole_word w) f (Some c) (takeWhile is_word s @ dropWhile is_word s)" by simp
      also have "\<dots> = takeWhile is_word s @ replace_from (whole_word w) f (after (Some c) (takeWhile is_word s)) (dropWhile is_word s)"
        by (rule replace_inside [OF assms(1,2)]) (auto simp: word_at_def True dest: set_takeWhileD)
      finally show ?thesis using True no by (simp add: IH)
    qed
  qed
qed

lemma replace_whole_word:
  assumes "w \<noteq> []" "\<forall>c \<in> set w. is_word c"
  shows "ReplaceAllString (whole_word w) s (\<lambda>g. text) =
    concat (map (\<lambda>u. if ToUpper u = ToUpper w then text else u) (word_runs s))"
  unfolding ReplaceAllString_def by (rule replace_words [OF assms]) (simp add: word_at_def)

end
