(* ===== verification/Plsql_Patterns.thy ===== *)
theory Plsql_Patterns
  imports Go_Regexp
begin

text \<open>
  The compiled patterns of \<open>internal/plsql/convert.go\<close>, one definition per variable, in the order of
  the source. A quote character is \<open>CHR 0x27\<close>.
\<close>

definition reDECODEStart :: regexp where
  "reDECODEStart = seq [Boundary, lit ''DECODE'', sp0, lit ''('']"

definition reNVL :: regexp where
  "reNVL = seq [Boundary, lit ''NVL'', sp0, lit ''('']"

definition reNVL2 :: regexp where
  "reNVL2 = seq [Boundary, lit ''NVL2'', sp0, lit ''('', Group 1 (seq [not1 '')'', re_many (seq [lit ''('',
     not0 '')'', lit '')'']), not0 '')'']), lit '')'']"

definition reSysdate :: regexp where
  "reSysdate = seq [Boundary, lit ''SYSDATE'', Boundary]"

definition reSystimestamp :: regexp where
  "reSystimestamp = seq [Boundary, lit ''SYSTIMESTAMP'', Boundary]"

definition reTruncDate :: regexp where
  "reTruncDate = seq [Boundary, lit ''TRUNC'', sp0, lit ''('', Group 1 (not1 '')''), lit '')'']"

definition reAddMonths :: regexp where
  "reAddMonths = seq [Boundary, lit ''ADD_MONTHS'', sp0, lit ''('', sp0, Group 1 (not1 '',''), sp0, lit '','',
     sp0, Group 2 (not1 '')''), sp0, lit '')'']"

definition reToNumber :: regexp where
  "reToNumber = seq [Boundary, lit ''TO_NUMBER'', sp0, lit ''('', sp0, Group 1 (not1 '')''), sp0, lit '')'']"

definition reRownum :: regexp where
  "reRownum = seq [Boundary, lit ''ROWNUM'', Boundary]"

definition reRownumWhere :: regexp where
  "reRownumWhere = any_of [seq [Boundary, lit ''AND'', sp1, lit ''ROWNUM'', sp0, lit ''<='', sp0,
     Group 1 (re_some (Cls Digit))], seq [Boundary, lit ''WHERE'', sp1, lit ''ROWNUM'', sp0, lit ''<='', sp0,
     Group 2 (re_some (Cls Digit))]]"

definition reNewOld :: regexp where
  "reNewOld = seq [lit '':'', Group 1 (any_of [lit ''NEW'', lit ''OLD'']), lit ''.'', word1]"

definition reRaiseAppError :: regexp where
  "reRaiseAppError = seq [Boundary, lit ''RAISE_APPLICATION_ERROR'', sp0, lit ''('', sp0,
     Group 1 (seq [re_opt (lit ''-''), re_some (Cls Digit)]), sp0, lit '','', sp0, Group 2 (lazy_some dot), sp0,
     lit '')'']"

definition reDbmsOutput :: regexp where
  "reDbmsOutput = seq [Boundary, lit ''DBMS_OUTPUT.PUT_LINE'', sp0, lit ''('', sp0, Group 1 (lazy_some dot), sp0,
     lit '')'']"

definition reSeqNextval :: regexp where
  "reSeqNextval = seq [Boundary, Group 1 word1, lit ''.NEXTVAL'', Boundary]"

definition reSeqCurrval :: regexp where
  "reSeqCurrval = seq [Boundary, Group 1 word1, lit ''.CURRVAL'', Boundary]"

definition reSQLRowcount :: regexp where
  "reSQLRowcount = seq [Boundary, lit ''SQL%ROWCOUNT'', Boundary]"

definition reNoDataFound :: regexp where
  "reNoDataFound = seq [Boundary, lit ''NO_DATA_FOUND'', Boundary]"

definition reReturnType :: regexp where
  "reReturnType = seq [Group 1 (seq [lit '')'', sp0]), lit ''RETURN'', Group 2 sp1]"

definition rePercentType :: regexp where
  "rePercentType = seq [word1, lit ''%'', re_opt (lit ''ROW''), lit ''TYPE'', Boundary]"

definition reBulkCollect :: regexp where
  "reBulkCollect = seq [Boundary, lit ''BULK'', sp1, lit ''COLLECT'', Boundary]"

definition reForall :: regexp where
  "reForall = seq [Boundary, lit ''FORALL'', Boundary]"

definition reConnectBy :: regexp where
  "reConnectBy = seq [Boundary, lit ''CONNECT'', sp1, lit ''BY'', Boundary]"

definition reRefCursor :: regexp where
  "reRefCursor = seq [Boundary, lit ''SYS_REFCURSOR'', Boundary]"

definition reTypeDecl :: regexp where
  "reTypeDecl = seq [Boundary, lit ''TYPE'', sp1, word1, sp1, lit ''IS'', sp1, any_of [lit ''TABLE'',
     lit ''RECORD''], Boundary]"

definition rePackageHeader :: regexp where
  "rePackageHeader = seq [Boundary, lit ''PACKAGE'', sp1, Group 1 word1, sp1, lit ''AS'', Boundary]"

definition rePackageBodyHeader :: regexp where
  "rePackageBodyHeader = seq [Boundary, lit ''PACKAGE'', sp1, lit ''BODY'', sp1, Group 1 word1, sp1, lit ''AS'',
     Boundary]"

definition reCommit :: regexp where
  "reCommit = seq [Boundary, lit ''COMMIT'', sp0, lit '';'']"

definition reProcHeader :: regexp where
  "reProcHeader = seq [lit ''CREATE'', sp1, lit ''OR'', sp1, lit ''REPLACE'', sp1, lit ''PROCEDURE'', sp1, word1,
     sp0, lit ''('', not0 '')'', lit '')'', sp0, any_of [lit ''AS'', lit ''IS'']]"

definition reFuncHeader :: regexp where
  "reFuncHeader = seq [lit ''CREATE'', sp1, lit ''OR'', sp1, lit ''REPLACE'', sp1, lit ''FUNCTION'', sp1, word1,
     sp0, lit ''('', not0 '')'', lit '')'', sp0, lit ''RETURN'', re_opt (lit ''S''), sp1, word1, sp0,
     any_of [lit ''AS'', lit ''IS'']]"

definition reTrimAsIs :: regexp where
  "reTrimAsIs = seq [sp1, any_of [lit ''AS'', lit ''IS''], sp0, TextEnd]"

definition reParamNumber :: regexp where
  "reParamNumber = seq [Boundary, lit ''NUMBER'', Boundary, re_opt (Group 1 (seq [lit ''('', not0 '')'',
     lit '')'']))]"

definition reParamVarchar2 :: regexp where
  "reParamVarchar2 = seq [Boundary, re_opt (lit ''N''), lit ''VARCHAR2'', Boundary,
     re_opt (Group 1 (seq [lit ''('', not0 '')'', lit '')'']))]"

definition reParamClob :: regexp where
  "reParamClob = seq [Boundary, re_opt (lit ''N''), lit ''CLOB'', Boundary]"

definition reParamBlob :: regexp where
  "reParamBlob = seq [Boundary, lit ''BLOB'', Boundary]"

definition reParamDate :: regexp where
  "reParamDate = seq [Group 1 (Cls Space), lit ''DATE'', Group 2 (any_of [Cls Space, lit '';'', lit '','',
     lit '')''])]"

definition rePLSInteger :: regexp where
  "rePLSInteger = seq [Boundary, lit ''PLS_INTEGER'', Boundary]"

definition reBinaryInteger :: regexp where
  "reBinaryInteger = seq [Boundary, lit ''BINARY_INTEGER'', Boundary]"

definition reFromDual :: regexp where
  "reFromDual = seq [sp1, lit ''FROM'', sp1, lit ''DUAL'', Boundary]"

definition reMinus :: regexp where
  "reMinus = seq [Boundary, lit ''MINUS'', Boundary]"

definition reInstr :: regexp where
  "reInstr = seq [Boundary, lit ''INSTR'', sp0, lit ''('', Group 1 (seq [not1 '')'', re_many (seq [lit ''('',
     not0 '')'', lit '')'']), not0 '')'']), lit '')'']"

definition reListagg :: regexp where
  "reListagg = seq [Boundary, lit ''LISTAGG'', sp0, lit ''('', sp0, Group 1 (not1 '',''), sp0, lit '','', sp0,
     Group 2 (not1 '')''), lit '')'', sp0, lit ''WITHIN'', sp1, lit ''GROUP'', sp0, lit ''('', sp0,
     Group 3 (seq [lit ''ORDER'', sp1, lit ''BY'', sp1, not1 '')'']), lit '')'']"

definition reWMConcat :: regexp where
  "reWMConcat = seq [Boundary, lit ''WM_CONCAT'', sp0, lit ''('', sp0, Group 1 (not1 '')''), sp0, lit '')'']"

definition reLastDay :: regexp where
  "reLastDay = seq [Boundary, lit ''LAST_DAY'', sp0, lit ''('', sp0, Group 1 (not1 '')''), sp0, lit '')'']"

definition reMonthsBetween :: regexp where
  "reMonthsBetween = seq [Boundary, lit ''MONTHS_BETWEEN'', sp0, lit ''('', sp0, Group 1 (not1 '',''), sp0,
     lit '','', sp0, Group 2 (not1 '')''), sp0, lit '')'']"

definition reSysGuid :: regexp where
  "reSysGuid = seq [Boundary, lit ''SYS_GUID'', sp0, lit ''('', sp0, lit '')'']"

definition reEmptyClob :: regexp where
  "reEmptyClob = seq [Boundary, lit ''EMPTY_CLOB'', sp0, lit ''('', sp0, lit '')'']"

definition reEmptyBlob :: regexp where
  "reEmptyBlob = seq [Boundary, lit ''EMPTY_BLOB'', sp0, lit ''('', sp0, lit '')'']"

definition reBitand :: regexp where
  "reBitand = seq [Boundary, lit ''BITAND'', sp0, lit ''('', sp0, Group 1 (not1 '',''), sp0, lit '','', sp0,
     Group 2 (not1 '')''), sp0, lit '')'']"

definition reLengthB :: regexp where
  "reLengthB = seq [Boundary, lit ''LENGTHB'', sp0, lit ''('']"

definition reRegexpLike :: regexp where
  "reRegexpLike = seq [Boundary, lit ''REGEXP_LIKE'', sp0, lit ''('', sp0, Group 1 (not1 '',''), sp0, lit '','',
     sp0, Group 2 (not1 '',)''), sp0, re_opt (seq [lit '','', sp0, Group 3 (not1 '')''), sp0]), lit '')'']"

definition reOuterJoinPlus :: regexp where
  "reOuterJoinPlus = lit ''(+)''"

definition reMergeInto :: regexp where
  "reMergeInto = seq [Boundary, lit ''MERGE'', sp1, lit ''INTO'', Boundary]"

definition reExecImmediate :: regexp where
  "reExecImmediate = seq [Boundary, lit ''EXECUTE'', sp1, lit ''IMMEDIATE'', sp1]"

definition reFromTZ :: regexp where
  "reFromTZ = seq [Boundary, lit ''FROM_TZ'', sp0, lit ''('', sp0, Group 1 (not1 '',''), sp0, lit '','', sp0,
     Group 2 (not1 '')''), sp0, lit '')'']"

definition reNumToDSInterval :: regexp where
  "reNumToDSInterval = seq [Boundary, lit ''NUMTODSINTERVAL'', sp0, lit ''('', sp0, Group 1 (not1 '',''), sp0,
     lit '','', sp0, Group 2 (not1 '')''), sp0, lit '')'']"

definition reSysCtxUser :: regexp where
  "reSysCtxUser = seq [Boundary, lit ''SYS_CONTEXT'', sp0, lit ''('', sp0,
     lit ([CHR 0x27] @ ''USERENV'' @ [CHR 0x27]), sp0, lit '','', sp0,
     lit ([CHR 0x27] @ ''CURRENT_USER'' @ [CHR 0x27]), sp0, lit '')'']"

definition reSysCtxSessionUser :: regexp where
  "reSysCtxSessionUser = seq [Boundary, lit ''SYS_CONTEXT'', sp0, lit ''('', sp0,
     lit ([CHR 0x27] @ ''USERENV'' @ [CHR 0x27]), sp0, lit '','', sp0,
     lit ([CHR 0x27] @ ''SESSION_USER'' @ [CHR 0x27]), sp0, lit '')'']"

definition reSysCtxDbName :: regexp where
  "reSysCtxDbName = seq [Boundary, lit ''SYS_CONTEXT'', sp0, lit ''('', sp0,
     lit ([CHR 0x27] @ ''USERENV'' @ [CHR 0x27]), sp0, lit '','', sp0,
     lit ([CHR 0x27] @ ''DB_NAME'' @ [CHR 0x27]), sp0, lit '')'']"

definition reSysCtxIPAddr :: regexp where
  "reSysCtxIPAddr = seq [Boundary, lit ''SYS_CONTEXT'', sp0, lit ''('', sp0,
     lit ([CHR 0x27] @ ''USERENV'' @ [CHR 0x27]), sp0, lit '','', sp0,
     lit ([CHR 0x27] @ ''IP_ADDRESS'' @ [CHR 0x27]), sp0, lit '')'']"

definition reSysCtxSessionID :: regexp where
  "reSysCtxSessionID = seq [Boundary, lit ''SYS_CONTEXT'', sp0, lit ''('', sp0,
     lit ([CHR 0x27] @ ''USERENV'' @ [CHR 0x27]), sp0, lit '','', sp0,
     lit ([CHR 0x27] @ ''SESSIONID'' @ [CHR 0x27]), sp0, lit '')'']"

definition reDbmsLobGetLength :: regexp where
  "reDbmsLobGetLength = seq [Boundary, lit ''DBMS_LOB.GETLENGTH'', sp0, lit ''('', sp0, Group 1 (not1 '')''),
     sp0, lit '')'']"

definition reDbmsLobSubstr :: regexp where
  "reDbmsLobSubstr = seq [Boundary, lit ''DBMS_LOB.SUBSTR'', sp0, lit ''('', sp0, Group 1 (not1 '',''), sp0,
     lit '','', sp0, Group 2 (not1 '',''), sp0, lit '','', sp0, Group 3 (not1 '')''), sp0, lit '')'']"

definition reDbmsLockSleep :: regexp where
  "reDbmsLockSleep = seq [Boundary, lit ''DBMS_LOCK.SLEEP'', sp0, lit ''('', sp0, Group 1 (not1 '')''), sp0,
     lit '')'']"

definition reInserting :: regexp where
  "reInserting = seq [Boundary, lit ''INSERTING'', Boundary]"

definition reUpdating :: regexp where
  "reUpdating = seq [Boundary, lit ''UPDATING'', Boundary]"

definition reDeleting :: regexp where
  "reDeleting = seq [Boundary, lit ''DELETING'', Boundary]"

definition reDupValOnIndex :: regexp where
  "reDupValOnIndex = seq [Boundary, lit ''DUP_VAL_ON_INDEX'', Boundary]"

definition reZeroDivide :: regexp where
  "reZeroDivide = seq [Boundary, lit ''ZERO_DIVIDE'', Boundary]"

definition reTooManyRows :: regexp where
  "reTooManyRows = seq [Boundary, lit ''TOO_MANY_ROWS'', Boundary]"

definition reValueError :: regexp where
  "reValueError = seq [Boundary, lit ''VALUE_ERROR'', Boundary]"

definition reInvalidNumber :: regexp where
  "reInvalidNumber = seq [Boundary, lit ''INVALID_NUMBER'', Boundary]"

definition reCursorNotFound :: regexp where
  "reCursorNotFound = seq [Boundary, word1, lit ''%NOTFOUND'', Boundary]"

definition reCursorFound :: regexp where
  "reCursorFound = seq [Boundary, word1, lit ''%FOUND'', Boundary]"

definition reSQLNotFound :: regexp where
  "reSQLNotFound = seq [Boundary, lit ''SQL%NOTFOUND'', Boundary]"

definition reSQLFound :: regexp where
  "reSQLFound = seq [Boundary, lit ''SQL%FOUND'', Boundary]"

definition reCursorDecl :: regexp where
  "reCursorDecl = seq [Boundary, lit ''CURSOR'', sp1, Group 1 word1, sp1, lit ''IS'', sp1, lit ''SELECT'', Boundary]"

definition reInOut :: regexp where
  "reInOut = seq [Boundary, lit ''IN'', sp1, lit ''OUT'', Boundary]"

definition reToDate :: regexp where
  "reToDate = seq [Boundary, lit ''TO_DATE'', sp0, lit ''('', Group 1 (seq [not1 '')'', re_many (seq [lit ''('',
     not0 '')'', lit '')'']), not0 '')'']), lit '')'']"

definition reToChar :: regexp where
  "reToChar = seq [Boundary, lit ''TO_CHAR'', sp0, lit ''('', Group 1 (seq [not1 '')'', re_many (seq [lit ''('',
     not0 '')'', lit '')'']), not0 '')'']), lit '')'']"

definition rePragmaExcInit :: regexp where
  "rePragmaExcInit = seq [LineStart, sp0, lit ''PRAGMA'', sp1, lit ''EXCEPTION_INIT'', sp0, lit ''('',
     not1 '')'', lit '')'', sp0, lit '';'']"

definition rePragmaAutonomous :: regexp where
  "rePragmaAutonomous = seq [LineStart, sp0, lit ''PRAGMA'', sp1, lit ''AUTONOMOUS_TRANSACTION'', sp0, lit '';'']"

definition rePragmaRestrictRef :: regexp where
  "rePragmaRestrictRef = seq [LineStart, sp0, lit ''PRAGMA'', sp1, lit ''RESTRICT_REFERENCES'', sp0, lit ''('',
     not1 '')'', lit '')'', sp0, lit '';'']"

definition reNocopy :: regexp where
  "reNocopy = seq [Boundary, lit ''NOCOPY'', sp1]"

definition reDeterministic :: regexp where
  "reDeterministic = seq [Boundary, lit ''DETERMINISTIC'', Boundary]"

definition reResultCache :: regexp where
  "reResultCache = seq [Boundary, lit ''RESULT_CACHE'', Boundary]"

definition reAuthidCurrentUser :: regexp where
  "reAuthidCurrentUser = seq [Boundary, lit ''AUTHID'', sp1, lit ''CURRENT_USER'', Boundary]"

definition reAuthidDefiner :: regexp where
  "reAuthidDefiner = seq [Boundary, lit ''AUTHID'', sp1, lit ''DEFINER'', Boundary]"

definition reSecurityInvoker :: regexp where
  "reSecurityInvoker = seq [Boundary, lit ''SECURITY'', sp1, lit ''INVOKER'', Boundary]"

definition reSecurityDefiner :: regexp where
  "reSecurityDefiner = seq [Boundary, lit ''SECURITY'', sp1, lit ''DEFINER'', Boundary]"

definition reRegexpSubstr :: regexp where
  "reRegexpSubstr = seq [Boundary, lit ''REGEXP_SUBSTR'', sp0, lit ''('', sp0, Group 1 (not1 '',''), sp0,
     lit '','', sp0, Group 2 (not1 '',)''), sp0, lit '')'']"

definition reRegexpCount :: regexp where
  "reRegexpCount = seq [Boundary, lit ''REGEXP_COUNT'', sp0, lit ''('', sp0, Group 1 (not1 '',''), sp0,
     lit '','', sp0, Group 2 (not1 '',)''), sp0, lit '')'']"

definition reNumToYMInterval :: regexp where
  "reNumToYMInterval = seq [Boundary, lit ''NUMTOYMINTERVAL'', sp0, lit ''('', sp0, Group 1 (not1 '',''), sp0,
     lit '','', sp0, Group 2 (not1 '')''), sp0, lit '')'']"

definition reDbmsUtilGetTime :: regexp where
  "reDbmsUtilGetTime = seq [Boundary, lit ''DBMS_UTILITY.GET_TIME'', Boundary]"

definition reDbmsOutputPut :: regexp where
  "reDbmsOutputPut = seq [Boundary, lit ''DBMS_OUTPUT.PUT'', sp0, lit ''('', sp0, Group 1 (lazy_some dot), sp0,
     lit '')'']"

definition reLoginDenied :: regexp where
  "reLoginDenied = seq [Boundary, lit ''LOGIN_DENIED'', Boundary]"

definition reCursorAlreadyOpen :: regexp where
  "reCursorAlreadyOpen = seq [Boundary, lit ''CURSOR_ALREADY_OPEN'', Boundary]"

definition reInvalidCursor :: regexp where
  "reInvalidCursor = seq [Boundary, lit ''INVALID_CURSOR'', Boundary]"

definition reOpenCursor :: regexp where
  "reOpenCursor = any_of [seq [Boundary, lit ''OPEN'', sp1, word1, re_opt (seq [sp0, lit ''('', not0 '')'',
     lit '')'']), sp0, lit '';''], seq [Boundary, lit ''OPEN'', sp1, word1, sp1, lit ''FOR'', Boundary]]"

definition reFetchCursor :: regexp where
  "reFetchCursor = seq [Boundary, lit ''FETCH'', sp1, word1, sp1, lit ''INTO'', Boundary]"

definition reCloseCursor :: regexp where
  "reCloseCursor = seq [Boundary, lit ''CLOSE'', sp1, word1, sp0, lit '';'']"

definition reSavepoint :: regexp where
  "reSavepoint = seq [Boundary, lit ''SAVEPOINT'', sp1, word1, sp0, lit '';'']"

definition rePipelined :: regexp where
  "rePipelined = seq [Boundary, lit ''PIPELINED'', Boundary]"

definition rePipeRow :: regexp where
  "rePipeRow = seq [Boundary, lit ''PIPE'', sp1, lit ''ROW'', sp0, lit ''('']"

definition reUtlFile :: regexp where
  "reUtlFile = seq [Boundary, lit ''UTL_FILE.'', word1]"

definition reDbmsSql :: regexp where
  "reDbmsSql = seq [Boundary, lit ''DBMS_SQL.'', word1]"

definition reDbmsJob :: regexp where
  "reDbmsJob = seq [Boundary, lit ''DBMS_'', any_of [lit ''JOB'', lit ''SCHEDULER''], lit ''.'', word1]"

definition reDbmsCrypto :: regexp where
  "reDbmsCrypto = seq [Boundary, lit ''DBMS_CRYPTO.'', word1]"

definition reRowidRef :: regexp where
  "reRowidRef = seq [Boundary, lit ''ROWID'', Boundary]"

end
