(* ===== verification/Plsql_Naming.thy ===== *)
theory Plsql_Naming
  imports Go_Regexp
begin

text \<open>
  The scanners of \<open>internal/plsql/convert.go\<close>: \<open>applyNaming\<close>, which changes the case of identifiers and
  leaves literals, comments and quoted identifiers alone, \<open>splitTopLevel\<close>, which splits an argument
  list, and \<open>splitDeclareBody\<close>. The index loops of the source are recursions on the rest of the text.
\<close>

section \<open>\<open>applyNaming\<close>\<close>

definition NamingLowercase :: string where "NamingLowercase = ''lowercase''"
definition NamingUppercase :: string where "NamingUppercase = ''uppercase''"
definition NamingKeepOriginal :: string where "NamingKeepOriginal = ''keep_original''"

text \<open>Words that are always written in upper case.\<close>

definition sql_keywords :: "string list" where
  "sql_keywords = [
     ''SELECT'', ''FROM'', ''WHERE'', ''AND'', ''OR'', ''INSERT'', ''INTO'', ''UPDATE'', ''DELETE'', ''SET'',
     ''VALUES'', ''CREATE'', ''DROP'', ''ALTER'', ''TABLE'', ''INDEX'', ''ON'', ''AS'', ''IS'', ''IN'', ''OUT'',
     ''NOT'', ''NULL'', ''DEFAULT'', ''PRIMARY'', ''KEY'', ''FOREIGN'', ''REFERENCES'', ''CONSTRAINT'',
     ''UNIQUE'', ''CHECK'', ''CASCADE'', ''IF'', ''THEN'', ''ELSE'', ''ELSIF'', ''END'', ''BEGIN'', ''DECLARE'',
     ''EXCEPTION'', ''WHEN'', ''OTHERS'', ''RAISE'', ''RETURN'', ''RETURNS'', ''LOOP'', ''FOR'', ''WHILE'',
     ''EXIT'', ''CONTINUE'', ''CASE'', ''FUNCTION'', ''PROCEDURE'', ''TRIGGER'', ''EXECUTE'', ''LANGUAGE'',
     ''REPLACE'', ''VIEW'', ''MATERIALIZED'', ''REFRESH'', ''COMPLETE'', ''FORCE'', ''DEMAND'', ''BUILD'',
     ''IMMEDIATE'', ''COMMIT'', ''ROLLBACK'', ''SAVEPOINT'', ''PARTITION'', ''BY'', ''RANGE'', ''LIST'',
     ''HASH'', ''GROUP'', ''ORDER'', ''ASC'', ''DESC'', ''HAVING'', ''LIMIT'', ''OFFSET'', ''JOIN'', ''LEFT'',
     ''RIGHT'', ''INNER'', ''OUTER'', ''FULL'', ''CROSS'', ''NATURAL'', ''USING'', ''DISTINCT'', ''COUNT'',
     ''SUM'', ''AVG'', ''MIN'', ''MAX'', ''COALESCE'', ''NULLIF'', ''CAST'', ''NUMERIC'', ''INTEGER'',
     ''BIGINT'', ''SMALLINT'', ''VARCHAR'', ''CHAR'', ''TEXT'', ''BOOLEAN'', ''TIMESTAMP'', ''TIMESTAMPTZ'',
     ''DATE'', ''INTERVAL'', ''BYTEA'', ''XML'', ''JSON'', ''JSONB'', ''TRUE'', ''FALSE'', ''LIKE'',
     ''BETWEEN'', ''EXISTS'', ''OVER'', ''RANK'', ''ROW_NUMBER'', ''DENSE_RANK'', ''DATE_TRUNC'',
     ''CURRENT_DATE'', ''CURRENT_TIMESTAMP'', ''EACH'', ''ROW'', ''BEFORE'', ''AFTER'', ''INSTEAD'', ''OF'',
     ''NEW'', ''OLD'', ''TYPE'', ''RECORD'', ''CONSTANT'', ''NOTICE'', ''PACKAGE'', ''BODY'', ''WITH'',
     ''RECURSIVE'', ''UNION'', ''ALL'', ''INTERSECT'', ''EXCEPT'', ''SEQUENCE'', ''OWNED'', ''NONE'', ''GRANT'',
     ''REVOKE'', ''TO'', ''DIAGNOSTICS'', ''GET'', ''ROW_COUNT'', ''TG_OP'', ''TG_TABLE_NAME'',
     ''TG_TABLE_SCHEMA'', ''TG_NAME'', ''TG_WHEN'', ''TG_LEVEL'', ''TG_RELID'', ''TG_NARGS'', ''TG_ARGV'',
     ''SQLERRM'', ''SQLSTATE'', ''SQLCODE'', ''FOUND'', ''NOT_FOUND'', ''PERFORM'', ''SETOF'', ''VOID'',
     ''INOUT'']"

definition isIdentStart :: "char \<Rightarrow> bool" where
  "isIdentStart b \<longleftrightarrow> (97 \<le> byte b \<and> byte b \<le> 122) \<or> (65 \<le> byte b \<and> byte b \<le> 90) \<or> byte b = 95"

definition isIdentChar :: "char \<Rightarrow> bool" where
  "isIdentChar b \<longleftrightarrow> isIdentStart b \<or> (48 \<le> byte b \<and> byte b \<le> 57)"

text \<open>
  The rest of a string literal after its opening quote, closing quote included, and the text after it;
  two quotes in a row are part of the literal.
\<close>

fun literal_rest :: "string \<Rightarrow> string \<times> string" where
  "literal_rest [] = ([], [])"
| "literal_rest [c] = ([c], [])"
| "literal_rest (c # d # s) =
     (if c = CHR 0x27
      then if d = CHR 0x27 then (let (a, b) = literal_rest s in (c # d # a, b)) else ([c], d # s)
      else (let (a, b) = literal_rest (d # s) in (c # a, b)))"

text \<open>The rest of a block comment after its opening; without a closing \<open>*/\<close> the last byte stays outside.\<close>

fun comment_rest :: "string \<Rightarrow> string \<times> string" where
  "comment_rest [] = ([], [])"
| "comment_rest [c] = ([], [c])"
| "comment_rest (c # d # s) =
     (if c = CHR ''*'' \<and> d = CHR ''/'' then ([c, d], s)
      else (let (a, b) = comment_rest (d # s) in (c # a, b)))"

text \<open>One round of the loop: whether the token is an identifier, its text, and the rest.\<close>

fun next_token :: "string \<Rightarrow> bool \<times> string \<times> string" where
  "next_token [] = (False, [], [])"
| "next_token (c # s) =
     (if c = CHR 0x27 then (let (a, b) = literal_rest s in (False, c # a, b))
      else if c = CHR 0x22 then
        (False, c # takeWhile (\<lambda>d. d \<noteq> CHR 0x22) s @ take 1 (dropWhile (\<lambda>d. d \<noteq> CHR 0x22) s),
         drop 1 (dropWhile (\<lambda>d. d \<noteq> CHR 0x22) s))
      else if c = CHR ''-'' \<and> HasPrefix s ''-'' then
        (False, c # takeWhile (\<lambda>d. d \<noteq> CHR 0x0A) s, dropWhile (\<lambda>d. d \<noteq> CHR 0x0A) s)
      else if c = CHR ''/'' \<and> HasPrefix s ''*'' then (let (a, b) = comment_rest (tl s) in (False, c # CHR ''*'' # a, b))
      else if c = CHR ''$'' \<and> HasPrefix s ''$'' then (False, ''$$'', tl s)
      else if isIdentStart c then (True, c # takeWhile isIdentChar s, dropWhile isIdentChar s)
      else (False, [c], s))"

lemma literal_rest_append: "literal_rest s = (a, b) \<Longrightarrow> s = a @ b"
  by (induction s arbitrary: a b rule: literal_rest.induct) (auto split: prod.splits if_splits)

lemma literal_rest_shorter: "length (snd (literal_rest s)) \<le> length s"
  using literal_rest_append [of s "fst (literal_rest s)" "snd (literal_rest s)"] by (metis le_add2 length_append prod.collapse)

lemma comment_rest_append: "comment_rest s = (a, b) \<Longrightarrow> s = a @ b"
  by (induction s arbitrary: a b rule: comment_rest.induct) (auto split: prod.splits if_splits)

lemma next_token_append: "next_token s = (k, t, r) \<Longrightarrow> s = t @ r \<and> (s \<noteq> [] \<longrightarrow> t \<noteq> [])"
  by (cases s) (auto simp: HasPrefix_iff literal_rest_append comment_rest_append split: prod.splits if_splits)

function tokens :: "string \<Rightarrow> (bool \<times> string) list" where
  "tokens s = (if s = [] then [] else (let (k, t, r) = next_token s in (k, t) # tokens r))"
  by pat_completeness auto
termination
proof (relation "measure length")
  show "(r, s) \<in> measure length" if "s \<noteq> []" "x = next_token s" "(k, y) = x" "(t, r) = y" for s x k y t r
  proof -
    have "next_token s = (k, t, r)" using that by simp
    from next_token_append [OF this] show ?thesis using that(1) by auto
  qed
qed simp

declare tokens.simps [simp del]

text \<open>What the loop writes for a token.\<close>

fun write_token :: "string \<Rightarrow> bool \<times> string \<Rightarrow> string" where
  "write_token naming (identifier, word) =
     (if \<not> identifier then word
      else let upper = ToUpper word
           in if List.member sql_keywords upper then upper
              else if naming = NamingLowercase then ToLower word
              else if naming = NamingUppercase then ToUpper word
              else word)"

definition applyNaming :: "string \<Rightarrow> string \<Rightarrow> string" where
  "applyNaming s naming =
     (if naming = NamingKeepOriginal \<or> naming = '''' then s
      else concat (map (write_token naming) (tokens s)))"

section \<open>Splitting\<close>

text \<open>\<open>depth\<close> goes below zero after an unmatched parenthesis.\<close>

fun split_depth :: "char \<Rightarrow> int \<Rightarrow> string \<Rightarrow> string list" where
  "split_depth sep depth [] = [[]]"
| "split_depth sep depth (c # s) =
     (let keep = (\<lambda>parts. (c # hd parts) # tl parts)
      in if c = CHR ''('' then keep (split_depth sep (depth + 1) s)
         else if c = CHR '')'' then keep (split_depth sep (depth - 1) s)
         else if c = sep \<and> depth = 0 then [] # split_depth sep depth s
         else keep (split_depth sep depth s))"

definition splitTopLevel :: "string \<Rightarrow> char \<Rightarrow> string list" where
  "splitTopLevel s sep = split_depth sep 0 s"

definition splitDeclareBody :: "string \<Rightarrow> string \<times> string" where
  "splitDeclareBody body =
     (let upper = ToUpper body;
          body_from = (\<lambda>b. case LastIndexOf upper ''END;'' of
             Some e \<Rightarrow> if e > b then TrimSpace (drop (b + 5) (take e body)) else TrimSpace (drop (b + 5) body)
           | None \<Rightarrow> TrimSpace (drop (b + 5) body))
      in case (IndexOf upper ''DECLARE'', IndexOf upper ''BEGIN'') of
           (Some d, Some b) \<Rightarrow>
             (if b > d then TrimSpace (drop (d + 7) (take b body)) else '''', body_from b)
         | (None, Some b) \<Rightarrow> ('''', body_from b)
         | (_, None) \<Rightarrow> ('''', body))"

section \<open>Stability of the scanner\<close>

text \<open>Two texts that differ in the case of letters only.\<close>

lemma upper_other: "upper_char c = upper_char d \<Longrightarrow> \<not> isIdentStart c \<Longrightarrow> c = d"
  by (auto simp: byte_inj [symmetric] byte_upper_char isIdentStart_def split: if_splits)

lemma upper_ident: "upper_char c = upper_char d \<Longrightarrow> isIdentStart c = isIdentStart d"
  by (auto simp: byte_inj [symmetric] byte_upper_char isIdentStart_def split: if_splits)

lemma upper_ident_char: "upper_char c = upper_char d \<Longrightarrow> isIdentChar c = isIdentChar d"
  by (auto simp: byte_inj [symmetric] byte_upper_char isIdentStart_def isIdentChar_def split: if_splits)

lemma ToUpper_Cons_eq: "ToUpper (c # s) = ToUpper t \<longleftrightarrow> (\<exists>d u. t = d # u \<and> upper_char c = upper_char d \<and> ToUpper s = ToUpper u)"
  by (cases t) (auto simp: ToUpper_def)

lemma ToUpper_Nil_eq: "ToUpper [] = ToUpper t \<longleftrightarrow> t = []"
  by (auto simp: ToUpper_def)

lemma HasPrefix_other:
  assumes "ToUpper r = ToUpper r'" and "\<not> isIdentStart c"
  shows "HasPrefix r' [c] = HasPrefix r [c]"
proof (cases r)
  case Nil
  then show ?thesis using assms(1) by (simp add: ToUpper_Nil_eq)
next
  case (Cons d u)
  then obtain d' u' where "r' = d' # u'" "upper_char d = upper_char d'" using assms(1) by (auto simp: ToUpper_Cons_eq)
  then show ?thesis using Cons assms(2) upper_other [of c d] upper_other [of c d'] by (auto simp: HasPrefix_def)
qed

lemma literal_rest_stable:
  "literal_rest s = (a, r) \<Longrightarrow> ToUpper r = ToUpper r' \<Longrightarrow> literal_rest (a @ r') = (a, r')"
proof (induction s arbitrary: a r rule: literal_rest.induct)
  case (2 c)
  then show ?case by (auto simp: ToUpper_Nil_eq)
next
  case (3 c d s)
  show ?case
  proof (cases "c = CHR 0x27 \<and> d \<noteq> CHR 0x27")
    case True
    then have "a = [c]" "r = d # s" using 3(3) by auto
    moreover obtain d' s' where "r' = d' # s'" "upper_char d = upper_char d'"
      using 3(4) calculation by (auto simp: ToUpper_Cons_eq)
    moreover have "d' \<noteq> CHR 0x27" using calculation(4) True upper_other [of "CHR 0x27" d] by (auto simp: isIdentStart_def byte_def)
    ultimately show ?thesis using True by simp
  next
    case False
    show ?thesis
    proof (cases "c = CHR 0x27")
      case True
      then obtain a' where "literal_rest s = (a', r)" "a = c # d # a'" using False 3(3) by (auto split: prod.splits)
      then show ?thesis using 3(1) [OF True _ _ 3(4), of a'] True False by auto
    next
      case c: False
      then obtain a' where a': "literal_rest (d # s) = (a', r)" "a = c # a'" using 3(3) by (auto split: prod.splits)
      then obtain e a'' where "a' = e # a''" by (cases s) (auto split: prod.splits if_splits)
      then show ?thesis using 3(2) [OF c a'(1) 3(4)] a'(2) c by simp
    qed
  qed
qed (simp add: ToUpper_Nil_eq)

lemma comment_rest_stable:
  "comment_rest s = (a, r) \<Longrightarrow> ToUpper r = ToUpper r' \<Longrightarrow> comment_rest (a @ r') = (a, r')"
proof (induction s arbitrary: a r rule: comment_rest.induct)
  case (2 c)
  then show ?case by (auto simp: ToUpper_Cons_eq ToUpper_Nil_eq)
next
  case (3 c d s)
  show ?case
  proof (cases "c = CHR ''*'' \<and> d = CHR ''/''")
    case True
    then show ?thesis using 3 by auto
  next
    case False
    then obtain a' where a': "comment_rest (d # s) = (a', r)" "a = c # a'" using 3(2) by (auto split: prod.splits)
    then have IH: "comment_rest (a' @ r') = (a', r')" using 3(1) [OF False _ 3(3)] by auto
    have "d # s = a' @ r" using comment_rest_append [OF a'(1)] .
    then obtain e u where e: "a' @ r' = e # u" "upper_char e = upper_char d"
      using 3(3) by (cases a') (auto simp: ToUpper_Cons_eq)
    then have "\<not> (c = CHR ''*'' \<and> e = CHR ''/'')"
      using False upper_other [of "CHR ''/''" d] by (auto simp: isIdentStart_def byte_def)
    then show ?thesis using IH e(1) a'(2) by (simp del: de_Morgan_conj)
  qed
qed (simp add: ToUpper_Nil_eq)

text \<open>A written identifier has the same letters in another case.\<close>

lemma write_identifier:
  "\<exists>f. write_token naming (True, w) = map f w \<and> (\<forall>c. upper_char (f c) = upper_char c)"
proof (cases "List.member sql_keywords (ToUpper w) \<or> naming = NamingUppercase \<and> naming \<noteq> NamingLowercase")
    case True
    then have "write_token naming (True, w) = map upper_char w" by (auto simp: Let_def ToUpper_def)
    then show ?thesis by (intro exI [of _ upper_char]) simp
  next
    case False
    show ?thesis
    proof (cases "naming = NamingLowercase")
      case True
      then have "write_token naming (True, w) = map lower_char w" using False by (simp add: Let_def ToLower_def)
      then show ?thesis by (intro exI [of _ lower_char]) simp
    next
      case lower: False
      then have "write_token naming (True, w) = map (\<lambda>c. c) w" using False by (simp add: Let_def)
      then show ?thesis by (intro exI [of _ "\<lambda>c. c"]) simp
    qed
qed

lemma ToUpper_write: "ToUpper (write_token naming kt) = ToUpper (snd kt)"
proof (cases kt)
  case (Pair k t)
  show ?thesis
  proof (cases k)
    case True
    obtain f where "write_token naming (True, t) = map f t" "\<forall>c. upper_char (f c) = upper_char c"
      using write_identifier by blast
    then show ?thesis by (simp add: Pair True ToUpper_def del: write_token.simps)
  qed (simp add: Pair)
qed

lemma write_write: "write_token naming (k, write_token naming (k, t)) = write_token naming (k, t)"
  by (auto simp: Let_def)

lemma special_not_ident: "isIdentStart c \<Longrightarrow> c \<noteq> CHR 0x27 \<and> c \<noteq> CHR 0x22 \<and> c \<noteq> CHR ''-'' \<and> c \<noteq> CHR ''/'' \<and> c \<noteq> CHR ''$''"
  by (auto simp: isIdentStart_def byte_def)

lemma takeWhile_stop: "\<forall>x \<in> set xs. P x \<Longrightarrow> (ys \<noteq> [] \<longrightarrow> \<not> P (hd ys)) \<Longrightarrow> takeWhile P (xs @ ys) = xs \<and> dropWhile P (xs @ ys) = ys"
  by (cases ys) auto

lemma ident_token_stable:
  assumes "isIdentStart c" and "next_token (c # s) = (k, t, r)" and "ToUpper r = ToUpper r'"
  shows "next_token (write_token naming (k, t) @ r') = (k, write_token naming (k, t), r')"
proof -
  have kt: "k" "t = c # takeWhile isIdentChar s" "r = dropWhile isIdentChar s"
    using assms(1,2) special_not_ident [OF assms(1)] by (auto split: if_splits)
  obtain f where f: "write_token naming (True, t) = map f t" and f_all: "\<forall>c. upper_char (f c) = upper_char c"
    using write_identifier by blast
  have up: "upper_char (f c) = upper_char c" for c using f_all by blast
  have start: "isIdentStart (f c)" using assms(1) upper_ident [OF up] by simp
  have chars: "\<forall>x \<in> set (map f (takeWhile isIdentChar s)). isIdentChar x"
    using upper_ident_char [OF up] by (auto dest: set_takeWhileD)
  have "r' \<noteq> [] \<longrightarrow> \<not> isIdentChar (hd r')"
  proof (cases r)
    case (Cons d u)
    then have "\<not> isIdentChar d" using kt(3) by (metis hd_dropWhile list.distinct(1) list.sel(1))
    moreover obtain d' u' where "r' = d' # u'" "upper_char d = upper_char d'"
      using Cons assms(3) by (auto simp: ToUpper_Cons_eq)
    ultimately show ?thesis using upper_ident_char [of d d'] by simp
  qed (use assms(3) in \<open>simp add: ToUpper_Nil_eq\<close>)
  from takeWhile_stop [OF chars this]
  show ?thesis using kt(1,2) f start special_not_ident [OF start] by (simp del: write_token.simps)
qed

lemma next_token_stable:
  assumes "next_token s = (k, t, r)" and "s \<noteq> []" and "ToUpper r = ToUpper r'"
  shows "next_token (write_token naming (k, t) @ r') = (k, write_token naming (k, t), r')"
proof -
  obtain c u where s: "s = c # u" using assms(2) by (cases s) auto
  have empty: "r' = [] \<longleftrightarrow> r = []" using assms(3) by (cases r) (auto simp: ToUpper_Nil_eq ToUpper_Cons_eq)
  consider (ident) "isIdentStart c" | (quote) "c = CHR 0x27" | (dquote) "c = CHR 0x22"
    | (line) "c = CHR ''-''" "HasPrefix u ''-''" | (block) "c = CHR ''/''" "HasPrefix u ''*''"
    | (dollar) "c = CHR ''$''" "HasPrefix u ''$''"
    | (other) "\<not> isIdentStart c" "c \<noteq> CHR 0x27" "c \<noteq> CHR 0x22" "\<not> (c = CHR ''-'' \<and> HasPrefix u ''-'')"
        "\<not> (c = CHR ''/'' \<and> HasPrefix u ''*'')" "\<not> (c = CHR ''$'' \<and> HasPrefix u ''$'')"
    by blast
  then show ?thesis
  proof cases
    case ident
    show ?thesis by (rule ident_token_stable [OF ident _ assms(3)]) (use assms(1) s in simp)
  next
    case quote
    then obtain a where "literal_rest u = (a, r)" "t = c # a" "\<not> k" using assms(1) s by (auto split: prod.splits)
    then show ?thesis using literal_rest_stable [OF _ assms(3), of u a] quote by simp
  next
    case dquote
    let ?p = "\<lambda>d. d \<noteq> CHR 0x22"
    have t: "t = c # takeWhile ?p u @ take 1 (dropWhile ?p u)" "r = drop 1 (dropWhile ?p u)" "\<not> k"
      using assms(1) s dquote by auto
    have "takeWhile ?p (tl t @ r') = takeWhile ?p u \<and> dropWhile ?p (tl t @ r') = take 1 (dropWhile ?p u) @ r'"
    proof (cases "dropWhile ?p u")
      case Nil
      then have "r' = []" "takeWhile ?p u = u" using t(2) empty Nil by (simp_all add: takeWhile_eq_all_conv dropWhile_eq_Nil_conv)
      then show ?thesis using t(1) Nil by (simp del: takeWhile_eq_all_conv dropWhile_eq_Nil_conv)
    next
      case (Cons d v)
      then have d: "d = CHR 0x22" using hd_dropWhile [of ?p u] by simp
      then have "tl t @ r' = takeWhile ?p u @ CHR 0x22 # r'" using t(1) by (simp add: Cons)
      moreover have "\<forall>x \<in> set (takeWhile ?p u). ?p x" by (auto dest: set_takeWhileD)
      ultimately show ?thesis
        using takeWhile_stop [of "takeWhile ?p u" ?p "CHR 0x22 # r'"] d by (simp only: Cons) simp
    qed
    moreover have "take 1 (take 1 v @ r') = take 1 v \<and> drop 1 (take 1 v @ r') = r'" if "r = drop 1 v" for v
      using that empty by (cases v) auto
    ultimately show ?thesis using t dquote by simp
  next
    case line
    let ?p = "\<lambda>d. d \<noteq> CHR 0x0A"
    have t: "t = c # takeWhile ?p u" "r = dropWhile ?p u" "\<not> k" using assms(1) s line by auto
    obtain v where v: "takeWhile ?p u = CHR ''-'' # v" using line(2) by (auto simp: HasPrefix_iff)
    have "r' \<noteq> [] \<longrightarrow> \<not> ?p (hd r')"
    proof (cases r)
      case (Cons d w)
      then have "d = CHR 0x0A" using t(2) hd_dropWhile [of ?p u] by simp
      then show ?thesis using Cons assms(3) upper_other [of "CHR 0x0A"] by (auto simp: ToUpper_Cons_eq isIdentStart_def byte_def)
    qed (use empty in simp)
    moreover have "\<forall>x \<in> set (takeWhile ?p u). ?p x" by (auto dest: set_takeWhileD)
    ultimately have "takeWhile ?p (takeWhile ?p u @ r') = takeWhile ?p u \<and> dropWhile ?p (takeWhile ?p u @ r') = r'"
      by (intro takeWhile_stop)
    then show ?thesis using t line v by (simp add: HasPrefix_def)
  next
    case block
    then obtain v where v: "u = CHR ''*'' # v" by (auto simp: HasPrefix_iff)
    then obtain a where "comment_rest v = (a, r)" "t = c # CHR ''*'' # a" "\<not> k"
      using assms(1) s block by (auto split: prod.splits)
    then show ?thesis using comment_rest_stable [OF _ assms(3), of v a] block by (simp add: HasPrefix_def)
  next
    case dollar
    then have "t = ''$$''" "r = tl u" "\<not> k" using assms(1) s by auto
    then show ?thesis by (simp add: HasPrefix_def)
  next
    case other
    then have "t = [c]" "r = u" "\<not> k" using assms(1) s by (auto split: if_splits)
    moreover have "HasPrefix r' [d] = HasPrefix u [d]" if "\<not> isIdentStart d" for d
      using HasPrefix_other [OF assms(3) that] calculation by simp
    ultimately show ?thesis using other by (auto simp: isIdentStart_def byte_def)
  qed
qed

lemma tokens_Cons: "next_token s = (k, t, r) \<Longrightarrow> s \<noteq> [] \<Longrightarrow> tokens s = (k, t) # tokens r"
  by (subst tokens.simps) simp

lemma tokens_concat: "concat (map snd (tokens s)) = s"
proof (induction s rule: tokens.induct)
  case (1 s)
  show ?case
  proof (cases "s = []")
    case False
    obtain k t r where n: "next_token s = (k, t, r)" by (metis prod.exhaust)
    then have "concat (map snd (tokens r)) = r" using 1 [OF False refl] by auto
    then have "concat (map snd (tokens s)) = t @ r" by (simp add: tokens_Cons [OF n False])
    then show ?thesis using next_token_append [OF n] by simp
  qed (simp add: tokens.simps)
qed

abbreviation written :: "string \<Rightarrow> string \<Rightarrow> string" where
  "written naming s \<equiv> concat (map (write_token naming) (tokens s))"

lemma ToUpper_written: "ToUpper (written naming s) = ToUpper s"
proof -
  have "ToUpper (concat (map (write_token naming) kts)) = ToUpper (concat (map snd kts))" for kts
    by (induction kts) (simp_all add: ToUpper_write del: write_token.simps)
  then show ?thesis by (simp add: tokens_concat del: write_token.simps)
qed

text \<open>The output scans into the written tokens.\<close>

lemma tokens_written: "tokens (written naming s) = map (\<lambda>(k, t). (k, write_token naming (k, t))) (tokens s)"
proof (induction s rule: tokens.induct)
  case (1 s)
  show ?case
  proof (cases "s = []")
    case False
    obtain k t r where n: "next_token s = (k, t, r)" by (metis prod.exhaust)
    let ?w = "write_token naming (k, t)"
    have IH: "tokens (written naming r) = map (\<lambda>(k, t). (k, write_token naming (k, t))) (tokens r)"
      using 1 [OF False refl] n by auto
    have "ToUpper r = ToUpper (written naming r)" by (simp add: ToUpper_written del: write_token.simps)
    from next_token_stable [OF n False this]
    have step: "next_token (?w @ written naming r) = (k, ?w, written naming r)" .
    have "length ?w = length t" using ToUpper_write [of naming "(k, t)"] by (metis length_ToUpper snd_conv)
    then have "?w @ written naming r \<noteq> []" using next_token_append [OF n] False by (auto simp del: write_token.simps)
    from tokens_Cons [OF step this] show ?thesis
      by (simp add: tokens_Cons [OF n False] IH del: write_token.simps)
  qed (simp add: tokens.simps)
qed

section \<open>Properties\<close>


lemma split_depth_nonempty [simp]: "split_depth sep d s \<noteq> []"
  by (cases s) (auto simp: Let_def)

lemma Join_split_depth: "Join (split_depth sep d s) [sep] = s"
proof (induction s arbitrary: d)
  case (Cons c s)
  have keep: "Join ((e # hd ps) # tl ps) [sep] = e # Join ps [sep]" if "ps \<noteq> []" for ps e
    using that by (cases ps; cases "tl ps") simp_all
  have new: "Join ([] # ps) [sep] = sep # Join ps [sep]" if "ps \<noteq> []" for ps
    using that by (cases ps) auto
  show ?case by (auto simp: Let_def keep [OF split_depth_nonempty] new [OF split_depth_nonempty] Cons.IH)
qed simp

lemma Join_splitTopLevel: "Join (splitTopLevel s sep) [sep] = s"
  by (simp add: splitTopLevel_def Join_split_depth)

end
