(* ===== verification/Plsql_Exprs.thy ===== *)
theory Plsql_Exprs
  imports Plsql_Patterns Plsql_Naming
begin

text \<open>
  The expression rewriting of \<open>internal/plsql/convert.go\<close>: \<open>convertExpressions\<close> and the helpers it
  calls, and the rewriting of statements that triggers and procedures share. A warning list is
  returned beside the text. \<open>qt\<close> is a single quote and \<open>arrow\<close> the UTF-8 arrow of the warnings.
\<close>

definition qt :: string where "qt = [CHR 0x27]"
definition arrow :: string where "arrow = [CHR 0xE2, CHR 0x86, CHR 0x92]"

definition args_of :: "string \<Rightarrow> string list" where
  "args_of s = splitTopLevel s (CHR '','')"

section \<open>\<open>NVL2\<close> and \<open>DECODE\<close>\<close>

definition convertNVL2 :: "string \<Rightarrow> string" where
  "convertNVL2 s =
     on_match reNVL2 s (\<lambda>m parts.
       case args_of (parts 1) of
         [a, b, c] \<Rightarrow> ''CASE WHEN '' @ TrimSpace a @ '' IS NOT NULL THEN '' @ TrimSpace b @ '' ELSE '' @ TrimSpace c @ '' END''
       | _ \<Rightarrow> m)"

text \<open>
  The number of bytes before the parenthesis that closes \<open>depth\<close> open ones; parentheses in string
  literals do not count.
\<close>

function closing :: "nat \<Rightarrow> string \<Rightarrow> nat option" where
  "closing depth [] = None"
| "closing depth (c # s) =
     (if c = CHR ''('' then map_option Suc (closing (depth + 1) s)
      else if c = CHR '')'' then (if depth = 1 then Some 0 else map_option Suc (closing (depth - 1) s))
      else if c = CHR 0x27 then
        map_option (\<lambda>n. 1 + length (fst (literal_rest s)) + n) (closing depth (snd (literal_rest s)))
      else map_option Suc (closing depth s))"
  by pat_completeness auto
termination
  by (relation "measure (\<lambda>(d, s). length s)") (simp_all add: literal_rest_shorter le_imp_less_Suc)

fun when_then :: "string list \<Rightarrow> string" where
  "when_then [] = ''''"
| "when_then [e] = '' ELSE '' @ TrimSpace e"
| "when_then (a # b # rest) = '' WHEN '' @ TrimSpace a @ '' THEN '' @ TrimSpace b @ when_then rest"

definition convertDECODEOnce :: "string \<Rightarrow> string" where
  "convertDECODEOnce s =
     (case find_from reDECODEStart None s of
        None \<Rightarrow> s
      | Some (before, m, q, rest, c) \<Rightarrow>
          (case closing 1 rest of
             None \<Rightarrow> s
           | Some n \<Rightarrow>
               let args = args_of (take n rest)
               in if length args < 3 then s
                  else before @ ''CASE '' @ TrimSpace (hd args) @ when_then (tl args) @ '' END'' @ drop (n + 1) rest))"

fun decode_loop :: "nat \<Rightarrow> string \<Rightarrow> string" where
  "decode_loop 0 s = s"
| "decode_loop (Suc n) s = (let s' = convertDECODEOnce s in if s' = s then s' else decode_loop n s')"

definition convertDECODE :: "string \<Rightarrow> string" where
  "convertDECODE s = decode_loop 10 s"

section \<open>Functions with their own rewriting\<close>

definition trunc_call :: "string \<Rightarrow> (nat \<Rightarrow> string) \<Rightarrow> string" where
  "trunc_call m parts =
     (let inner = TrimSpace (parts 1)
      in if Contains inner '','' \<and> length (args_of inner) = 2 then
           let d = TrimSpace (args_of inner ! 0); unit = TrimSpace (Trim (args_of inner ! 1) (qt @ [CHR 0x22] @ '' ''))
           in if ToUpper unit = ''MM'' then ''DATE_TRUNC('' @ qt @ ''month'' @ qt @ '', '' @ d @ '')''
              else if ToUpper unit = ''YY'' \<or> ToUpper unit = ''YYYY'' then ''DATE_TRUNC('' @ qt @ ''year'' @ qt @ '', '' @ d @ '')''
              else if ToUpper unit = ''DD'' then ''('' @ d @ '')::date''
              else ''DATE_TRUNC('' @ qt @ ToLower unit @ qt @ '', '' @ d @ '')''
         else ''('' @ inner @ '')::date'')"

definition to_number_call :: "string \<Rightarrow> (nat \<Rightarrow> string) \<Rightarrow> string" where
  "to_number_call m parts =
     (let inner = TrimSpace (parts 1)
      in if Contains inner '','' then ''('' @ TrimSpace (hd (args_of inner)) @ '')::NUMERIC''
         else ''('' @ inner @ '')::NUMERIC'')"

text \<open>\<open>INSTR\<close> with more arguments is kept and gives a warning for each occurrence.\<close>

definition instr_warning :: string where
  "instr_warning = ''INSTR with position/occurrence args '' @ arrow @ '' Needs manual conversion or custom function''"

definition convertINSTR :: "string \<Rightarrow> string \<times> string list" where
  "convertINSTR s =
     (on_match reInstr s (\<lambda>m parts.
        case args_of (parts 1) of
          [a, b] \<Rightarrow> ''position('' @ TrimSpace b @ '' IN '' @ TrimSpace a @ '')''
        | _ \<Rightarrow> m),
      concat (map (\<lambda>m. case FindStringSubmatch reInstr m of
                         None \<Rightarrow> []
                       | Some parts \<Rightarrow> if length (args_of (parts 1)) = 2 then [] else [instr_warning])
        (all_matches reInstr None s)))"

definition convertLISTAGG :: "string \<Rightarrow> string" where
  "convertLISTAGG s =
     on_match reListagg s (\<lambda>m parts.
       ''string_agg('' @ TrimSpace (parts 1) @ '', '' @ TrimSpace (parts 2) @
         (if parts 3 \<noteq> '''' then '' '' @ TrimSpace (parts 3) else '''') @ '')'')"

definition convertRegexpLike :: "string \<Rightarrow> string" where
  "convertRegexpLike s =
     on_match reRegexpLike s (\<lambda>m parts.
       let flags = (if parts 3 \<noteq> '''' then Trim (TrimSpace (parts 3)) (qt @ [CHR 0x22]) else '''')
       in TrimSpace (parts 1) @ '' '' @ (if Contains flags ''i'' then ''~*'' else ''~'') @ '' '' @ TrimSpace (parts 2))"

definition interval_call :: "string \<Rightarrow> (nat \<Rightarrow> string) \<Rightarrow> string" where
  "interval_call m parts =
     ''('' @ TrimSpace (parts 1) @ '' * INTERVAL '' @ qt @ ''1 '' @
       ToLower (Trim (TrimSpace (parts 2)) (qt @ [CHR 0x22])) @ qt @ '')''"

text \<open>Date formats: longer elements first, each in upper and in lower case.\<close>

definition format_elements :: "(string \<times> string) list" where
  "format_elements = [(''RRRR'', ''YYYY''), (''RR'', ''YY''), (''SSSSS'', ''SSSS''), (''FF9'', ''US''), (''FF6'', ''US''),
     (''FF3'', ''MS''), (''FF'', ''US''), (''TZR'', ''TZ''), (''TZH'', ''OF'')]"

definition convertOracleDateFormat :: "string \<Rightarrow> string" where
  "convertOracleDateFormat fmtStr =
     (let trimmed = TrimSpace fmtStr
      in if length trimmed < 2 \<or> hd trimmed \<noteq> CHR 0x27 then fmtStr
         else qt @ foldl (\<lambda>inner (old, new). ReplaceAll (ReplaceAll inner old new) (ToLower old) (ToLower new))
                (tl (butlast trimmed)) format_elements @ qt)"

definition convertToDate :: "string \<Rightarrow> string" where
  "convertToDate s =
     on_match reToDate s (\<lambda>m parts.
       case args_of (parts 1) of
         a # b # _ \<Rightarrow>
           let fmtStr = TrimSpace b; pgFmt = convertOracleDateFormat fmtStr; fmtUpper = ToUpper fmtStr
           in if Contains fmtUpper ''HH'' \<or> Contains fmtUpper ''MI'' \<or> Contains fmtUpper ''SS'' \<or> Contains fmtUpper ''FF''
              then ''TO_TIMESTAMP('' @ TrimSpace a @ '', '' @ pgFmt @ '')''
              else ''TO_DATE('' @ TrimSpace a @ '', '' @ pgFmt @ '')''
       | _ \<Rightarrow> m)"

definition convertToCharFmt :: "string \<Rightarrow> string" where
  "convertToCharFmt s =
     on_match reToChar s (\<lambda>m parts.
       case args_of (parts 1) of
         a # b # rest \<Rightarrow>
           let pgFmt = convertOracleDateFormat (TrimSpace b)
           in if length rest = 1 then ''TO_CHAR('' @ TrimSpace a @ '', '' @ pgFmt @ '', '' @ TrimSpace (hd rest) @ '')''
              else ''TO_CHAR('' @ TrimSpace a @ '', '' @ pgFmt @ '')''
       | _ \<Rightarrow> m)"

section \<open>\<open>convertExpressions\<close>\<close>

abbreviation fixed :: "string \<Rightarrow> (nat \<Rightarrow> string) \<Rightarrow> string" where
  "fixed text \<equiv> (\<lambda>g. text)"

text \<open>Null handling, dates and numbers.\<close>

definition convert_core :: "string \<Rightarrow> string" where
  "convert_core s =
     (let s = convertNVL2 s;
          s = ReplaceAllString reNVL s (fixed ''COALESCE('');
          s = convertDECODE s;
          s = ReplaceAllString reSysdate s (fixed ''CURRENT_DATE'');
          s = ReplaceAllString reSystimestamp s (fixed ''CURRENT_TIMESTAMP'');
          s = on_match reTruncDate s trunc_call;
          s = on_match reAddMonths s (\<lambda>m parts.
                ''('' @ TrimSpace (parts 1) @ '' + INTERVAL '' @ qt @ TrimSpace (parts 2) @ '' months'' @ qt @ '')'');
          s = on_match reToNumber s to_number_call;
          s = ReplaceAllString reFromDual s (fixed '''')
      in ReplaceAllString reMinus s (fixed ''EXCEPT''))"

text \<open>Aggregates, large objects and the system context.\<close>

definition convert_functions :: "string \<Rightarrow> string" where
  "convert_functions s =
     (let s = convertLISTAGG s;
          s = ReplaceAllString reWMConcat s (\<lambda>g. ''string_agg('' @ g 1 @ '', '' @ qt @ '','' @ qt @ '')'');
          s = ReplaceAllString reLastDay s (\<lambda>g. ''(DATE_TRUNC('' @ qt @ ''month'' @ qt @ '', '' @ g 1 @ '') + INTERVAL '' @ qt @
                ''1 month - 1 day'' @ qt @ '')::DATE'');
          s = on_match reMonthsBetween s (\<lambda>m parts.
                let d1 = TrimSpace (parts 1); d2 = TrimSpace (parts 2)
                in ''(EXTRACT(YEAR FROM age('' @ d1 @ '', '' @ d2 @ '')) * 12 + EXTRACT(MONTH FROM age('' @ d1 @ '', '' @ d2 @ '')))'');
          s = ReplaceAllString reSysGuid s (fixed ''gen_random_uuid()'');
          s = ReplaceAllString reEmptyClob s (fixed (qt @ qt));
          s = ReplaceAllString reEmptyBlob s (fixed (qt @ [CHR 0x5C] @ ''x'' @ qt @ ''::BYTEA''));
          s = ReplaceAllString reBitand s (\<lambda>g. ''('' @ g 1 @ '' & '' @ g 2 @ '')'');
          s = ReplaceAllString reLengthB s (fixed ''octet_length('');
          s = convertRegexpLike s;
          s = ReplaceAllString reSysCtxUser s (fixed ''current_user'');
          s = ReplaceAllString reSysCtxSessionUser s (fixed ''session_user'');
          s = ReplaceAllString reSysCtxDbName s (fixed ''current_database()'');
          s = ReplaceAllString reSysCtxIPAddr s (fixed ''inet_client_addr()'')
      in ReplaceAllString reSysCtxSessionID s (fixed ''pg_backend_pid()''))"

text \<open>The \<open>DBMS\<close> packages, intervals and formats.\<close>

definition convert_packages :: "string \<Rightarrow> string" where
  "convert_packages s =
     (let s = ReplaceAllString reDbmsLobGetLength s (\<lambda>g. ''octet_length('' @ g 1 @ '')'');
          s = on_match reDbmsLobSubstr s (\<lambda>m parts.
                ''substr('' @ TrimSpace (parts 1) @ '', '' @ TrimSpace (parts 3) @ '', '' @ TrimSpace (parts 2) @ '')'');
          s = ReplaceAllString reDbmsLockSleep s (\<lambda>g. ''pg_sleep('' @ g 1 @ '')'');
          s = ReplaceAllString reExecImmediate s (fixed ''EXECUTE '');
          s = ReplaceAllString reFromTZ s (\<lambda>g. ''('' @ g 1 @ '' AT TIME ZONE '' @ g 2 @ '')'');
          s = on_match reNumToDSInterval s interval_call;
          s = convertToDate s;
          s = convertToCharFmt s;
          s = on_match reRegexpSubstr s (\<lambda>m parts.
                ''substring('' @ TrimSpace (parts 1) @ '' FROM '' @ TrimSpace (parts 2) @ '')'');
          s = on_match reRegexpCount s (\<lambda>m parts.
                ''(SELECT count(*) FROM regexp_matches('' @ TrimSpace (parts 1) @ '', '' @ TrimSpace (parts 2) @ '', '' @
                qt @ ''g'' @ qt @ ''))'');
          s = on_match reNumToYMInterval s interval_call;
          s = ReplaceAllString reDbmsUtilGetTime s (fixed ''(extract(epoch FROM clock_timestamp()) * 100)::BIGINT'')
      in on_match reDbmsOutputPut s (\<lambda>m parts. ''RAISE NOTICE '' @ qt @ ''%'' @ qt @ '', '' @ TrimSpace (parts 1)))"

text \<open>A warning if a pattern occurs.\<close>

definition warn_if :: "bool \<Rightarrow> string \<Rightarrow> string \<Rightarrow> string list" where
  "warn_if found what advice = (if found then [what @ '' '' @ arrow @ '' '' @ advice] else [])"

definition convertExpressions :: "string \<Rightarrow> string \<times> string list" where
  "convertExpressions s =
     (let (s, instr) = convertINSTR (convert_core s);
          s = convert_packages (convert_functions s)
      in (s, instr @
          warn_if (MatchString reOuterJoinPlus s) ''(+) outer join syntax'' ''Rewrite using LEFT/RIGHT JOIN'' @
          warn_if (MatchString reMergeInto s) ''MERGE INTO''
            ''Rewrite using INSERT ... ON CONFLICT ... DO UPDATE (PG 15+ also supports MERGE)''))"

section \<open>Statements\<close>

definition convertROWNUM :: "string \<Rightarrow> string \<times> string list" where
  "convertROWNUM s =
     (case FindStringSubmatch reRownumWhere s of
        Some m \<Rightarrow>
          let limit = (if m 1 = '''' then m 2 else m 1);
              s = ReplaceAllString reRownumWhere s (fixed '''');
              s = TrimRight s ('' '' @ [CHR 0x09, CHR 0x0A] @ '';'')
          in (s @ [CHR 0x0A] @ ''LIMIT '' @ TrimSpace limit, [])
      | None \<Rightarrow> (s, warn_if (MatchString reRownum s) ''ROWNUM'' ''Use ROW_NUMBER() window function or LIMIT/OFFSET''))"

definition convertRaiseAppError :: "string \<Rightarrow> string" where
  "convertRaiseAppError s =
     on_match reRaiseAppError s (\<lambda>m parts. ''RAISE EXCEPTION '' @ qt @ ''%'' @ qt @ '', '' @ TrimSpace (parts 2))"

definition convertDbmsOutput :: "string \<Rightarrow> string" where
  "convertDbmsOutput s =
     on_match reDbmsOutput s (\<lambda>m parts. ''RAISE NOTICE '' @ qt @ ''%'' @ qt @ '', '' @ TrimSpace (parts 1))"

definition convertSequenceRefs :: "string \<Rightarrow> string" where
  "convertSequenceRefs s =
     (let s = on_match reSeqNextval s (\<lambda>m parts. ''nextval('' @ qt @ ToLower (parts 1) @ qt @ '')'')
      in on_match reSeqCurrval s (\<lambda>m parts. ''currval('' @ qt @ ToLower (parts 1) @ qt @ '')''))"

section \<open>Types\<close>

definition convertParamTypes :: "string \<Rightarrow> string" where
  "convertParamTypes s =
     (let s = ReplaceAllString reParamNumber s (\<lambda>g. ''NUMERIC'' @ g 1);
          s = ReplaceAllString reParamVarchar2 s (\<lambda>g. ''VARCHAR'' @ g 1);
          s = ReplaceAllString reParamClob s (fixed ''TEXT'');
          s = ReplaceAllString reParamBlob s (fixed ''BYTEA'')
      in ReplaceAllString reParamDate s (\<lambda>g. g 1 @ ''TIMESTAMP'' @ g 2))"

definition convertOracleTypes :: "string \<Rightarrow> string" where
  "convertOracleTypes s =
     (let s = convertParamTypes s;
          s = ReplaceAllString rePLSInteger s (fixed ''INTEGER'')
      in ReplaceAllString reBinaryInteger s (fixed ''INTEGER''))"

section \<open>Properties\<close>

text \<open>The patterns that are one keyword between word boundaries.\<close>

definition keyword_patterns :: "(regexp \<times> string) list" where
  "keyword_patterns = [(reSysdate, ''SYSDATE''), (reSystimestamp, ''SYSTIMESTAMP''), (reMinus, ''MINUS''),
     (reInserting, ''INSERTING''), (reUpdating, ''UPDATING''), (reDeleting, ''DELETING''),
     (reNoDataFound, ''NO_DATA_FOUND''), (reDupValOnIndex, ''DUP_VAL_ON_INDEX''), (reZeroDivide, ''ZERO_DIVIDE''),
     (reTooManyRows, ''TOO_MANY_ROWS''), (reValueError, ''VALUE_ERROR''), (reInvalidNumber, ''INVALID_NUMBER''),
     (reLoginDenied, ''LOGIN_DENIED''), (reCursorAlreadyOpen, ''CURSOR_ALREADY_OPEN''), (reInvalidCursor, ''INVALID_CURSOR''),
     (reDeterministic, ''DETERMINISTIC''), (reResultCache, ''RESULT_CACHE''), (reParamBlob, ''BLOB''),
     (rePLSInteger, ''PLS_INTEGER''), (reBinaryInteger, ''BINARY_INTEGER'')]"

lemma keyword_patterns_words:
  "list_all (\<lambda>(r, w). r = whole_word w \<and> w \<noteq> [] \<and> list_all is_word w) keyword_patterns"
  by code_simp

text \<open>
  A keyword rewrite (\<open>SYSDATE\<close>, \<open>MINUS\<close>, the exception names and so on) replaces exactly the whole
  words that are equal to the keyword up to case and copies every other byte: longer identifiers that
  contain the keyword stay. It is a rewrite of words, not of tokens, so a keyword inside a string
  literal or a comment is replaced as well.
\<close>

theorem keyword_rewrite_words:
  assumes "(r, w) \<in> set keyword_patterns"
  shows "ReplaceAllString r s (fixed text) = concat (map (\<lambda>u. if ToUpper u = ToUpper w then text else u) (word_runs s))"
proof -
  have "r = whole_word w" "w \<noteq> []" "\<forall>c \<in> set w. is_word c"
    using keyword_patterns_words assms by (auto simp: list_all_iff)
  then show ?thesis by (simp add: replace_whole_word)
qed

theorem keyword_rewrite_words_witness:
  "ReplaceAllString reSysdate (''sysdate,MY_SYSDATE,'' @ qt @ ''SYSDATE'' @ qt) (fixed ''CURRENT_DATE'') =
     ''CURRENT_DATE,MY_SYSDATE,'' @ qt @ ''CURRENT_DATE'' @ qt"
proof -
  have "(reSysdate, ''SYSDATE'') \<in> set keyword_patterns" by (simp add: keyword_patterns_def)
  from keyword_rewrite_words [OF this, of "''sysdate,MY_SYSDATE,'' @ qt @ ''SYSDATE'' @ qt" "''CURRENT_DATE''"]
  show ?thesis by (rule trans) code_simp
qed

text \<open>An argument that the splitter keeps together: balanced parentheses, no quotes, commas only inside parentheses.\<close>

fun arg_ok :: "nat \<Rightarrow> string \<Rightarrow> bool" where
  "arg_ok d [] = (d = 0)"
| "arg_ok d (c # s) =
     (if c = CHR ''('' then arg_ok (d + 1) s
      else if c = CHR '')'' then 0 < d \<and> arg_ok (d - 1) s
      else c \<noteq> CHR 0x27 \<and> (c = CHR '','' \<longrightarrow> 0 < d) \<and> arg_ok d s)"

lemma closing_arg: "arg_ok d a \<Longrightarrow> closing (Suc d) (a @ rest) = map_option (\<lambda>n. length a + n) (closing 1 rest)"
proof (induction d a rule: arg_ok.induct)
  case (2 d c s)
  have "map_option Suc (map_option (\<lambda>n. length s + n) k) = map_option (\<lambda>n. length (c # s) + n) k" for k
    by (cases k) auto
  then show ?case using 2 by (auto split: if_splits)
next
  case (1 d)
  then show ?case by (cases "closing 1 rest") simp_all
qed

lemma closing_args:
  assumes "args \<noteq> []" "\<forall>a \<in> set args. arg_ok 0 a"
  shows "closing 1 (Join args '','' @ CHR '')'' # rest) = Some (length (Join args '',''))"
  using assms
proof (induction args "'',''" rule: Join.induct)
  case (2 a)
  then show ?case using closing_arg [of 0 a "CHR '')'' # rest"] by simp
next
  case (3 a b as)
  then show ?case using closing_arg [of 0 a "CHR '','' # Join (b # as) '','' @ CHR '')'' # rest"] by simp
qed simp

lemma split_arg: "arg_ok d a \<Longrightarrow> split_depth (CHR '','') (int d) (a @ CHR '','' # s) = a # split_depth (CHR '','') 0 s"
  "arg_ok d a \<Longrightarrow> split_depth (CHR '','') (int d) a = [a]"
  by (induction d a rule: arg_ok.induct) (auto simp: Let_def of_nat_diff add.commute [of _ 1] split: if_splits)

lemma args_of_Join:
  assumes "args \<noteq> []" "\<forall>a \<in> set args. arg_ok 0 a"
  shows "args_of (Join args '','') = args"
  using assms
proof (induction args "'',''" rule: Join.induct)
  case (2 a)
  then show ?case using split_arg(2) [of 0 a] by (simp add: args_of_def splitTopLevel_def)
next
  case (3 a b as)
  then show ?case using split_arg(1) [of 0 a "Join (b # as) '',''"] by (simp add: args_of_def splitTopLevel_def)
qed simp

lemma find_DECODE: "find_from reDECODEStart None (''DECODE('' @ rest) = Some ([], ''DECODE('', Some (CHR ''(''), rest, [])"
proof -
  have "match_at reDECODEStart None (''DECODE('' @ rest) [] = [(Some (CHR ''(''), rest, [])]"
    by (simp add: reDECODEStart_def match_at_lit sp0_def re_many_def match_at.simps(5) first_char_def word_at_def after_def
        is_word_bits letter_bits_def is_re_space_def byte_def ToUpper_def)
  then show ?thesis by (subst find_from.simps) simp
qed


text \<open>Two limits of the rewriting: quotes do not protect a comma, and the loop stops after ten calls.\<close>

lemma decode_splits_literals:
  "convertDECODEOnce (''DECODE(a,'' @ qt @ ''x,y'' @ qt @ '',1)'') = ''CASE a WHEN '' @ qt @ ''x THEN y'' @ qt @ '' ELSE 1 END''"
  by code_simp

lemma decode_stops_after_ten:
  "convertDECODE (concat (replicate 11 ''DECODE(a,b,c) '')) =
     concat (replicate 10 ''CASE a WHEN b THEN c END '') @ ''DECODE(a,b,c) ''"
  by code_simp


end
