(* ===== verification/Plsql_Convert.thy ===== *)
theory Plsql_Convert
  imports Plsql_Exprs
begin

text \<open>
  The entry points of \<open>internal/plsql/convert.go\<close>: views, materialized views, triggers and procedures.
  \<open>nl\<close> is a newline.
\<close>

record ConvertResult =
  cr_Definition :: string
  Warnings :: "string list"

definition nl :: string where "nl = [CHR 0x0A]"

section \<open>Views\<close>

definition addSQLWarnings :: "string \<Rightarrow> string list" where
  "addSQLWarnings s = warn_if (MatchString reConnectBy s) ''CONNECT BY'' ''Use recursive CTE (WITH RECURSIVE)''"

definition ConvertView :: "string \<Rightarrow> string \<Rightarrow> ConvertResult" where
  "ConvertView definition_text naming =
     (let (s, w1) = convertExpressions definition_text;
          (s, w2) = convertROWNUM s
      in \<lparr>cr_Definition = applyNaming s naming, Warnings = w1 @ w2 @ addSQLWarnings s\<rparr>)"

definition ConvertMaterializedView :: "string \<Rightarrow> string \<Rightarrow> ConvertResult" where
  "ConvertMaterializedView definition_text naming =
     (let (s, w1) = convertExpressions definition_text;
          (s, w2) = convertROWNUM s
      in \<lparr>cr_Definition = applyNaming s naming, Warnings = w1 @ w2 @ addSQLWarnings s\<rparr>)"

section \<open>Triggers\<close>

definition trigger_body :: "string \<Rightarrow> string \<times> string list" where
  "trigger_body definition_text =
     (let body = ReplaceAllStringFunc reNewOld definition_text (\<lambda>m. TrimPrefix m '':'');
          (body, w1) = convertExpressions body;
          body = convertRaiseAppError body;
          body = convertDbmsOutput body;
          body = convertSequenceRefs body;
          body = ReplaceAllString reInserting body (fixed (''TG_OP = '' @ qt @ ''INSERT'' @ qt));
          body = ReplaceAllString reUpdating body (fixed (''TG_OP = '' @ qt @ ''UPDATE'' @ qt));
          body = ReplaceAllString reDeleting body (fixed (''TG_OP = '' @ qt @ ''DELETE'' @ qt))
      in if MatchString reSQLRowcount body then
           let body = ReplaceAllString reSQLRowcount body (fixed ''_row_count'')
           in (body, w1 @ warn_if (\<not> Contains body ''GET DIAGNOSTICS'') ''SQL%ROWCOUNT''
                (''Add '' @ qt @ ''GET DIAGNOSTICS _row_count = ROW_COUNT;'' @ qt @ '' after DML statements''))
         else (body, w1))"

definition trigger_function :: "string \<Rightarrow> string \<Rightarrow> string \<Rightarrow> string \<Rightarrow> string" where
  "trigger_function name triggerType event body =
     (let (declareSection, bodySection) = splitDeclareBody body
      in ''-- Converted from Oracle trigger: '' @ ToUpper name @ nl @
         ''CREATE OR REPLACE FUNCTION fn_'' @ ToLower name @ ''()'' @ nl @
         ''RETURNS TRIGGER'' @ nl @ ''LANGUAGE plpgsql'' @ nl @ ''AS $$'' @ nl @
         (if declareSection \<noteq> '''' then ''DECLARE'' @ nl @ declareSection @ nl else '''') @
         ''BEGIN'' @ nl @ bodySection @
         (if Contains (ToUpper triggerType) ''AFTER'' then nl @ ''  RETURN NULL;'' @ nl
          else if EqualFold event ''DELETE'' then nl @ ''  RETURN OLD;'' @ nl
          else nl @ ''  RETURN NEW;'' @ nl) @
         ''END;'' @ nl @ ''$$;'' @ nl @ nl)"

definition create_trigger :: "string \<Rightarrow> string \<Rightarrow> string \<Rightarrow> string \<Rightarrow> string" where
  "create_trigger name tableName triggerType event =
     (let pgTriggerType = Replace1 (ToUpper triggerType) ''EACH ROW '' '''';
          pgEvent = ToUpper event
      in ''CREATE TRIGGER '' @ ToLower name @ nl @
         ''  '' @ pgTriggerType @ '' '' @ pgEvent @ '' ON '' @ ToLower tableName @ nl @
         ''  FOR EACH ROW'' @ nl @
         ''  EXECUTE FUNCTION fn_'' @ ToLower name @ ''();'' @ nl)"

definition ConvertTrigger :: "string \<Rightarrow> string \<Rightarrow> string \<Rightarrow> string \<Rightarrow> string \<Rightarrow> string \<Rightarrow> ConvertResult" where
  "ConvertTrigger name tableName triggerType event definition_text naming =
     (let (body, w) = trigger_body definition_text
      in \<lparr>cr_Definition = applyNaming (trigger_function name triggerType event body @ create_trigger name tableName triggerType event) naming, Warnings = w\<rparr>)"

section \<open>Procedures, functions and packages\<close>

text \<open>Pragmas and clauses that are removed; the flag says that the function was deterministic.\<close>

definition proc_clauses :: "string \<Rightarrow> string \<times> bool \<times> string list" where
  "proc_clauses body =
     (let body = ReplaceAllString rePragmaExcInit body (fixed '''');
          body = ReplaceAllString rePragmaRestrictRef body (fixed '''');
          w1 = warn_if (MatchString rePragmaAutonomous body) ''PRAGMA AUTONOMOUS_TRANSACTION''
                 ''PostgreSQL has no autonomous transactions. Use dblink or pg_background for similar effect'';
          body = ReplaceAllString rePragmaAutonomous body (fixed '''');
          body = ReplaceAllString reNocopy body (fixed '''');
          isDeterministic = MatchString reDeterministic body;
          body = ReplaceAllString reDeterministic body (fixed '''');
          w2 = warn_if (MatchString reResultCache body) ''RESULT_CACHE''
                 ''PostgreSQL has no built-in result cache. Consider materialized views or application-level caching'';
          body = ReplaceAllString reResultCache body (fixed '''');
          body = ReplaceAllString reAuthidCurrentUser body (fixed ''SECURITY INVOKER'');
          body = ReplaceAllString reAuthidDefiner body (fixed ''SECURITY DEFINER'')
      in (body, isDeterministic, w1 @ w2))"

text \<open>Exceptions, cursor attributes and parameter modes.\<close>

definition proc_names :: "string \<Rightarrow> string \<Rightarrow> string \<times> string list" where
  "proc_names objectType body =
     (let w = (if MatchString reSQLRowcount body
               then [''SQL%ROWCOUNT replaced with _row_count '' @ [CHR 0xE2, CHR 0x80, CHR 0x94] @ '' add '' @ qt @
                     ''GET DIAGNOSTICS _row_count = ROW_COUNT;'' @ qt @ '' after DML''] else []);
          body = ReplaceAllString reSQLRowcount body (fixed ''_row_count'');
          body = ReplaceAllString reNoDataFound body (fixed ''NO_DATA_FOUND'');
          body = ReplaceAllString reDupValOnIndex body (fixed ''unique_violation'');
          body = ReplaceAllString reZeroDivide body (fixed ''division_by_zero'');
          body = ReplaceAllString reTooManyRows body (fixed ''too_many_rows'');
          body = ReplaceAllString reValueError body (fixed ''data_exception'');
          body = ReplaceAllString reInvalidNumber body (fixed ''invalid_text_representation'');
          body = ReplaceAllString reLoginDenied body (fixed ''insufficient_privilege'');
          body = ReplaceAllString reCursorAlreadyOpen body (fixed ''duplicate_cursor'');
          body = ReplaceAllString reInvalidCursor body (fixed ''invalid_cursor_state'');
          body = ReplaceAllString reCursorNotFound body (fixed ''NOT FOUND'');
          body = ReplaceAllString reCursorFound body (fixed ''FOUND'');
          body = ReplaceAllString reSQLNotFound body (fixed ''NOT FOUND'');
          body = ReplaceAllString reSQLFound body (fixed ''FOUND'');
          body = ReplaceAllString reCursorDecl body (\<lambda>g. g 1 @ '' CURSOR FOR SELECT'');
          body = ReplaceAllString reInOut body (fixed ''INOUT'');
          body = (if EqualFold objectType ''FUNCTION''
                  then ReplaceAllString reReturnType body (\<lambda>g. g 1 @ ''RETURNS'' @ g 2) else body)
      in (convertOracleTypes (convertParamTypes body), w))"

definition is_package :: "string \<Rightarrow> bool" where
  "is_package objectType \<longleftrightarrow> ToUpper objectType = ''PACKAGE'' \<or> ToUpper objectType = ''PACKAGE BODY''"

definition proc_package :: "string \<Rightarrow> string \<Rightarrow> string" where
  "proc_package objectType body =
     (if is_package objectType then
        let body = ReplaceAllString rePackageHeader body (\<lambda>g. ''-- Package: '' @ g 1 @ '' (split into individual functions)'')
        in ReplaceAllString rePackageBodyHeader body (\<lambda>g. ''-- Package Body: '' @ g 1)
      else body)"

definition proc_warnings :: "string \<Rightarrow> string \<Rightarrow> string list" where
  "proc_warnings objectType body =
     warn_if (is_package objectType) ''PACKAGE''
       ''PostgreSQL has no package concept. Each procedure/function must be created separately'' @
     warn_if (EqualFold objectType ''FUNCTION'' \<and> MatchString reCommit body) ''COMMIT inside FUNCTION''
       ''PostgreSQL functions cannot COMMIT. Convert to PROCEDURE or remove'' @
     warn_if (MatchString rePercentType body) ''%TYPE/%ROWTYPE'' ''Verify table/column references are correct for PostgreSQL schema'' @
     warn_if (MatchString reBulkCollect body) ''BULK COLLECT''
       ''No direct equivalent. Use array aggregation or process rows in a loop'' @
     warn_if (MatchString reForall body) ''FORALL''
       ''No direct equivalent. Use standard FOR loop with individual DML or batch INSERT'' @
     warn_if (MatchString reConnectBy body) ''CONNECT BY'' ''Use recursive CTE (WITH RECURSIVE)'' @
     warn_if (MatchString reRefCursor body) ''SYS_REFCURSOR'' ''Use REFCURSOR type in PostgreSQL'' @
     warn_if (MatchString reTypeDecl body) ''TYPE ... IS TABLE OF / IS RECORD'' ''Use PostgreSQL composite types or arrays'' @
     warn_if (MatchString reOpenCursor body \<or> MatchString reFetchCursor body \<or> MatchString reCloseCursor body)
       ''OPEN/FETCH/CLOSE cursor'' ''Consider rewriting as cursor FOR loop (FOR rec IN cursor_name LOOP)'' @
     warn_if (MatchString reSavepoint body) ''SAVEPOINT''
       ''PostgreSQL supports SAVEPOINT in procedures but not in functions'' @
     warn_if (MatchString rePipelined body \<or> MatchString rePipeRow body) ''PIPELINED/PIPE ROW''
       ''Use RETURNS SETOF with RETURN NEXT or RETURN QUERY'' @
     warn_if (MatchString reUtlFile body) ''UTL_FILE''
       ''Use pg_read_file/pg_write_file or COPY, or handle file I/O in application layer'' @
     warn_if (MatchString reDbmsSql body) ''DBMS_SQL'' ''Use EXECUTE with dynamic SQL or format() for query building'' @
     warn_if (MatchString reDbmsJob body) ''DBMS_JOB/DBMS_SCHEDULER'' ''Use pg_cron extension or external scheduler'' @
     warn_if (MatchString reDbmsCrypto body) ''DBMS_CRYPTO'' ''Use pgcrypto extension (encrypt, decrypt, digest, hmac)'' @
     warn_if (MatchString reRowidRef body) ''ROWID''
       ''PostgreSQL uses ctid (physical row ID) but it changes after VACUUM. Consider using a primary key instead''"

text \<open>The clauses of the new header.\<close>

definition proc_security :: "bool \<Rightarrow> string \<Rightarrow> string \<times> string" where
  "proc_security isDeterministic body =
     (let c1 = (if isDeterministic then [''IMMUTABLE''] else []);
          invoker = Contains body ''SECURITY INVOKER'';
          body = (if invoker then ReplaceAllString reSecurityInvoker body (fixed '''') else body);
          definer = Contains body ''SECURITY DEFINER'';
          body = (if definer then ReplaceAllString reSecurityDefiner body (fixed '''') else body);
          clauses = c1 @ (if invoker then [''SECURITY INVOKER''] else []) @ (if definer then [''SECURITY DEFINER''] else [])
      in (body, if clauses = [] then '''' else nl @ Join clauses nl))"

definition proc_header :: "regexp \<Rightarrow> string \<Rightarrow> string \<Rightarrow> string" where
  "proc_header header extra body =
     (let body = ReplaceAllStringFunc header body (\<lambda>m.
            ReplaceAllString reTrimAsIs m (fixed '''') @ nl @ ''LANGUAGE plpgsql'' @ extra @ nl @ ''AS $$'')
      in case LastIndexOf body ''END;'' of
           None \<Rightarrow> body
         | Some i \<Rightarrow> take (i + 4) body @ nl @ ''$$;'')"

definition ConvertProcedure :: "string \<Rightarrow> string \<Rightarrow> string \<Rightarrow> string \<Rightarrow> ConvertResult" where
  "ConvertProcedure name objectType definition_text naming =
     (let (body, w1) = convertExpressions definition_text;
          body = convertSequenceRefs (convertDbmsOutput (convertRaiseAppError body));
          (body, isDeterministic, w2) = proc_clauses body;
          (body, w3) = proc_names objectType body;
          body = proc_package objectType body;
          w4 = proc_warnings objectType body;
          (body, extra) = proc_security isDeterministic body;
          body = (if ToUpper objectType = ''PROCEDURE'' then proc_header reProcHeader extra body
                  else if ToUpper objectType = ''FUNCTION'' then proc_header reFuncHeader extra body
                  else body)
      in \<lparr>cr_Definition = applyNaming body naming, Warnings = w1 @ w2 @ w3 @ w4\<rparr>)"

section \<open>Properties\<close>

text \<open>
  A row trigger gets a header that PostgreSQL rejects: Oracle reports the type \<open>BEFORE EACH ROW\<close>
  without a space at its end, so the replacement of \<open>EACH ROW\<close> followed by a space finds nothing, and
  for every name, table, event, body and naming convention the statement reads \<open>BEFORE EACH ROW
  event ON table FOR EACH ROW\<close> (shown up to case, which the naming may change).
\<close>

theorem row_trigger_header:
  "\<exists>pre post. ToUpper (cr_Definition (ConvertTrigger name tableName ''BEFORE EACH ROW'' event text naming)) =
     pre @ ''CREATE TRIGGER '' @ ToUpper name @ nl @ ''  BEFORE EACH ROW '' @ ToUpper event @ '' ON '' @ ToUpper tableName @ nl @
     ''  FOR EACH ROW'' @ nl @ post"
proof -
  have kept: "Replace1 (ToUpper ''BEFORE EACH ROW'') ''EACH ROW '' '''' = ''BEFORE EACH ROW''" by code_simp
  have fixed: "ToUpper (''CREATE TRIGGER '') = ''CREATE TRIGGER ''" "ToUpper nl = nl" "ToUpper ''  '' = ''  ''" "ToUpper '' '' = '' ''"
    "ToUpper '' ON '' = '' ON ''" "ToUpper ''  FOR EACH ROW'' = ''  FOR EACH ROW''" "ToUpper ''BEFORE EACH ROW'' = ''BEFORE EACH ROW''"
    by code_simp+
  obtain body w where b: "trigger_body text = (body, w)" by force
  have "create_trigger name tableName ''BEFORE EACH ROW'' event =
      ''CREATE TRIGGER '' @ ToLower name @ nl @ ''  '' @ ''BEFORE EACH ROW'' @ '' '' @ ToUpper event @ '' ON '' @ ToLower tableName @ nl @
      ''  FOR EACH ROW'' @ nl @ ''  EXECUTE FUNCTION fn_'' @ ToLower name @ ''();'' @ nl"
    by (simp only: create_trigger_def Let_def kept)
  moreover have "ToUpper (applyNaming t naming) = ToUpper t" for t by (simp add: applyNaming_def ToUpper_written del: write_token.simps)
  ultimately have "ToUpper (cr_Definition (ConvertTrigger name tableName ''BEFORE EACH ROW'' event text naming)) =
      ToUpper (trigger_function name ''BEFORE EACH ROW'' event body) @ ''CREATE TRIGGER '' @ ToUpper name @ nl @ ''  '' @ ''BEFORE EACH ROW'' @
      '' '' @ ToUpper event @ '' ON '' @ ToUpper tableName @ nl @ ''  FOR EACH ROW'' @ nl @
      ToUpper (''  EXECUTE FUNCTION fn_'' @ ToLower name @ ''();'' @ nl)"
    by (simp only: ConvertTrigger_def Let_def b prod.case append_assoc ConvertResult.select_convs ToUpper_append ToUpper_ToLower ToUpper_ToUpper fixed)
  then show ?thesis by (intro exI) simp
qed

text \<open>The row limit of a condition that goes on leaves a dangling \<open>AND\<close>.\<close>

lemma rownum_first_condition:
  "convertROWNUM ''SELECT A FROM T WHERE ROWNUM <= 5 AND B = 1'' = (''SELECT A FROM T  AND B = 1'' @ nl @ ''LIMIT 5'', [])"
  by code_simp

text \<open>
  The source of a procedure as Oracle's dictionary has it, without \<open>CREATE OR REPLACE\<close>, becomes a text
  that closes a dollar quote it never opened.
\<close>

theorem procedure_quote_unopened:
  "cr_Definition (ConvertProcedure ''P'' ''PROCEDURE'' ''PROCEDURE P IS BEGIN NULL; END;'' ''lowercase'') =
     ''PROCEDURE p IS BEGIN NULL; END;'' @ nl @ ''$$;''"
  by code_simp

end
