(* ===== verification/Target_View.thy ===== *)
theory Target_View
  imports Schema_View Chunk_Where
begin

text \<open>
  What the user interface is shown of the target: \<open>GetTargetStatus\<close> and \<open>RunValidation\<close> of \<open>pkg/api/handlers.go\<close> with
  \<open>internal/validate/validator.go\<close>. The PostgreSQL server answers queries as in \<open>Pg_Writer\<close>; \<open>ora_count\<close> is the result of a
  counting query in Oracle. The lemmas say what a validation result means and how many results there are.
\<close>

section \<open>\<open>ValidateRowCount\<close>\<close>

record Result =
  vl_TableName :: string
  vl_OracleCount :: int
  vl_PGCount :: int
  vl_Match :: bool
  vl_Error :: string

text \<open>The result; the error of \<open>ValidateRowCount\<close> says the same as its \<open>Error\<close> field and the only caller drops it.\<close>

definition ValidateRowCount ::
    "(string \<Rightarrow> string + int) \<Rightarrow> pg_server \<Rightarrow> history \<Rightarrow> Writer \<Rightarrow> string \<Rightarrow> string \<Rightarrow> string \<Rightarrow> Result" where
  "ValidateRowCount ora_count srv h w owner tableName whereClause =
     (let r = \<lparr>vl_TableName = tableName, vl_OracleCount = 0, vl_PGCount = 0, vl_Match = False, vl_Error = ''''\<rparr>
      in case ora_count (countQuery owner tableName None whereClause) of
           Inl e \<Rightarrow> r\<lparr>vl_Error := ''oracle count: '' @ e\<rparr>
         | Inr oraCount \<Rightarrow>
             (let r = r\<lparr>vl_OracleCount := oraCount\<rparr>
              in case w_Count srv w tableName h of
                   Inl e \<Rightarrow> r\<lparr>vl_Error := ''pg count: '' @ e\<rparr>
                 | Inr pgCount \<Rightarrow> r\<lparr>vl_PGCount := pgCount, vl_Match := (oraCount = pgCount)\<rparr>))"

section \<open>\<open>RunValidation\<close>\<close>

record ValidationResult =
  vd_TableName :: string
  vd_OracleCount :: int
  vd_PGCount :: int
  vd_Match :: bool
  vd_Error :: string

text \<open>The outside world of the two handlers; pools are opened by name.\<close>

record target_env =
  open_oracle :: "string \<Rightarrow> string option"
  open_postgres :: "string \<Rightarrow> string option"
  ora_schema_db :: "string \<Rightarrow> ora_db"
  ora_count :: "string \<Rightarrow> string + int"
  target :: pg_server
  executed :: history
  sequence_exists :: "string \<Rightarrow> string \<Rightarrow> string + bool"

definition validation_where :: "ProjectConfig \<Rightarrow> string \<Rightarrow> string" where
  "validation_where p name = (case mc_TableOverrides (pj_Config p) name of Some override \<Rightarrow> ao_Where override | None \<Rightarrow> '''')"

definition validate_one :: "target_env \<Rightarrow> ProjectConfig \<Rightarrow> Table \<Rightarrow> ValidationResult" where
  "validate_one env p t =
     (let result = ValidateRowCount (ora_count env) (target env) (executed env)
                     (NewWriter (defaultPGSchema (pj_PgSchema p))) (pj_OracleSchema p) (tbl_Name t) (validation_where p (tbl_Name t))
      in \<lparr>vd_TableName = tbl_Name t, vd_OracleCount = vl_OracleCount result, vd_PGCount = vl_PGCount result,
          vd_Match = vl_Match result, vd_Error = vl_Error result\<rparr>)"

definition RunValidation :: "target_env \<Rightarrow> project_db \<Rightarrow> string \<Rightarrow> ValidationResult list reply" where
  "RunValidation env db projectID =
     (case ps_Get projectID db of
        None \<Rightarrow> Failure 404 ''project not found'' ''''
      | Some p \<Rightarrow>
          (case open_oracle env (pj_OracleDSN p) of
             Some e \<Rightarrow> Failure 502 ''failed to connect to Oracle'' e
           | None \<Rightarrow>
               (case open_postgres env (pj_PgDSN p) of
                  Some e \<Rightarrow> Failure 502 ''failed to connect to PostgreSQL'' e
                | None \<Rightarrow>
                    (case Extract (ora_schema_db env (pj_OracleDSN p)) (pj_OracleSchema p) (project_filter p) of
                       Inl e \<Rightarrow> Failure 500 ''schema extraction failed'' e
                     | Inr s \<Rightarrow> Reply 200 (map (validate_one env p) (Tables s))))))"

section \<open>\<open>GetTargetStatus\<close>\<close>

record PartitionTargetStatus =
  ps_Name :: string
  ps_Exists :: bool
  ps_RowCount :: int

record TableTargetStatus =
  ts_Name :: string
  ts_Exists :: bool
  ts_RowCount :: int
  ts_Partitions :: "PartitionTargetStatus list"

record SequenceTargetStatus =
  ss_Name :: string
  ss_Exists :: bool

definition partition_status :: "target_env \<Rightarrow> string \<Rightarrow> Table \<Rightarrow> Partition \<Rightarrow> PartitionTargetStatus" where
  "partition_status env sch t p =
     (let childName = ToLower (tbl_Name t) @ ''_'' @ ToLower (part_Name p); srv = target env; h = executed env;
          missing = \<lparr>ps_Name = part_Name p, ps_Exists = False, ps_RowCount = 0\<rparr>
      in if pg_exists srv h sch childName = Inr True then
           (case pg_reltuples srv h sch childName of
              Inl e \<Rightarrow> missing\<lparr>ps_Exists := True\<rparr>
            | Inr cnt \<Rightarrow>
                missing\<lparr>ps_Exists := True,
                  ps_RowCount :=
                    (if cnt > 0 then cnt
                     else (case pg_count srv h (''SELECT COUNT(*) FROM \"'' @ sch @ ''\".\"'' @ childName @ ''\"'') of
                             Inr exact \<Rightarrow> exact | Inl e \<Rightarrow> 0))\<rparr>)
         else missing)"

definition table_status :: "target_env \<Rightarrow> string \<Rightarrow> Table \<Rightarrow> TableTargetStatus" where
  "table_status env sch t =
     (let w = NewWriter sch; srv = target env; h = executed env;
          exists = (TableExists srv w (tbl_Name t) h = Inr True)
      in \<lparr>ts_Name = tbl_Name t, ts_Exists = exists,
          ts_RowCount = (if exists then (case w_EstimateCount srv w (tbl_Name t) h of Inr count \<Rightarrow> count | Inl e \<Rightarrow> 0) else 0),
          ts_Partitions = (if IsPartitioned t then map (partition_status env sch t) (partitions_of t) else [])\<rparr>)"

definition sequence_status :: "target_env \<Rightarrow> string \<Rightarrow> Sequence \<Rightarrow> SequenceTargetStatus" where
  "sequence_status env sch sq =
     \<lparr>ss_Name = seq_Name sq,
      ss_Exists = (case sequence_exists env sch (ToLower (seq_Name sq)) of Inr seqExists \<Rightarrow> seqExists | Inl e \<Rightarrow> False)\<rparr>"

definition GetTargetStatus ::
    "target_env \<Rightarrow> project_db \<Rightarrow> string \<Rightarrow> bool \<Rightarrow> (TableTargetStatus list \<times> SequenceTargetStatus list) reply" where
  "GetTargetStatus env db projectID showAll =
     (case ps_Get projectID db of
        None \<Rightarrow> Failure 404 ''project not found'' ''''
      | Some p \<Rightarrow>
          (case open_postgres env (pj_PgDSN p) of
             Some e \<Rightarrow> Failure 502 ''failed to connect to PostgreSQL'' e
           | None \<Rightarrow>
               (case open_oracle env (pj_OracleDSN p) of
                  Some e \<Rightarrow> Failure 502 ''failed to connect to Oracle'' e
                | None \<Rightarrow>
                    (case Extract (ora_schema_db env (pj_OracleDSN p)) (pj_OracleSchema p)
                            (if showAll then zero_filter else project_filter p) of
                       Inl e \<Rightarrow> Failure 500 ''schema extraction failed'' e
                     | Inr s \<Rightarrow>
                         (let sch = defaultPGSchema (pj_PgSchema p)
                          in Reply 200 (map (table_status env sch) (Tables s), map (sequence_status env sch) (Sequences s)))))))"

section \<open>What the results mean\<close>

lemma ValidateRowCount_match:
  "vl_Match (ValidateRowCount oc srv h w owner name whr) \<longleftrightarrow>
    (\<exists>n. oc (countQuery owner name None whr) = Inr n \<and> w_Count srv w name h = Inr n)"
  by (auto simp: ValidateRowCount_def Let_def split: sum.splits)

text \<open>
  A validation that answers 200 has one result for each table of the extracted schema, in its order, and a result
  is a match exactly when both counts succeed with the same number, the one in Oracle under the table's WHERE clause.
\<close>

theorem RunValidation_matches:
  assumes "RunValidation env db projectID = Reply 200 rs"
  shows "\<exists>p s. ps_Get projectID db = Some p \<and>
    Extract (ora_schema_db env (pj_OracleDSN p)) (pj_OracleSchema p) (project_filter p) = Inr s \<and>
    map vd_TableName rs = map tbl_Name (Tables s) \<and>
    map vd_Match rs = map (\<lambda>t. \<exists>n.
      ora_count env (countQuery (pj_OracleSchema p) (tbl_Name t) None (validation_where p (tbl_Name t))) = Inr n \<and>
      w_Count (target env) (NewWriter (defaultPGSchema (pj_PgSchema p))) (tbl_Name t) (executed env) = Inr n) (Tables s)"
proof -
  obtain p s where p: "ps_Get projectID db = Some p"
    "Extract (ora_schema_db env (pj_OracleDSN p)) (pj_OracleSchema p) (project_filter p) = Inr s"
    "rs = map (validate_one env p) (Tables s)"
    using assms by (auto simp: RunValidation_def split: option.splits sum.splits)
  have "vd_Match (validate_one env p t) \<longleftrightarrow> (\<exists>n.
      ora_count env (countQuery (pj_OracleSchema p) (tbl_Name t) None (validation_where p (tbl_Name t))) = Inr n \<and>
      w_Count (target env) (NewWriter (defaultPGSchema (pj_PgSchema p))) (tbl_Name t) (executed env) = Inr n)" for t
    by (simp add: validate_one_def Let_def ValidateRowCount_match)
  moreover have "vd_TableName (validate_one env p t) = tbl_Name t" for t by (simp add: validate_one_def Let_def)
  ultimately show ?thesis using p by (intro exI [of _ p] exI [of _ s]) simp
qed

definition demo_target :: target_env where
  "demo_target = \<lparr>open_oracle = \<lambda>_. None, open_postgres = \<lambda>_. None, ora_schema_db = \<lambda>_. demo_db ''PK'', ora_count = \<lambda>_. Inr 7,
     target = \<lparr>pg_exec = \<lambda>h q. None, pg_exists = \<lambda>h s t. Inr True, pg_count = \<lambda>h q. Inr 7, pg_reltuples = \<lambda>h s t. Inr 0\<rparr>,
     executed = [], sequence_exists = \<lambda>_ _. Inr True\<rparr>"

definition demo_orders :: ProjectConfig where
  "demo_orders = demo_project\<lparr>pj_Config := demo_api_config\<lparr>mc_ExcludeTables := [''DEPT*'']\<rparr>\<rparr>"

lemma demo_orders_schema: "case Extract (demo_db ''PK'') ''HR'' (project_filter demo_orders) of Inl e \<Rightarrow> False
  | Inr sch \<Rightarrow> map tbl_Name (Tables sch) = [''ORDERS'']"
  by code_simp

theorem RunValidation_matches_witness:
  "\<exists>rs. RunValidation demo_target [demo_orders] ''7'' = Reply 200 rs \<and> map vd_TableName rs = [''ORDERS''] \<and> map vd_Match rs = [True]"
proof -
  have pg: "ps_Get ''7'' [demo_orders] = Some demo_orders" by (simp add: ps_Get_def demo_orders_def demo_project_def)
  have hr: "pj_OracleSchema demo_orders = ''HR''" by (simp add: demo_orders_def demo_project_def)
  obtain sch where sch: "Extract (demo_db ''PK'') ''HR'' (project_filter demo_orders) = Inr sch" "map tbl_Name (Tables sch) = [''ORDERS'']"
    using demo_orders_schema by (auto split: sum.splits)
  have env: "open_oracle demo_target d = None" "open_postgres demo_target d = None" "ora_schema_db demo_target d = demo_db ''PK''"
    "ora_count demo_target q = Inr 7" "w_Count (target demo_target) w n h = Inr 7" for d q w n h
    by (simp_all add: demo_target_def w_Count_def)
  have r: "RunValidation demo_target [demo_orders] ''7'' = Reply 200 (map (validate_one demo_target demo_orders) (Tables sch))"
    by (simp add: RunValidation_def pg env hr sch(1))
  from RunValidation_matches [OF this] show ?thesis using r sch by (auto simp: pg env hr)
qed

end
