(* ===== verification/Http_Server.thy ===== *)
theory Http_Server
  imports Go_Prelude
begin

text \<open>
  \<open>pkg/api/server.go\<close>: the defaults of the configuration, the two routing tables (the server and the handler for the desktop
  shell), the fallback to the single-page application and the CORS middleware. A route is a method, a pattern of path segments
  and the handler; the router of the library picks the handler of the pattern that fits, a fixed segment being preferred to
  a parameter, and here no two patterns of one table fit the same path. Request logging, request ids and panic recovery of the library are left out.
  The lemmas compare the two tables and say which origins the CORS headers admit.
\<close>

section \<open>Configuration\<close>

record ServerConfig =
  Port :: int
  BindAddress :: string
  srv_StateDBPath :: string
  CORSOrigins :: string
  Version :: string

definition server_defaults :: "ServerConfig \<Rightarrow> ServerConfig" where
  "server_defaults cfg =
     cfg\<lparr>Port := (if Port cfg \<le> 0 then 9740 else Port cfg),
         srv_StateDBPath := (if srv_StateDBPath cfg = '''' then ''./existora2pg_state.db'' else srv_StateDBPath cfg),
         BindAddress := (if BindAddress cfg = '''' then ''127.0.0.1'' else BindAddress cfg)\<rparr>"

definition listen_addr :: "ServerConfig \<Rightarrow> string" where
  "listen_addr cfg = BindAddress cfg @ '':'' @ itoa (Port cfg)"

section \<open>Routes\<close>

datatype handler =
  H_CreateProject | H_ListProjects | H_GetProject | H_UpdateProject | H_DeleteProject | H_ExportProject | H_TestOracle | H_TestPostgres
| H_GetSchema | H_GetDDLPreview | H_StartMigration | H_ResumeMigration | H_CancelMigration | H_ResetMigration | H_GetStatus | H_GetJobs
| H_StreamProgress | H_GetTargetStatus | H_RunValidation | H_SaveMappings | H_GetPGSettings | H_GetOracleSettings | H_CheckUpdate
| H_ApplyUpdate | H_ApplyLocalUpdate | H_Health | H_Spa | H_NotFound | H_MethodNotAllowed

datatype segment = Lit string | Param

type_synonym route = "string \<times> segment list \<times> handler"

definition project_route :: "string \<Rightarrow> string \<Rightarrow> handler \<Rightarrow> route" where
  "project_route verb name h = (verb, [Lit ''api'', Lit ''projects'', Param, Lit name], h)"

definition update_routes :: "route list" where
  "update_routes =
     [(''GET'', [Lit ''api'', Lit ''update'', Lit ''check''], H_CheckUpdate),
      (''POST'', [Lit ''api'', Lit ''update'', Lit ''apply''], H_ApplyUpdate),
      (''POST'', [Lit ''api'', Lit ''update'', Lit ''apply-local''], H_ApplyLocalUpdate),
      (''GET'', [Lit ''api'', Lit ''health''], H_Health)]"

definition server_routes :: "route list" where
  "server_routes =
     [(''POST'', [Lit ''api'', Lit ''projects''], H_CreateProject),
      (''GET'', [Lit ''api'', Lit ''projects''], H_ListProjects),
      project_route ''GET'' '''' H_GetProject,
      project_route ''PUT'' '''' H_UpdateProject,
      project_route ''DELETE'' '''' H_DeleteProject,
      project_route ''GET'' ''export'' H_ExportProject,
      project_route ''POST'' ''test-oracle'' H_TestOracle,
      project_route ''POST'' ''test-postgres'' H_TestPostgres,
      project_route ''GET'' ''schema'' H_GetSchema,
      project_route ''GET'' ''ddl-preview'' H_GetDDLPreview,
      project_route ''POST'' ''migrate'' H_StartMigration,
      project_route ''POST'' ''resume'' H_ResumeMigration,
      project_route ''POST'' ''cancel'' H_CancelMigration,
      project_route ''POST'' ''reset'' H_ResetMigration,
      project_route ''GET'' ''status'' H_GetStatus,
      project_route ''GET'' ''jobs'' H_GetJobs,
      project_route ''GET'' ''progress'' H_StreamProgress,
      project_route ''GET'' ''target-status'' H_GetTargetStatus,
      project_route ''POST'' ''validate'' H_RunValidation,
      project_route ''PUT'' ''mappings'' H_SaveMappings,
      project_route ''GET'' ''pg-settings'' H_GetPGSettings,
      project_route ''GET'' ''oracle-settings'' H_GetOracleSettings] @ update_routes"

definition APIHandler_routes :: "route list" where
  "APIHandler_routes =
     [(''POST'', [Lit ''api'', Lit ''projects''], H_CreateProject),
      (''GET'', [Lit ''api'', Lit ''projects''], H_ListProjects),
      project_route ''GET'' '''' H_GetProject,
      project_route ''PUT'' '''' H_UpdateProject,
      project_route ''DELETE'' '''' H_DeleteProject,
      project_route ''POST'' ''test-oracle'' H_TestOracle,
      project_route ''POST'' ''test-postgres'' H_TestPostgres,
      project_route ''GET'' ''schema'' H_GetSchema,
      project_route ''GET'' ''ddl-preview'' H_GetDDLPreview,
      project_route ''POST'' ''migrate'' H_StartMigration,
      project_route ''POST'' ''resume'' H_ResumeMigration,
      project_route ''POST'' ''cancel'' H_CancelMigration,
      project_route ''GET'' ''status'' H_GetStatus,
      project_route ''GET'' ''jobs'' H_GetJobs,
      project_route ''GET'' ''progress'' H_StreamProgress,
      project_route ''GET'' ''target-status'' H_GetTargetStatus,
      project_route ''POST'' ''validate'' H_RunValidation,
      project_route ''PUT'' ''mappings'' H_SaveMappings] @ update_routes"

text \<open>
  A parameter takes a non-empty segment. The routes of a project itself are mounted with the pattern \<open>/\<close>, which the library
  serves for the path with and without the final slash.
\<close>

fun fits :: "segment list \<Rightarrow> string list \<Rightarrow> bool" where
  "fits [] [] = True"
| "fits [Lit l] [] = (l = '''')"
| "fits (Lit l # ps) (s # ss) = (l = s \<and> fits ps ss)"
| "fits (Param # ps) (s # ss) = (s \<noteq> '''' \<and> fits ps ss)"
| "fits ps ss = False"

definition path_segments :: "string \<Rightarrow> string list" where
  "path_segments path = tl (Split path (CHR ''/''))"

text \<open>The handler of a table: the one whose method fits too, or an error if only the path fits.\<close>

definition route_of :: "route list \<Rightarrow> handler \<Rightarrow> string \<Rightarrow> string \<Rightarrow> handler" where
  "route_of table fallback verb path =
     (let found = filter (\<lambda>(v, p, h). fits p (path_segments path)) table
      in case List.find (\<lambda>(v, p, h). v = verb) found of
           Some (v, p, h) \<Rightarrow> h
         | None \<Rightarrow> if found \<noteq> [] then H_MethodNotAllowed else fallback)"

text \<open>
  The routes under \<open>/api\<close> are a router of their own, which answers what it does not know; the catch-all route of the server takes every
  other path.
\<close>

definition serve :: "string \<Rightarrow> string \<Rightarrow> handler" where
  "serve verb path =
     (if take 1 (path_segments path) = [''api''] then route_of server_routes H_NotFound verb path else H_Spa)"

definition serve_api :: "string \<Rightarrow> string \<Rightarrow> handler" where
  "serve_api = route_of APIHandler_routes H_NotFound"

text \<open>The file that the single-page application serves; \<open>exists\<close> tells which embedded files there are.\<close>

definition spa_path :: "(string \<Rightarrow> bool) \<Rightarrow> string \<Rightarrow> string" where
  "spa_path exists path =
     (if path \<noteq> ''/'' \<and> \<not> HasPrefix path ''/api'' \<and> exists (TrimPrefix path ''/'') then path else ''/'')"

section \<open>CORS\<close>

definition originSet :: "string \<Rightarrow> string list" where
  "originSet allowedOrigins = map TrimSpace (Split allowedOrigins (CHR '',''))"

definition cors_headers :: "string \<Rightarrow> string \<Rightarrow> (string \<times> string) list" where
  "cors_headers allowedOrigins origin =
     (if List.member (originSet allowedOrigins) origin \<or> List.member (originSet allowedOrigins) ''*'' then
        [(''Access-Control-Allow-Origin'', origin),
         (''Access-Control-Allow-Methods'', ''GET, POST, PUT, DELETE, OPTIONS''),
         (''Access-Control-Allow-Headers'', ''Content-Type, Authorization, X-Request-ID''),
         (''Access-Control-Allow-Credentials'', ''true''),
         (''Access-Control-Max-Age'', ''86400'')]
      else [])"

text \<open>The headers set, and whether the request is answered with 204 here or goes on.\<close>

definition corsMiddleware :: "string \<Rightarrow> string \<Rightarrow> string \<Rightarrow> (string \<times> string) list \<times> int option" where
  "corsMiddleware allowedOrigins verb origin =
     (cors_headers allowedOrigins origin, if verb = ''OPTIONS'' then Some 204 else None)"

section \<open>What the tables and headers give\<close>

lemma api_subset: "set APIHandler_routes \<subseteq> set server_routes"
proof -
  have "list_all (\<lambda>r. List.member server_routes r) APIHandler_routes" by code_simp
  then show ?thesis by (auto simp: list_all_iff)
qed

text \<open>
  The handler for the desktop shell knows fewer routes than the server: export, reset and the two settings checks,
  which the user interface calls, are answered with not found there.
\<close>

theorem desktop_routes_missing:
  "set APIHandler_routes \<subseteq> set server_routes \<and>
   map (\<lambda>(verb, path). (serve verb path, serve_api verb path))
     [(''GET'', ''/api/projects/7/export''), (''POST'', ''/api/projects/7/reset''), (''GET'', ''/api/projects/7/pg-settings''),
      (''GET'', ''/api/projects/7/oracle-settings''), (''POST'', ''/api/projects/7/migrate'')] =
     [(H_ExportProject, H_NotFound), (H_ResetMigration, H_NotFound), (H_GetPGSettings, H_NotFound),
      (H_GetOracleSettings, H_NotFound), (H_StartMigration, H_StartMigration)]"
proof -
  have "map (\<lambda>(verb, path). (serve verb path, serve_api verb path))
     [(''GET'', ''/api/projects/7/export''), (''POST'', ''/api/projects/7/reset''), (''GET'', ''/api/projects/7/pg-settings''),
      (''GET'', ''/api/projects/7/oracle-settings''), (''POST'', ''/api/projects/7/migrate'')] =
     [(H_ExportProject, H_NotFound), (H_ResetMigration, H_NotFound), (H_GetPGSettings, H_NotFound),
      (H_GetOracleSettings, H_NotFound), (H_StartMigration, H_StartMigration)]" by code_simp
  then show ?thesis using api_subset by blast
qed

text \<open>
  The CORS headers name the origin of the request, with credentials, exactly when it is in the configured list,
  or when the list has a star: then every origin is admitted with credentials.
\<close>

theorem cors_admits:
  "(map_of (fst (corsMiddleware allowed verb origin)) ''Access-Control-Allow-Origin'' =
      (if List.member (map TrimSpace (Split allowed (CHR '',''))) origin \<or> List.member (map TrimSpace (Split allowed (CHR '',''))) ''*''
       then Some origin else None)) \<and>
   (map_of (fst (corsMiddleware allowed verb origin)) ''Access-Control-Allow-Credentials'' \<noteq> None \<longleftrightarrow>
    map_of (fst (corsMiddleware allowed verb origin)) ''Access-Control-Allow-Origin'' \<noteq> None)"
  by (simp add: corsMiddleware_def cors_headers_def originSet_def)

end
