(* ===== verification/Cli_Commands.thy ===== *)
theory Cli_Commands
  imports Engine_Run Target_View Http_Server Pg_Pool Topo_Sort
begin

text \<open>
  The commands of \<open>internal/cli\<close> with the opening of the state database (\<open>internal/jobstore/store.go\<close>) and the log levels
  (\<open>internal/logging\<close>): what each command needs from outside, the errors it stops with, and what it prints, as a list of
  lines, or for a table as its cells (their alignment is the library's). The lemmas compare the dry run with a run
  and say what \<open>validate\<close> and \<open>status\<close> report.
\<close>

section \<open>Start of a command (\<open>root.go\<close>, \<open>logger.go\<close>)\<close>

datatype log_level = LevelDebug | LevelInfo | LevelWarn | LevelError

definition parseLevel :: "string \<Rightarrow> log_level" where
  "parseLevel s =
     (let l = ToLower s
      in if l = ''debug'' then LevelDebug
         else if l = ''warn'' \<or> l = ''warning'' then LevelWarn
         else if l = ''error'' then LevelError else LevelInfo)"

datatype log_handler = JSONHandler | TextHandler

text \<open>\<open>Setup\<close>: the writers (standard output, and the log file if one is named), the handler and its level.\<close>

definition logging_Setup :: "(string \<Rightarrow> string option) \<Rightarrow> string \<Rightarrow> string \<Rightarrow> string \<Rightarrow> string + string list \<times> log_handler \<times> log_level" where
  "logging_Setup open_file level format filePath =
     (case (if filePath \<noteq> '''' then open_file filePath else None) of
        Some e \<Rightarrow> Inl e
      | None \<Rightarrow> Inr (''stdout'' # (if filePath \<noteq> '''' then [filePath] else []),
                   if ToLower format = ''json'' then JSONHandler else TextHandler, parseLevel level))"

text \<open>The configuration a command runs with; \<open>version\<close> and \<open>serve\<close> have none.\<close>

definition pre_run ::
    "(string \<Rightarrow> string + Config) \<Rightarrow> (string \<Rightarrow> string option) \<Rightarrow> string \<Rightarrow> string \<Rightarrow> string + Config option" where
  "pre_run load open_file cfgFile command =
     (if command = ''version'' \<or> command = ''serve'' then Inr None
      else case load cfgFile of
             Inl e \<Rightarrow> Inl (''load config: '' @ e)
           | Inr cfg \<Rightarrow>
               (case logging_Setup open_file (Level (Logging cfg)) (Format (Logging cfg)) (log_File (Logging cfg)) of
                  Inl e \<Rightarrow> Inl (''setup logger: '' @ e)
                | Inr _ \<Rightarrow> Inr (Some cfg)))"

definition commands :: "string list" where
  "commands = [''version'', ''extract'', ''migrate'', ''status'', ''resume'', ''validate'', ''serve'']"

definition version_line :: "string \<Rightarrow> string \<Rightarrow> string \<Rightarrow> string" where
  "version_line version commit built = ''existora2pg '' @ version @ '' (commit: '' @ commit @ '', built: '' @ built @ '')''"

text \<open>\<open>serve\<close>: the flags, and the state database of the configuration if there is one.\<close>

definition serve_config :: "Config option \<Rightarrow> int \<Rightarrow> string \<Rightarrow> string \<Rightarrow> string \<Rightarrow> string \<Rightarrow> ServerConfig" where
  "serve_config cfg port bind cors stateDB version =
     \<lparr>Port = port, BindAddress = bind,
      srv_StateDBPath = (case cfg of Some c \<Rightarrow> if StateDBPath (Migration c) \<noteq> '''' then StateDBPath (Migration c) else stateDB
                                  | None \<Rightarrow> stateDB),
      CORSOrigins = cors, Version = version\<rparr>"

text \<open>The configured state database never reaches \<open>serve\<close>, because it runs without a configuration.\<close>

lemma serve_ignores_config:
  assumes "pre_run load open_file cfgFile ''serve'' = Inr cfg"
  shows "srv_StateDBPath (serve_config cfg port bind cors stateDB version) = stateDB"
  using assms by (auto simp: pre_run_def serve_config_def)

section \<open>Opening databases\<close>

definition sqlite_pragmas :: "string list" where
  "sqlite_pragmas = [''PRAGMA journal_mode=WAL'', ''PRAGMA synchronous=NORMAL'', ''PRAGMA busy_timeout=10000'']"

fun apply_pragmas :: "(string \<Rightarrow> string option) \<Rightarrow> string list \<Rightarrow> string option" where
  "apply_pragmas exec [] = None"
| "apply_pragmas exec (p # ps) =
     (case exec p of Some e \<Rightarrow> Some (''exec '' @ p @ '': '' @ e) | None \<Rightarrow> apply_pragmas exec ps)"

definition ApplySQLitePragmas :: "(string \<Rightarrow> string option) \<Rightarrow> string option" where
  "ApplySQLitePragmas exec = apply_pragmas exec sqlite_pragmas"

text \<open>What opening needs from outside; the functions give the error, if there is one.\<close>

record db_opener =
  op_oracle :: "string \<Rightarrow> int \<Rightarrow> string option"
  op_postgres :: "string \<Rightarrow> int \<Rightarrow> string option"
  op_sqlite :: "string \<Rightarrow> string option"
  op_sqlite_exec :: "string \<Rightarrow> string option"
  op_read_schema :: "string option"

definition store_New :: "db_opener \<Rightarrow> string \<Rightarrow> string option" where
  "store_New op dbPath =
     (case op_sqlite op (dbPath @ ''?_pragma=busy_timeout(10000)&_pragma=journal_mode(WAL)'') of
        Some e \<Rightarrow> Some (''open state db: '' @ e)
      | None \<Rightarrow> ApplySQLitePragmas (op_sqlite_exec op))"

definition store_InitSchema :: "db_opener \<Rightarrow> string \<Rightarrow> string option" where
  "store_InitSchema op ddl =
     (case op_read_schema op of
        Some e \<Rightarrow> Some (''read schema sql: '' @ e)
      | None \<Rightarrow> map_option (\<lambda>e. ''exec schema sql: '' @ e) (op_sqlite_exec op ddl))"

text \<open>The first error of a list of checks.\<close>

definition first_error :: "string option list \<Rightarrow> string option" where
  "first_error es = (case filter (\<lambda>e. e \<noteq> None) es of [] \<Rightarrow> None | e # _ \<Rightarrow> e)"

definition prefixed :: "string \<Rightarrow> string option \<Rightarrow> string option" where
  "prefixed p = map_option (\<lambda>e. p @ e)"

definition open_state :: "db_opener \<Rightarrow> string \<Rightarrow> Config \<Rightarrow> string option" where
  "open_state op ddl cfg = first_error
     [prefixed ''open state db: '' (store_New op (StateDBPath (Migration cfg))),
      prefixed ''init state schema: '' (store_InitSchema op ddl)]"

definition open_oracle_db :: "db_opener \<Rightarrow> Config \<Rightarrow> string option" where
  "open_oracle_db op cfg = prefixed ''connect oracle: '' (op_oracle op (ora_DSN (Oracle cfg)) (ora_MaxConns (Oracle cfg)))"

definition open_pg_pool :: "db_opener \<Rightarrow> Config \<Rightarrow> string option" where
  "open_pg_pool op cfg = prefixed ''connect postgres: '' (op_postgres op (pg_DSN (Postgres cfg)) (pg_MaxConns (Postgres cfg)))"

section \<open>\<open>migrate\<close> and \<open>resume\<close>\<close>

definition open_all :: "db_opener \<Rightarrow> string \<Rightarrow> Config \<Rightarrow> string option" where
  "open_all op ddl cfg = first_error [open_oracle_db op cfg, open_pg_pool op cfg, open_state op ddl cfg]"

definition runMigration ::
    "db_opener \<Rightarrow> string \<Rightarrow> 'f run_env \<Rightarrow> Config \<Rightarrow> string \<Rightarrow> string \<Rightarrow> world \<Rightarrow> (string option \<times> world) option" where
  "runMigration op ddl env cfg runID hash st =
     (case open_all op ddl cfg of
        Some e \<Rightarrow> Some (Some e, st)
      | None \<Rightarrow> Run env cfg (NewWriter (pg_Schema (Postgres cfg))) runID hash st)"

definition runResume :: "db_opener \<Rightarrow> string \<Rightarrow> 'f run_env \<Rightarrow> Config \<Rightarrow> world \<Rightarrow> (string option \<times> world) option" where
  "runResume op ddl env cfg st =
     (case open_all op ddl cfg of
        Some e \<Rightarrow> Some (Some e, st)
      | None \<Rightarrow> Resume env cfg (NewWriter (pg_Schema (Postgres cfg))) st)"

section \<open>\<open>migrate --dry-run\<close>\<close>

definition cli_filter :: "Config \<Rightarrow> TableFilter" where
  "cli_filter cfg = \<lparr>Include = IncludeTables (Migration cfg), Exclude = ExcludeTables (Migration cfg),
     f_IncludeSequences = IncludeSequences (Migration cfg)\<rparr>"

text \<open>Each element of the list is what one \<open>Println\<close> prints.\<close>

definition dry_create :: "string \<Rightarrow> Table \<Rightarrow> string list" where
  "dry_create sch t = GenerateCreateTable t sch #
     (if IsPartitioned t then GeneratePartitionDDL t sch (BuildPartitionBounds t) @ [''''] else [])"

definition dry_constraints :: "string \<Rightarrow> Table \<Rightarrow> string list" where
  "dry_constraints sch t =
     (let pk = GeneratePrimaryKey t sch in if pk \<noteq> '''' then [pk] else []) @ GenerateIndexes t sch @ GenerateConstraints t sch"

definition dry_run_lines :: "string \<Rightarrow> MigrationPlan \<Rightarrow> string list" where
  "dry_run_lines sch plan =
     [''-- existora2pg DDL preview'', ''-- Generated in dry-run mode'', ''''] @
     concat (map (dry_create sch) (DDLOrder plan)) @
     [''-- Post-data constraints''] @ concat (map (dry_constraints sch) (ConstraintOrder plan)) @
     [CHR 0x0A # ''-- Sequences''] @ map (\<lambda>seq. GenerateSequence seq sch) (plan_Sequences plan)"

definition runDryRun ::
    "db_opener \<Rightarrow> ora_db \<Rightarrow> (string \<Rightarrow> 'f option) \<Rightarrow> ('f \<Rightarrow> 'f \<Rightarrow> bool) \<Rightarrow> Config \<Rightarrow> string + string list" where
  "runDryRun op db pf lt cfg =
     (case open_oracle_db op cfg of
        Some e \<Rightarrow> Inl e
      | None \<Rightarrow>
          (case Extract db (ora_Schema (Oracle cfg)) (cli_filter cfg) of
             Inl e \<Rightarrow> Inl (''extract: '' @ e)
           | Inr s \<Rightarrow> Inr (dry_run_lines (pg_Schema (Postgres cfg)) (BuildPlan pf lt s (Migration cfg) (DropTarget (Postgres cfg))))))"

section \<open>\<open>validate\<close>\<close>

definition cut :: "nat \<Rightarrow> string \<Rightarrow> string" where
  "cut n s = (if length s > n then take n s @ ''...'' else s)"

definition validate_row :: "Result \<Rightarrow> string list" where
  "validate_row r = [vl_TableName r, itoa (vl_OracleCount r), itoa (vl_PGCount r),
     if vl_Match r then ''OK'' else ''MISMATCH'', cut 50 (vl_Error r)]"

definition validate_results ::
    "(string \<Rightarrow> string + int) \<Rightarrow> pg_server \<Rightarrow> history \<Rightarrow> Config \<Rightarrow> Schema \<Rightarrow> Result list" where
  "validate_results counts srv h cfg s =
     map (\<lambda>t. ValidateRowCount counts srv h (NewWriter (pg_Schema (Postgres cfg))) (sch_Owner s) (tbl_Name t) '''') (Tables s)"

text \<open>The rows of the printed table with its two heading rows, and the error or the closing line.\<close>

definition runValidate ::
    "db_opener \<Rightarrow> ora_db \<Rightarrow> (string \<Rightarrow> string + int) \<Rightarrow> pg_server \<Rightarrow> history \<Rightarrow> Config \<Rightarrow> string list list \<times> (string + string)" where
  "runValidate op db counts srv h cfg =
     (case first_error [open_oracle_db op cfg, open_pg_pool op cfg] of
        Some e \<Rightarrow> ([], Inl e)
      | None \<Rightarrow>
          (case Extract db (ora_Schema (Oracle cfg)) (cli_filter cfg) of
             Inl e \<Rightarrow> ([], Inl (''extract: '' @ e))
           | Inr s \<Rightarrow>
               let results = validate_results counts srv h cfg s
               in ([[''TABLE'', ''ORACLE'', ''POSTGRES'', ''MATCH'', ''ERROR''],
                    [''-----'', ''------'', ''--------'', ''-----'', ''-----'']] @ map validate_row results,
                   if list_all vl_Match results then Inr (CHR 0x0A # ''All tables validated successfully.'')
                   else Inl ''validation failed: row counts mismatches detected'')))"

section \<open>\<open>status\<close>\<close>

definition job_state_text :: "JobState \<Rightarrow> string" where
  "job_state_text st =
     (case st of JobPending \<Rightarrow> ''PENDING'' | JobRunning \<Rightarrow> ''RUNNING'' | JobFailed \<Rightarrow> ''FAILED''
      | JobCompleted \<Rightarrow> ''COMPLETED'' | JobRetrying \<Rightarrow> ''RETRYING'' | JobSkipped \<Rightarrow> ''SKIPPED'')"

definition status_row :: "Job \<Rightarrow> string list" where
  "status_row j = [TableName j, j_Partition j, Phase j, job_state_text (State j), itoa (RowsCopied j), cut 60 (Error j)]"

definition status_counts :: "RunSummary \<Rightarrow> string" where
  "status_counts r = ''Total: '' @ itoa (Total r) @ '' | Completed: '' @ itoa (Completed r) @ '' | Failed: '' @ itoa (Failed r) @
     '' | Pending: '' @ itoa (Pending r) @ '' | Running: '' @ itoa (Running r)"

definition runStatus ::
    "db_opener \<Rightarrow> string \<Rightarrow> (string \<Rightarrow> string option) \<Rightarrow> string \<Rightarrow> Config \<Rightarrow> job_db \<Rightarrow> string + string list \<times> string list list" where
  "runStatus op ddl parse statusTable cfg s =
     (case open_state op ddl cfg of
        Some e \<Rightarrow> Inl e
      | None \<Rightarrow>
          (case GetLatestRunID s of
             Inl e \<Rightarrow> Inl (''no migration runs found: '' @ e)
           | Inr runID \<Rightarrow> Inr
               ([''Run: '' @ runID, status_counts (GetRunSummary parse runID s), ''''],
                [[''TABLE'', ''PARTITION'', ''PHASE'', ''STATE'', ''ROWS'', ''ERROR''],
                 [''-----'', ''---------'', ''-----'', ''-----'', ''----'', ''-----'']] @
                map status_row (GetJobs runID statusTable s))))"

section \<open>\<open>extract\<close>\<close>

text \<open>Widths counts characters; in UTF-8 the bytes from \<open>0x80\<close> to \<open>0xBF\<close> continue one.\<close>

definition rune_count :: "string \<Rightarrow> nat" where
  "rune_count s = length (filter (\<lambda>c. \<not> (128 \<le> byte c \<and> byte c < 192)) s)"

definition pad_right :: "nat \<Rightarrow> string \<Rightarrow> string" where
  "pad_right n s = s @ replicate (n - rune_count s) CHR '' ''"

definition pad_left :: "nat \<Rightarrow> string \<Rightarrow> string" where
  "pad_left n s = replicate (n - rune_count s) CHR '' '' @ s"

definition summary_line :: "Table \<Rightarrow> string" where
  "summary_line t =
     (let partInfo = (case Partitioning t of
            Some p \<Rightarrow> if IsPartitioned t
                      then '' [partitioned: '' @ strategy_string (Strategy p) @ '', '' @ itoa (int (length (Partitions p))) @ '' partitions]''
                      else ''''
          | None \<Rightarrow> '''');
          fkCount = length (filter (\<lambda>c. con_Type c = ConstraintFK) (Constraints t))
      in ''  '' @ pad_right 30 (tbl_Name t) @ '' '' @ pad_left 3 (itoa (int (length (Columns t)))) @ '' cols  '' @
         pad_left 2 (itoa (int (length (Indexes t)))) @ '' idx  '' @ itoa (int fkCount) @ '' FK'' @ partInfo)"

definition printSchemaSummary :: "Schema \<Rightarrow> string list" where
  "printSchemaSummary s =
     ['''', ''Schema: '' @ sch_Owner s, ''Tables: '' @ itoa (int (length (Tables s))),
      ''Sequences: '' @ itoa (int (length (Sequences s))), ''''] @ map summary_line (Tables s) @ ['''']"

text \<open>The lines printed and the schema that is saved to the output file, if one is named.\<close>

definition runExtract :: "db_opener \<Rightarrow> ora_db \<Rightarrow> Config \<Rightarrow> string \<Rightarrow> string + string list \<times> (string \<times> Schema) option" where
  "runExtract op db cfg extractOutput =
     (case open_oracle_db op cfg of
        Some e \<Rightarrow> Inl e
      | None \<Rightarrow>
          (case Extract db (ora_Schema (Oracle cfg)) (cli_filter cfg) of
             Inl e \<Rightarrow> Inl (''extract: '' @ e)
           | Inr s \<Rightarrow> Inr (printSchemaSummary s, if extractOutput \<noteq> '''' then Some (extractOutput, s) else None)))"

section \<open>The dry run and a run\<close>

lemma dry_run_constraint_order:
  "ConstraintOrder (BuildPlan pf lt s cfg gd) = rev (topoSortTables (Tables s))"
  by (simp add: BuildPlan_def Let_def)

text \<open>A referenced table comes after the tables that refer to it.\<close>

lemma referenced_table_later:
  assumes "distinct (map tbl_Name (Tables s))" "acyclic (fk_edges (Tables s))" and "t \<in> set (Tables s)" "u \<in> set (Tables s)"
    and "c \<in> set (Constraints t)" "con_Type c = ConstraintFK" "RefTable c = tbl_Name u" "tbl_Name u \<noteq> tbl_Name t"
  shows "\<exists>xs ys zs. ConstraintOrder (BuildPlan pf lt s cfg gd) = xs @ t # ys @ u # zs"
proof -
  have sorted: "set (topoSortTables (Tables s)) = set (Tables s)" using topo_distinct_set [OF assms(1)] by blast
  with assms(3) obtain before rest where bt: "topoSortTables (Tables s) = before @ t # rest" by (metis split_list)
  have "RefTable c \<in> tbl_Name ` set before"
    by (rule topoSortTables_refs_first [OF assms(2) bt assms(5,6)]) (use assms(4,7,8) in auto)
  then obtain v where v: "v \<in> set before" "tbl_Name v = tbl_Name u" using assms(7) by auto
  have "v \<in> set (Tables s)" using v(1) sorted bt by auto
  then have "v = u" using v(2) assms(1,4) by (metis distinct_map inj_onD)
  with v(1) obtain p q where "before = p @ u # q" by (metis split_list)
  then show ?thesis
    by (intro exI [of _ "rev rest"] exI [of _ "rev q"] exI [of _ "rev p"]) (simp add: dry_run_constraint_order bt)
qed


definition keyed_dept :: Table where
  "keyed_dept = (sample_table ''DEPT'' [])\<lparr>PrimaryKey := Some \<lparr>con_Name = ''PK_DEPT'', con_Type = ConstraintPK, con_Columns = [''ID''],
     RefTable = '''', RefColumns = [], OnDelete = '''', Condition = ''''\<rparr>\<rparr>"

definition two_tables :: Schema where
  "two_tables = \<lparr>sch_Owner = ''HR'', Tables = [keyed_dept, sample_table ''EMP'' [''DEPT'']],
     Sequences = [], Views = [], MaterializedViews = [], Triggers = [], Procedures = []\<rparr>"


section \<open>What the reports mean\<close>

text \<open>
  \<open>validate\<close> succeeds exactly if the connections and the extraction succeed and every table of the extracted schema has
  as many rows in PostgreSQL as in Oracle; a count that fails is a mismatch. Filters of the tables are not
  applied: the whole Oracle table is counted.
\<close>

theorem runValidate_ok_iff:
  "(\<exists>msg. snd (runValidate op db counts srv h cfg) = Inr msg) \<longleftrightarrow>
     open_oracle_db op cfg = None \<and> open_pg_pool op cfg = None \<and>
     (\<exists>s. Extract db (ora_Schema (Oracle cfg)) (cli_filter cfg) = Inr s \<and>
        (\<forall>t \<in> set (Tables s). \<exists>n. counts (countQuery (sch_Owner s) (tbl_Name t) None '''') = Inr n \<and>
           w_Count srv (NewWriter (pg_Schema (Postgres cfg))) (tbl_Name t) h = Inr n))"
  by (auto simp: runValidate_def first_error_def Let_def validate_results_def list_all_iff ValidateRowCount_match
      split: sum.splits list.splits if_splits)

text \<open>The columns of \<open>status\<close> leave out retrying and skipped jobs, so they need not add up to the total.\<close>

lemma status_columns:
  "let r = GetRunSummary parse runID s in
     Total r - (Completed r + Failed r + Pending r + Running r) = Retrying r + Skipped r"
  by (simp add: GetRunSummary_def Let_def)

end
