(* ===== verification/Connection_Tests.thy ===== *)
theory Connection_Tests
  imports Pg_Pool Project_Store Engine_Run
begin

text \<open>
  The handlers of \<open>pkg/api/handlers.go\<close> that open connections: the two connection tests with their lists of schemas, and
  \<open>buildEngine\<close> with the two functions that run an engine in the background. The lemmas say when a test
  succeeds and what a migration does that cannot connect.
\<close>

section \<open>Connection tests\<close>

record ConnectionTestResponse =
  ct_Success :: bool
  ct_Message :: string
  ct_Latency :: string
  ct_Schemas :: "string list"

text \<open>A query for names: its rows with the outcome of \<open>Scan\<close>; rows that cannot be scanned are left out.\<close>

definition list_names :: "string + (string + string) list \<Rightarrow> string list" where
  "list_names answer = (case answer of Inl _ \<Rightarrow> [] | Inr rows \<Rightarrow> concat (map (\<lambda>r. case r of Inl _ \<Rightarrow> [] | Inr s \<Rightarrow> [s]) rows))"

definition query_lines :: "string list \<Rightarrow> string" where
  "query_lines ls = Join ls ([CHR 0x0A, CHR 0x09, CHR 0x09] @ '' '')"

definition listOracleSchemas :: "(string \<Rightarrow> string + (string + string) list) \<Rightarrow> string list" where
  "listOracleSchemas query = list_names (query (query_lines
     [''SELECT username FROM all_users'', ''WHERE oracle_maintained = '' @ [CHR 0x27] @ ''N'' @ [CHR 0x27], ''ORDER BY username'']))"

definition listPGSchemas :: "(string \<Rightarrow> string + (string + string) list) \<Rightarrow> string list" where
  "listPGSchemas query =
     (let q = (\<lambda>s. [CHR 0x27] @ s @ [CHR 0x27])
      in list_names (query (query_lines
        [''SELECT schema_name FROM information_schema.schemata'',
         ''WHERE schema_name NOT IN ('' @ q ''pg_catalog'' @ '', '' @ q ''information_schema'' @ '', '' @ q ''pg_toast'' @ '')'',
         ''  AND schema_name NOT LIKE '' @ q ''pg_temp_%'',
         ''ORDER BY schema_name''])))"

definition test_reply :: "string \<Rightarrow> string + 'a \<Rightarrow> string list \<Rightarrow> ConnectionTestResponse reply" where
  "test_reply latency opened schemas =
     (case opened of
        Inl e \<Rightarrow> Reply 200 \<lparr>ct_Success = False, ct_Message = ''connection failed: '' @ e, ct_Latency = latency, ct_Schemas = []\<rparr>
      | Inr _ \<Rightarrow> Reply 200 \<lparr>ct_Success = True, ct_Message = ''connected successfully'', ct_Latency = latency, ct_Schemas = schemas\<rparr>)"

text \<open>The body's DSN, the project id of the path, the drivers, and the measured latency as text.\<close>

definition TestOracle ::
    "(string \<Rightarrow> string option) \<Rightarrow> (string \<Rightarrow> string option) \<Rightarrow> (string \<Rightarrow> string + (string + string) list) \<Rightarrow> string \<Rightarrow>
     string \<Rightarrow> string \<Rightarrow> project_db \<Rightarrow> ConnectionTestResponse reply" where
  "TestOracle sql_open ping query latency bodyDSN projectID db =
     (case resolveTestDSN bodyDSN ''oracle'' projectID db of
        Inl e \<Rightarrow> Failure 400 e ''''
      | Inr dsn \<Rightarrow> test_reply latency (ora_OpenPool sql_open ping dsn 1) (listOracleSchemas query))"

definition TestPostgres ::
    "pg_driver \<Rightarrow> (string \<Rightarrow> string + (string + string) list) \<Rightarrow> string \<Rightarrow> string \<Rightarrow> string \<Rightarrow> project_db \<Rightarrow>
     ConnectionTestResponse reply" where
  "TestPostgres drv query latency bodyDSN projectID db =
     (case resolveTestDSN bodyDSN ''postgres'' projectID db of
        Inl e \<Rightarrow> Failure 400 e ''''
      | Inr dsn \<Rightarrow> test_reply latency (pg_OpenPool drv dsn 1) (listPGSchemas query))"

text \<open>A test succeeds exactly if the DSN, with its timeout, can be parsed and the server answers.\<close>

lemma TestPostgres_success:
  assumes "bodyDSN \<noteq> ''''"
  shows "(\<exists>r. TestPostgres drv query latency bodyDSN projectID db = Reply 200 r \<and> ct_Success r) \<longleftrightarrow>
    drv_parse drv (pool_dsn bodyDSN) = None \<and> drv_new drv (pool_dsn bodyDSN) (pool_config 1) = None \<and>
    drv_ping drv (pool_dsn bodyDSN) (pool_config 1) = None"
  using assms
  by (auto simp: TestPostgres_def resolveTestDSN_def test_reply_def pg_OpenPool_def Let_def split: option.splits sum.splits)

section \<open>Running an engine\<close>

text \<open>The errors of opening the two pools; the Oracle pool is closed again if PostgreSQL cannot be reached.\<close>

definition buildEngine :: "(string \<Rightarrow> int \<Rightarrow> string option) \<Rightarrow> (string \<Rightarrow> int \<Rightarrow> string option) \<Rightarrow> Config \<Rightarrow> string + Writer" where
  "buildEngine open_ora open_pg cfg =
     (case open_ora (ora_DSN (Oracle cfg)) (ora_MaxConns (Oracle cfg)) of
        Some e \<Rightarrow> Inl (''connect oracle: '' @ e)
      | None \<Rightarrow>
          (case open_pg (pg_DSN (Postgres cfg)) (pg_MaxConns (Postgres cfg)) of
             Some e \<Rightarrow> Inl (''connect postgres: '' @ e)
           | None \<Rightarrow> Inr (NewWriter (pg_Schema (Postgres cfg)))))"

definition api_runMigration ::
    "(string \<Rightarrow> int \<Rightarrow> string option) \<Rightarrow> (string \<Rightarrow> int \<Rightarrow> string option) \<Rightarrow> 'f run_env \<Rightarrow> Config \<Rightarrow> string \<Rightarrow> string \<Rightarrow>
     world \<Rightarrow> (string option \<times> world) option" where
  "api_runMigration open_ora open_pg env cfg engineRunID hash st =
     (case buildEngine open_ora open_pg cfg of Inl e \<Rightarrow> Some (Some e, st) | Inr w \<Rightarrow> Run env cfg w engineRunID hash st)"

definition api_resumeMigration ::
    "(string \<Rightarrow> int \<Rightarrow> string option) \<Rightarrow> (string \<Rightarrow> int \<Rightarrow> string option) \<Rightarrow> 'f run_env \<Rightarrow> Config \<Rightarrow>
     world \<Rightarrow> (string option \<times> world) option" where
  "api_resumeMigration open_ora open_pg env cfg st =
     (case buildEngine open_ora open_pg cfg of Inl e \<Rightarrow> Some (Some e, st) | Inr w \<Rightarrow> Resume env cfg w st)"

text \<open>Without a connection nothing is recorded or executed: no run is created that the status could show.\<close>

lemma unreachable_run_leaves_no_trace:
  assumes "buildEngine open_ora open_pg cfg = Inl e"
  shows "api_runMigration open_ora open_pg env cfg engineRunID hash st = Some (Some e, st) \<and>
    api_resumeMigration open_ora open_pg env cfg st = Some (Some e, st)"
  using assms by (simp add: api_runMigration_def api_resumeMigration_def)

end
