(* ===== verification/Worker_Pool.thy ===== *)
theory Worker_Pool
  imports Plan_Tasks Goroutines
begin

text \<open>
  \<open>internal/migration/worker.go\<close>: the pool of workers that take tasks from one channel. A worker is a
  small automaton, the pool a step relation over all of them; the task function is whatever result a
  finishing step reports. The channel holds all tasks and is closed before the workers start, so it
  is a list. Waiting for the cool-down is a state of its own; logging is left out.
\<close>

section \<open>The pool\<close>

record WorkerPool =
  pool_workers :: nat
  maxConsecFails :: nat

definition NewWorkerPool :: "int \<Rightarrow> WorkerPool" where
  "NewWorkerPool workers = \<lparr>pool_workers = nat (if workers < 1 then 1 else workers), maxConsecFails = 5\<rparr>"

datatype worker = Ready | Cooling TableTask | Busy TableTask | Stopped

record pool_state =
  taskCh :: "TableTask list"
  crew :: "worker list"
  finished :: "(TableTask \<times> string option) list" \<comment> \<open>results in the order in which tasks end\<close>
  firstErr :: "string option"
  consecutiveFails :: nat
  ctx_cancelled :: bool

definition pool_start :: "WorkerPool \<Rightarrow> TableTask list \<Rightarrow> pool_state" where
  "pool_start wp tasks = \<lparr>taskCh = tasks, crew = replicate (pool_workers wp) Ready, finished = [],
     firstErr = None, consecutiveFails = 0, ctx_cancelled = False\<rparr>"

text \<open>What a worker does with the task it has just received.\<close>

definition accept :: "WorkerPool \<Rightarrow> pool_state \<Rightarrow> TableTask \<Rightarrow> worker" where
  "accept wp s t =
     (if ctx_cancelled s then Stopped
      else if consecutiveFails s \<ge> maxConsecFails wp then Cooling t
      else Busy t)"

inductive pool_step :: "WorkerPool \<Rightarrow> pool_state \<Rightarrow> pool_state \<Rightarrow> bool" for wp :: WorkerPool where
  receive: "i < length (crew s) \<Longrightarrow> crew s ! i = Ready \<Longrightarrow> taskCh s = t # ts \<Longrightarrow>
    pool_step wp s (s\<lparr>taskCh := ts, crew := (crew s)[i := accept wp s t]\<rparr>)"
| no_task: "i < length (crew s) \<Longrightarrow> crew s ! i = Ready \<Longrightarrow> taskCh s = [] \<Longrightarrow>
    pool_step wp s (s\<lparr>crew := (crew s)[i := Stopped]\<rparr>)"
| cooled: "i < length (crew s) \<Longrightarrow> crew s ! i = Cooling t \<Longrightarrow>
    pool_step wp s (s\<lparr>crew := (crew s)[i := Busy t]\<rparr>)"
| cool_cancelled: "i < length (crew s) \<Longrightarrow> crew s ! i = Cooling t \<Longrightarrow> ctx_cancelled s \<Longrightarrow>
    pool_step wp s (s\<lparr>crew := (crew s)[i := Stopped]\<rparr>)"
| task_ok: "i < length (crew s) \<Longrightarrow> crew s ! i = Busy t \<Longrightarrow>
    pool_step wp s (s\<lparr>crew := (crew s)[i := Ready], finished := finished s @ [(t, None)], consecutiveFails := 0\<rparr>)"
| task_failed: "i < length (crew s) \<Longrightarrow> crew s ! i = Busy t \<Longrightarrow> \<not> ctx_cancelled s \<Longrightarrow>
    pool_step wp s (s\<lparr>crew := (crew s)[i := Ready], finished := finished s @ [(t, Some e)],
      consecutiveFails := consecutiveFails s + 1, firstErr := (if firstErr s = None then Some e else firstErr s)\<rparr>)"
| task_failed_cancelled: "i < length (crew s) \<Longrightarrow> crew s ! i = Busy t \<Longrightarrow> ctx_cancelled s \<Longrightarrow>
    pool_step wp s (s\<lparr>crew := (crew s)[i := Stopped], finished := finished s @ [(t, Some e)],
      consecutiveFails := consecutiveFails s + 1\<rparr>)"
| cancel_ctx: "\<not> ctx_cancelled s \<Longrightarrow> pool_step wp s (s\<lparr>ctx_cancelled := True\<rparr>)"

definition pool_reaches :: "WorkerPool \<Rightarrow> TableTask list \<Rightarrow> pool_state \<Rightarrow> bool" where
  "pool_reaches wp tasks s \<longleftrightarrow> (pool_step wp)\<^sup>*\<^sup>* (pool_start wp tasks) s"

text \<open>\<open>wg.Wait()\<close> returns when all workers have stopped; the result is \<open>firstErr\<close>.\<close>

definition pool_done :: "pool_state \<Rightarrow> bool" where
  "pool_done s \<longleftrightarrow> list_all (\<lambda>w. w = Stopped) (crew s)"

interpretation pool_run: goroutines "pool_step wp" "pool_start wp tasks" "pool_reaches wp tasks" for wp tasks
  by unfold_locales (simp add: pool_reaches_def)

section \<open>Invariants\<close>

fun holds :: "worker \<Rightarrow> TableTask list" where
  "holds Ready = []" | "holds Stopped = []" | "holds (Cooling t) = [t]" | "holds (Busy t) = [t]"

definition held :: "worker list \<Rightarrow> TableTask multiset" where
  "held ws = mset (concat (map holds ws))"

lemma held_update:
  "i < length ws \<Longrightarrow> held (ws[i := v]) + mset (holds (ws ! i)) = held ws + mset (holds v)"
proof (induction ws arbitrary: i)
  case (Cons w ws)
  then show ?case by (cases i) (auto simp: held_def ac_simps)
qed simp

lemma held_replicate [simp]: "held (replicate n Ready) = {#}"
  by (induction n) (simp_all add: held_def)

definition accounted :: "pool_state \<Rightarrow> TableTask multiset" where
  "accounted s = mset (taskCh s) + held (crew s) + mset (map fst (finished s))"

lemma step_accounted:
  assumes "pool_step wp s s'"
  shows "accounted s' \<subseteq># accounted s \<and> (\<not> ctx_cancelled s' \<longrightarrow> accounted s' = accounted s)"
  using assms
proof cases
  case (receive i t ts)
  then have "held ((crew s)[i := accept wp s t]) = held (crew s) + mset (holds (accept wp s t))"
    using held_update [of i "crew s" "accept wp s t"] by simp
  then show ?thesis using receive by (auto simp: accounted_def accept_def)
next
  case (no_task i)
  then show ?thesis using held_update [of i "crew s" Stopped] by (simp add: accounted_def)
next
  case (cooled i t)
  then show ?thesis using held_update [of i "crew s" "Busy t"] by (simp add: accounted_def)
next
  case (cool_cancelled i t)
  have "held (crew s) = held ((crew s)[i := Stopped]) + {#t#}"
    using held_update [of i "crew s" Stopped] cool_cancelled by simp
  then show ?thesis using cool_cancelled by (simp add: accounted_def)
next
  case (task_ok i t)
  have "held (crew s) = held ((crew s)[i := Ready]) + {#t#}"
    using held_update [of i "crew s" Ready] task_ok by simp
  then show ?thesis using task_ok by (simp add: accounted_def)
next
  case (task_failed i t e)
  have "held (crew s) = held ((crew s)[i := Ready]) + {#t#}"
    using held_update [of i "crew s" Ready] task_failed by simp
  then show ?thesis using task_failed by (simp add: accounted_def)
next
  case (task_failed_cancelled i t e)
  have "held (crew s) = held ((crew s)[i := Stopped]) + {#t#}"
    using held_update [of i "crew s" Stopped] task_failed_cancelled by simp
  then show ?thesis using task_failed_cancelled by (simp add: accounted_def)
next
  case cancel_ctx
  then show ?thesis by (simp add: accounted_def)
qed

lemma cancelled_stays: "pool_step wp s s' \<Longrightarrow> ctx_cancelled s \<Longrightarrow> ctx_cancelled s'"
  by (erule pool_step.cases) auto

lemma tasks_accounted:
  "pool_reaches wp tasks s \<Longrightarrow> accounted s \<subseteq># mset tasks \<and> (\<not> ctx_cancelled s \<longrightarrow> accounted s = mset tasks)"
proof (induction rule: pool_run.reaches_induct)
  case start
  show ?case by (simp add: accounted_def pool_start_def)
next
  case (step s s')
  then show ?case
    using step_accounted [OF step.hyps(2)] cancelled_stays [OF step.hyps(2)] subset_mset.order_trans by metis
qed

fun first_error :: "(TableTask \<times> string option) list \<Rightarrow> string option" where
  "first_error [] = None"
| "first_error ((t, r) # rs) = (case r of None \<Rightarrow> first_error rs | Some e \<Rightarrow> Some e)"

lemma first_error_snoc:
  "first_error (rs @ [(t, r)]) = (if first_error rs = None then r else first_error rs)"
  by (induction rs) (auto split: option.splits)

lemma first_err:
  "pool_reaches wp tasks s \<Longrightarrow> \<not> ctx_cancelled s \<longrightarrow> firstErr s = first_error (finished s)"
proof (induction rule: pool_run.reaches_induct)
  case start
  show ?case by (simp add: pool_start_def)
next
  case (step s s')
  from step.hyps(2) step.IH show ?case by cases (auto simp: first_error_snoc)
qed

lemma crew_size: "pool_reaches wp tasks s \<Longrightarrow> length (crew s) = pool_workers wp"
proof (induction rule: pool_run.reaches_induct)
  case start
  show ?case by (simp add: pool_start_def)
next
  case (step s s')
  from step.hyps(2) step.IH show ?case by cases auto
qed

lemma stopped_empty:
  "pool_reaches wp tasks s \<Longrightarrow> \<not> ctx_cancelled s \<longrightarrow> Stopped \<in> set (crew s) \<longrightarrow> taskCh s = []"
proof (induction rule: pool_run.reaches_induct)
  case start
  show ?case by (simp add: pool_start_def)
next
  case (step s s')
  have upd: "Stopped \<in> set (xs[i := v]) \<Longrightarrow> v \<noteq> Stopped \<Longrightarrow> Stopped \<in> set xs" for xs i v
    using set_update_subset_insert [of xs i v] by auto
  from step.hyps(2) step.IH show ?case
    by cases (auto simp: accept_def dest: upd split: if_splits)
qed

section \<open>Progress and termination\<close>

fun worker_load :: "worker \<Rightarrow> nat" where
  "worker_load (Cooling t) = 4" | "worker_load (Busy t) = 3" | "worker_load Ready = 1" | "worker_load Stopped = 0"

definition load :: "worker list \<Rightarrow> nat" where
  "load ws = sum_list (map worker_load ws)"

lemma load_update: "i < length ws \<Longrightarrow> load (ws[i := v]) + worker_load (ws ! i) = load ws + worker_load v"
proof (induction ws arbitrary: i)
  case (Cons w ws)
  then show ?case by (cases i) (auto simp: load_def)
qed simp

definition pool_work :: "pool_state \<Rightarrow> nat" where
  "pool_work s = 4 * length (taskCh s) + load (crew s) + (if ctx_cancelled s then 0 else 1)"

lemma pool_work_less: "pool_step wp s s' \<Longrightarrow> pool_work s' < pool_work s"
proof (erule pool_step.cases, goal_cases)
  case (1 i q t ts)
  then show ?case using load_update [of i "crew q" "accept wp q t"] by (auto simp: pool_work_def accept_def split: if_splits)
next
  case (2 i q)
  then show ?case using load_update [of i "crew q" Stopped] by (simp add: pool_work_def)
next
  case (3 i q t)
  then show ?case using load_update [of i "crew q" "Busy t"] by (simp add: pool_work_def)
next
  case (4 i q t)
  then show ?case using load_update [of i "crew q" Stopped] by (simp add: pool_work_def)
next
  case (5 i q t)
  then show ?case using load_update [of i "crew q" Ready] by (simp add: pool_work_def)
next
  case (6 i q t e)
  then show ?case using load_update [of i "crew q" Ready] by (simp add: pool_work_def)
next
  case (7 i q t e)
  then show ?case using load_update [of i "crew q" Stopped] by (simp add: pool_work_def)
next
  case (8 q)
  then show ?case by (simp add: pool_work_def)
qed

interpretation pool_run: terminating "pool_step wp" "pool_start wp tasks" "pool_reaches wp tasks" pool_work for wp tasks
  by unfold_locales (rule pool_work_less)

lemma pool_progress:
  assumes "\<not> pool_done s"
  shows "\<exists>s'. pool_step wp s s'"
proof -
  obtain i where i: "i < length (crew s)" "crew s ! i \<noteq> Stopped"
    using assms by (auto simp: pool_done_def list_all_length)
  show ?thesis
  proof (cases "crew s ! i")
    case Ready
    then show ?thesis using i(1) by (cases "taskCh s") (blast intro: pool_step.intros)+
  qed (use i in \<open>blast intro: pool_step.intros\<close>)+
qed

text \<open>From every state some schedule lets the pool return.\<close>

lemma pool_can_finish: "pool_reaches wp tasks s \<Longrightarrow> \<exists>s'. pool_reaches wp tasks s' \<and> pool_done s'"
  using pool_run.settles pool_progress by blast

section \<open>Properties\<close>

text \<open>
  C6. When the pool returns and was not cancelled, every task has run exactly once, whatever failed, and
  the result is the error of the task that failed first, or \<open>nil\<close> if none did; at no time do more
  tasks run than there are workers, and no task runs twice even when the run is cancelled.
\<close>

theorem pool_runs_all:
  assumes "pool_reaches wp tasks s"
  shows "mset (map fst (finished s)) \<subseteq># mset tasks \<and>
    length (filter (\<lambda>w. w \<noteq> Ready \<and> w \<noteq> Stopped) (crew s)) \<le> pool_workers wp \<and>
    (pool_done s \<and> \<not> ctx_cancelled s \<and> 0 < pool_workers wp \<longrightarrow>
      mset (map fst (finished s)) = mset tasks \<and> firstErr s = first_error (finished s))"
proof -
  have "mset (map fst (finished s)) \<subseteq># accounted s" by (simp add: accounted_def)
  then have "mset (map fst (finished s)) \<subseteq># mset tasks"
    using tasks_accounted [OF assms] subset_mset.order_trans by blast
  moreover have "mset (map fst (finished s)) = mset tasks"
    if "pool_done s" "\<not> ctx_cancelled s" "0 < pool_workers wp"
  proof -
    have crew: "crew s = replicate (pool_workers wp) Stopped"
      using that(1) crew_size [OF assms] by (simp add: pool_done_def list_all_iff replicate_eqI)
    then have "taskCh s = []" using stopped_empty [OF assms] that(2,3) by simp
    moreover have "held (replicate n Stopped) = {#}" for n by (induction n) (simp_all add: held_def)
    ultimately show ?thesis using tasks_accounted [OF assms] that(2) crew by (simp add: accounted_def)
  qed
  moreover have "length (filter (\<lambda>w. w \<noteq> Ready \<and> w \<noteq> Stopped) (crew s)) \<le> pool_workers wp"
    using crew_size [OF assms] by (metis length_filter_le)
  ultimately show ?thesis using first_err [OF assms] by blast
qed

text \<open>One worker, one task that succeeds.\<close>

lemma one_task_run:
  "\<exists>s. pool_reaches (NewWorkerPool 0) [t] s \<and> pool_done s \<and> \<not> ctx_cancelled s \<and> finished s = [(t, None)]"
proof -
  let ?wp = "NewWorkerPool 0"
  let ?s0 = "pool_start ?wp [t]"
  let ?s1 = "?s0\<lparr>taskCh := [], crew := [Busy t]\<rparr>"
  let ?s2 = "?s1\<lparr>crew := [Ready], finished := [(t, None)], consecutiveFails := 0\<rparr>"
  have 1: "pool_step ?wp ?s0 ?s1"
    using receive [of 0 ?s0 t "[]" ?wp] by (simp add: pool_start_def NewWorkerPool_def accept_def)
  have 2: "pool_step ?wp ?s1 ?s2" using task_ok [of 0 ?s1 t ?wp] by (simp add: pool_start_def)
  have 3: "pool_step ?wp ?s2 (?s2\<lparr>crew := [Stopped]\<rparr>)" using no_task [of 0 ?s2 ?wp] by (simp add: pool_start_def)
  from 1 2 3 have "pool_reaches ?wp [t] (?s2\<lparr>crew := [Stopped]\<rparr>)"
    unfolding pool_reaches_def by (meson rtranclp.rtrancl_into_rtrancl rtranclp.rtrancl_refl)
  then show ?thesis by (intro exI [of _ "?s2\<lparr>crew := [Stopped]\<rparr>"]) (simp add: pool_done_def pool_start_def)
qed

theorem pool_runs_all_witness:
  "\<exists>s. pool_reaches (NewWorkerPool 0) [plain_task (bare_table ''DEPT'' 4)] s \<and> mset (map fst (finished s)) = mset [plain_task (bare_table ''DEPT'' 4)]"
proof -
  obtain s where s: "pool_reaches (NewWorkerPool 0) [plain_task (bare_table ''DEPT'' 4)] s" "pool_done s" "\<not> ctx_cancelled s"
    using one_task_run by blast
  have "0 < pool_workers (NewWorkerPool 0)" by (simp add: NewWorkerPool_def)
  then show ?thesis using pool_runs_all [OF s(1)] s by blast
qed

text \<open>
  C27. The pool always returns: every step uses up work, so no run is infinite, and a state in which some
  worker has not stopped is never stuck, so a run that cannot go on has returned.
\<close>

theorem pool_returns:
  "\<not> (\<exists>f. f 0 = pool_start wp tasks \<and> (\<forall>i. pool_step wp (f i) (f (Suc i)))) \<and>
   (\<forall>s. pool_reaches wp tasks s \<and> \<not> (\<exists>s'. pool_step wp s s') \<longrightarrow> pool_done s)"
proof -
  have "\<not> (\<forall>i. pool_step wp (f i) (f (Suc i)))" for f
  proof
    assume run: "\<forall>i. pool_step wp (f i) (f (Suc i))"
    have "pool_work (f i) + i \<le> pool_work (f 0)" for i
    proof (induction i)
      case (Suc i)
      then show ?case using pool_work_less run by (metis Suc_leI add_Suc_right add_mono_thms_linordered_field(1) leD linorder_le_less_linear order.trans add.commute)
    qed simp
    from this [of "Suc (pool_work (f 0))"] show False by simp
  qed
  then show ?thesis using pool_progress by blast
qed

text \<open>A run that is cancelled before its only task starts.\<close>

lemma cancelled_run:
  "\<exists>s. pool_reaches (NewWorkerPool 0) [t] s \<and> crew s = [Stopped] \<and> ctx_cancelled s \<and> finished s = [] \<and> firstErr s = None"
proof -
  let ?wp = "NewWorkerPool 0"
  let ?s0 = "pool_start ?wp [t]"
  let ?s1 = "?s0\<lparr>ctx_cancelled := True\<rparr>"
  let ?s2 = "?s1\<lparr>taskCh := [], crew := [Stopped]\<rparr>"
  have 1: "pool_step ?wp ?s0 ?s1" using cancel_ctx [of ?s0 ?wp] by (simp add: pool_start_def)
  have 2: "pool_step ?wp ?s1 ?s2"
    using receive [of 0 ?s1 t "[]" ?wp] by (simp add: pool_start_def NewWorkerPool_def accept_def)
  from 1 2 have "pool_reaches ?wp [t] ?s2"
    unfolding pool_reaches_def by (meson rtranclp.rtrancl_into_rtrancl rtranclp.rtrancl_refl)
  then show ?thesis by (intro exI [of _ ?s2]) (simp add: pool_start_def)
qed

theorem pool_returns_witness:
  "\<exists>s. pool_reaches (NewWorkerPool 0) [plain_task (bare_table ''DEPT'' 4)] s \<and> ctx_cancelled s \<and> pool_done s"
proof -
  obtain s where s: "pool_reaches (NewWorkerPool 0) [plain_task (bare_table ''DEPT'' 4)] s" "crew s = [Stopped]"
    "ctx_cancelled s"
    using cancelled_run by blast
  have "\<not> (\<exists>s'. pool_step (NewWorkerPool 0) s s')" using s(2,3) by (auto elim: pool_step.cases)
  then show ?thesis using pool_returns [of "NewWorkerPool 0" "[plain_task (bare_table ''DEPT'' 4)]"] s by blast
qed

text \<open>
  A cancelled pool reports success: there is a run in which the context is cancelled before the only
  task starts, so that the task never runs, all workers stop, and the result is \<open>nil\<close>; the engine
  then goes on to the constraint phase over an empty table.
\<close>

theorem cancelled_pool_returns_nil:
  "\<exists>s. pool_reaches (NewWorkerPool 0) [t] s \<and> pool_done s \<and> finished s = [] \<and> firstErr s = None"
proof -
  obtain s where "pool_reaches (NewWorkerPool 0) [t] s" "crew s = [Stopped]" "finished s = []" "firstErr s = None"
    using cancelled_run by blast
  then show ?thesis by (intro exI [of _ s]) (simp add: pool_done_def)
qed

end
