(* ===== verification/Progress_Events.thy ===== *)
theory Progress_Events
  imports Plan_Tasks "HOL-Library.AList"
begin

text \<open>
  How log records of the engine become progress events of the user interface: \<open>ProgressEvent\<close> of
  \<open>pkg/api/types.go\<close> and the log handler of \<open>pkg/api/handlers.go\<close> with its two aggregators for chunked tables, its
  throttle and its memory of pipeline statistics. Times are nanoseconds with 0 for Go's zero time. The quotient of two
  counters in percent, the text of a value and \<open>time.ParseDuration\<close> are arguments (\<open>log_env\<close>). The result of a record is the
  list of events handed to the broadcaster (theory \<open>Broadcaster\<close>). The lemmas say what the aggregated numbers mean, how often
  events are sent, and which records never give an event.
\<close>

section \<open>Events and chunk names\<close>

record ProgressEvent =
  ev_Table :: string
  ev_Partition :: string
  ev_Rows :: int
  ev_Speed :: int
  ev_Percent :: float64_bits
  ev_State :: string
  ev_ReadTimeMs :: int
  ev_WriteTimeMs :: int
  ev_ReadPct :: int
  ev_WritePct :: int
  ev_Batches :: int
  ev_AvgBatchMs :: int
  ev_DurationMs :: int
  ev_AcquireWaitMs :: int
  ev_CommitWaitMs :: int

definition zero_event :: ProgressEvent where
  "zero_event = \<lparr>ev_Table = '''', ev_Partition = '''', ev_Rows = 0, ev_Speed = 0, ev_Percent = 0, ev_State = '''',
     ev_ReadTimeMs = 0, ev_WriteTimeMs = 0, ev_ReadPct = 0, ev_WritePct = 0, ev_Batches = 0, ev_AvgBatchMs = 0,
     ev_DurationMs = 0, ev_AcquireWaitMs = 0, ev_CommitWaitMs = 0\<rparr>"

definition isChunkPartition :: "string \<Rightarrow> bool" where
  "isChunkPartition prt = Contains prt ''chunk:''"

definition stripChunkSuffix :: "string \<Rightarrow> string" where
  "stripChunkSuffix prt =
     (case IndexOf prt ''chunk:'' of
        Some idx \<Rightarrow> if idx > 0 then TrimSuffix (take idx prt) '':''
                    else if HasPrefix prt ''chunk:'' then '''' else prt
      | None \<Rightarrow> if HasPrefix prt ''chunk:'' then '''' else prt)"

text \<open>The key of the aggregators: the table and the real partition.\<close>

definition event_key :: "ProgressEvent \<Rightarrow> string" where
  "event_key event =
     (let realPartition = stripChunkSuffix (ev_Partition event)
      in if realPartition \<noteq> '''' then ev_Table event @ '':'' @ realPartition else ev_Table event)"

record log_env =
  percent_of :: "int \<Rightarrow> int \<Rightarrow> float64_bits"
  show_float :: "float64_bits \<Rightarrow> string"
  show_duration :: "int \<Rightarrow> string"
  ParseDuration :: "string \<Rightarrow> int option"

section \<open>The aggregator of chunk progress\<close>

record chunkTableState =
  cs_table :: string
  cs_partition :: string
  cs_totalRows :: int
  cs_latestSpeed :: int
  cs_chunkRows :: "(string \<times> int) list"
  cs_chunksRunning :: int
  cs_chunksTotal :: int
  cs_chunksDone :: int
  cs_chunksFailed :: int
  cs_lastEmit :: int
  cs_dirty :: bool

definition new_chunk_state :: "ProgressEvent \<Rightarrow> chunkTableState" where
  "new_chunk_state event =
     \<lparr>cs_table = ev_Table event, cs_partition = stripChunkSuffix (ev_Partition event), cs_totalRows = 0, cs_latestSpeed = 0,
      cs_chunkRows = [], cs_chunksRunning = 0, cs_chunksTotal = 0, cs_chunksDone = 0, cs_chunksFailed = 0, cs_lastEmit = 0,
      cs_dirty = False\<rparr>"

definition buildEvent :: "log_env \<Rightarrow> chunkTableState \<Rightarrow> ProgressEvent" where
  "buildEvent env st =
     (let allDone = cs_chunksTotal st > 0 \<and> cs_chunksDone st + cs_chunksFailed st = cs_chunksTotal st;
          status = (if cs_chunksFailed st > 0 \<and> allDone then ''FAILED'' else if allDone then ''COMPLETED'' else ''RUNNING'')
      in zero_event\<lparr>ev_Table := cs_table st, ev_Partition := cs_partition st, ev_Rows := cs_totalRows st,
           ev_Speed := cs_latestSpeed st, ev_State := status,
           ev_Percent := (if cs_chunksTotal st > 0 then percent_of env (cs_chunksDone st) (cs_chunksTotal st) else 0)\<rparr>)"

text \<open>The rows of one chunk replace its earlier number, and the total is summed up again.\<close>

definition record_rows :: "ProgressEvent \<Rightarrow> chunkTableState \<Rightarrow> chunkTableState" where
  "record_rows event st =
     (let rows = AList.update (ev_Partition event) (ev_Rows event) (cs_chunkRows st)
      in st\<lparr>cs_chunkRows := rows, cs_totalRows := foldl (\<lambda>total r. i64 (total + snd r)) 0 rows\<rparr>)"

definition stop_running :: "chunkTableState \<Rightarrow> chunkTableState" where
  "stop_running st = (if cs_chunksRunning st > 0 then st\<lparr>cs_chunksRunning := cs_chunksRunning st - 1\<rparr> else st)"

definition count_event :: "ProgressEvent \<Rightarrow> chunkTableState \<Rightarrow> chunkTableState" where
  "count_event event st =
     (if ev_State event = ''RUNNING'' then
        (if ev_Rows event > 0 then (record_rows event st)\<lparr>cs_latestSpeed := ev_Speed event\<rparr>
         else st\<lparr>cs_chunksRunning := cs_chunksRunning st + 1, cs_chunksTotal := cs_chunksTotal st + 1\<rparr>)
      else if ev_State event = ''COMPLETED'' then
        (let st = stop_running (st\<lparr>cs_chunksDone := cs_chunksDone st + 1\<rparr>)
         in if ev_Rows event > 0 then record_rows event st else st)
      else if ev_State event = ''FAILED'' then stop_running (st\<lparr>cs_chunksFailed := cs_chunksFailed st + 1\<rparr>)
      else st)"

type_synonym chunk_states = "string \<rightharpoonup> chunkTableState"

definition chunk_update :: "log_env \<Rightarrow> int \<Rightarrow> ProgressEvent \<Rightarrow> chunk_states \<Rightarrow> ProgressEvent option \<times> chunk_states" where
  "chunk_update env now event states =
     (let key = event_key event;
          st = (case states key of None \<Rightarrow> new_chunk_state event | Some st \<Rightarrow> st);
          st = (count_event event st)\<lparr>cs_dirty := True\<rparr>;
          isTerminal = (cs_chunksDone st + cs_chunksFailed st = cs_chunksTotal st \<and> cs_chunksTotal st > 0);
          isFailure = (ev_State event = ''FAILED'')
      in if \<not> isTerminal \<and> \<not> isFailure \<and> now - cs_lastEmit st < 1000000000 then (None, states(key \<mapsto> st))
         else let st = st\<lparr>cs_lastEmit := now, cs_dirty := False\<rparr> in (Some (buildEvent env st), states(key \<mapsto> st)))"

section \<open>The aggregator of pipeline statistics\<close>

record chunkStatsState =
  ss_table :: string
  ss_partition :: string
  ss_totalRows :: int
  ss_totalDurMs :: int
  ss_totalReadMs :: int
  ss_totalWriteMs :: int
  ss_totalBatches :: int
  ss_count :: int
  ss_lastEmit :: int

type_synonym stats_states = "string \<rightharpoonup> chunkStatsState"

definition new_stats_state :: "ProgressEvent \<Rightarrow> chunkStatsState" where
  "new_stats_state event =
     \<lparr>ss_table = ev_Table event, ss_partition = stripChunkSuffix (ev_Partition event), ss_totalRows = 0, ss_totalDurMs = 0,
      ss_totalReadMs = 0, ss_totalWriteMs = 0, ss_totalBatches = 0, ss_count = 0, ss_lastEmit = 0\<rparr>"

definition add_stats :: "ProgressEvent \<Rightarrow> chunkStatsState \<Rightarrow> chunkStatsState" where
  "add_stats event st =
     st\<lparr>ss_totalRows := i64 (ss_totalRows st + ev_Rows event), ss_totalDurMs := i64 (ss_totalDurMs st + ev_DurationMs event),
        ss_totalReadMs := i64 (ss_totalReadMs st + ev_ReadTimeMs event), ss_totalWriteMs := i64 (ss_totalWriteMs st + ev_WriteTimeMs event),
        ss_totalBatches := i64 (ss_totalBatches st + ev_Batches event), ss_count := ss_count st + 1\<rparr>"

definition stats_event :: "chunkStatsState \<Rightarrow> ProgressEvent" where
  "stats_event st =
     zero_event\<lparr>ev_Table := ss_table st, ev_Partition := ss_partition st, ev_State := ''STATS'', ev_Rows := ss_totalRows st,
       ev_Speed := (if ss_totalDurMs st > 0 then go_div (i64 (ss_totalRows st * 1000)) (ss_totalDurMs st) else 0),
       ev_DurationMs := ss_totalDurMs st, ev_ReadTimeMs := ss_totalReadMs st, ev_WriteTimeMs := ss_totalWriteMs st,
       ev_ReadPct := (if ss_totalDurMs st > 0 then go_div (i64 (ss_totalReadMs st * 100)) (ss_totalDurMs st) else 0),
       ev_WritePct := (if ss_totalDurMs st > 0 then go_div (i64 (ss_totalWriteMs st * 100)) (ss_totalDurMs st) else 0),
       ev_Batches := ss_totalBatches st,
       ev_AvgBatchMs := (if ss_totalBatches st > 0 then go_div (ss_totalWriteMs st) (ss_totalBatches st) else 0)\<rparr>"

definition stats_update :: "int \<Rightarrow> ProgressEvent \<Rightarrow> stats_states \<Rightarrow> ProgressEvent option \<times> stats_states" where
  "stats_update now event states =
     (let key = event_key event;
          st = add_stats event (case states key of None \<Rightarrow> new_stats_state event | Some st \<Rightarrow> st)
      in if now - ss_lastEmit st < 1000000000 then (None, states(key \<mapsto> st))
         else let st = st\<lparr>ss_lastEmit := now\<rparr> in (Some (stats_event st), states(key \<mapsto> st)))"

section \<open>The log handler\<close>

text \<open>The kinds of \<open>slog.Value\<close> that the engine logs.\<close>

datatype log_value = LString string | LInt int | LFloat float64_bits | LDuration int

record log_record =
  Message :: string
  Attrs :: "(string \<times> log_value) list"

record progress_state =
  st_chunks :: chunk_states
  st_chunkStats :: stats_states
  st_lastMap :: "string \<rightharpoonup> int"
  st_pipelineStats :: "string \<rightharpoonup> ProgressEvent"

text \<open>\<open>newProgressLogger\<close>: fresh aggregators, and the statistics of the server are cleared.\<close>

definition newProgressLogger :: progress_state where
  "newProgressLogger = \<lparr>st_chunks = Map.empty, st_chunkStats = Map.empty, st_lastMap = Map.empty, st_pipelineStats = Map.empty\<rparr>"

definition value_string :: "log_env \<Rightarrow> log_value \<Rightarrow> string" where
  "value_string env v =
     (case v of LString s \<Rightarrow> s | LInt i \<Rightarrow> itoa i | LFloat f \<Rightarrow> show_float env f | LDuration d \<Rightarrow> show_duration env d)"

text \<open>\<open>Int64\<close> and \<open>Float64\<close> panic on a value of another kind.\<close>

definition value_int :: "log_value \<Rightarrow> int option" where
  "value_int v = (case v of LInt i \<Rightarrow> Some i | _ \<Rightarrow> None)"

definition value_float :: "log_value \<Rightarrow> float64_bits option" where
  "value_float v = (case v of LFloat f \<Rightarrow> Some f | _ \<Rightarrow> None)"

definition parseDurationMs :: "log_env \<Rightarrow> log_value \<Rightarrow> int" where
  "parseDurationMs env v =
     (case v of
        LDuration d \<Rightarrow> go_div d 1000000
      | LInt i \<Rightarrow> go_div i 1000000
      | LString s \<Rightarrow> (case ParseDuration env s of Some d \<Rightarrow> go_div d 1000000 | None \<Rightarrow> 0)
      | LFloat f \<Rightarrow> 0)"

definition name_attr :: "log_env \<Rightarrow> ProgressEvent \<Rightarrow> string \<times> log_value \<Rightarrow> ProgressEvent" where
  "name_attr env event a =
     (if fst a = ''table'' then event\<lparr>ev_Table := value_string env (snd a)\<rparr>
      else if fst a = ''partition'' then event\<lparr>ev_Partition := value_string env (snd a)\<rparr>
      else event)"

definition plain_attr :: "log_env \<Rightarrow> ProgressEvent \<Rightarrow> string \<times> log_value \<Rightarrow> ProgressEvent option" where
  "plain_attr env event a =
     (if fst a = ''rows'' then map_option (\<lambda>n. event\<lparr>ev_Rows := n\<rparr>) (value_int (snd a))
      else if fst a = ''rows_per_sec'' then map_option (\<lambda>n. event\<lparr>ev_Speed := n\<rparr>) (value_int (snd a))
      else if fst a = ''percent'' then map_option (\<lambda>f. event\<lparr>ev_Percent := f\<rparr>) (value_float (snd a))
      else if fst a = ''read_pct'' then map_option (\<lambda>n. event\<lparr>ev_ReadPct := n\<rparr>) (value_int (snd a))
      else if fst a = ''write_pct'' then map_option (\<lambda>n. event\<lparr>ev_WritePct := n\<rparr>) (value_int (snd a))
      else if fst a = ''batches'' then map_option (\<lambda>n. event\<lparr>ev_Batches := n\<rparr>) (value_int (snd a))
      else Some (name_attr env event a))"

definition duration_attr :: "log_env \<Rightarrow> ProgressEvent \<Rightarrow> string \<times> log_value \<Rightarrow> ProgressEvent" where
  "duration_attr env event a =
     (let ms = parseDurationMs env (snd a)
      in if fst a = ''read_time'' then event\<lparr>ev_ReadTimeMs := ms\<rparr>
         else if fst a = ''write_time'' then event\<lparr>ev_WriteTimeMs := ms\<rparr>
         else if fst a = ''duration'' then event\<lparr>ev_DurationMs := ms\<rparr>
         else if fst a = ''avg_batch_write'' then event\<lparr>ev_AvgBatchMs := ms\<rparr>
         else if fst a = ''acquire_wait'' then event\<lparr>ev_AcquireWaitMs := ms\<rparr>
         else if fst a = ''commit_wait'' then event\<lparr>ev_CommitWaitMs := ms\<rparr>
         else event)"

fun plain_attrs :: "log_env \<Rightarrow> ProgressEvent \<Rightarrow> (string \<times> log_value) list \<Rightarrow> ProgressEvent option" where
  "plain_attrs env event [] = Some event"
| "plain_attrs env event (a # as) = Option.bind (plain_attr env event a) (\<lambda>event. plain_attrs env event as)"

definition throttledSend :: "int \<Rightarrow> ProgressEvent \<Rightarrow> progress_state \<Rightarrow> ProgressEvent list \<times> progress_state" where
  "throttledSend now event s =
     (let limited = (ev_State event \<noteq> ''FAILED'' \<and> ev_State event \<noteq> ''STATS'' \<and> ev_State event \<noteq> ''COMPLETED'')
      in if limited \<and> now - map_get 0 (st_lastMap s) (ev_Table event) < 1000000000 then ([], s)
         else
           let s = (if limited then s\<lparr>st_lastMap := (st_lastMap s)(ev_Table event \<mapsto> now)\<rparr> else s);
               key = (if ev_Partition event \<noteq> '''' then ev_Table event @ '':'' @ ev_Partition event else ev_Table event);
               s = (if ev_State event = ''STATS'' then s\<lparr>st_pipelineStats := (st_pipelineStats s)(key \<mapsto> event)\<rparr> else s)
           in ([event], s))"

definition send_aggregated :: "int \<Rightarrow> ProgressEvent option \<Rightarrow> progress_state \<Rightarrow> ProgressEvent list \<times> progress_state" where
  "send_aggregated now agg s = (case agg of None \<Rightarrow> ([], s) | Some event \<Rightarrow> throttledSend now event s)"

text \<open>Chunk events go through their aggregator, others are sent as they are.\<close>

definition forward :: "log_env \<Rightarrow> int \<Rightarrow> ProgressEvent \<Rightarrow> progress_state \<Rightarrow> ProgressEvent list \<times> progress_state" where
  "forward env now event s =
     (if isChunkPartition (ev_Partition event) then
        (if ev_State event = ''STATS'' then
           (let (agg, stats) = stats_update now event (st_chunkStats s) in send_aggregated now agg (s\<lparr>st_chunkStats := stats\<rparr>))
         else
           (let (agg, chunks) = chunk_update env now event (st_chunks s) in send_aggregated now agg (s\<lparr>st_chunks := chunks\<rparr>)))
      else throttledSend now event s)"

definition event_state :: "string \<Rightarrow> string option" where
  "event_state message =
     (if message = ''worker starting task'' then Some ''RUNNING''
      else if message = ''worker completed task'' then Some ''COMPLETED''
      else if message = ''pipeline stats'' then Some ''STATS''
      else if message = ''progress'' then Some ''RUNNING''
      else None)"

text \<open>\<open>None\<close> is a panic; the inner handler, which only writes the log, is left out.\<close>

definition Handle :: "log_env \<Rightarrow> int \<Rightarrow> log_record \<Rightarrow> progress_state \<Rightarrow> (ProgressEvent list \<times> progress_state) option" where
  "Handle env now r s =
     (case event_state (Message r) of
        Some status \<Rightarrow>
          map_option (\<lambda>event. forward env now ((foldl (duration_attr env) event (Attrs r))\<lparr>ev_State := status\<rparr>) s)
            (plain_attrs env zero_event (Attrs r))
      | None \<Rightarrow>
          if Message r = ''task failed''
          then Some (forward env now (foldl (name_attr env) (zero_event\<lparr>ev_State := ''FAILED''\<rparr>) (Attrs r)) s)
          else Some ([], s))"

text \<open>The three records of the worker pool, with the attributes that the handler reads.\<close>

definition worker_record :: "string \<Rightarrow> int \<Rightarrow> TableTask \<Rightarrow> log_record" where
  "worker_record message workerID task =
     \<lparr>Message = message, Attrs = [(''worker'', LInt workerID), (''table'', LString (tbl_Name (t_Table task))),
        (''partition'', LString (jobPartitionKey task))]\<rparr>"

definition starting_record :: "int \<Rightarrow> TableTask \<Rightarrow> log_record" where
  "starting_record = worker_record ''worker starting task''"

definition completed_record :: "int \<Rightarrow> TableTask \<Rightarrow> log_record" where
  "completed_record = worker_record ''worker completed task''"

definition failed_record :: "int \<Rightarrow> string \<Rightarrow> TableTask \<Rightarrow> log_record" where
  "failed_record workerID err task =
     (let r = worker_record ''task failed, continuing with remaining tasks'' workerID task
      in r\<lparr>Attrs := Attrs r @ [(''error'', LString err)]\<rparr>)"

section \<open>Names of chunks\<close>

lemma not_chunk_prefix:
  assumes "\<not> Contains (p @ '':'') ''chunk:''"
  shows "\<not> HasPrefix (p @ '':chunk:'' @ n) ''chunk:''"
proof
  assume h: "HasPrefix (p @ '':chunk:'' @ n) ''chunk:''"
  show False
  proof (cases "length p < 6")
    case True
    have len: "length ''chunk:'' = 6" by simp
    have prefix: "take 6 (p @ '':chunk:'' @ n) = ''chunk:''" using h unfolding HasPrefix_def len .
    then have nth: "(p @ '':chunk:'' @ n) ! i = ''chunk:'' ! i" if "i < 6" for i
      using that by (metis nth_take)
    have "(p @ '':chunk:'' @ n) ! length p = CHR '':''" by (simp add: nth_append)
    with nth [OF True] have "''chunk:'' ! length p = CHR '':''" by simp
    with True have "length p = 5" by (cases "length p"; auto simp: less_Suc_eq numeral_eq_Suc)
    then have "take 6 (p @ '':chunk:'' @ n) = p @ '':''" by simp
    with prefix have "p @ '':'' = ''chunk:''" by (simp only:)
    then show False using assms by (auto simp: Contains_iff)
  next
    case False
    then have "HasPrefix p ''chunk:''" using h HasPrefix_shorter [of "''chunk:''" p] by simp
    then have "Contains p ''chunk:''" using Contains_infix [of "[]" "''chunk:''"] by (auto simp: HasPrefix_iff)
    then show False using assms Contains_append by blast
  qed
qed

lemma IndexOf_chunk:
  "\<not> Contains (p @ '':'') ''chunk:'' \<Longrightarrow> IndexOf (p @ '':chunk:'' @ n) ''chunk:'' = Some (Suc (length p))"
proof (induction p)
  case Nil
  then show ?case by (simp add: HasPrefix_def)
next
  case (Cons c p)
  have "\<not> Contains (p @ '':'') ''chunk:''" using Cons.prems by (simp add: Contains_def split: if_splits)
  moreover have "\<not> HasPrefix (c # p @ '':chunk:'' @ n) ''chunk:''" using not_chunk_prefix [OF Cons.prems] by simp
  ultimately show ?case using Cons.IH by simp
qed

lemma strip_plain:
  assumes "\<not> Contains p ''chunk:''"
  shows "stripChunkSuffix p = p"
proof -
  have "\<not> HasPrefix p ''chunk:''" using assms by (auto simp: Contains_iff HasPrefix_iff)
  then show ?thesis using assms by (simp add: stripChunkSuffix_def Contains_def)
qed

lemma strip_chunk: "stripChunkSuffix (''chunk:'' @ n) = '''' \<and> isChunkPartition (''chunk:'' @ n)"
  by (simp add: stripChunkSuffix_def isChunkPartition_def Contains_def HasPrefix_def)

lemma strip_part_chunk:
  assumes "\<not> Contains (p @ '':'') ''chunk:''"
  shows "stripChunkSuffix (p @ '':chunk:'' @ n) = p \<and> isChunkPartition (p @ '':chunk:'' @ n)"
  using IndexOf_chunk [OF assms, of n]
  by (simp add: stripChunkSuffix_def isChunkPartition_def Contains_def TrimSuffix_def HasSuffix_def HasPrefix_def)

section \<open>Properties\<close>

text \<open>
  The interface undoes the naming of chunk jobs: the key under which the engine files and logs a task is
  recognised as a chunk exactly if the task is one, and stripping the chunk suffix gives the partition's name back, or
  nothing for a table without partitions. The partition's name must not itself contain or end in a piece of the suffix.
\<close>

theorem stripChunkSuffix_inverts:
  assumes "\<And>p. t_Partition task = Some p \<Longrightarrow> part_Name p \<noteq> '''' \<and> \<not> Contains (part_Name p @ '':'') ''chunk:''"
  shows "stripChunkSuffix (jobPartitionKey task) = (case t_Partition task of None \<Rightarrow> '''' | Some p \<Rightarrow> part_Name p) \<and>
    isChunkPartition (jobPartitionKey task) = (t_Chunk task \<noteq> None)"
proof (cases "t_Partition task")
  case None
  have "stripChunkSuffix '''' = ''''" "\<not> isChunkPartition ''''" by code_simp+
  then show ?thesis using None strip_chunk by (auto simp: jobPartitionKey_def split: option.splits)
next
  case (Some p)
  then have p: "part_Name p \<noteq> ''''" "\<not> Contains (part_Name p @ '':'') ''chunk:''" using assms by auto
  have "\<not> Contains (part_Name p) ''chunk:''"
    using p(2) Contains_append by blast
  then have plain: "stripChunkSuffix (part_Name p) = part_Name p" "\<not> isChunkPartition (part_Name p)"
    by (simp_all add: strip_plain isChunkPartition_def)
  show ?thesis
  proof (cases "t_Chunk task")
    case None
    then have "jobPartitionKey task = part_Name p" using Some by (simp add: jobPartitionKey_def)
    then show ?thesis using None plain Some by simp
  next
    case chunk: (Some ch)
    then have "jobPartitionKey task = part_Name p @ '':chunk:'' @ itoa (ch_ID ch)" using Some p by (simp add: jobPartitionKey_def)
    then show ?thesis using chunk strip_part_chunk [OF p(2)] Some by simp
  qed
qed

definition chunk_task :: TableTask where
  "chunk_task = \<lparr>t_Table = \<lparr>tbl_Owner = '''', tbl_Name = ''T'', Columns = [], PrimaryKey = None, Constraints = [], Indexes = [],
       Partitioning = None, Comment = '''', tbl_NumRows = 0, tbl_SizeMB = 0\<rparr>,
     t_Partition = Some \<lparr>part_Name = ''P1'', HighValue = '''', part_Position = 1, part_NumRows = 0, part_SizeMB = 0\<rparr>,
     t_Chunk = Some \<lparr>ch_ID = 3, StartRID = '''', EndRID = '''', ch_PartitionName = ''''\<rparr>, TotalChunks = 4, t_Where = '''', t_FetchSize = 0,
     t_BatchSize = 0, t_MaxParallel = 0, t_TargetMode = ''''\<rparr>"

theorem stripChunkSuffix_inverts_witness:
  "jobPartitionKey chunk_task = ''P1:chunk:3'' \<and> stripChunkSuffix (jobPartitionKey chunk_task) = ''P1''"
proof -
  have key: "jobPartitionKey chunk_task = ''P1:chunk:3''" "\<not> Contains ''P1:'' ''chunk:''" by code_simp+
  have part: "map_option part_Name (t_Partition chunk_task) = Some ''P1''" by (simp add: chunk_task_def)
  then have "part_Name p \<noteq> '''' \<and> \<not> Contains (part_Name p @ '':'') ''chunk:''" if "t_Partition chunk_task = Some p" for p
    using that key(2) by simp
  note inv = stripChunkSuffix_inverts [of chunk_task, OF this]
  from part obtain p where "t_Partition chunk_task = Some p" "part_Name p = ''P1''" by auto
  then show ?thesis using inv key(1) by simp
qed

text \<open>
  No failure of a task ever reaches the user interface: the handler waits for a record with the text
  \<open>task failed\<close>, the worker pool logs \<open>task failed, continuing with remaining tasks\<close>, so in every state the
  record changes nothing and sends nothing, while the start of the same task is forwarded.
\<close>

theorem failed_task_not_sent:
  "Handle env now (failed_record workerID err task) s = Some ([], s) \<and>
   event_state (Message (starting_record workerID task)) = Some ''RUNNING''"
  by (simp add: Handle_def failed_record_def starting_record_def worker_record_def event_state_def Let_def)

section \<open>Totals of a chunked table\<close>

fun chunk_run :: "log_env \<Rightarrow> (int \<times> ProgressEvent) list \<Rightarrow> chunk_states \<Rightarrow> ProgressEvent list \<times> chunk_states" where
  "chunk_run env [] states = ([], states)"
| "chunk_run env ((now, event) # es) states =
     (let (out, states) = chunk_update env now event states;
          (outs, states) = chunk_run env es states
      in ((case out of None \<Rightarrow> [] | Some e \<Rightarrow> [e]) @ outs, states))"

text \<open>The events that carry a row count, and the last count of each chunk of one table or partition.\<close>

definition reports_rows :: "ProgressEvent \<Rightarrow> bool" where
  "reports_rows e \<longleftrightarrow> (ev_State e = ''RUNNING'' \<or> ev_State e = ''COMPLETED'') \<and> ev_Rows e > 0"

definition last_rows :: "string \<Rightarrow> ProgressEvent list \<Rightarrow> string \<rightharpoonup> int" where
  "last_rows key es =
     map_of (rev (map (\<lambda>e. (ev_Partition e, ev_Rows e)) (filter (\<lambda>e. event_key e = key \<and> reports_rows e) es)))"

lemma last_rows_snoc:
  "last_rows key (es @ [e]) =
    (if event_key e = key \<and> reports_rows e then (last_rows key es)(ev_Partition e \<mapsto> ev_Rows e) else last_rows key es)"
  by (simp add: last_rows_def)

lemma foldl_i64: "foldl (\<lambda>total r. i64 (total + f r)) (i64 a) rs = i64 (a + sum_list (map f rs))"
proof (induction rs arbitrary: a)
  case Nil
  then show ?case by simp
next
  case (Cons r rs)
  then show ?case using Cons.IH [of "a + f r"] by (simp add: i64_add_left add.assoc)
qed

lemma foldl_i64_snd: "foldl (\<lambda>total r. i64 (total + snd r)) 0 rs = i64 (sum_list (map snd rs))"
  using foldl_i64 [of snd 0 rs] by (simp add: i64_def)

lemma sum_map_of:
  assumes "distinct (map fst al)"
  shows "sum_list (map snd al) = (\<Sum>k \<in> dom (map_of al). the (map_of al k))"
proof -
  have "map snd al = map (\<lambda>k. the (map_of al k)) (map fst al)" using assms by (auto simp: map_of_is_SomeI)
  then show ?thesis using assms by (simp only: sum_list_distinct_conv_sum_set dom_map_of_conv_image_fst set_map)
qed

definition totals_ok :: "chunk_states \<Rightarrow> ProgressEvent list \<Rightarrow> bool" where
  "totals_ok states es \<longleftrightarrow> (\<forall>key.
     case states key of
       None \<Rightarrow> last_rows key es = Map.empty
     | Some st \<Rightarrow> distinct (map fst (cs_chunkRows st)) \<and> map_of (cs_chunkRows st) = last_rows key es \<and>
         cs_totalRows st = i64 (sum_list (map snd (cs_chunkRows st))))"

lemma count_event_rows:
  "cs_chunkRows (count_event e st) =
     (if reports_rows e then AList.update (ev_Partition e) (ev_Rows e) (cs_chunkRows st) else cs_chunkRows st)"
  "cs_totalRows (count_event e st) =
     (if reports_rows e then foldl (\<lambda>total r. i64 (total + snd r)) 0 (AList.update (ev_Partition e) (ev_Rows e) (cs_chunkRows st))
      else cs_totalRows st)"
  by (auto simp: count_event_def record_rows_def stop_running_def reports_rows_def Let_def)

text \<open>What a chunk's event leaves in its slot.\<close>

lemma chunk_update_state:
  obtains t d where "snd (chunk_update env now e states) =
    states(event_key e \<mapsto> (count_event e (case states (event_key e) of None \<Rightarrow> new_chunk_state e | Some st \<Rightarrow> st))\<lparr>cs_lastEmit := t, cs_dirty := d\<rparr>)"
proof -
  let ?st = "count_event e (case states (event_key e) of None \<Rightarrow> new_chunk_state e | Some st \<Rightarrow> st)"
  have same: "?st\<lparr>cs_dirty := True\<rparr> = ?st\<lparr>cs_lastEmit := cs_lastEmit ?st, cs_dirty := True\<rparr>"
    by simp
  have "snd (chunk_update env now e states) = states(event_key e \<mapsto> ?st\<lparr>cs_lastEmit := cs_lastEmit ?st, cs_dirty := True\<rparr>) \<or>
      snd (chunk_update env now e states) = states(event_key e \<mapsto> ?st\<lparr>cs_lastEmit := now, cs_dirty := False\<rparr>)"
    unfolding chunk_update_def Let_def same [symmetric] by auto
  then show ?thesis using that by blast
qed

lemma chunk_update_totals:
  assumes "totals_ok states es"
  shows "totals_ok (snd (chunk_update env now e states)) (es @ [e])"
proof -
  let ?st = "case states (event_key e) of None \<Rightarrow> new_chunk_state e | Some st \<Rightarrow> st"
  have old: "distinct (map fst (cs_chunkRows ?st))" "map_of (cs_chunkRows ?st) = last_rows (event_key e) es"
    "cs_totalRows ?st = i64 (sum_list (map snd (cs_chunkRows ?st)))"
    using assms [unfolded totals_ok_def, rule_format, of "event_key e"]
    by (auto simp: new_chunk_state_def i64_def split: option.splits)
  have new: "distinct (map fst (cs_chunkRows (count_event e ?st)))"
    "map_of (cs_chunkRows (count_event e ?st)) = last_rows (event_key e) (es @ [e])"
    using old by (simp_all add: count_event_rows last_rows_snoc distinct_update update_conv')
  have total: "cs_totalRows (count_event e ?st) = i64 (sum_list (map snd (cs_chunkRows (count_event e ?st))))"
    using old(3) by (simp add: count_event_rows foldl_i64_snd)
  obtain t d where s: "snd (chunk_update env now e states) = states(event_key e \<mapsto> (count_event e ?st)\<lparr>cs_lastEmit := t, cs_dirty := d\<rparr>)"
    by (rule chunk_update_state)
  show ?thesis
    unfolding totals_ok_def s
  proof
    fix key
    show "case (states(event_key e \<mapsto> (count_event e ?st)\<lparr>cs_lastEmit := t, cs_dirty := d\<rparr>)) key of
        None \<Rightarrow> last_rows key (es @ [e]) = Map.empty
      | Some st \<Rightarrow> distinct (map fst (cs_chunkRows st)) \<and> map_of (cs_chunkRows st) = last_rows key (es @ [e]) \<and>
          cs_totalRows st = i64 (sum_list (map snd (cs_chunkRows st)))"
    proof (cases "key = event_key e")
      case True
      then show ?thesis using new total by simp
    next
      case False
      then have "last_rows key (es @ [e]) = last_rows key es" by (simp add: last_rows_snoc)
      then show ?thesis unfolding fun_upd_other [OF False] by (simp only:) (rule assms [unfolded totals_ok_def, rule_format])
    qed
  qed
qed

lemma chunk_run_totals: "totals_ok states es \<Longrightarrow> totals_ok (snd (chunk_run env evs states)) (es @ map snd evs)"
proof (induction evs arbitrary: es states)
  case Nil
  then show ?case by simp
next
  case (Cons ne evs)
  obtain now e where ne: "ne = (now, e)" by (cases ne)
  obtain out states' where u: "chunk_update env now e states = (out, states')" by (cases "chunk_update env now e states")
  have "totals_ok states' (es @ [e])" using chunk_update_totals [OF Cons.prems, of env now e] u by simp
  from Cons.IH [OF this] show ?case using u by (simp add: ne split_def Let_def)
qed

text \<open>
  C22. The row count shown for a chunked table is the sum of the last count of each of its chunks, whatever the
  order in which the chunks' records arrive and however often each reports: no chunk is counted twice.
\<close>

theorem chunk_total_exact:
  assumes "snd (chunk_run env evs Map.empty) key = Some st"
  shows "cs_totalRows st = i64 (\<Sum>c \<in> dom (last_rows key (map snd evs)). the (last_rows key (map snd evs) c))"
proof -
  have "totals_ok Map.empty []" by (simp add: totals_ok_def last_rows_def)
  from chunk_run_totals [OF this, of env evs] have ok: "totals_ok (snd (chunk_run env evs Map.empty)) (map snd evs)" by simp
  from ok [unfolded totals_ok_def, rule_format, of key] assms
  have st: "distinct (map fst (cs_chunkRows st))" "map_of (cs_chunkRows st) = last_rows key (map snd evs)"
    "cs_totalRows st = i64 (sum_list (map snd (cs_chunkRows st)))" by simp_all
  show ?thesis unfolding st(3) sum_map_of [OF st(1)] st(2) ..
qed

definition chunk_event :: "string \<Rightarrow> string \<Rightarrow> string \<Rightarrow> int \<Rightarrow> ProgressEvent" where
  "chunk_event table prt status rows = zero_event\<lparr>ev_Table := table, ev_Partition := prt, ev_State := status, ev_Rows := rows\<rparr>"

definition demo_env :: log_env where
  "demo_env = \<lparr>percent_of = \<lambda>a b. nat (100 * a div b), show_float = \<lambda>f. '''', show_duration = \<lambda>d. '''', ParseDuration = \<lambda>s. None\<rparr>"

definition demo_events :: "(int \<times> ProgressEvent) list" where
  "demo_events = [(5, chunk_event ''T'' ''chunk:0'' ''RUNNING'' 10), (6, chunk_event ''T'' ''chunk:1'' ''RUNNING'' 4),
     (7, chunk_event ''T'' ''chunk:0'' ''RUNNING'' 25), (8, chunk_event ''T'' ''chunk:0'' ''COMPLETED'' 0)]"

theorem chunk_total_exact_witness:
  "map_option cs_totalRows (snd (chunk_run demo_env demo_events Map.empty) ''T'') = Some 29 \<and>
   (\<Sum>c \<in> dom (last_rows ''T'' (map snd demo_events)). the (last_rows ''T'' (map snd demo_events) c)) = 29"
proof -
  have m: "last_rows ''T'' (map snd demo_events) = [''chunk:0'' \<mapsto> 25, ''chunk:1'' \<mapsto> 4]"
    by (simp add: last_rows_def demo_events_def chunk_event_def zero_event_def event_key_def reports_rows_def
        stripChunkSuffix_def HasPrefix_def fun_eq_iff)
  have sum: "(\<Sum>c \<in> dom (last_rows ''T'' (map snd demo_events)). the (last_rows ''T'' (map snd demo_events) c)) = 29"
    unfolding m by simp
  have "map_option cs_totalRows (snd (chunk_run demo_env demo_events Map.empty) ''T'') \<noteq> None" by code_simp
  then obtain st where st: "snd (chunk_run demo_env demo_events Map.empty) ''T'' = Some st" by auto
  show ?thesis using chunk_total_exact [OF st] st sum by (simp add: in_i64_nonneg)
qed

section \<open>When a chunked table is reported complete\<close>

text \<open>A single worker: the chunks of one table start and end one after the other.\<close>

fun one_by_one :: "string \<Rightarrow> (int \<times> int \<times> string) list \<Rightarrow> (int \<times> ProgressEvent) list" where
  "one_by_one table [] = []"
| "one_by_one table ((t1, t2, c) # steps) =
     (t1, chunk_event table c ''RUNNING'' 0) # (t2, chunk_event table c ''COMPLETED'' 0) # one_by_one table steps"

definition all_started_done :: "int \<Rightarrow> chunkTableState option \<Rightarrow> bool" where
  "all_started_done n s \<longleftrightarrow>
     (case s of None \<Rightarrow> n = 0 | Some st \<Rightarrow> cs_chunksTotal st = n \<and> cs_chunksDone st = n \<and> cs_chunksFailed st = 0)"

lemma chunk_event_fields [simp]:
  "ev_Table (chunk_event t p s r) = t" "ev_Partition (chunk_event t p s r) = p"
  "ev_State (chunk_event t p s r) = s" "ev_Rows (chunk_event t p s r) = r"
  by (simp_all add: chunk_event_def)

lemma chunk_event_key: "event_key (chunk_event t p s r) = (if stripChunkSuffix p \<noteq> '''' then t @ '':'' @ stripChunkSuffix p else t)"
  by (simp add: event_key_def Let_def)

lemma one_chunk:
  assumes "all_started_done n (states key)" and "0 \<le> n" and key: "event_key (chunk_event table c ''RUNNING'' 0) = key"
  obtains o1 states' e states'' where
    "chunk_update env t1 (chunk_event table c ''RUNNING'' 0) states = (o1, states')"
    "\<forall>x. o1 = Some x \<longrightarrow> ev_State x = ''RUNNING''"
    "chunk_update env t2 (chunk_event table c ''COMPLETED'' 0) states' = (Some e, states'')"
    "ev_State e = ''COMPLETED''" "ev_Percent e = percent_of env (n + 1) (n + 1)" "all_started_done (n + 1) (states'' key)"
proof -
  let ?e = "chunk_event table c ''RUNNING'' 0" and ?f = "chunk_event table c ''COMPLETED'' 0"
  have key': "event_key ?f = key" using key by (simp add: chunk_event_key)
  have ev: "ev_State ?e = ''RUNNING''" "ev_Rows ?e = 0" "ev_State ?f = ''COMPLETED''" "ev_Rows ?f = 0"
    by (simp_all add: chunk_event_def)
  define st where "st = (case states key of None \<Rightarrow> new_chunk_state ?e | Some st \<Rightarrow> st)"
  have st: "cs_chunksTotal st = n" "cs_chunksDone st = n" "cs_chunksFailed st = 0"
    using assms(1) by (auto simp: st_def all_started_done_def new_chunk_state_def split: option.splits)
  obtain o1 states' where u1: "chunk_update env t1 ?e states = (o1, states')" by (cases "chunk_update env t1 ?e states")
  have u1': "(o1, states') = (if t1 - cs_lastEmit st < 1000000000
      then (None, states(key \<mapsto> st\<lparr>cs_chunksRunning := cs_chunksRunning st + 1, cs_chunksTotal := n + 1, cs_dirty := True\<rparr>))
      else (Some (buildEvent env (st\<lparr>cs_chunksRunning := cs_chunksRunning st + 1, cs_chunksTotal := n + 1, cs_lastEmit := t1, cs_dirty := False\<rparr>)),
        states(key \<mapsto> st\<lparr>cs_chunksRunning := cs_chunksRunning st + 1, cs_chunksTotal := n + 1, cs_lastEmit := t1, cs_dirty := False\<rparr>)))"
    unfolding u1 [symmetric] chunk_update_def key Let_def st_def [symmetric] using st ev by (simp add: count_event_def)
  obtain st1 where st1: "states' key = Some st1" "cs_chunksTotal st1 = n + 1" "cs_chunksDone st1 = n" "cs_chunksFailed st1 = 0"
    using u1' st by (cases "t1 - cs_lastEmit st < 1000000000") auto
  have o1: "\<forall>x. o1 = Some x \<longrightarrow> ev_State x = ''RUNNING''"
    using u1' st by (cases "t1 - cs_lastEmit st < 1000000000") (auto simp: buildEvent_def Let_def)
  let ?st2 = "(stop_running (st1\<lparr>cs_chunksDone := n + 1\<rparr>))\<lparr>cs_lastEmit := t2, cs_dirty := False\<rparr>"
  have num: "cs_chunksTotal ?st2 = n + 1" "cs_chunksDone ?st2 = n + 1" "cs_chunksFailed ?st2 = 0"
    using st1 by (simp_all add: stop_running_def)
  have u2: "chunk_update env t2 ?f states' = (Some (buildEvent env ?st2), states'(key \<mapsto> ?st2))"
    unfolding chunk_update_def key' Let_def st1(1) using st1 ev assms(2) by (simp add: count_event_def stop_running_def)
  have "ev_State (buildEvent env ?st2) = ''COMPLETED''" "ev_Percent (buildEvent env ?st2) = percent_of env (n + 1) (n + 1)"
    using num assms(2) by (simp_all add: buildEvent_def Let_def)
  moreover have "all_started_done (n + 1) ((states'(key \<mapsto> ?st2)) key)" using num by (simp add: all_started_done_def)
  ultimately show ?thesis using that [OF u1 o1 u2] by simp
qed

lemma one_by_one_completed:
  assumes "\<forall>(t1, t2, c) \<in> set steps. event_key (chunk_event table c ''RUNNING'' 0) = key"
    and "all_started_done n (states key)" "0 \<le> n"
  shows "map (\<lambda>e. (ev_State e, ev_Percent e)) (filter (\<lambda>e. ev_State e = ''COMPLETED'') (fst (chunk_run env (one_by_one table steps) states))) =
    map (\<lambda>i. (''COMPLETED'', percent_of env i i)) [n + 1..n + int (length steps)]"
  using assms
proof (induction steps arbitrary: n states)
  case Nil
  then show ?case by simp
next
  case (Cons s steps)
  obtain t1 t2 c where s: "s = (t1, t2, c)" by (cases s)
  have key: "event_key (chunk_event table c ''RUNNING'' 0) = key" using Cons.prems(1) s by simp
  obtain o1 states' e states'' where u:
    "chunk_update env t1 (chunk_event table c ''RUNNING'' 0) states = (o1, states')"
    "\<forall>x. o1 = Some x \<longrightarrow> ev_State x = ''RUNNING''"
    "chunk_update env t2 (chunk_event table c ''COMPLETED'' 0) states' = (Some e, states'')"
    "ev_State e = ''COMPLETED''" "ev_Percent e = percent_of env (n + 1) (n + 1)" "all_started_done (n + 1) (states'' key)"
    by (rule one_chunk [where env = env and ?t1.0 = t1 and ?t2.0 = t2 and n = n and states = states and key = key
          and table = table and c = c, OF Cons.prems(2,3) key], rule that)
  have ih: "map (\<lambda>e. (ev_State e, ev_Percent e)) (filter (\<lambda>e. ev_State e = ''COMPLETED'')
      (fst (chunk_run env (one_by_one table steps) states''))) =
    map (\<lambda>i. (''COMPLETED'', percent_of env i i)) [n + 1 + 1..n + 1 + int (length steps)]"
    by (rule Cons.IH [where n = "n + 1" and states = states'']) (use Cons.prems u(6) in auto)
  have range: "[n + 1..n + int (length (s # steps))] = (n + 1) # [n + 1 + 1..n + 1 + int (length steps)]"
    by (simp add: upto_rec1 add.assoc)
  have run: "fst (chunk_run env (one_by_one table (s # steps)) states) =
      (case o1 of None \<Rightarrow> [] | Some e \<Rightarrow> [e]) @ e # fst (chunk_run env (one_by_one table steps) states'')"
    using u(1,3) by (simp add: s split_def Let_def)
  have "filter (\<lambda>e. ev_State e = ''COMPLETED'') (case o1 of None \<Rightarrow> [] | Some e \<Rightarrow> [e]) = []"
    using u(2) by (cases o1) auto
  then show ?case unfolding run range using u(4,5) ih by simp
qed

text \<open>
  A chunked table is reported complete much too early: the total that the aggregator compares with is the
  number of chunks started so far, so when the chunks are copied one after the other, each of them, from the first on,
  gives an event that says the table is \<open>COMPLETED\<close>, with the quotient of a number by itself as its percentage.
\<close>

theorem chunk_completed_early:
  assumes "\<forall>(t1, t2, c) \<in> set steps. event_key (chunk_event table c ''RUNNING'' 0) = key"
  shows "map (\<lambda>e. (ev_State e, ev_Percent e)) (filter (\<lambda>e. ev_State e = ''COMPLETED'')
      (fst (chunk_run env (one_by_one table steps) Map.empty))) =
    map (\<lambda>i. (''COMPLETED'', percent_of env i i)) [1..int (length steps)]"
  using one_by_one_completed [OF assms, of 0 Map.empty env] by (simp add: all_started_done_def)

theorem chunk_completed_early_witness:
  "map (\<lambda>e. (ev_State e, ev_Percent e)) (filter (\<lambda>e. ev_State e = ''COMPLETED'')
      (fst (chunk_run demo_env (one_by_one ''T'' [(1, 5, ''chunk:0''), (6, 9, ''chunk:1'')]) Map.empty))) =
    [(''COMPLETED'', 100), (''COMPLETED'', 100)]"
proof -
  have "\<forall>(t1, t2, c) \<in> set [(1, 5, ''chunk:0''), (6, 9, ''chunk:1'')]. event_key (chunk_event ''T'' c ''RUNNING'' 0) = ''T''"
    by (simp add: event_key_def chunk_event_def stripChunkSuffix_def HasPrefix_def)
  from chunk_completed_early [OF this, of demo_env] show ?thesis
    by (simp add: demo_env_def upto_rec1)
qed

section \<open>How often events are sent\<close>

fun handle_run :: "log_env \<Rightarrow> (int \<times> log_record) list \<Rightarrow> progress_state \<Rightarrow> ((int \<times> ProgressEvent) list \<times> progress_state) option" where
  "handle_run env [] s = Some ([], s)"
| "handle_run env ((now, r) # rs) s =
     Option.bind (Handle env now r s) (\<lambda>(es, s).
       Option.bind (handle_run env rs s) (\<lambda>(out, s). Some (map (Pair now) es @ out, s)))"

definition limited :: "string \<Rightarrow> ProgressEvent \<Rightarrow> bool" where
  "limited table e \<longleftrightarrow> ev_Table e = table \<and> ev_State e \<noteq> ''FAILED'' \<and> ev_State e \<noteq> ''STATS'' \<and> ev_State e \<noteq> ''COMPLETED''"

text \<open>Send times that are each a second or more after the one before, the first after \<open>t\<close>.\<close>

fun spaced :: "int \<Rightarrow> int list \<Rightarrow> bool" where
  "spaced t [] = True"
| "spaced t (u # us) = (u - t \<ge> 1000000000 \<and> spaced u us)"

text \<open>One send: no throttled event of the table and its last time kept, or one, a second after the last.\<close>

definition one_send :: "string \<Rightarrow> int \<Rightarrow> progress_state \<Rightarrow> ProgressEvent list \<times> progress_state \<Rightarrow> bool" where
  "one_send table now s r \<longleftrightarrow>
     (filter (limited table) (fst r) = [] \<and> st_lastMap (snd r) table = st_lastMap s table) \<or>
     (\<exists>x. filter (limited table) (fst r) = [x] \<and> now - map_get 0 (st_lastMap s) table \<ge> 1000000000 \<and> st_lastMap (snd r) table = Some now)"

lemma throttledSend_one: "one_send table now s (throttledSend now e s)"
  by (auto simp: one_send_def throttledSend_def limited_def Let_def)

lemma send_aggregated_one: "one_send table now s (send_aggregated now agg s)"
  using throttledSend_one by (auto simp: send_aggregated_def one_send_def split: option.splits)

lemma forward_one: "one_send table now s (forward env now e s)"
proof -
  have "one_send table now s (send_aggregated now agg (s\<lparr>st_chunkStats := x\<rparr>))"
    "one_send table now s (send_aggregated now agg (s\<lparr>st_chunks := y\<rparr>))" for agg x y
    using send_aggregated_one [of table now "s\<lparr>st_chunkStats := x\<rparr>" agg] send_aggregated_one [of table now "s\<lparr>st_chunks := y\<rparr>" agg]
    by (simp_all add: one_send_def)
  then show ?thesis by (simp add: forward_def split_def Let_def throttledSend_one)
qed

lemma Handle_one: "Handle env now r s = Some res \<Longrightarrow> one_send table now s res"
  using forward_one by (auto simp: Handle_def one_send_def [of table now s "([], s)"] split: option.splits if_splits)

lemma handle_run_spaced:
  "handle_run env rs s = Some (out, s') \<Longrightarrow>
    spaced (map_get 0 (st_lastMap s) table) (map fst (filter (limited table \<circ> snd) out))"
proof (induction rs arbitrary: s out)
  case Nil
  then show ?case by simp
next
  case (Cons nr rs)
  obtain now r where nr: "nr = (now, r)" by (cases nr)
  obtain es s1 out1 where h: "Handle env now r s = Some (es, s1)" "handle_run env rs s1 = Some (out1, s')" "out = map (Pair now) es @ out1"
    using Cons.prems by (auto simp: nr bind_eq_Some_conv split: prod.splits)
  have rest: "spaced (map_get 0 (st_lastMap s1) table) (map fst (filter (limited table \<circ> snd) out1))"
    by (rule Cons.IH [OF h(2)])
  have es: "filter (limited table \<circ> snd) (map (Pair now) es) = map (Pair now) (filter (limited table) es)"
    by (simp add: filter_map o_def)
  have out: "filter (limited table \<circ> snd) out = map (Pair now) (filter (limited table) es) @ filter (limited table \<circ> snd) out1"
    by (simp only: h(3) filter_append es)
  from Handle_one [OF h(1), of table] show ?case
    unfolding out using rest by (auto simp: one_send_def map_get_def)
qed

text \<open>
  C24. The user interface is not flooded: whatever the engine logs, two events about the same table that do not
  end something (a running table, however many partitions and chunks it has) are sent at least a second apart.
\<close>

theorem running_events_spaced:
  assumes "handle_run env rs newProgressLogger = Some (out, s)"
  shows "spaced 0 (map fst (filter (limited table \<circ> snd) out))"
  using handle_run_spaced [OF assms, of table] by (simp add: newProgressLogger_def map_get_def)

definition demo_record :: log_record where
  "demo_record = \<lparr>Message = ''progress'', Attrs = [(''table'', LString ''T''), (''rows'', LInt 5)]\<rparr>"

theorem running_events_spaced_witness:
  "\<exists>out s. handle_run demo_env [(2000000000, demo_record), (2500000000, demo_record), (3100000000, demo_record)] newProgressLogger = Some (out, s) \<and>
     map fst out = [2000000000, 3100000000] \<and> spaced 0 (map fst (filter (limited ''T'' \<circ> snd) out))"
proof -
  have "map_option (\<lambda>r. map fst (fst r)) (handle_run demo_env [(2000000000, demo_record), (2500000000, demo_record), (3100000000, demo_record)]
      newProgressLogger) = Some [2000000000, 3100000000]" by code_simp
  then obtain out s where r: "handle_run demo_env [(2000000000, demo_record), (2500000000, demo_record), (3100000000, demo_record)]
      newProgressLogger = Some (out, s)" "map fst out = [2000000000, 3100000000]" by auto
  show ?thesis
    by (rule exI [of _ out], rule exI [of _ s]) (intro conjI r running_events_spaced [OF r(1)])
qed

end
