(* ===== verification/Job_View.thy ===== *)
theory Job_View
  imports Job_Store Project_Store Progress_Events "HOL-Library.Multiset"
begin

text \<open>
  What the user interface is shown of the job store: \<open>GetStatus\<close> and \<open>GetJobs\<close> of \<open>pkg/api/handlers.go\<close>. The jobs of
  the chunks of one table or partition are merged into one. \<open>before\<close> compares two time stamps; \<open>shuffle\<close> is the order in
  which Go ranges over the map of merged jobs. The lemmas say that merging loses no row, that the worst state wins, and
  how the counters of the summary relate to the jobs.
\<close>

section \<open>The order of states\<close>

fun severity :: "JobState \<Rightarrow> nat" where
  "severity JobSkipped = 0"
| "severity JobCompleted = 1"
| "severity JobPending = 2"
| "severity JobRetrying = 3"
| "severity JobRunning = 4"
| "severity JobFailed = 5"

lemma severity_inj: "severity a = severity b \<longleftrightarrow> a = b"
  by (cases a; cases b) simp_all

instantiation JobState :: linorder
begin

definition less_eq_JobState :: "JobState \<Rightarrow> JobState \<Rightarrow> bool" where
  "a \<le> b \<longleftrightarrow> severity a \<le> severity b"

definition less_JobState :: "JobState \<Rightarrow> JobState \<Rightarrow> bool" where
  "a < b \<longleftrightarrow> severity a < severity b"

instance
  by standard (auto simp: less_eq_JobState_def less_JobState_def severity_inj)

end

definition mergeJobState :: "JobState \<Rightarrow> JobState \<Rightarrow> JobState" where
  "mergeJobState a b = (if severity b > severity a then b else a)"

lemma mergeJobState_max: "mergeJobState a b = max a b"
  by (simp add: mergeJobState_def max_def less_eq_JobState_def severity_inj)

lemma JobFailed_greatest [simp]: "a \<le> JobFailed"
  by (cases a) (simp_all add: less_eq_JobState_def)

section \<open>\<open>GetJobs\<close>\<close>

record JobResponse =
  jr_ID :: int
  jr_TableName :: string
  jr_Partition :: string
  jr_Phase :: string
  jr_State :: JobState
  jr_RowsExpected :: int
  jr_RowsCopied :: int
  jr_BytesCopied :: int
  jr_Error :: string
  jr_Attempt :: int
  jr_StartedAt :: "string option"
  jr_FinishedAt :: "string option"

definition job_response :: "Job \<Rightarrow> JobResponse" where
  "job_response j =
     \<lparr>jr_ID = ID j, jr_TableName = TableName j, jr_Partition = j_Partition j, jr_Phase = Phase j, jr_State = State j,
      jr_RowsExpected = RowsExpected j, jr_RowsCopied = RowsCopied j, jr_BytesCopied = BytesCopied j, jr_Error = Error j,
      jr_Attempt = Attempt j, jr_StartedAt = StartedAt j, jr_FinishedAt = FinishedAt j\<rparr>"

definition chunk_key :: "Job \<Rightarrow> string" where
  "chunk_key j = TableName j @ '':'' @ stripChunkSuffix (j_Partition j) @ '':'' @ Phase j"

definition new_chunk_agg :: "Job \<Rightarrow> JobResponse" where
  "new_chunk_agg j =
     \<lparr>jr_ID = ID j, jr_TableName = TableName j, jr_Partition = stripChunkSuffix (j_Partition j), jr_Phase = Phase j,
      jr_State = State j, jr_RowsExpected = 0, jr_RowsCopied = 0, jr_BytesCopied = 0, jr_Error = '''', jr_Attempt = 0,
      jr_StartedAt = StartedAt j, jr_FinishedAt = None\<rparr>"

definition earlier :: "(string \<Rightarrow> string \<Rightarrow> bool) \<Rightarrow> string option \<Rightarrow> string option \<Rightarrow> string option" where
  "earlier before old new =
     (case new of None \<Rightarrow> old
                | Some t \<Rightarrow> (case old of None \<Rightarrow> new | Some u \<Rightarrow> if before t u then new else old))"

definition add_chunk :: "(string \<Rightarrow> string \<Rightarrow> bool) \<Rightarrow> Job \<Rightarrow> JobResponse \<Rightarrow> JobResponse" where
  "add_chunk before j agg =
     agg\<lparr>jr_RowsExpected := i64 (jr_RowsExpected agg + RowsExpected j), jr_RowsCopied := i64 (jr_RowsCopied agg + RowsCopied j),
         jr_BytesCopied := i64 (jr_BytesCopied agg + BytesCopied j), jr_State := mergeJobState (jr_State agg) (State j),
         jr_Error := (if Error j \<noteq> '''' \<and> jr_Error agg = '''' then Error j else jr_Error agg),
         jr_Attempt := (if Attempt j > jr_Attempt agg then Attempt j else jr_Attempt agg),
         jr_StartedAt := earlier before (jr_StartedAt agg) (StartedAt j),
         jr_FinishedAt := earlier (\<lambda>t u. before u t) (jr_FinishedAt agg) (FinishedAt j)\<rparr>"

fun merge_jobs :: "(string \<Rightarrow> string \<Rightarrow> bool) \<Rightarrow> Job list \<Rightarrow> (string \<times> JobResponse) list \<Rightarrow> JobResponse list \<Rightarrow>
    JobResponse list \<times> (string \<times> JobResponse) list" where
  "merge_jobs before [] aggregated result = (result, aggregated)"
| "merge_jobs before (j # js) aggregated result =
     (if isChunkPartition (j_Partition j) then
        let agg = (case map_of aggregated (chunk_key j) of None \<Rightarrow> new_chunk_agg j | Some agg \<Rightarrow> agg)
        in merge_jobs before js (AList.update (chunk_key j) (add_chunk before j agg) aggregated) result
      else merge_jobs before js aggregated (result @ [job_response j]))"

text \<open>More rows copied than expected come from the rounding of the expectation.\<close>

definition fix_expected :: "JobResponse \<Rightarrow> JobResponse" where
  "fix_expected r = (if jr_RowsCopied r > jr_RowsExpected r then r\<lparr>jr_RowsExpected := jr_RowsCopied r\<rparr> else r)"

definition response_jobs ::
    "(string \<Rightarrow> string \<Rightarrow> bool) \<Rightarrow> ((string \<times> JobResponse) list \<Rightarrow> (string \<times> JobResponse) list) \<Rightarrow> Job list \<Rightarrow> JobResponse list" where
  "response_jobs before shuffle js =
     (let (result, aggregated) = merge_jobs before js [] []
      in result @ map (fix_expected \<circ> snd) (shuffle aggregated))"

record ApiRunSummary =
  rs_Total :: int
  rs_Pending :: int
  rs_Running :: int
  rs_Completed :: int
  rs_Failed :: int
  rs_Retrying :: int
  rs_Skipped :: int
  rs_StartedAt :: "string option"
  rs_FinishedAt :: "string option"
  rs_TotalRows :: int

definition states_of :: "Job list \<Rightarrow> JobState list" where
  "states_of js = map State js"

text \<open>The jobs of one table and phase among the chunk jobs; the partition is not part of this key.\<close>

definition chunk_groups :: "Job list \<Rightarrow> (string \<times> string) list" where
  "chunk_groups js = remdups (map (\<lambda>j. (TableName j, Phase j)) (filter (\<lambda>j. isChunkPartition (j_Partition j)) js))"

definition group_states :: "Job list \<Rightarrow> string \<times> string \<Rightarrow> JobState list" where
  "group_states js g =
     map State (filter (\<lambda>j. isChunkPartition (j_Partition j) \<and> (TableName j, Phase j) = g) js)"

definition group_state :: "JobState list \<Rightarrow> JobState" where
  "group_state sts =
     (if List.member sts JobFailed then JobFailed
      else if List.member sts JobRunning then JobRunning
      else if List.member sts JobRetrying then JobRetrying
      else if List.member sts JobPending then JobPending
      else if length (filter (\<lambda>s. s = JobCompleted) sts) = length sts then JobCompleted
      else JobSkipped)"

definition buildRunSummaryWithTiming :: "(string \<Rightarrow> string \<Rightarrow> bool) \<Rightarrow> Job list \<Rightarrow> ApiRunSummary" where
  "buildRunSummaryWithTiming before js =
     (let plain = map State (filter (\<lambda>j. \<not> isChunkPartition (j_Partition j)) js);
          groups = map (\<lambda>g. group_state (group_states js g)) (chunk_groups js);
          count = (\<lambda>st. int (length (filter (\<lambda>s. s = st) plain)) + int (length (filter (\<lambda>s. s = st) groups)))
      in \<lparr>rs_Total = int (length plain) + int (length groups), rs_Pending = count JobPending, rs_Running = count JobRunning,
          rs_Completed = count JobCompleted, rs_Failed = count JobFailed, rs_Retrying = count JobRetrying,
          rs_Skipped = count JobSkipped,
          rs_StartedAt = foldl (earlier before) None (map StartedAt js),
          rs_FinishedAt = foldl (earlier (\<lambda>t u. before u t)) None (map FinishedAt js),
          rs_TotalRows = foldl (\<lambda>n j. if Phase j = ''data'' then i64 (n + RowsCopied j) else n) 0 js\<rparr>)"

record MigrationPhase =
  mp_Phase :: string
  mp_Detail :: string

record JobStatusResponse =
  sr_RunID :: string
  sr_Phase :: "MigrationPhase option"
  sr_Summary :: ApiRunSummary
  sr_Jobs :: "JobResponse list"
  sr_PipelineStats :: "ProgressEvent list"

text \<open>
  \<open>GetJobs\<close>: an error reply, or the run with its summary, its jobs and the statistics kept by the server in the order \<open>listed\<close> of
  Go's range. The project is not used.
\<close>

definition view_GetJobs ::
    "(string \<Rightarrow> string \<Rightarrow> bool) \<Rightarrow> ((string \<times> JobResponse) list \<Rightarrow> (string \<times> JobResponse) list) \<Rightarrow>
     ((string \<rightharpoonup> ProgressEvent) \<Rightarrow> ProgressEvent list) \<Rightarrow> string \<Rightarrow> string \<Rightarrow> progress_state \<Rightarrow> job_db \<Rightarrow> JobStatusResponse reply" where
  "view_GetJobs before shuffle listed projectID tableFilter p s =
     (case GetLatestRunID s of
        Inl e \<Rightarrow> Failure 404 ''no migration runs found'' e
      | Inr runID \<Rightarrow>
          (let js = GetJobs runID tableFilter s;
               allJobs = (if tableFilter \<noteq> '''' then GetJobs runID '''' s else js)
           in Reply 200 \<lparr>sr_RunID = runID, sr_Phase = None, sr_Summary = buildRunSummaryWithTiming before allJobs,
                sr_Jobs = response_jobs before shuffle js, sr_PipelineStats = listed (st_pipelineStats p)\<rparr>))"

section \<open>\<open>GetStatus\<close>\<close>

definition zero_summary :: ApiRunSummary where
  "zero_summary = \<lparr>rs_Total = 0, rs_Pending = 0, rs_Running = 0, rs_Completed = 0, rs_Failed = 0, rs_Retrying = 0,
     rs_Skipped = 0, rs_StartedAt = None, rs_FinishedAt = None, rs_TotalRows = 0\<rparr>"

definition summary_response :: "RunSummary \<Rightarrow> ApiRunSummary" where
  "summary_response s =
     \<lparr>rs_Total = Total s, rs_Pending = Pending s, rs_Running = Running s, rs_Completed = Completed s, rs_Failed = Failed s,
      rs_Retrying = Retrying s, rs_Skipped = Skipped s, rs_StartedAt = sum_StartedAt s, rs_FinishedAt = sum_FinishedAt s,
      rs_TotalRows = TotalRows s\<rparr>"

text \<open>The run, empty if there is none yet but a phase of the project is known, with the summary of the run.\<close>

definition GetStatus ::
    "(string \<Rightarrow> string option) \<Rightarrow> (string \<rightharpoonup> MigrationPhase) \<Rightarrow> string \<Rightarrow> job_db \<Rightarrow> JobStatusResponse reply" where
  "GetStatus parse phases projectID s =
     (let phase = phases projectID
      in case GetLatestRunID s of
           Inl e \<Rightarrow>
             (if phase \<noteq> None then
                Reply 200 \<lparr>sr_RunID = '''', sr_Phase = phase, sr_Summary = zero_summary, sr_Jobs = [], sr_PipelineStats = []\<rparr>
              else Failure 404 ''no migration runs found'' e)
         | Inr runID \<Rightarrow>
             Reply 200 \<lparr>sr_RunID = runID, sr_Phase = phase, sr_Summary = summary_response (GetRunSummary parse runID s),
               sr_Jobs = [], sr_PipelineStats = []\<rparr>)"

text \<open>Neither answer depends on the project: every project is shown the latest run of the store.\<close>

lemma jobs_not_per_project: "view_GetJobs before shuffle listed p tableFilter st s = view_GetJobs before shuffle listed q tableFilter st s"
  by (simp add: view_GetJobs_def)

section \<open>No row is lost\<close>

lemma AList_update_sum:
  fixes f :: "'b \<Rightarrow> int"
  assumes "distinct (map fst al)"
  shows "sum_list (map (f \<circ> snd) (AList.update k v al)) =
    sum_list (map (f \<circ> snd) al) + f v - (case map_of al k of None \<Rightarrow> 0 | Some old \<Rightarrow> f old)"
  using assms
proof (induction al)
  case (Cons a al)
  have "map_of al k = None" if "fst a = k" using Cons.prems that by (simp add: map_of_eq_None_iff)
  then show ?case using Cons by (cases a) auto
qed simp

lemma i64_sum_cong: "i64 a = i64 b \<Longrightarrow> i64 (c + a) = i64 (c + b)"
  by (metis i64_add_right)

definition rows_of :: "JobResponse list \<times> (string \<times> JobResponse) list \<Rightarrow> int" where
  "rows_of r = sum_list (map jr_RowsCopied (fst r)) + sum_list (map (jr_RowsCopied \<circ> snd) (snd r))"

lemma add_chunk_rows: "jr_RowsCopied (add_chunk before j agg) = i64 (jr_RowsCopied agg + RowsCopied j)"
  by (simp add: add_chunk_def)

lemma merge_jobs_rows:
  "distinct (map fst aggregated) \<Longrightarrow>
    i64 (rows_of (merge_jobs before js aggregated result)) = i64 (rows_of (result, aggregated) + sum_list (map RowsCopied js))"
proof (induction js arbitrary: aggregated result)
  case Nil
  then show ?case by simp
next
  case (Cons j js)
  show ?case
  proof (cases "isChunkPartition (j_Partition j)")
    case False
    then show ?thesis using Cons.IH [OF Cons.prems] by (simp add: rows_of_def job_response_def algebra_simps)
  next
    case True
    define agg where "agg = (case map_of aggregated (chunk_key j) of None \<Rightarrow> new_chunk_agg j | Some agg \<Rightarrow> agg)"
    define al where "al = AList.update (chunk_key j) (add_chunk before j agg) aggregated"
    have d: "distinct (map fst al)" unfolding al_def by (rule distinct_update [OF Cons.prems])
    have old: "(case map_of aggregated (chunk_key j) of None \<Rightarrow> 0 | Some old \<Rightarrow> jr_RowsCopied old) = jr_RowsCopied agg"
      by (simp add: agg_def new_chunk_agg_def split: option.splits)
    have "rows_of (result, al) = rows_of (result, aggregated) - jr_RowsCopied agg + i64 (jr_RowsCopied agg + RowsCopied j)"
      unfolding rows_of_def al_def fst_conv snd_conv AList_update_sum [OF Cons.prems] old add_chunk_rows by simp
    then have "rows_of (result, al) + sum_list (map RowsCopied js) =
        (rows_of (result, aggregated) - jr_RowsCopied agg + sum_list (map RowsCopied js)) + i64 (jr_RowsCopied agg + RowsCopied j)"
      by linarith
    then have "i64 (rows_of (result, al) + sum_list (map RowsCopied js)) =
        i64 ((rows_of (result, aggregated) - jr_RowsCopied agg + sum_list (map RowsCopied js)) + i64 (jr_RowsCopied agg + RowsCopied j))"
      by (rule arg_cong)
    also have "\<dots> = i64 (rows_of (result, aggregated) + sum_list (map RowsCopied (j # js)))"
      unfolding i64_add_right by (simp add: algebra_simps)
    finally show ?thesis using Cons.IH [OF d, of result] True by (simp add: al_def agg_def Let_def)
  qed
qed

lemma response_rows: "map jr_RowsCopied (map (fix_expected \<circ> snd) al) = map (jr_RowsCopied \<circ> snd) al"
  by (simp add: fix_expected_def)

text \<open>
  The list of jobs shows every copied row once: whatever the order in which the merged jobs come, the copied rows of
  the list and of the store have the same sum, in 64-bit arithmetic.
\<close>

theorem response_jobs_rows:
  assumes "\<And>al. mset (shuffle al) = mset al"
  shows "i64 (sum_list (map jr_RowsCopied (response_jobs before shuffle js))) = i64 (sum_list (map RowsCopied js))"
proof -
  obtain result aggregated where m: "merge_jobs before js [] [] = (result, aggregated)" by fastforce
  have "sum_list (map (jr_RowsCopied \<circ> snd) (shuffle aggregated)) = sum_list (map (jr_RowsCopied \<circ> snd) aggregated)"
    using assms [of aggregated] by (metis mset_map sum_mset_sum_list)
  then have "sum_list (map jr_RowsCopied (response_jobs before shuffle js)) = rows_of (result, aggregated)"
    by (simp only: response_jobs_def m Let_def prod.case map_append sum_list_append response_rows rows_of_def fst_conv snd_conv)
  then show ?thesis using merge_jobs_rows [of "[]" before js "[]"] by (simp add: m rows_of_def)
qed

definition demo_job :: "string \<Rightarrow> JobState \<Rightarrow> int \<Rightarrow> Job" where
  "demo_job prt st rows =
     \<lparr>ID = 1, RunID = ''r'', TableSchema = ''S'', TableName = ''T'', j_Partition = prt, Phase = ''data'', State = st, RowsExpected = 10, RowsCopied = rows,
      BytesCopied = 0, Error = '''', Attempt = 0, StartedAt = None, FinishedAt = None\<rparr>"

definition demo_jobs :: "Job list" where
  "demo_jobs = [demo_job ''chunk:0'' JobCompleted 10, demo_job ''P1'' JobCompleted 5, demo_job ''chunk:1'' JobRunning 7]"

theorem response_jobs_rows_witness:
  "length (response_jobs (\<lambda>a b. False) rev demo_jobs) = 2 \<and>
   i64 (sum_list (map jr_RowsCopied (response_jobs (\<lambda>a b. False) rev demo_jobs))) = 22"
proof -
  have "length (response_jobs (\<lambda>a b. False) rev demo_jobs) = 2" by code_simp
  moreover have "i64 (sum_list (map jr_RowsCopied (response_jobs (\<lambda>a b. False) rev demo_jobs))) = i64 22"
    using response_jobs_rows [of rev "\<lambda>a b. False" demo_jobs] by (simp add: demo_jobs_def demo_job_def)
  ultimately show ?thesis by (simp add: in_i64_nonneg)
qed

section \<open>The state of a merged job\<close>

definition key_states :: "Job list \<Rightarrow> string \<Rightarrow> JobState set" where
  "key_states js k = State ` {j \<in> set js. isChunkPartition (j_Partition j) \<and> chunk_key j = k}"

lemma key_states_simps [simp]:
  "key_states [] k = {}" "finite (key_states js k)"
  "key_states (js @ [j]) k = (if isChunkPartition (j_Partition j) \<and> chunk_key j = k then insert (State j) (key_states js k) else key_states js k)"
  by (auto simp: key_states_def)

text \<open>The merged jobs of \<open>ds\<close>: one for each key, with the worst of its states.\<close>

definition shows_worst :: "Job list \<Rightarrow> (string \<times> JobResponse) list \<Rightarrow> bool" where
  "shows_worst ds aggregated \<longleftrightarrow>
     (\<forall>k. (map_of aggregated k = None \<longrightarrow> key_states ds k = {}) \<and>
          (\<forall>r. map_of aggregated k = Some r \<longrightarrow> key_states ds k \<noteq> {} \<and> jr_State r = Max (key_states ds k)))"

lemma shows_worst_step:
  assumes "shows_worst ds aggregated" "isChunkPartition (j_Partition j)"
  shows "shows_worst (ds @ [j]) (AList.update (chunk_key j)
    (add_chunk before j (case map_of aggregated (chunk_key j) of None \<Rightarrow> new_chunk_agg j | Some agg \<Rightarrow> agg)) aggregated)"
proof -
  let ?agg = "case map_of aggregated (chunk_key j) of None \<Rightarrow> new_chunk_agg j | Some agg \<Rightarrow> agg"
  have "jr_State (add_chunk before j ?agg) = Max (insert (State j) (key_states ds (chunk_key j)))"
  proof (cases "map_of aggregated (chunk_key j)")
    case None
    then have "key_states ds (chunk_key j) = {}" using assms(1) by (simp add: shows_worst_def)
    then show ?thesis using None by (simp add: add_chunk_def new_chunk_agg_def mergeJobState_max)
  next
    case (Some r)
    then have "key_states ds (chunk_key j) \<noteq> {}" "jr_State r = Max (key_states ds (chunk_key j))"
      using assms(1) by (simp_all add: shows_worst_def)
    then show ?thesis using Some by (simp add: add_chunk_def mergeJobState_max max.commute)
  qed
  then show ?thesis using assms by (simp add: shows_worst_def update_conv')
qed

lemma merge_jobs_worst:
  "shows_worst ds aggregated \<Longrightarrow> shows_worst (ds @ js) (snd (merge_jobs before js aggregated result))"
proof (induction js arbitrary: ds aggregated result)
  case Nil
  then show ?case by simp
next
  case (Cons j js)
  show ?case
  proof (cases "isChunkPartition (j_Partition j)")
    case True
    then show ?thesis using Cons.IH [OF shows_worst_step [OF Cons.prems True]] by (simp add: Let_def)
  next
    case False
    then have "shows_worst (ds @ [j]) aggregated" using Cons.prems by (simp add: shows_worst_def)
    from Cons.IH [OF this] show ?thesis using False by simp
  qed
qed

text \<open>
  C23. The state shown for a chunked table or partition is the worst state of its chunks in a phase, in the order skipped,
  completed, pending, retrying, running, failed: so a failed chunk is never hidden by the merge.
\<close>

theorem merged_state_worst:
  assumes "map_of (snd (merge_jobs before js [] [])) k = Some r"
  shows "jr_State r = Max (State ` {j \<in> set js. isChunkPartition (j_Partition j) \<and> chunk_key j = k}) \<and>
    (jr_State r = JobFailed \<longleftrightarrow> (\<exists>j \<in> set js. isChunkPartition (j_Partition j) \<and> chunk_key j = k \<and> State j = JobFailed))"
proof -
  have "shows_worst js (snd (merge_jobs before js [] []))"
    using merge_jobs_worst [of "[]" "[]" js before "[]"] by (simp add: shows_worst_def)
  then have r: "key_states js k \<noteq> {}" "jr_State r = Max (key_states js k)" using assms by (simp_all add: shows_worst_def)
  have "Max (key_states js k) = JobFailed \<longleftrightarrow> JobFailed \<in> key_states js k"
    using r(1) Max_in [of "key_states js k"] by (metis JobFailed_greatest Max_eqI key_states_simps(2))
  then show ?thesis unfolding r(2) by (auto simp: key_states_def image_iff)
qed

theorem merged_state_worst_witness:
  "map_option jr_State (map_of (snd (merge_jobs (\<lambda>a b. False) demo_jobs [] [])) ''T::data'') = Some JobRunning \<and>
   Max (State ` {j \<in> set demo_jobs. isChunkPartition (j_Partition j) \<and> chunk_key j = ''T::data''}) = JobRunning"
proof -
  have "map_option jr_State (map_of (snd (merge_jobs (\<lambda>a b. False) demo_jobs [] [])) ''T::data'') = Some JobRunning" by code_simp
  then obtain r where r: "map_of (snd (merge_jobs (\<lambda>a b. False) demo_jobs [] [])) ''T::data'' = Some r" "jr_State r = JobRunning" by auto
  show ?thesis using merged_state_worst [OF r(1)] r by simp
qed

section \<open>The counters of the summary\<close>

definition counted_states :: "Job list \<Rightarrow> JobState list" where
  "counted_states js = map State (filter (\<lambda>j. \<not> isChunkPartition (j_Partition j)) js) @
     map (\<lambda>g. group_state (group_states js g)) (chunk_groups js)"

lemma count_six: "length (filter (\<lambda>s. s = JobPending) sts) + length (filter (\<lambda>s. s = JobRunning) sts) +
    length (filter (\<lambda>s. s = JobCompleted) sts) + length (filter (\<lambda>s. s = JobFailed) sts) +
    length (filter (\<lambda>s. s = JobRetrying) sts) + length (filter (\<lambda>s. s = JobSkipped) sts) = length sts"
proof (induction sts)
  case (Cons s sts)
  then show ?case by (cases s) simp_all
qed simp

lemma summary_counts:
  "rs_Total (buildRunSummaryWithTiming before js) = int (length (counted_states js))"
  "rs_Pending (buildRunSummaryWithTiming before js) = int (length (filter (\<lambda>s. s = JobPending) (counted_states js)))"
  "rs_Running (buildRunSummaryWithTiming before js) = int (length (filter (\<lambda>s. s = JobRunning) (counted_states js)))"
  "rs_Completed (buildRunSummaryWithTiming before js) = int (length (filter (\<lambda>s. s = JobCompleted) (counted_states js)))"
  "rs_Failed (buildRunSummaryWithTiming before js) = int (length (filter (\<lambda>s. s = JobFailed) (counted_states js)))"
  "rs_Retrying (buildRunSummaryWithTiming before js) = int (length (filter (\<lambda>s. s = JobRetrying) (counted_states js)))"
  "rs_Skipped (buildRunSummaryWithTiming before js) = int (length (filter (\<lambda>s. s = JobSkipped) (counted_states js)))"
  by (simp_all add: buildRunSummaryWithTiming_def Let_def counted_states_def)

lemma group_state_failed: "group_state sts = JobFailed \<longleftrightarrow> JobFailed \<in> set sts"
  by (simp add: group_state_def)

lemma group_state_completed: "group_state sts = JobCompleted \<longleftrightarrow> (\<forall>s \<in> set sts. s = JobCompleted)"
proof -
  have "length (filter (\<lambda>s. s = JobCompleted) sts) = length sts \<longleftrightarrow> (\<forall>s \<in> set sts. s = JobCompleted)"
    by (metis (mono_tags, lifting) filter_True length_filter_less nat_neq_iff)
  then show ?thesis by (auto simp: group_state_def)
qed

lemma counted_all:
  assumes "\<And>sts. P (group_state sts) \<longleftrightarrow> (\<forall>s \<in> set sts. P s)"
  shows "(\<forall>s \<in> set (counted_states js). P s) \<longleftrightarrow> (\<forall>j \<in> set js. P (State j))"
proof -
  have "(\<forall>s \<in> set (counted_states js). P s) \<longleftrightarrow>
      (\<forall>j \<in> set js. \<not> isChunkPartition (j_Partition j) \<longrightarrow> P (State j)) \<and>
      (\<forall>j \<in> set js. isChunkPartition (j_Partition j) \<longrightarrow>
         (\<forall>i \<in> set js. isChunkPartition (j_Partition i) \<and> (TableName i, Phase i) = (TableName j, Phase j) \<longrightarrow> P (State i)))"
    by (simp add: counted_states_def chunk_groups_def group_states_def assms ball_Un) blast
  then show ?thesis by blast
qed

lemma counted_failed: "(\<forall>s \<in> set (counted_states js). s \<noteq> JobFailed) \<longleftrightarrow> (\<forall>j \<in> set js. State j \<noteq> JobFailed)"
  by (rule counted_all) (use group_state_failed in metis)

lemma counted_completed: "(\<forall>s \<in> set (counted_states js). s = JobCompleted) \<longleftrightarrow> (\<forall>j \<in> set js. State j = JobCompleted)"
  by (rule counted_all) (rule group_state_completed)

text \<open>
  The summary of the user interface: its parts add up to its total, it counts a failure exactly when some job
  failed, and everything as completed exactly when every job is completed; chunks count once for their table and phase.
\<close>

theorem run_summary_counts:
  "(case buildRunSummaryWithTiming before js of s \<Rightarrow>
     rs_Total s = rs_Pending s + rs_Running s + rs_Completed s + rs_Failed s + rs_Retrying s + rs_Skipped s \<and>
     (rs_Failed s > 0 \<longleftrightarrow> (\<exists>j \<in> set js. State j = JobFailed)) \<and>
     (rs_Completed s = rs_Total s \<longleftrightarrow> list_all (\<lambda>j. State j = JobCompleted) js))"
proof -
  let ?s = "buildRunSummaryWithTiming before js"
  have total: "rs_Total ?s = rs_Pending ?s + rs_Running ?s + rs_Completed ?s + rs_Failed ?s + rs_Retrying ?s + rs_Skipped ?s"
    unfolding summary_counts using count_six [of "counted_states js"] by linarith
  have "length (filter (\<lambda>s. s = JobFailed) (counted_states js)) > 0 \<longleftrightarrow> \<not> (\<forall>s \<in> set (counted_states js). s \<noteq> JobFailed)"
    by (auto simp: filter_empty_conv)
  then have failed: "rs_Failed ?s > 0 \<longleftrightarrow> (\<exists>j \<in> set js. State j = JobFailed)"
    unfolding summary_counts counted_failed by simp
  have "length (filter (\<lambda>s. s = JobCompleted) (counted_states js)) = length (counted_states js) \<longleftrightarrow>
      (\<forall>s \<in> set (counted_states js). s = JobCompleted)"
    by (metis (mono_tags, lifting) filter_True length_filter_less nat_neq_iff)
  then have "rs_Completed ?s = rs_Total ?s \<longleftrightarrow> (\<forall>j \<in> set js. State j = JobCompleted)"
    unfolding summary_counts by (simp add: counted_completed)
  with total failed show ?thesis by (simp add: list_all_iff)
qed

end
