(* ===== verification/Broadcaster.thy ===== *)
theory Broadcaster
  imports Progress_Events "HOL-Library.Multiset"
begin

text \<open>
  \<open>pkg/api/progress.go\<close>: the broadcaster between the migrations and the clients of the event stream, and the
  stream handler of \<open>pkg/api/handlers.go\<close>. A channel is a buffer of 64 events with the flag that it was closed; the state also
  holds the calls of \<open>Send\<close> and \<open>Close\<close> that have left the mutex and still have channels to visit, so a step is a
  critical section, one channel operation or one receive, and goroutines interleave freely between them. \<open>ch_project\<close> and
  \<open>ch_got\<close> are bookkeeping of the model: for whom a channel was made and what its client has received. The lemmas are the
  invariant that holds under every interleaving, and the interleaving that panics.
\<close>

section \<open>State and steps\<close>

record channel =
  ch_project :: string
  ch_buffer :: "ProgressEvent list"
  ch_closed :: bool
  ch_got :: "ProgressEvent list"

record broadcaster =
  subscribers :: "(string \<times> nat) list"
  channels :: "channel list"
  sends :: "(string \<times> ProgressEvent \<times> nat list) list"
  closes :: "nat list"
  panicked :: bool

definition NewBroadcaster :: broadcaster where
  "NewBroadcaster = \<lparr>subscribers = [], channels = [], sends = [], closes = [], panicked = False\<rparr>"

definition project_channels :: "broadcaster \<Rightarrow> string \<Rightarrow> nat list" where
  "project_channels s projectID = map snd (filter (\<lambda>x. fst x = projectID) (subscribers s))"

definition HasSubscribers :: "broadcaster \<Rightarrow> string \<Rightarrow> bool" where
  "HasSubscribers s projectID = (project_channels s projectID \<noteq> [])"

definition Subscribe :: "string \<Rightarrow> broadcaster \<Rightarrow> nat \<times> broadcaster" where
  "Subscribe projectID s =
     (let ch = length (channels s)
      in (ch, s\<lparr>channels := channels s @ [\<lparr>ch_project = projectID, ch_buffer = [], ch_closed = False, ch_got = []\<rparr>],
                subscribers := subscribers s @ [(projectID, ch)]\<rparr>))"

text \<open>The deletion under the lock; the drain of the buffer afterwards is the step \<open>drain\<close>.\<close>

definition unsubscribe :: "string \<Rightarrow> nat \<Rightarrow> broadcaster \<Rightarrow> broadcaster" where
  "unsubscribe projectID ch s = s\<lparr>subscribers := removeAll (projectID, ch) (subscribers s)\<rparr>"

text \<open>A send that does not block: an event for a full buffer is dropped, a send on a closed channel panics.\<close>

definition try_send :: "ProgressEvent \<Rightarrow> nat \<Rightarrow> broadcaster \<Rightarrow> broadcaster" where
  "try_send event ch s =
     (let c = channels s ! ch
      in if ch_closed c then s\<lparr>panicked := True\<rparr>
         else if length (ch_buffer c) < 64 then s\<lparr>channels := (channels s)[ch := c\<lparr>ch_buffer := ch_buffer c @ [event]\<rparr>]\<rparr>
         else s)"

definition close_channel :: "nat \<Rightarrow> broadcaster \<Rightarrow> broadcaster" where
  "close_channel ch s =
     (let c = channels s ! ch
      in if ch_closed c then s\<lparr>panicked := True\<rparr> else s\<lparr>channels := (channels s)[ch := c\<lparr>ch_closed := True\<rparr>]\<rparr>)"

text \<open>The critical sections of \<open>Send\<close> and \<open>Close\<close>.\<close>

definition send_begin :: "string \<Rightarrow> ProgressEvent \<Rightarrow> broadcaster \<Rightarrow> broadcaster" where
  "send_begin projectID event s = s\<lparr>sends := sends s @ [(projectID, event, project_channels s projectID)]\<rparr>"

definition close_begin :: "string \<Rightarrow> broadcaster \<Rightarrow> broadcaster" where
  "close_begin projectID s =
     s\<lparr>closes := closes s @ project_channels s projectID,
       subscribers := filter (\<lambda>x. fst x \<noteq> projectID) (subscribers s)\<rparr>"

definition take_event :: "bool \<Rightarrow> nat \<Rightarrow> broadcaster \<Rightarrow> broadcaster" where
  "take_event received ch s =
     (let c = channels s ! ch; e = hd (ch_buffer c)
      in s\<lparr>channels := (channels s)[ch := c\<lparr>ch_buffer := tl (ch_buffer c), ch_got := (if received then ch_got c @ [e] else ch_got c)\<rparr>]\<rparr>)"

text \<open>The label of a step is the call of \<open>Send\<close> that it begins.\<close>

inductive bc_step :: "broadcaster \<Rightarrow> (string \<times> ProgressEvent) list \<Rightarrow> broadcaster \<Rightarrow> bool" where
  subscribes: "bc_step s [] (snd (Subscribe projectID s))"
| unsubscribes: "bc_step s [] (unsubscribe projectID ch s)"
| send_starts: "bc_step s [(projectID, event)] (send_begin projectID event s)"
| send_visits: "sends s = xs @ (projectID, event, chs) # ys \<Longrightarrow> ch \<in> set chs \<Longrightarrow>
    bc_step s [] (try_send event ch (s\<lparr>sends := xs @ (projectID, event, remove1 ch chs) # ys\<rparr>))"
| close_starts: "bc_step s [] (close_begin projectID s)"
| close_visits: "ch \<in> set (closes s) \<Longrightarrow> bc_step s [] (close_channel ch (s\<lparr>closes := remove1 ch (closes s)\<rparr>))"
| receives: "ch < length (channels s) \<Longrightarrow> ch_buffer (channels s ! ch) \<noteq> [] \<Longrightarrow> bc_step s [] (take_event True ch s)"
| drains: "ch < length (channels s) \<Longrightarrow> ch_buffer (channels s ! ch) \<noteq> [] \<Longrightarrow> bc_step s [] (take_event False ch s)"

inductive_cases bc_stepE: "bc_step s l s'"

text \<open>Reachable states with the calls of \<open>Send\<close> on the way, in the order of their critical sections.\<close>

inductive bc_reaches :: "(string \<times> ProgressEvent) list \<Rightarrow> broadcaster \<Rightarrow> bool" where
  bc_start: "bc_reaches [] NewBroadcaster"
| bc_more: "bc_reaches sent s \<Longrightarrow> bc_step s l s' \<Longrightarrow> bc_reaches (sent @ l) s'"

text \<open>The callback that the engine gets.\<close>

definition ProgressCallback ::
    "string \<Rightarrow> string \<Rightarrow> string \<Rightarrow> string \<Rightarrow> int \<Rightarrow> int \<Rightarrow> float64_bits \<Rightarrow> broadcaster \<Rightarrow> broadcaster" where
  "ProgressCallback projectID table prt status rows speed percent =
     send_begin projectID (zero_event\<lparr>ev_Table := table, ev_Partition := prt, ev_Rows := rows, ev_Speed := speed,
       ev_Percent := percent, ev_State := status\<rparr>)"

text \<open>
  The body of the event stream of a client that has received \<open>got\<close>; \<open>ended\<close> says that its channel was closed and emptied. \<open>json\<close> is
  the encoding of an event.
\<close>

definition newline :: string where [simp]: "newline = [char_of (10::nat)]"

definition StreamProgress :: "(ProgressEvent \<Rightarrow> string) \<Rightarrow> ProgressEvent list \<Rightarrow> bool \<Rightarrow> string" where
  "StreamProgress json got ended =
     '': connected'' @ newline @ newline @
     concat (map (\<lambda>e. ''data: '' @ json e @ newline @ newline) got) @
     (if ended then ''event: done'' @ newline @ ''data: {}'' @ newline @ newline else '''')"

section \<open>The invariant\<close>

definition pending :: "broadcaster \<Rightarrow> nat \<Rightarrow> ProgressEvent multiset" where
  "pending s ch = mset (map (fst \<circ> snd) (filter (\<lambda>x. ch \<in> set (snd (snd x))) (sends s)))"

definition sent_to :: "(string \<times> ProgressEvent) list \<Rightarrow> string \<Rightarrow> ProgressEvent multiset" where
  "sent_to sent projectID = mset (map snd (filter (\<lambda>x. fst x = projectID) sent))"

definition registered_ok :: "broadcaster \<Rightarrow> bool" where
  "registered_ok s \<longleftrightarrow> distinct (map snd (subscribers s)) \<and>
     (\<forall>(p, ch) \<in> set (subscribers s). ch < length (channels s) \<and> ch_project (channels s ! ch) = p \<and>
        \<not> ch_closed (channels s ! ch) \<and> ch \<notin> set (closes s))"

definition closing_ok :: "broadcaster \<Rightarrow> bool" where
  "closing_ok s \<longleftrightarrow> distinct (closes s) \<and> (\<forall>ch \<in> set (closes s). ch < length (channels s) \<and> \<not> ch_closed (channels s ! ch))"

definition sending_ok :: "broadcaster \<Rightarrow> bool" where
  "sending_ok s \<longleftrightarrow> (\<forall>(p, e, chs) \<in> set (sends s). distinct chs \<and>
     (\<forall>ch \<in> set chs. ch < length (channels s) \<and> ch_project (channels s ! ch) = p))"

definition delivery_ok :: "(string \<times> ProgressEvent) list \<Rightarrow> broadcaster \<Rightarrow> bool" where
  "delivery_ok sent s \<longleftrightarrow> (\<forall>ch < length (channels s).
     length (ch_buffer (channels s ! ch)) \<le> 64 \<and>
     mset (ch_got (channels s ! ch)) + mset (ch_buffer (channels s ! ch)) + pending s ch
       \<subseteq># sent_to sent (ch_project (channels s ! ch)))"

definition bc_inv :: "(string \<times> ProgressEvent) list \<Rightarrow> broadcaster \<Rightarrow> bool" where
  "bc_inv sent s \<longleftrightarrow> registered_ok s \<and> closing_ok s \<and> sending_ok s \<and> delivery_ok sent s"

lemmas bc_inv_defs = bc_inv_def registered_ok_def closing_ok_def sending_ok_def delivery_ok_def

lemma inv_subscribe: "bc_inv sent s \<Longrightarrow> bc_inv sent (snd (Subscribe p s))"
proof -
  assume inv: "bc_inv sent s"
  have "filter (\<lambda>x. length (channels s) \<in> set (snd (snd x))) (sends s) = []"
    using inv by (fastforce simp: bc_inv_def sending_ok_def filter_empty_conv)
  then have "pending (snd (Subscribe p s)) (length (channels s)) = {#}" by (simp add: pending_def Subscribe_def Let_def)
  moreover have "pending (snd (Subscribe p s)) ch = pending s ch" for ch by (simp add: pending_def Subscribe_def Let_def)
  ultimately show ?thesis using inv
    by (fastforce simp: bc_inv_defs Subscribe_def Let_def nth_append less_Suc_eq)
qed

lemma inv_unsubscribe: "bc_inv sent s \<Longrightarrow> bc_inv sent (unsubscribe p ch s)"
  by (auto simp: bc_inv_defs unsubscribe_def pending_def removeAll_filter_not_eq distinct_map_filter)

lemma project_channels_set: "ch \<in> set (project_channels s p) \<longleftrightarrow> (p, ch) \<in> set (subscribers s)"
  by (force simp: project_channels_def)

lemma project_channels_distinct: "registered_ok s \<Longrightarrow> distinct (project_channels s p)"
  by (simp add: registered_ok_def project_channels_def distinct_map_filter)

lemma inv_close_begin:
  assumes "bc_inv sent s"
  shows "bc_inv sent (close_begin p s)"
proof -
  have r: "registered_ok s" and c: "closing_ok s" and d: "sending_ok s" "delivery_ok sent s" using assms by (simp_all add: bc_inv_def)
  have "registered_ok (close_begin p s)"
    using r by (auto simp: registered_ok_def close_begin_def distinct_map_filter project_channels_set dest: inj_onD [OF distinct_map [THEN iffD1, THEN conjunct2]])
  moreover have "closing_ok (close_begin p s)"
    using r c project_channels_distinct [OF r, of p]
    by (auto simp: closing_ok_def registered_ok_def close_begin_def project_channels_set)
  moreover have "sending_ok (close_begin p s)" "delivery_ok sent (close_begin p s)"
    using d by (simp_all add: sending_ok_def delivery_ok_def close_begin_def pending_def)
  ultimately show ?thesis by (simp add: bc_inv_def)
qed

lemma inv_send_begin:
  assumes "bc_inv sent s"
  shows "bc_inv (sent @ [(p, e)]) (send_begin p e s)"
proof -
  have r: "registered_ok s" and c: "closing_ok s" and d: "sending_ok s" "delivery_ok sent s" using assms by (simp_all add: bc_inv_def)
  have "registered_ok (send_begin p e s)" "closing_ok (send_begin p e s)"
    using r c by (simp_all add: registered_ok_def closing_ok_def send_begin_def)
  moreover have "sending_ok (send_begin p e s)"
    using d(1) r project_channels_distinct [OF r, of p]
    by (auto simp: sending_ok_def registered_ok_def send_begin_def project_channels_set)
  moreover have "delivery_ok (sent @ [(p, e)]) (send_begin p e s)"
  proof -
    have "mset (ch_got c) + mset (ch_buffer c) + pending (send_begin p e s) ch \<subseteq># sent_to (sent @ [(p, e)]) (ch_project c)"
      if "ch < length (channels s)" "c = channels s ! ch" for ch c
    proof (cases "ch \<in> set (project_channels s p)")
      case True
      then have "ch_project c = p" using r that(2) by (auto simp: registered_ok_def project_channels_set)
      then show ?thesis using True d(2) that by (auto simp: delivery_ok_def pending_def sent_to_def send_begin_def add.assoc)
    next
      case False
      have "sent_to sent (ch_project c) \<subseteq># sent_to (sent @ [(p, e)]) (ch_project c)" by (simp add: sent_to_def)
      moreover have "pending (send_begin p e s) ch = pending s ch" using False by (simp add: pending_def send_begin_def)
      ultimately show ?thesis using d(2) that by (auto simp: delivery_ok_def intro: subset_mset.trans)
    qed
    then show ?thesis using d(2) by (simp add: delivery_ok_def send_begin_def)
  qed
  ultimately show ?thesis by (simp add: bc_inv_def)
qed

lemma pending_visit:
  assumes "sends s = xs @ (p, e, chs) # ys" "ch \<in> set chs" "distinct chs"
  shows "pending s c = pending (s\<lparr>sends := xs @ (p, e, remove1 ch chs) # ys\<rparr>) c + (if c = ch then {#e#} else {#})"
  using assms by (simp add: pending_def)

text \<open>Replacing a channel by one of the same project, open if it was open, keeps all but the delivery.\<close>

lemma nth_update: "xs[i := x] ! j = (if j = i \<and> i < length xs then x else xs ! j)"
  by (cases "i < length xs") (auto simp: list_update_beyond)

lemma update_channel_ok:
  assumes "ch_project c = ch_project (channels s ! ch)" "ch_closed c = ch_closed (channels s ! ch)"
  shows "registered_ok (s\<lparr>channels := (channels s)[ch := c]\<rparr>) = registered_ok s"
    and "closing_ok (s\<lparr>channels := (channels s)[ch := c]\<rparr>) = closing_ok s"
    and "sending_ok (s\<lparr>channels := (channels s)[ch := c]\<rparr>) = sending_ok s"
proof -
  have p: "ch_project ((channels s)[ch := c] ! k) = ch_project (channels s ! k)"
    and q: "ch_closed ((channels s)[ch := c] ! k) = ch_closed (channels s ! k)" for k
    using assms by (simp_all add: nth_update)
  show "registered_ok (s\<lparr>channels := (channels s)[ch := c]\<rparr>) = registered_ok s"
    and "closing_ok (s\<lparr>channels := (channels s)[ch := c]\<rparr>) = closing_ok s"
    and "sending_ok (s\<lparr>channels := (channels s)[ch := c]\<rparr>) = sending_ok s"
    by (simp_all add: registered_ok_def closing_ok_def sending_ok_def p q)
qed

definition delivered :: "channel \<Rightarrow> ProgressEvent multiset" where
  "delivered c = mset (ch_got c) + mset (ch_buffer c)"

definition channel_ok :: "(string \<times> ProgressEvent) list \<Rightarrow> ProgressEvent multiset \<Rightarrow> channel \<Rightarrow> bool" where
  "channel_ok sent waiting c \<longleftrightarrow> length (ch_buffer c) \<le> 64 \<and> delivered c + waiting \<subseteq># sent_to sent (ch_project c)"

lemma delivery_channel: "delivery_ok sent s \<longleftrightarrow> (\<forall>ch < length (channels s). channel_ok sent (pending s ch) (channels s ! ch))"
  by (simp add: delivery_ok_def channel_ok_def delivered_def)

lemma channel_ok_less: "channel_ok sent w c \<Longrightarrow> v \<subseteq># w \<Longrightarrow> channel_ok sent v c"
  unfolding channel_ok_def by (meson subset_mset.add_left_mono subset_mset.order_trans)

lemma inv_try_send:
  assumes inv: "bc_inv sent s" and s: "sends s = xs @ (p, e, chs) # ys" and ch: "ch \<in> set chs"
  shows "bc_inv sent (try_send e ch (s\<lparr>sends := xs @ (p, e, remove1 ch chs) # ys\<rparr>))"
    (is "bc_inv sent (try_send e ch ?s)")
proof -
  have r: "registered_ok s" and c: "closing_ok s" and d: "sending_ok s" "delivery_ok sent s" using inv by (simp_all add: bc_inv_def)
  have chs: "distinct chs" "ch < length (channels s)" using d(1) s ch by (auto simp: sending_ok_def)
  have ok: "registered_ok ?s" "closing_ok ?s" using r c by (simp_all add: registered_ok_def closing_ok_def)
  have sending: "sending_ok ?s"
    using d(1) s set_remove1_subset [of ch chs] by (auto simp: sending_ok_def)
  have pend: "pending s k = pending ?s k + (if k = ch then {#e#} else {#})" for k by (rule pending_visit [OF s ch chs(1)])
  have chan: "channel_ok sent (pending s k) (channels s ! k)" if "k < length (channels s)" for k
    using d(2) that by (simp add: delivery_channel)
  show ?thesis
  proof (cases "\<not> ch_closed (channels s ! ch) \<and> length (ch_buffer (channels s ! ch)) < 64")
    case True
    let ?c = "(channels s ! ch)\<lparr>ch_buffer := ch_buffer (channels s ! ch) @ [e]\<rparr>"
    have t: "try_send e ch ?s = ?s\<lparr>channels := (channels ?s)[ch := ?c]\<rparr>" using True by (simp add: try_send_def Let_def)
    have p: "pending (try_send e ch ?s) k = pending ?s k" for k by (simp add: pending_def t)
    have "channel_ok sent (pending ?s ch) ?c"
      using chan [OF chs(2)] True by (simp add: channel_ok_def delivered_def pend [of ch])
    then have "delivery_ok sent (try_send e ch ?s)"
      unfolding delivery_channel p using chan by (fastforce simp: t nth_update pend)
    then show ?thesis unfolding bc_inv_def t
      using ok sending update_channel_ok [of ?c ?s ch] by simp
  next
    case False
    obtain b where t: "try_send e ch ?s = ?s\<lparr>panicked := b\<rparr>"
    proof (cases "ch_closed (channels s ! ch)")
      case True
      then show ?thesis by (intro that [of True]) (simp add: try_send_def)
    next
      case still_open: False
      then show ?thesis using False by (intro that [of "panicked s"]) (simp add: try_send_def)
    qed
    have "delivery_ok sent (try_send e ch ?s)"
      unfolding delivery_channel
    proof (intro allI impI)
      fix k assume "k < length (channels (try_send e ch ?s))"
      then have "channel_ok sent (pending s k) (channels s ! k)" using chan by (simp add: t)
      moreover have "pending (try_send e ch ?s) k \<subseteq># pending s k" unfolding pend by (simp add: t pending_def)
      ultimately show "channel_ok sent (pending (try_send e ch ?s) k) (channels (try_send e ch ?s) ! k)"
        using channel_ok_less by (simp add: t)
    qed
    then show ?thesis using ok sending by (simp add: t bc_inv_def registered_ok_def closing_ok_def sending_ok_def)
  qed
qed

lemma inv_close_channel:
  assumes inv: "bc_inv sent s" and ch: "ch \<in> set (closes s)"
  shows "bc_inv sent (close_channel ch (s\<lparr>closes := remove1 ch (closes s)\<rparr>))" (is "bc_inv sent ?s")
proof -
  have r: "registered_ok s" and c: "closing_ok s" and d: "sending_ok s" "delivery_ok sent s" using inv by (simp_all add: bc_inv_def)
  have ok: "ch < length (channels s)" "\<not> ch_closed (channels s ! ch)" "distinct (closes s)" using c ch by (auto simp: closing_ok_def)
  let ?c = "(channels s ! ch)\<lparr>ch_closed := True\<rparr>"
  have t: "?s = s\<lparr>closes := remove1 ch (closes s), channels := (channels s)[ch := ?c]\<rparr>"
    using ok by (simp add: close_channel_def Let_def)
  have p: "ch_project ((channels s)[ch := ?c] ! k) = ch_project (channels s ! k)" for k by (simp add: nth_update)
  have "k \<noteq> ch" if "(p, k) \<in> set (subscribers s)" for p k using r ch that by (auto simp: registered_ok_def)
  then have "registered_ok ?s" using r set_remove1_subset [of ch "closes s"] unfolding t
    by (auto simp: registered_ok_def nth_update)
  moreover have "closing_ok ?s" using c ok by (auto simp: t closing_ok_def nth_update)
  moreover have "sending_ok ?s" using d(1) by (simp add: t sending_ok_def p)
  moreover have "delivery_ok sent ?s"
  proof -
    have "pending ?s k = pending s k" for k by (simp add: t pending_def)
    moreover have "channel_ok sent w ((channels s)[ch := ?c] ! k) = channel_ok sent w (channels s ! k)" for w k
      by (simp add: nth_update channel_ok_def delivered_def)
    ultimately show ?thesis using d(2) by (simp add: delivery_channel t)
  qed
  ultimately show ?thesis by (simp add: bc_inv_def)
qed

lemma inv_take_event:
  assumes inv: "bc_inv sent s" and ch: "ch < length (channels s)" "ch_buffer (channels s ! ch) \<noteq> []"
  shows "bc_inv sent (take_event b ch s)"
proof -
  obtain e es where buf: "ch_buffer (channels s ! ch) = e # es" using ch(2) by (cases "ch_buffer (channels s ! ch)") auto
  define c where "c = (channels s ! ch)\<lparr>ch_buffer := es,
      ch_got := (if b then ch_got (channels s ! ch) @ [e] else ch_got (channels s ! ch))\<rparr>"
  have t: "take_event b ch s = s\<lparr>channels := (channels s)[ch := c]\<rparr>"
    by (simp add: take_event_def buf Let_def c_def)
  have p: "pending (take_event b ch s) k = pending s k" for k by (simp add: pending_def t)
  have chan: "channel_ok sent (pending s k) (channels s ! k)" if "k < length (channels s)" for k
    using inv that by (simp add: bc_inv_def delivery_channel)
  have "delivered c \<subseteq># delivered (channels s ! ch)" by (simp add: delivered_def c_def buf)
  then have "channel_ok sent (pending s ch) c"
    using chan [OF ch(1)] unfolding channel_ok_def
    by (auto simp: c_def buf intro: subset_mset.order_trans [OF subset_mset.add_right_mono])
  then have "delivery_ok sent (take_event b ch s)"
    unfolding delivery_channel p using chan by (auto simp: t nth_update)
  moreover have "registered_ok (take_event b ch s)" "closing_ok (take_event b ch s)" "sending_ok (take_event b ch s)"
    using inv update_channel_ok [of c s ch] by (simp_all add: t c_def bc_inv_def)
  ultimately show ?thesis by (simp add: bc_inv_def)
qed

lemma inv_step: "bc_step s l s' \<Longrightarrow> bc_inv sent s \<Longrightarrow> bc_inv (sent @ l) s'"
  by (erule bc_stepE)
     (simp_all add: inv_subscribe inv_unsubscribe inv_send_begin inv_try_send inv_close_begin inv_close_channel inv_take_event)

lemma inv_start: "bc_inv [] NewBroadcaster"
  by (simp add: bc_inv_defs NewBroadcaster_def)

lemma bc_reaches_inv: "bc_reaches sent s \<Longrightarrow> bc_inv sent s"
  by (induction rule: bc_reaches.induct) (auto intro: inv_start inv_step)

text \<open>
  C14. Events reach their own clients at most once: under every interleaving of subscriptions, sends, receives and
  closings, a channel holds at most 64 events, what its client has received and what is still in the buffer are, counted with
  multiplicity, among the events sent for the project the channel was made for, and the channels that are still registered
  for a project are open.
\<close>

theorem broadcaster_delivery:
  assumes "bc_reaches sent s" and "ch < length (channels s)"
  shows "length (ch_buffer (channels s ! ch)) \<le> 64 \<and>
    mset (ch_got (channels s ! ch)) + mset (ch_buffer (channels s ! ch)) \<subseteq># sent_to sent (ch_project (channels s ! ch)) \<and>
    (\<forall>projectID. ch \<in> set (project_channels s projectID) \<longrightarrow> ch_project (channels s ! ch) = projectID \<and> \<not> ch_closed (channels s ! ch))"
proof -
  have inv: "bc_inv sent s" by (rule bc_reaches_inv [OF assms(1)])
  then have "channel_ok sent (pending s ch) (channels s ! ch)" using assms(2) by (simp add: bc_inv_def delivery_channel)
  then have "length (ch_buffer (channels s ! ch)) \<le> 64"
    "mset (ch_got (channels s ! ch)) + mset (ch_buffer (channels s ! ch)) \<subseteq># sent_to sent (ch_project (channels s ! ch))"
    by (auto simp: channel_ok_def delivered_def intro: subset_mset.order_trans [OF mset_subset_eq_add_left])
  then show ?thesis using inv by (auto simp: bc_inv_def registered_ok_def project_channels_set)
qed

section \<open>Two runs\<close>

definition demo_event :: ProgressEvent where
  "demo_event = zero_event\<lparr>ev_Table := ''T''\<rparr>"

definition subscribed :: broadcaster where
  "subscribed = snd (Subscribe ''p'' NewBroadcaster)"

definition sending :: broadcaster where
  "sending = send_begin ''p'' demo_event subscribed"

lemma reaches_sending: "bc_reaches [(''p'', demo_event)] sending"
proof -
  have "bc_reaches [] subscribed"
    using bc_more [OF bc_start subscribes, of "''p''"] by (simp add: subscribed_def)
  from bc_more [OF this send_starts] show ?thesis by (simp add: sending_def)
qed

definition delivered_state :: broadcaster where
  "delivered_state = take_event True 0 (try_send demo_event 0 (sending\<lparr>sends := [(''p'', demo_event, [])]\<rparr>))"

lemma reaches_delivered: "bc_reaches [(''p'', demo_event)] delivered_state"
proof -
  let ?s = "try_send demo_event 0 (sending\<lparr>sends := [(''p'', demo_event, [])]\<rparr>)"
  have "bc_step sending [] ?s"
    using send_visits [of sending "[]" "''p''" demo_event "[0]" "[]" 0]
    by (simp add: sending_def send_begin_def subscribed_def Subscribe_def Let_def NewBroadcaster_def project_channels_def)
  from bc_more [OF reaches_sending this] have "bc_reaches [(''p'', demo_event)] ?s" by simp
  moreover have "bc_step ?s [] delivered_state"
    unfolding delivered_state_def
    by (rule receives) (simp_all add: sending_def send_begin_def subscribed_def Subscribe_def Let_def NewBroadcaster_def try_send_def)
  ultimately show ?thesis using bc_more [of _ ?s "[]" delivered_state] by fastforce
qed

theorem broadcaster_delivery_witness:
  "ch_got (channels delivered_state ! 0) = [demo_event] \<and>
   mset (ch_got (channels delivered_state ! 0)) + mset (ch_buffer (channels delivered_state ! 0)) \<subseteq>#
     sent_to [(''p'', demo_event)] (ch_project (channels delivered_state ! 0))"
proof -
  have d: "ch_got (channels delivered_state ! 0) = [demo_event]" "0 < length (channels delivered_state)"
    by (simp_all add: delivered_state_def take_event_def sending_def send_begin_def subscribed_def Subscribe_def Let_def
        NewBroadcaster_def try_send_def)
  show ?thesis using d(1) broadcaster_delivery [OF reaches_delivered d(2)] by blast
qed

definition closing :: broadcaster where
  "closing = close_channel 0 ((close_begin ''p'' sending)\<lparr>closes := []\<rparr>)"

lemma reaches_closing: "bc_reaches [(''p'', demo_event)] closing"
proof -
  have "bc_step (close_begin ''p'' sending) [] closing"
    using close_visits [of 0 "close_begin ''p'' sending"]
    by (simp add: closing_def close_begin_def sending_def send_begin_def subscribed_def Subscribe_def Let_def NewBroadcaster_def
        project_channels_def)
  with bc_more [OF reaches_sending close_starts, of "''p''"] show ?thesis
    using bc_more [of _ "close_begin ''p'' sending" "[]" closing] by fastforce
qed

text \<open>
  C40. The broadcaster can panic: \<open>Send\<close> copies the list of channels under the lock and sends after releasing it, \<open>Close\<close>
  unregisters under the lock and closes after releasing it, so a close between the two halves of a send makes the send
  hit a closed channel, for a single client and a single event.
\<close>

theorem send_after_close_panics: "\<exists>s. bc_reaches [(''p'', demo_event)] s \<and> panicked s"
proof -
  let ?s = "try_send demo_event 0 (closing\<lparr>sends := [(''p'', demo_event, [])]\<rparr>)"
  have "bc_step closing [] ?s"
    using send_visits [of closing "[]" "''p''" demo_event "[0]" "[]" 0]
    by (simp add: closing_def close_channel_def close_begin_def sending_def send_begin_def subscribed_def Subscribe_def Let_def
        NewBroadcaster_def project_channels_def)
  moreover have "panicked ?s"
    by (simp add: try_send_def closing_def close_channel_def close_begin_def sending_def send_begin_def subscribed_def
        Subscribe_def Let_def NewBroadcaster_def project_channels_def)
  ultimately show ?thesis using bc_more [OF reaches_closing, of "[]" ?s] by fastforce
qed

end
