(* ===== verification/Migration_Control.thy ===== *)
theory Migration_Control
  imports Job_View Broadcaster Ddl_Gen
begin

text \<open>
  How the server starts, resumes, cancels and resets migrations: \<open>StartMigration\<close>, \<open>ResumeMigration\<close>, \<open>CancelMigration\<close>,
  \<open>ResetMigration\<close> and \<open>runInBackground\<close> of \<open>pkg/api/handlers.go\<close>. A step of the server is a critical section of a
  handler or of the goroutine of a migration: the engine reports a phase or works on the job store, the goroutine records the
  result, leaves the map of active migrations, closes the channels of its project, and ends. A call of \<open>ResetMigration\<close> is two
  steps, its check and the rest, since the lock is not held between them. What the engine does to the job store is left open here (the engine
  is the subject of \<open>Engine_Run\<close>). The lemmas say that a project has at most one live migration, what a reset removes, and
  which interleavings go wrong.
\<close>

section \<open>The state of the server\<close>

text \<open>A goroutine works, has recorded its result, or has left the map of active migrations.\<close>

datatype stage = Working | Recorded | Removed

record migration =
  mg_project :: string
  mg_stage :: stage

record server =
  activeMigs :: "string \<rightharpoonup> nat"
  activePhases :: "string \<rightharpoonup> MigrationPhase"
  migrations :: "nat \<rightharpoonup> migration"
  next_ctx :: nat
  cancelled :: "nat list"
  resets :: "string list"
  srv_jobs :: job_db
  srv_bc :: broadcaster

text \<open>The number of a context stands for the context and its cancel function.\<close>

definition NewHandlers :: "job_db \<Rightarrow> server" where
  "NewHandlers js = \<lparr>activeMigs = Map.empty, activePhases = Map.empty, migrations = Map.empty, next_ctx = 0, cancelled = [],
     resets = [], srv_jobs = js, srv_bc = NewBroadcaster\<rparr>"

record MigrationStartResponse =
  st_RunID :: string
  st_Message :: string

text \<open>The check and the entry in the map of active migrations are one critical section.\<close>

definition activate :: "string \<Rightarrow> server \<Rightarrow> server option" where
  "activate projectID s =
     (if activeMigs s projectID \<noteq> None then None
      else Some (s\<lparr>activeMigs := (activeMigs s)(projectID \<mapsto> next_ctx s),
                   migrations := (migrations s)(next_ctx s \<mapsto> \<lparr>mg_project = projectID, mg_stage = Working\<rparr>),
                   next_ctx := next_ctx s + 1\<rparr>))"

definition StartMigration :: "project_db \<Rightarrow> string \<Rightarrow> string \<Rightarrow> server \<Rightarrow> MigrationStartResponse reply \<times> server" where
  "StartMigration db runID projectID s =
     (case ps_Get projectID db of
        None \<Rightarrow> (Failure 404 ''project not found'' '''', s)
      | Some project \<Rightarrow>
          (case activate projectID s of
             None \<Rightarrow> (Failure 409 ''migration already running for this project'' '''', s)
           | Some s \<Rightarrow> (Reply 202 \<lparr>st_RunID = runID, st_Message = ''migration started''\<rparr>, s)))"

definition ResumeMigration :: "project_db \<Rightarrow> string \<Rightarrow> server \<Rightarrow> MigrationStartResponse reply \<times> server" where
  "ResumeMigration db projectID s =
     (case ps_Get projectID db of
        None \<Rightarrow> (Failure 404 ''project not found'' '''', s)
      | Some project \<Rightarrow>
          (case activate projectID s of
             None \<Rightarrow> (Failure 409 ''migration already running for this project'' '''', s)
           | Some s \<Rightarrow> (Reply 202 \<lparr>st_RunID = '''', st_Message = ''resume started''\<rparr>, s)))"

definition CancelMigration :: "string \<Rightarrow> server \<Rightarrow> string reply \<times> server" where
  "CancelMigration projectID s =
     (case activeMigs s projectID of
        None \<Rightarrow> (Failure 404 ''no active migration for this project'' '''', s)
      | Some ctx \<Rightarrow> (Reply 200 ''cancel signal sent'', s\<lparr>cancelled := ctx # cancelled s\<rparr>))"

section \<open>\<open>ResetMigration\<close>\<close>

definition reset_check :: "project_db \<Rightarrow> string \<Rightarrow> server \<Rightarrow> string reply + ProjectConfig" where
  "reset_check db projectID s =
     (case ps_Get projectID db of
        None \<Rightarrow> Inl (Failure 404 ''project not found'' '''')
      | Some project \<Rightarrow>
          if activeMigs s projectID \<noteq> None then Inl (Failure 409 ''cannot reset while migration is running'' '''')
          else Inr project)"

definition drop_table_stmt :: "string \<Rightarrow> string \<Rightarrow> string" where
  "drop_table_stmt pgSchema tableName =
     ''DROP TABLE IF EXISTS \"'' @ pgSchema @ ''\".\"'' @ ToLower tableName @ ''\" CASCADE''"

definition drop_sequence_stmt :: "string \<Rightarrow> string \<Rightarrow> string" where
  "drop_sequence_stmt pgSchema seqName = ''DROP SEQUENCE IF EXISTS \"'' @ pgSchema @ ''\".\"'' @ ToLower seqName @ ''\"''"

text \<open>The statements of a reset; one that fails is logged and skipped. \<open>exec\<close> is the error of a statement.\<close>

definition reset_statements :: "ProjectConfig \<Rightarrow> string list \<times> string list" where
  "reset_statements project =
     (let pgSchema = defaultPGSchema (pj_PgSchema project)
      in (map (drop_table_stmt pgSchema) (mc_IncludeTables (pj_Config project)),
          map (drop_sequence_stmt pgSchema) (mc_IncludeSequences (pj_Config project))))"

lemma latest_run_exists: "GetLatestRunID s = Inr runID \<Longrightarrow> \<exists>r \<in> set (runs s). run_key r = runID"
proof -
  assume "GetLatestRunID s = Inr runID"
  then have r: "runs s \<noteq> []" "runID = run_key (last (sort_key run_created_at (runs s)))"
    by (auto simp: GetLatestRunID_def split: if_splits)
  then have "sort_key run_created_at (runs s) \<noteq> []" by (metis set_empty set_sort)
  then show ?thesis using last_in_set [of "sort_key run_created_at (runs s)"] r(2) by auto
qed

lemma DeleteRun_smaller: "GetLatestRunID s = Inr runID \<Longrightarrow> length (runs (DeleteRun runID s)) < length (runs s)"
  using latest_run_exists [of s runID] by (auto simp: DeleteRun_def intro!: length_filter_less)

text \<open>
  The latest run is deleted until there is none, or until the store does not find one or does not
  delete it: an expired context ends the loop too.
\<close>

function delete_all_runs :: "sqlite \<Rightarrow> job_db \<Rightarrow> job_db" where
  "delete_all_runs sql s =
     (case query_on (sql ''GetLatestRunID'' 0 s) (GetLatestRunID s) of
        Inl e \<Rightarrow> s
      | Inr runID \<Rightarrow>
          (case sql ''DeleteRun'' 0 s of
             Some e \<Rightarrow> s
           | None \<Rightarrow> delete_all_runs sql (DeleteRun runID s)))"
  by pat_completeness auto

termination
  by (relation "measure (\<lambda>(sql, s). length (runs s))")
    (auto simp: DeleteRun_smaller query_on_def split: option.splits)

declare delete_all_runs.simps [simp del]

definition reset_rest :: "sqlite \<Rightarrow> (string \<Rightarrow> string option) \<Rightarrow> string \<Rightarrow> ProjectConfig \<Rightarrow> server \<Rightarrow> string reply \<times> server" where
  "reset_rest sql exec projectID project s =
     (let dropped = length (filter (\<lambda>q. exec q = None) (fst (reset_statements project)))
      in (Reply 200 (''Reset complete: '' @ itoa (int dropped) @ '' tables dropped, job history cleared''),
          s\<lparr>srv_jobs := delete_all_runs sql (srv_jobs s), activePhases := (activePhases s)(projectID := None)\<rparr>))"

text \<open>The handler when nothing comes between its halves; \<open>opened\<close> is the error of opening the pool.\<close>

definition ResetMigration ::
    "sqlite \<Rightarrow> string option \<Rightarrow> (string \<Rightarrow> string option) \<Rightarrow> project_db \<Rightarrow> string \<Rightarrow> server \<Rightarrow> string reply \<times> server" where
  "ResetMigration sql opened exec db projectID s =
     (case reset_check db projectID s of
        Inl reply \<Rightarrow> (reply, s)
      | Inr project \<Rightarrow>
          (case opened of
             Some e \<Rightarrow> (Failure 502 ''failed to connect to PostgreSQL'' e, s)
           | None \<Rightarrow> reset_rest sql exec projectID project s))"

section \<open>The goroutine of a migration\<close>

datatype outcome = Succeeded | Failed string | Panicked string

definition PhaseFailed :: string where
  "PhaseFailed = ''failed''"

definition set_stage :: "nat \<Rightarrow> stage \<Rightarrow> server \<Rightarrow> server" where
  "set_stage ctx st s = s\<lparr>migrations := (migrations s)(ctx := map_option (\<lambda>m. m\<lparr>mg_stage := st\<rparr>) (migrations s ctx))\<rparr>"

definition phase_callback :: "string \<Rightarrow> string \<Rightarrow> string \<Rightarrow> server \<Rightarrow> server" where
  "phase_callback projectID ph detail s = s\<lparr>activePhases := (activePhases s)(projectID \<mapsto> \<lparr>mp_Phase = ph, mp_Detail = detail\<rparr>)\<rparr>"

definition record_outcome :: "string \<Rightarrow> outcome \<Rightarrow> server \<Rightarrow> server" where
  "record_outcome projectID out s =
     (case out of
        Succeeded \<Rightarrow> s\<lparr>activePhases := (activePhases s)(projectID := None)\<rparr>
      | Failed err \<Rightarrow> phase_callback projectID PhaseFailed err s
      | Panicked r \<Rightarrow> phase_callback projectID PhaseFailed (''panic: '' @ r) s)"

definition leave_active :: "string \<Rightarrow> server \<Rightarrow> server" where
  "leave_active projectID s = s\<lparr>activeMigs := (activeMigs s)(projectID := None)\<rparr>"

inductive srv_step :: "server \<Rightarrow> server \<Rightarrow> bool" where
  starts: "srv_step s (snd (StartMigration db runID projectID s))"
| resumes: "srv_step s (snd (ResumeMigration db projectID s))"
| cancels: "srv_step s (snd (CancelMigration projectID s))"
| reset_checks: "reset_check db projectID s = Inr project \<Longrightarrow> srv_step s (s\<lparr>resets := projectID # resets s\<rparr>)"
| reset_ends: "projectID \<in> set (resets s) \<Longrightarrow>
    srv_step s (snd (reset_rest sql exec projectID project (s\<lparr>resets := remove1 projectID (resets s)\<rparr>)))"
| reset_gives_up: "projectID \<in> set (resets s) \<Longrightarrow> srv_step s (s\<lparr>resets := remove1 projectID (resets s)\<rparr>)"
| reports: "migrations s ctx = Some m \<Longrightarrow> mg_stage m = Working \<Longrightarrow> srv_step s (phase_callback (mg_project m) ph detail s)"
| works: "migrations s ctx = Some m \<Longrightarrow> mg_stage m = Working \<Longrightarrow> srv_step s (s\<lparr>srv_jobs := js\<rparr>)"
| sends: "migrations s ctx = Some m \<Longrightarrow> mg_stage m = Working \<Longrightarrow>
    srv_step s (s\<lparr>srv_bc := send_begin (mg_project m) event (srv_bc s)\<rparr>)"
| returns: "migrations s ctx = Some m \<Longrightarrow> mg_stage m = Working \<Longrightarrow>
    srv_step s (record_outcome (mg_project m) out (set_stage ctx Recorded s))"
| leaves: "migrations s ctx = Some m \<Longrightarrow> mg_stage m = Recorded \<Longrightarrow>
    srv_step s (leave_active (mg_project m) (set_stage ctx Removed s))"
| closes_channels: "migrations s ctx = Some m \<Longrightarrow> mg_stage m = Removed \<Longrightarrow>
    srv_step s (s\<lparr>srv_bc := close_begin (mg_project m) (srv_bc s), migrations := (migrations s)(ctx := None)\<rparr>)"
| client_step: "bc_step (srv_bc s) [] b \<Longrightarrow> srv_step s (s\<lparr>srv_bc := b\<rparr>)"

inductive_cases srv_stepE: "srv_step s s'"

inductive srv_reaches :: "server \<Rightarrow> bool" where
  srv_start: "srv_reaches (NewHandlers js)"
| srv_more: "srv_reaches s \<Longrightarrow> srv_step s s' \<Longrightarrow> srv_reaches s'"

section \<open>At most one live migration for a project\<close>

definition live :: "server \<Rightarrow> string \<Rightarrow> nat \<Rightarrow> bool" where
  "live s projectID ctx \<longleftrightarrow> (case migrations s ctx of None \<Rightarrow> False | Some m \<Rightarrow> mg_project m = projectID \<and> mg_stage m \<noteq> Removed)"

definition control_ok :: "server \<Rightarrow> bool" where
  "control_ok s \<longleftrightarrow> (\<forall>p c. activeMigs s p = Some c \<longleftrightarrow> live s p c) \<and> (\<forall>c. migrations s c \<noteq> None \<longrightarrow> c < next_ctx s)"

lemma control_ok_same:
  "activeMigs s' = activeMigs s \<Longrightarrow> migrations s' = migrations s \<Longrightarrow> next_ctx s' = next_ctx s \<Longrightarrow> control_ok s' = control_ok s"
  by (simp add: control_ok_def live_def)

lemma activate_ok: "control_ok s \<Longrightarrow> activate p s = Some s' \<Longrightarrow> control_ok s'"
proof -
  assume ok: "control_ok s" and a: "activate p s = Some s'"
  have free: "activeMigs s p = None" using a by (simp add: activate_def split: if_splits)
  have "\<not> next_ctx s < next_ctx s" by simp
  then have new: "migrations s (next_ctx s) = None" using ok unfolding control_ok_def by blast
  have s': "s' = s\<lparr>activeMigs := (activeMigs s)(p \<mapsto> next_ctx s),
      migrations := (migrations s)(next_ctx s \<mapsto> \<lparr>mg_project = p, mg_stage = Working\<rparr>), next_ctx := next_ctx s + 1\<rparr>"
    using a by (simp add: activate_def split: if_splits)
  have l: "live s' q c \<longleftrightarrow> (if c = next_ctx s then q = p else live s q c)" for q c
    by (auto simp: s' live_def)
  have n: "\<not> live s p c" "\<not> live s q (next_ctx s)" for q c
    using ok free by (metis control_ok_def option.distinct(1)) (simp add: live_def new)
  show ?thesis using ok n unfolding control_ok_def l by (auto simp: s' less_Suc_eq)
qed

lemma stage_ok:
  assumes "control_ok s" "migrations s c = Some m" "mg_stage m \<noteq> Removed" "st \<noteq> Removed"
  shows "control_ok (set_stage c st s)"
proof -
  have "live (set_stage c st s) p k = live s p k" for p k using assms by (auto simp: set_stage_def live_def)
  then show ?thesis using assms by (auto simp: control_ok_def set_stage_def)
qed

lemma record_same: "activeMigs (record_outcome p out s) = activeMigs s" "migrations (record_outcome p out s) = migrations s"
    "next_ctx (record_outcome p out s) = next_ctx s"
  by (simp_all add: record_outcome_def phase_callback_def split: outcome.splits)

lemma leaves_ok:
  assumes ok: "control_ok s" and m: "migrations s c = Some m" "mg_stage m = Recorded"
  shows "control_ok (leave_active (mg_project m) (set_stage c Removed s))"
proof -
  let ?s = "leave_active (mg_project m) (set_stage c Removed s)"
  have l: "live ?s p k \<longleftrightarrow> live s p k \<and> k \<noteq> c" for p k using m by (auto simp: leave_active_def set_stage_def live_def)
  have c: "live s (mg_project m) c" using m by (simp add: live_def)
  then have a: "activeMigs s (mg_project m) = Some c" using ok by (simp add: control_ok_def)
  have "activeMigs ?s p = Some k \<longleftrightarrow> activeMigs s p = Some k \<and> k \<noteq> c" for p k
  proof (cases "p = mg_project m")
    case True
    then show ?thesis using a by (simp add: leave_active_def set_stage_def)
  next
    case False
    then have "\<not> live s p c" using m by (simp add: live_def)
    then have "activeMigs s p \<noteq> Some c" using ok by (simp add: control_ok_def)
    then show ?thesis using False by (auto simp: leave_active_def set_stage_def)
  qed
  moreover have "migrations ?s k \<noteq> None \<longleftrightarrow> migrations s k \<noteq> None" "next_ctx ?s = next_ctx s" for k
    using m by (auto simp: leave_active_def set_stage_def)
  ultimately show ?thesis using ok unfolding control_ok_def l by metis
qed

lemma closes_ok:
  assumes ok: "control_ok s" and m: "migrations s c = Some m" "mg_stage m = Removed"
  shows "control_ok (s\<lparr>srv_bc := b, migrations := (migrations s)(c := None)\<rparr>)"
proof -
  have "live (s\<lparr>srv_bc := b, migrations := (migrations s)(c := None)\<rparr>) p k = live s p k" for p k
    using m by (auto simp: live_def)
  then show ?thesis using ok by (auto simp: control_ok_def)
qed

lemma handlers_ok:
  assumes "control_ok s"
  shows "control_ok (snd (StartMigration db runID p s))" "control_ok (snd (ResumeMigration db p s))" "control_ok (snd (CancelMigration p s))"
proof -
  show "control_ok (snd (StartMigration db runID p s))" "control_ok (snd (ResumeMigration db p s))"
    using assms activate_ok [OF assms] by (auto simp: StartMigration_def ResumeMigration_def split: option.splits)
  show "control_ok (snd (CancelMigration p s))"
    using assms by (auto simp: CancelMigration_def control_ok_def live_def split: option.splits)
qed

lemma reset_rest_same: "activeMigs (snd (reset_rest sql exec p project s)) = activeMigs s"
    "migrations (snd (reset_rest sql exec p project s)) = migrations s" "next_ctx (snd (reset_rest sql exec p project s)) = next_ctx s"
  by (simp_all add: reset_rest_def Let_def)

lemma srv_step_ok: "srv_step s s' \<Longrightarrow> control_ok s \<Longrightarrow> control_ok s'"
proof (induction rule: srv_step.induct)
  case (returns s ctx m out)
  then have "control_ok (set_stage ctx Recorded s)" by (intro stage_ok) auto
  then show ?case using control_ok_same [OF record_same] by blast
next
  case (reset_ends p s sql exec project)
  then show ?case using control_ok_same [OF reset_rest_same, of sql exec p project "s\<lparr>resets := remove1 p (resets s)\<rparr>"]
    by (simp add: control_ok_same [of "s\<lparr>resets := remove1 p (resets s)\<rparr>" s])
next
  case (reports s ctx m ph detail)
  then show ?case by (simp add: control_ok_def live_def phase_callback_def)
next
  case (starts s db runID p)
  then show ?case by (simp only: handlers_ok)
next
  case (resumes s db p)
  then show ?case by (simp only: handlers_ok)
next
  case (cancels s p)
  then show ?case by (simp only: handlers_ok)
next
  case (leaves s ctx m)
  then show ?case by (simp only: leaves_ok)
next
  case (closes_channels s ctx m)
  then show ?case by (simp only: closes_ok)
qed (simp_all add: control_ok_def live_def)

lemma srv_reaches_ok: "srv_reaches s \<Longrightarrow> control_ok s"
proof (induction rule: srv_reaches.induct)
  case (srv_start js)
  then show ?case by (simp add: control_ok_def live_def NewHandlers_def)
qed (rule srv_step_ok)

section \<open>What the handlers guarantee\<close>

text \<open>
  C13. One migration at a time: under every interleaving of handlers and goroutines a project has at most one live
  migration; \<open>StartMigration\<close> accepts a known project exactly when it has none; and \<open>CancelMigration\<close> cancels the context of
  just the live one.
\<close>

theorem one_migration_per_project:
  assumes "srv_reaches s" and "ps_Get p db = Some project"
  shows "(\<forall>c d. live s p c \<and> live s p d \<longrightarrow> c = d) \<and>
    (fst (StartMigration db r p s) = Reply 202 \<lparr>st_RunID = r, st_Message = ''migration started''\<rparr> \<longleftrightarrow> (\<nexists>c. live s p c)) \<and>
    (\<forall>c. live s p c \<longrightarrow> cancelled (snd (CancelMigration p s)) = c # cancelled s)"
proof -
  have ok: "live s p c \<longleftrightarrow> activeMigs s p = Some c" for c using srv_reaches_ok [OF assms(1)] by (simp add: control_ok_def)
  show ?thesis unfolding ok using assms(2)
    by (cases "activeMigs s p") (simp_all add: StartMigration_def CancelMigration_def activate_def)
qed

definition started :: server where
  "started = snd (StartMigration [demo_project] ''r'' ''7'' (NewHandlers empty_db))"

lemma started_eq: "started = (NewHandlers empty_db)\<lparr>activeMigs := [''7'' \<mapsto> 0],
    migrations := [0 \<mapsto> \<lparr>mg_project = ''7'', mg_stage = Working\<rparr>], next_ctx := 1\<rparr>"
  by (simp add: started_def StartMigration_def activate_def NewHandlers_def ps_Get_def demo_project_def)

lemma started_reached: "srv_reaches started"
  unfolding started_def by (rule srv_more [OF srv_start starts])

lemma demo_found: "ps_Get ''7'' [demo_project] = Some demo_project"
  by (simp add: ps_Get_def demo_project_def)

theorem one_migration_per_project_witness:
  "live started ''7'' 0 \<and>
   fst (StartMigration [demo_project] ''r2'' ''7'' started) \<noteq> Reply 202 \<lparr>st_RunID = ''r2'', st_Message = ''migration started''\<rparr> \<and>
   cancelled (snd (CancelMigration ''7'' started)) = [0]"
proof -
  have l: "live started ''7'' 0" by (simp add: started_eq live_def)
  then show ?thesis
    using one_migration_per_project [OF started_reached demo_found, of "''r2''"] by (auto simp: started_eq NewHandlers_def)
qed

lemma deletes_all:
  assumes "reliable sql"
  shows "runs (delete_all_runs sql s) = [] \<and>
    jobs (delete_all_runs sql s) = filter (\<lambda>r. run_id r \<notin> run_key ` set (runs s)) (jobs s)"
proof (induction "length (runs s)" arbitrary: s rule: less_induct)
  case less
  note ans = reliable_answer [OF assms]
  show ?case
  proof (cases "GetLatestRunID s")
    case (Inl e)
    then have "runs s = []" by (simp add: GetLatestRunID_def split: if_splits)
    then show ?thesis using Inl by (simp add: delete_all_runs.simps [of sql s] ans)
  next
    case (Inr runID)
    have eq: "delete_all_runs sql s = delete_all_runs sql (DeleteRun runID s)"
      by (simp add: delete_all_runs.simps [of sql s] Inr ans)
    have keys: "run_id r \<noteq> runID \<and> run_id r \<notin> run_key ` set (runs (DeleteRun runID s)) \<longleftrightarrow> run_id r \<notin> run_key ` set (runs s)" for r
      using latest_run_exists [OF Inr] by (auto simp: DeleteRun_def)
    have "filter (\<lambda>r. run_id r \<notin> run_key ` set (runs (DeleteRun runID s))) (jobs (DeleteRun runID s)) =
        filter (\<lambda>r. run_id r \<notin> run_key ` set (runs s)) (jobs s)"
      unfolding keys [symmetric] by (simp add: DeleteRun_def conj_commute)
    then show ?thesis using less [OF DeleteRun_smaller [OF Inr]] eq by simp
  qed
qed

lemma runs_deleted: "reliable sql \<Longrightarrow> runs (delete_all_runs sql s) = []"
  using deletes_all by blast


definition two_runs :: job_db where
  "two_runs = empty_db\<lparr>runs := [\<lparr>run_key = ''a'', config_hash = '''', run_status = '''', run_created_at = ''1''\<rparr>,
     \<lparr>run_key = ''b'', config_hash = '''', run_status = '''', run_created_at = ''2''\<rparr>]\<rparr>"

definition expired_store :: sqlite where
  "expired_store = (\<lambda>_ _ _. Some ''context deadline exceeded'')"


section \<open>Interleavings that go wrong\<close>

text \<open>
  The check of a reset does not hold: a migration may be started between the check and the rest of
  \<open>ResetMigration\<close>, which then drops the tables and deletes the run under the live migration.
\<close>

theorem reset_under_live_migration:
  "\<exists>s s'. srv_reaches s \<and> live s ''7'' 0 \<and> runs (srv_jobs s) \<noteq> [] \<and> srv_step s s' \<and> live s' ''7'' 0 \<and> runs (srv_jobs s') = []"
proof -
  define checked where "checked = (NewHandlers empty_db)\<lparr>resets := [''7'']\<rparr>"
  have "srv_step (NewHandlers empty_db) checked"
    using reset_checks [of "[demo_project]" "''7''" "NewHandlers empty_db" demo_project]
    by (simp add: reset_check_def demo_found NewHandlers_def checked_def)
  from srv_more [OF srv_more [OF srv_start this] starts]
  have r: "srv_reaches (snd (StartMigration [demo_project] ''r'' ''7'' checked))" .
  define running where "running = snd (StartMigration [demo_project] ''r'' ''7'' checked)"
  have e: "running = checked\<lparr>activeMigs := [''7'' \<mapsto> 0], migrations := [0 \<mapsto> \<lparr>mg_project = ''7'', mg_stage = Working\<rparr>], next_ctx := 1\<rparr>"
    by (simp add: running_def checked_def StartMigration_def activate_def NewHandlers_def demo_found)
  define js where "js = (case CreateRun None ''now'' ''r'' ''h'' empty_db of Inr js \<Rightarrow> js | Inl e \<Rightarrow> empty_db)"
  have js: "runs js \<noteq> []" by (simp add: js_def CreateRun_def empty_db_def)
  define full where "full = running\<lparr>srv_jobs := js\<rparr>"
  have "srv_step running full"
    unfolding full_def by (rule works [of running 0 "\<lparr>mg_project = ''7'', mg_stage = Working\<rparr>"]) (simp_all add: e)
  then have reached: "srv_reaches full" using srv_more r by (simp add: running_def)
  have "''7'' \<in> set (resets full)" by (simp add: full_def e checked_def)
  from reset_ends [OF this, of "\<lambda>_ _ _. None" "\<lambda>q. None" demo_project]
  have step: "srv_step full (snd (reset_rest (\<lambda>_ _ _. None) (\<lambda>q. None) ''7'' demo_project (full\<lparr>resets := remove1 ''7'' (resets full)\<rparr>)))" .
  have "live full ''7'' 0" "runs (srv_jobs full) \<noteq> []" using js by (simp_all add: full_def e live_def)
  moreover have "live (snd (reset_rest (\<lambda>_ _ _. None) (\<lambda>q. None) ''7'' demo_project (full\<lparr>resets := remove1 ''7'' (resets full)\<rparr>))) ''7'' 0"
    by (simp add: live_def reset_rest_def Let_def full_def e)
  moreover have "runs (srv_jobs (snd (reset_rest (\<lambda>_ _ _. None) (\<lambda>q. None) ''7'' demo_project (full\<lparr>resets := remove1 ''7'' (resets full)\<rparr>)))) = []"
    by (simp add: reset_rest_def Let_def runs_deleted [OF reliable_None])
  ultimately show ?thesis using reached step by blast
qed

text \<open>
  The name of the dropped table is the lower-cased Oracle name, whatever the naming of the project:
  a table created under \<open>keep_original\<close> stays, and the statement for it does not fail either.
\<close>

lemma reset_misses_kept_names:
  "drop_table_stmt ''s'' ''Emp'' = ''DROP TABLE IF EXISTS \"s\".\"emp\" CASCADE'' \<and>
   GenerateDropTableWithNaming ''Emp'' ''s'' \<lparr>Convention = ''keep_original'', TypeOverrides = Map.empty, NameOverrides = Map.empty\<rparr> =
     ''DROP TABLE IF EXISTS \"s\".\"Emp\" CASCADE;''"
  by code_simp

end
