(* ===== verification/Ddl_Preview.thy ===== *)
theory Ddl_Preview
  imports Schema_View Engine_Ddl
begin

text \<open>
  \<open>GetDDLPreview\<close> of \<open>pkg/api/handlers.go\<close>: the statements that the user interface shows before a migration, with their
  target mode. The lemmas compare them with what the engine executes (\<open>Pg_Writer\<close>, \<open>Engine_Ddl\<close>).
\<close>

section \<open>The preview\<close>

record DDLStatement =
  ds_Type :: string
  ds_Table :: string
  ds_Statement :: string
  ds_TargetMode :: string
  ds_Skipped :: bool

definition resolve_mode :: "ProjectConfig \<Rightarrow> string \<Rightarrow> TargetMode" where
  "resolve_mode p tableName =
     (case mc_TableOverrides (pj_Config p) tableName of
        Some override \<Rightarrow>
          if ao_TargetMode override \<noteq> '''' then ao_TargetMode override
          else if mc_DropTarget (pj_Config p) then TargetModeRecreate else TargetModeRecreate
      | None \<Rightarrow> if mc_DropTarget (pj_Config p) then TargetModeRecreate else TargetModeRecreate)"

definition ddl_stmt :: "TargetMode \<Rightarrow> Table \<Rightarrow> string \<Rightarrow> string \<Rightarrow> DDLStatement" where
  "ddl_stmt mode t type text = \<lparr>ds_Type = type, ds_Table = tbl_Name t, ds_Statement = text, ds_TargetMode = mode, ds_Skipped = False\<rparr>"

definition create_preview :: "NamingConfig \<Rightarrow> string \<Rightarrow> TargetMode \<Rightarrow> Table \<Rightarrow> string" where
  "create_preview nc sch mode t =
     (let stmt = GenerateCreateTableWithNaming t sch nc
      in if mode = TargetModeAppend \<or> mode = TargetModeTruncate \<or> mode = TargetModeTruncatePartition
         then ''-- CREATE IF NOT EXISTS (mode: '' @ mode @ '')'' @ [char_of (10::nat)] @ stmt else stmt)"

definition preview_table :: "NamingConfig \<Rightarrow> string \<Rightarrow> TargetMode \<Rightarrow> Table \<Rightarrow> DDLStatement list" where
  "preview_table nc sch mode t =
     (if mode = TargetModeSkip then
        [\<lparr>ds_Type = ''skip'', ds_Table = tbl_Name t, ds_Statement = ''-- SKIPPED: '' @ tbl_Name t, ds_TargetMode = mode, ds_Skipped = True\<rparr>]
      else
        (if mode = TargetModeRecreate then [ddl_stmt mode t ''drop_table'' (GenerateDropTableWithNaming (tbl_Name t) sch nc)] else []) @
        [ddl_stmt mode t ''create_table'' (create_preview nc sch mode t)] @
        (if mode = TargetModeTruncate
         then [ddl_stmt mode t ''truncate'' (''TRUNCATE TABLE '' @ sch @ ''.'' @ ToLower (tbl_Name t) @ '';'')] else []) @
        (if IsPartitioned t
         then map (ddl_stmt mode t ''partition'') (GeneratePartitionDDLWithNaming t sch (BuildPartitionBounds t) nc) else []) @
        (let pk = GeneratePrimaryKeyWithNaming t sch nc in if pk \<noteq> '''' then [ddl_stmt mode t ''primary_key'' pk] else []) @
        map (ddl_stmt mode t ''index'') (GenerateIndexesWithNaming t sch nc) @
        map (ddl_stmt mode t ''constraint'') (GenerateConstraintsWithNaming t sch nc))"

text \<open>Sequences are shown if they are in the include list, or if nothing at all is included by name.\<close>

definition preview_sequences :: "ProjectConfig \<Rightarrow> NamingConfig \<Rightarrow> string \<Rightarrow> Sequence list \<Rightarrow> DDLStatement list" where
  "preview_sequences p nc sch seqs =
     (let include = map ToUpper (mc_IncludeSequences (pj_Config p));
          hidden = (\<lambda>seq. (include \<noteq> [] \<and> \<not> List.member include (ToUpper (seq_Name seq))) \<or>
                     (mc_IncludeSequences (pj_Config p) = [] \<and> mc_IncludeTables (pj_Config p) \<noteq> []))
      in map (\<lambda>seq. \<lparr>ds_Type = ''sequence'', ds_Table = seq_Name seq, ds_Statement = GenerateSequenceWithNaming seq sch nc,
                     ds_TargetMode = '''', ds_Skipped = False\<rparr>) (filter (\<lambda>seq. \<not> hidden seq) seqs))"

definition preview_schema :: "ProjectConfig \<Rightarrow> Schema \<Rightarrow> DDLStatement list" where
  "preview_schema p s =
     (let sch = defaultPGSchema (pj_PgSchema p); nc = project_naming p
      in concat (map (\<lambda>t. preview_table nc sch (resolve_mode p (tbl_Name t)) t) (Tables s)) @
         preview_sequences p nc sch (Sequences s))"

definition GetDDLPreview ::
    "(string \<Rightarrow> string option) \<Rightarrow> (string \<Rightarrow> ora_db) \<Rightarrow> project_db \<Rightarrow> string \<Rightarrow> DDLStatement list reply" where
  "GetDDLPreview connect ora db projectID = with_schema connect ora db projectID project_filter preview_schema"

section \<open>The preview and the engine\<close>

lemma resolve_mode_engine: "resolve_mode p name = target_mode (buildConfig st p) name"
  by (simp add: resolve_mode_def target_mode_def ResolveTargetMode_def override_of_def buildConfig_def Let_def override_config_def
      zeroOverride_def split: option.splits)

text \<open>A server on which every statement succeeds.\<close>

definition accepts_all :: "pg_server \<Rightarrow> bool" where
  "accepts_all srv \<longleftrightarrow> (\<forall>h q. pg_exec srv h q = None)"

lemma ExecDDL_accepted: "accepts_all srv \<Longrightarrow> ExecDDL srv q h = (None, h @ [q])"
  by (simp add: accepts_all_def ExecDDL_def)

lemma exec_each_accepted: "accepts_all srv \<Longrightarrow> exec_each srv tolerated msg ddls h = (None, h @ ddls)"
  by (induction ddls arbitrary: h) (simp_all add: ExecDDL_accepted)

text \<open>What the phases of the engine do for one table that is recreated: tables, keys and indexes, constraints.\<close>

definition run_table :: "pg_server \<Rightarrow> Writer \<Rightarrow> Table \<Rightarrow> history \<Rightarrow> history" where
  "run_table srv w t h =
     (let h1 = snd (ddl_action srv w TargetModeRecreate t h);
          h2 = snd (CreatePrimaryKey srv w t h1);
          h3 = snd (CreateIndexesRaw srv w t IndexModeCreate h2)
      in snd (CreateFKAndOtherConstraints srv w t h3))"

definition shown :: "DDLStatement list \<Rightarrow> string list" where
  "shown ds = map ds_Statement (filter (\<lambda>d. \<not> (ds_Type d = ''index'' \<and> isCommentOnly (ds_Statement d))) ds)"

lemma shown_simps [simp]:
  "shown [] = []" "shown (ds @ es) = shown ds @ shown es"
  "type \<noteq> ''index'' \<Longrightarrow> shown (map (ddl_stmt mode t type) xs) = xs"
  "type \<noteq> ''index'' \<Longrightarrow> shown (ddl_stmt mode t type x # ds) = x # shown ds"
  "shown (map (ddl_stmt mode t ''index'') ys) = filter (\<lambda>x. \<not> isCommentOnly x) ys"
  by (simp_all add: shown_def ddl_stmt_def filter_map o_def map_idI)


lemma created: "accepts_all srv \<Longrightarrow> \<not> unlogged w \<Longrightarrow>
    snd (ddl_action srv w TargetModeRecreate t h) =
      h @ [GenerateDropTableWithNaming (tbl_Name t) (pgSchema w) (naming w), GenerateCreateTableWithNaming t (pgSchema w) (naming w)] @
      (if IsPartitioned t then GeneratePartitionDDLWithNaming t (pgSchema w) (BuildPartitionBounds t) (naming w) else [])"
  by (simp add: ddl_action_def create_partitioned_def CreateTable_def CreatePartitions_def or_fail_def wrap_then_def
      ExecDDL_accepted exec_each_accepted create_table_stmt_def Let_def)

lemma keyed: "accepts_all srv \<Longrightarrow> snd (CreatePrimaryKey srv w t h) =
    h @ (if GeneratePrimaryKeyWithNaming t (pgSchema w) (naming w) \<noteq> '''' then [GeneratePrimaryKeyWithNaming t (pgSchema w) (naming w)] else [])"
  by (simp add: CreatePrimaryKey_def exec_each_accepted Let_def del: exec_each.simps)

lemma indexed: "accepts_all srv \<Longrightarrow> snd (CreateIndexesRaw srv w t IndexModeCreate h) = h @ index_stmts w t"
  by (simp add: CreateIndexesRaw_def exec_each_accepted Let_def)

lemma constrained: "accepts_all srv \<Longrightarrow>
    snd (CreateFKAndOtherConstraints srv w t h) = h @ GenerateConstraintsWithNaming t (pgSchema w) (naming w)"
  by (simp add: CreateFKAndOtherConstraints_def exec_each_accepted)


definition willing_server :: pg_server where
  "willing_server = \<lparr>pg_exec = \<lambda>h q. None, pg_exists = \<lambda>h s t. Inr False, pg_count = \<lambda>h q. Inr 0, pg_reltuples = \<lambda>h s t. Inr 0\<rparr>"


text \<open>
  Where the preview and a run differ. The mode of a table is the one the engine resolves, but the switches for
  indexes and constraints are not looked at, and of a project that selects tables and no sequences the preview
  shows no sequence, while a run creates all of them.
\<close>

lemma preview_ignores_switches:
  "preview_schema (p\<lparr>pj_Config := (pj_Config p)\<lparr>mc_TableOverrides := (mc_TableOverrides (pj_Config p))(name \<mapsto> v)\<rparr>\<rparr>) s =
   preview_schema (p\<lparr>pj_Config := (pj_Config p)\<lparr>mc_TableOverrides := (mc_TableOverrides (pj_Config p))
     (name \<mapsto> v\<lparr>ao_SkipIndexes := True, ao_IndexMode := ''skip'', ao_SkipConstraints := True\<rparr>)\<rparr>\<rparr>) s"
proof -
  have "resolve_mode (p\<lparr>pj_Config := (pj_Config p)\<lparr>mc_TableOverrides := (mc_TableOverrides (pj_Config p))(name \<mapsto> v)\<rparr>\<rparr>) t =
      resolve_mode (p\<lparr>pj_Config := (pj_Config p)\<lparr>mc_TableOverrides := (mc_TableOverrides (pj_Config p))
        (name \<mapsto> v\<lparr>ao_SkipIndexes := True, ao_IndexMode := ''skip'', ao_SkipConstraints := True\<rparr>)\<rparr>\<rparr>) t" for t
    by (simp add: resolve_mode_def)
  then show ?thesis by (simp add: preview_schema_def preview_sequences_def project_naming_def Let_def)
qed

lemma preview_hides_sequences:
  assumes "mc_IncludeSequences (pj_Config p) = []" "mc_IncludeTables (pj_Config p) \<noteq> []"
  shows "preview_sequences p nc sch seqs = [] \<and> filter_sequences (f_IncludeSequences (project_filter p)) seqs = seqs"
  using assms by (simp add: preview_sequences_def filter_sequences_def project_filter_def Let_def)

end
