(* ===== verification/Settings_Check.thy ===== *)
theory Settings_Check
  imports Go_Scan Project_Store
begin

text \<open>
  The checks of database settings, \<open>GetPGSettings\<close> and \<open>GetOracleSettings\<close> of \<open>pkg/api/handlers.go\<close>. What the servers answer is an
  argument: a setting of PostgreSQL with its unit, or none if the query fails; an Oracle parameter, empty if there is none; single
  values of the other queries, zero or empty if they fail. A number of megabytes that the query rounded is an integer, and
  \<open>fmtf p n d\<close> is the text of the quotient \<open>n / d\<close> with \<open>p\<close> decimals. The lemmas say that every status is one of the three
  documented ones and when the limits on sessions and processes are found sufficient.
\<close>

record PGSetting =
  set_Name :: string
  set_Current :: string
  set_Recommended :: string
  set_Unit :: string
  set_Status :: string
  set_Description :: string

section \<open>PostgreSQL\<close>

definition settingsToCheck :: "string list" where
  "settingsToCheck =
     [''wal_level'', ''max_wal_size'', ''min_wal_size'', ''synchronous_commit'', ''checkpoint_timeout'', ''shared_buffers'',
      ''work_mem'', ''maintenance_work_mem'', ''effective_cache_size'', ''max_connections'', ''autovacuum'', ''max_wal_senders'',
      ''checkpoint_completion_target'', ''wal_buffers'', ''wal_compression'']"

definition config_workers :: "ProjectConfig \<Rightarrow> int" where
  "config_workers p = (if mc_Workers (pj_Config p) > 0 then mc_Workers (pj_Config p) else 4)"

definition advise :: "PGSetting \<Rightarrow> string \<Rightarrow> string \<Rightarrow> string \<Rightarrow> PGSetting" where
  "advise s status recommended description =
     s\<lparr>set_Recommended := recommended, set_Description := description, set_Status := status\<rparr>"

definition ok_or :: "bool \<Rightarrow> string \<Rightarrow> string" where
  "ok_or good other = (if good then ''ok'' else other)"

text \<open>The three bytes of a long dash in one of the texts.\<close>

definition long_dash :: string where
  "long_dash = [char_of (226::nat), char_of (128::nat), char_of (148::nat)]"

definition evaluate_wal :: "PGSetting \<Rightarrow> PGSetting" where
  "evaluate_wal s =
     (let name = set_Name s; value = set_Current s
      in if name = ''wal_level'' then
           advise s (ok_or (value = ''minimal'') ''warn'') ''minimal''
             ''minimal eliminates WAL for COPY into new/truncated tables (2-5x faster)''
         else if name = ''max_wal_size'' then
           advise s ''info'' ''16GB+'' ''Large value prevents checkpoint storms during bulk load''
         else if name = ''min_wal_size'' then
           advise s ''info'' ''4GB+'' ''Pre-allocated WAL files reduce allocation overhead''
         else if name = ''synchronous_commit'' then
           advise s (ok_or (value = ''off'') ''info'') ''off (auto per-session)''
             ''existora2pg sets this per-session automatically. Server-level OFF avoids overhead for DDL/constraint phases too''
         else if name = ''checkpoint_timeout'' then
           advise s ''info'' ''30min'' ''Longer timeout reduces checkpoint frequency during bulk load''
         else if name = ''max_wal_senders'' then
           advise s ''info'' ''0 (for wal_level=minimal)'' ''Required to be 0 when wal_level=minimal''
         else if name = ''checkpoint_completion_target'' then
           advise s (ok_or (value = ''0.9'') ''info'') ''0.9'' ''Spreads checkpoint I/O over more time''
         else if name = ''wal_buffers'' then
           advise s ''info'' ''64MB+''
             ''Larger WAL buffer reduces write contention during parallel COPY (default 16MB is often too small)''
         else if name = ''wal_compression'' then
           advise s (ok_or (value \<noteq> ''off'' \<and> value \<noteq> '''') ''warn'') ''on''
             (''Compresses WAL records '' @ long_dash @ '' reduces I/O at minimal CPU cost (PG 15+: lz4/zstd supported)'')
         else s)"

definition evaluate_memory :: "int \<Rightarrow> PGSetting \<Rightarrow> PGSetting" where
  "evaluate_memory workers s =
     (let name = set_Name s; value = set_Current s
      in if name = ''shared_buffers'' then
           advise s ''info'' ''25% of RAM'' ''Main memory area for caching table and index data''
         else if name = ''work_mem'' then
           advise s ''info'' ''256MB'' ''Used for sorting during index creation''
         else if name = ''maintenance_work_mem'' then
           advise s ''info'' ''2GB+'' ''Used by CREATE INDEX, VACUUM, ALTER TABLE''
         else if name = ''effective_cache_size'' then
           advise s ''info'' ''75% of RAM'' ''Hint for query planner about available OS cache''
         else if name = ''max_connections'' then
           advise s ''info'' (itoa (i64 (workers + 20)) @ ''+ (workers='' @ itoa workers @ '' + overhead)'')
             ''Must be greater than worker count + monitoring connections''
         else if name = ''autovacuum'' then
           advise s (ok_or (value = ''off'') ''warn'') ''off (during load)''
             ''Autovacuum wastes I/O during bulk COPY, disable temporarily''
         else evaluate_wal s)"

definition pg_results :: "int \<Rightarrow> (string \<Rightarrow> (string \<times> string) option) \<Rightarrow> PGSetting list" where
  "pg_results workers setting =
     concat (map (\<lambda>name. case setting name of
         None \<Rightarrow> []
       | Some (value, unit) \<Rightarrow>
           [evaluate_memory workers \<lparr>set_Name = name, set_Current = value, set_Recommended = '''', set_Unit = unit,
              set_Status = '''', set_Description = ''''\<rparr>]) settingsToCheck)"

definition GetPGSettings ::
    "(string \<Rightarrow> string option) \<Rightarrow> (string \<Rightarrow> (string \<times> string) option) \<Rightarrow> project_db \<Rightarrow> string \<Rightarrow> PGSetting list reply" where
  "GetPGSettings connect setting db projectID =
     (case ps_Get projectID db of
        None \<Rightarrow> Failure 404 ''project not found'' ''''
      | Some p \<Rightarrow>
          (case connect (pj_PgDSN p) of
             Some e \<Rightarrow> Failure 500 ''cannot connect to PostgreSQL'' e
           | None \<Rightarrow> Reply 200 (pg_results (config_workers p) setting)))"

section \<open>Oracle\<close>

record tableSize =
  tz_Name :: string
  tz_Rows :: int
  tz_SizeMB :: float64_bits

record ora_settings =
  param :: "string \<Rightarrow> string"
  db_charset :: string
  db_nchar :: string
  redo_mb :: int
  log_groups :: int
  table_count :: int
  total_rows :: int
  segment_mb :: "float64_bits option" \<comment> \<open>none if the view is not readable\<close>
  estimated_mb :: float64_bits
  largest :: "tableSize list"
  partitioned :: int
  lob_count :: int
  cell_count :: int
  ora_version :: string
  last_analyzed :: "string option"
  fmtf :: "nat \<Rightarrow> int \<Rightarrow> int \<Rightarrow> string"

definition fmtBytes :: "ora_settings \<Rightarrow> string \<Rightarrow> string" where
  "fmtBytes o' s =
     (case scan_int s of
        None \<Rightarrow> s
      | Some (n, r) \<Rightarrow>
          if n = 0 then s
          else if n \<ge> 1073741824 then fmtf o' 1 n 1073741824 @ '' GB''
          else if n \<ge> 1048576 then fmtf o' 0 n 1048576 @ '' MB''
          else if n \<ge> 1024 then fmtf o' 0 n 1024 @ '' KB''
          else s)"

definition ora_setting :: "string \<Rightarrow> string \<Rightarrow> string \<Rightarrow> string \<Rightarrow> string \<Rightarrow> PGSetting" where
  "ora_setting name current recommended status description =
     \<lparr>set_Name = name, set_Current = current, set_Recommended = recommended, set_Unit = '''', set_Status = status,
      set_Description = description\<rparr>"

text \<open>A parameter that is not empty gives one entry.\<close>

definition with_param :: "ora_settings \<Rightarrow> string \<Rightarrow> (string \<Rightarrow> PGSetting) \<Rightarrow> PGSetting list" where
  "with_param o' name f = (let v = param o' name in if v \<noteq> '''' then [f v] else [])"

definition memory_settings :: "ora_settings \<Rightarrow> PGSetting list" where
  "memory_settings o' =
     with_param o' ''sga_target'' (\<lambda>v. ora_setting ''sga_target'' (fmtBytes o' v) ''auto (>= 2 GB)''
       (if v = ''0'' then ''warn'' else ''info'')
       ''Automatic SGA memory management. 0 = disabled (using manual SGA components)'') @
     with_param o' ''pga_aggregate_target'' (\<lambda>v. ora_setting ''pga_aggregate_target'' (fmtBytes o' v) ''>= 1 GB'' ''info''
       ''Aggregate PGA memory for sorting, hashing in parallel queries'')"

definition parallel_status :: "int \<Rightarrow> int \<Rightarrow> string" where
  "parallel_status workers n =
     (if n < i64 (workers * 2) \<and> n > 0 then ''warn'' else if n \<ge> i64 (workers * 2) then ''ok'' else ''info'')"

definition parallel_settings :: "ora_settings \<Rightarrow> int \<Rightarrow> PGSetting list" where
  "parallel_settings o' workers =
     with_param o' ''parallel_max_servers'' (\<lambda>v. ora_setting ''parallel_max_servers'' v
       (''>= '' @ itoa (i64 (workers * 2)) @ '' (2x workers)'') (parallel_status workers (Sscan_d v))
       ''Max parallel execution slaves. Should be >= 2x migration workers for PARALLEL hints'') @
     with_param o' ''parallel_degree_policy'' (\<lambda>v. ora_setting ''parallel_degree_policy'' v ''MANUAL or AUTO'' ''info''
       ''AUTO enables statement-level auto DOP. MANUAL requires /*+ PARALLEL */ hints'')"

definition limit_settings :: "ora_settings \<Rightarrow> int \<Rightarrow> PGSetting list" where
  "limit_settings o' workers =
     with_param o' ''sessions'' (\<lambda>v. let needed = i64 (i64 (workers * 3) + 50) in ora_setting ''sessions'' v
       (''>= '' @ itoa needed @ '' (workers='' @ itoa workers @ '' x3 + overhead)'') (ok_or (Sscan_d v \<ge> needed) ''warn'')
       ''Max concurrent sessions. Each worker uses 1+ sessions for parallel reads'') @
     with_param o' ''processes'' (\<lambda>v. let needed = i64 (i64 (workers * 2) + 30) in ora_setting ''processes'' v
       (''>= '' @ itoa needed @ '' (workers='' @ itoa workers @ '' x2 + overhead)'') (ok_or (Sscan_d v \<ge> needed) ''warn'')
       ''Max OS processes. Must accommodate parallel slaves + background processes'') @
     with_param o' ''open_cursors'' (\<lambda>v. ora_setting ''open_cursors'' v ''>= 300'' (ok_or (Sscan_d v \<ge> 300) ''warn'')
       ''Max open cursors per session. Each streaming read uses a cursor'') @
     with_param o' ''db_file_multiblock_read_count'' (\<lambda>v. ora_setting ''db_file_multiblock_read_count'' v ''>= 128''
       (ok_or (Sscan_d v \<ge> 128) ''info'') ''Blocks per I/O during full table scans. Higher = fewer I/O calls for bulk reads'') @
     with_param o' ''optimizer_mode'' (\<lambda>v. ora_setting ''optimizer_mode'' v ''ALL_ROWS'' (ok_or (v = ''ALL_ROWS'') ''warn'')
       ''ALL_ROWS optimizes for throughput (full scans). FIRST_ROWS optimizes for latency'')"

definition charset_settings :: "ora_settings \<Rightarrow> PGSetting list" where
  "charset_settings o' =
     (if param o' ''nls_characterset'' = '''' \<and> db_charset o' \<noteq> '''' then
        [ora_setting ''NLS_CHARACTERSET'' (db_charset o') ''AL32UTF8''
           (ok_or (db_charset o' = ''AL32UTF8'' \<or> db_charset o' = ''UTF8'') ''warn'')
           ''Database character set. Non-UTF8 requires implicit conversion during migration'']
      else []) @
     (if db_nchar o' \<noteq> '''' then
        [ora_setting ''NLS_NCHAR_CHARACTERSET'' (db_nchar o') ''AL16UTF16'' ''info''
           ''National character set for NCHAR/NVARCHAR2/NCLOB columns'']
      else [])"

definition redo_settings :: "ora_settings \<Rightarrow> PGSetting list" where
  "redo_settings o' =
     with_param o' ''undo_retention'' (\<lambda>v. let n = Sscan_d v in ora_setting ''undo_retention''
       (v @ '' sec ('' @ itoa (go_div n 60) @ ''m)'') ''>= 900 sec (15 min)'' (ok_or (n \<ge> 900) ''warn'')
       ''Undo retention for read consistency. Low value can cause ORA-01555 on long reads'') @
     (if redo_mb o' > 0 then
        [ora_setting ''redo_log_size'' (itoa (redo_mb o') @ '' MB (avg per group)'') ''>= 500 MB per group''
           (if redo_mb o' \<ge> 500 then ''ok'' else if redo_mb o' < 200 then ''warn'' else ''info'')
           ''Larger redo logs reduce log switch frequency during bulk reads with DML'']
      else []) @
     (if log_groups o' > 0 then
        [ora_setting ''redo_log_groups'' (itoa (log_groups o') @ '' groups'') ''>= 3 groups'' (ok_or (log_groups o' \<ge> 3) ''warn'')
           ''Number of redo log groups. More groups = smoother log switching'']
      else []) @
     with_param o' ''cell_offload_processing'' (\<lambda>v. ora_setting ''cell_offload_processing'' v ''TRUE'' (ok_or (v = ''TRUE'') ''warn'')
       ''Exadata Smart Scan: offloads filtering/decompression to storage cells'')"

definition ora_results :: "ora_settings \<Rightarrow> int \<Rightarrow> PGSetting list" where
  "ora_results o' workers =
     memory_settings o' @ parallel_settings o' workers @ limit_settings o' workers @ charset_settings o' @ redo_settings o'"

text \<open>The facts about the schema; its size falls back on an estimate.\<close>

record schema_info =
  si_table_count :: int
  si_total_rows :: int
  si_total_size_mb :: float64_bits
  si_largest_tables :: "tableSize list"
  si_partitioned_tables :: int
  si_lob_columns :: int
  si_last_analyzed :: "string option"

definition schema_facts :: "ora_settings \<Rightarrow> schema_info" where
  "schema_facts o' =
     \<lparr>si_table_count = table_count o', si_total_rows = total_rows o',
      si_total_size_mb = (case segment_mb o' of
          None \<Rightarrow> estimated_mb o' | Some mb \<Rightarrow> if mb = 0 then estimated_mb o' else mb),
      si_largest_tables = largest o', si_partitioned_tables = partitioned o', si_lob_columns = lob_count o',
      si_last_analyzed = last_analyzed o'\<rparr>"

text \<open>The settings, the schema, whether the machine is an Exadata, and the version.\<close>

definition GetOracleSettings ::
    "(string \<Rightarrow> string option) \<Rightarrow> (string \<Rightarrow> string \<Rightarrow> ora_settings) \<Rightarrow> project_db \<Rightarrow> string \<Rightarrow>
     (PGSetting list \<times> schema_info \<times> bool \<times> string) reply" where
  "GetOracleSettings connect answers db projectID =
     (case ps_Get projectID db of
        None \<Rightarrow> Failure 404 ''project not found'' ''''
      | Some p \<Rightarrow>
          (case connect (pj_OracleDSN p) of
             Some e \<Rightarrow> Failure 500 ''cannot connect to Oracle'' e
           | None \<Rightarrow>
               (let o' = answers (pj_OracleDSN p) (ToUpper (pj_OracleSchema p))
                in Reply 200 (ora_results o' (config_workers p), schema_facts o', cell_count o' > 0, ora_version o'))))"

section \<open>What the answers satisfy\<close>

definition status_ok :: "PGSetting \<Rightarrow> bool" where
  "status_ok s \<longleftrightarrow> set_Status s \<in> {''ok'', ''warn'', ''info''}"

lemma ok_or_ok: "ok_or b ''warn'' \<in> {''ok'', ''warn'', ''info''}" "ok_or b ''info'' \<in> {''ok'', ''warn'', ''info''}"
  by (simp_all add: ok_or_def)

lemma advise_ok: "status \<in> {''ok'', ''warn'', ''info''} \<Longrightarrow> status_ok (advise s status r d)"
  by (simp add: status_ok_def advise_def)

lemma ora_setting_ok: "status \<in> {''ok'', ''warn'', ''info''} \<Longrightarrow> status_ok (ora_setting n c r status d)"
  by (simp add: status_ok_def ora_setting_def)

lemma with_param_ok: "(\<And>v. status_ok (f v)) \<Longrightarrow> list_all status_ok (with_param o' name f)"
  by (simp add: with_param_def Let_def)

lemma evaluate_ok: "List.member settingsToCheck (set_Name s) \<Longrightarrow> status_ok (evaluate_memory workers s)"
  unfolding evaluate_memory_def evaluate_wal_def Let_def settingsToCheck_def
  by (simp split del: if_split) (auto intro!: advise_ok ok_or_ok)

lemma evaluate_name: "set_Name (evaluate_memory workers s) = set_Name s"
  unfolding evaluate_memory_def evaluate_wal_def Let_def by (simp add: advise_def)

lemma pg_results_ok: "list_all status_ok (pg_results workers setting)"
proof -
  have "status_ok (evaluate_memory workers s)" if "set_Name s \<in> set settingsToCheck" for s
    using evaluate_ok that by (simp add: List.member_iff)
  then show ?thesis by (auto simp: pg_results_def list_all_iff split: option.splits)
qed

lemma pg_results_names: "map set_Name (pg_results workers setting) = filter (\<lambda>name. setting name \<noteq> None) settingsToCheck"
proof -
  have "map set_Name (concat (map (\<lambda>name. case setting name of
         None \<Rightarrow> []
       | Some (value, unit) \<Rightarrow>
           [evaluate_memory workers \<lparr>set_Name = name, set_Current = value, set_Recommended = '''', set_Unit = unit,
              set_Status = '''', set_Description = ''''\<rparr>]) names)) = filter (\<lambda>name. setting name \<noteq> None) names" for names
    by (induction names) (auto simp: evaluate_name split: option.splits)
  then show ?thesis by (simp add: pg_results_def)
qed

lemma ora_results_ok: "list_all status_ok (ora_results o' workers)"
proof -
  have "list_all status_ok (memory_settings o')"
    by (simp add: memory_settings_def with_param_ok ora_setting_ok)
  moreover have "parallel_status workers n \<in> {''ok'', ''warn'', ''info''}" for n by (simp add: parallel_status_def)
  then have "list_all status_ok (parallel_settings o' workers)"
    by (simp add: parallel_settings_def with_param_ok ora_setting_ok)
  moreover have "list_all status_ok (limit_settings o' workers)"
    by (simp add: limit_settings_def with_param_ok ora_setting_ok ok_or_ok [simplified] Let_def)
  moreover have "list_all status_ok (charset_settings o')"
    by (simp add: charset_settings_def ora_setting_ok ok_or_ok [simplified])
  moreover have "list_all status_ok (redo_settings o')"
    by (simp add: redo_settings_def with_param_ok ora_setting_ok ok_or_ok [simplified] Let_def)
  ultimately show ?thesis by (simp add: ora_results_def)
qed

text \<open>
  Both checks answer with settings whose status is one of \<open>ok\<close>, \<open>warn\<close> and \<open>info\<close>, whatever the servers say, and the
  PostgreSQL check lists each setting that the server knows once, in the order of its list.
\<close>

theorem settings_typed:
  "list_all (\<lambda>s. List.member [''ok'', ''warn'', ''info''] (set_Status s)) (pg_results workers setting @ ora_results o' workers) \<and>
   map set_Name (pg_results workers setting) = filter (\<lambda>name. setting name \<noteq> None) settingsToCheck"
  using pg_results_ok [of workers setting] ora_results_ok [of o' workers]
  by (auto simp: list_all_iff status_ok_def pg_results_names)

text \<open>
  The limits on sessions and processes are found sufficient exactly from \<open>3 w + 50\<close> and \<open>2 w + 30\<close> on, for \<open>w\<close> workers.
\<close>

theorem limits_sufficient:
  assumes "0 < w" "w < 1000000000000" "0 \<le> n" "n < 9223372036854775808"
    and "param o' ''sessions'' = itoa n" "param o' ''processes'' = itoa m" "0 \<le> m" "m < 9223372036854775808"
  shows "map set_Status (take 2 (limit_settings o' w)) =
    [if n \<ge> 3 * w + 50 then ''ok'' else ''warn'', if m \<ge> 2 * w + 30 then ''ok'' else ''warn'']"
proof -
  have s: "Sscan_d (itoa n) = n" "Sscan_d (itoa m) = m"
    using scan_int_itoa [of n "''''"] scan_int_itoa [of m "''''"] assms by (simp_all add: Sscan_d_def)
  have w: "i64 (i64 (w * 3) + 50) = w * 3 + 50" "i64 (i64 (w * 2) + 30) = w * 2 + 30"
    using assms(1,2) by (simp_all add: in_i64_nonneg)
  show ?thesis unfolding limit_settings_def with_param_def assms(5,6) Let_def s w
    by (simp add: ora_setting_def ok_or_def mult.commute)
qed

definition demo_settings :: ora_settings where
  "demo_settings = \<lparr>param = (\<lambda>n. if n = ''sessions'' then ''100'' else if n = ''processes'' then ''30'' else ''''), db_charset = '''', db_nchar = '''',
     redo_mb = 0, log_groups = 0, table_count = 0, total_rows = 0, segment_mb = None, estimated_mb = 0, largest = [], partitioned = 0,
     lob_count = 0, cell_count = 0, ora_version = '''', last_analyzed = None, fmtf = \<lambda>p n d. ''''\<rparr>"

theorem limits_sufficient_witness:
  "map set_Status (take 2 (limit_settings demo_settings 4)) = [''ok'', ''warn'']"
proof -
  have p: "param demo_settings ''sessions'' = itoa 100" "param demo_settings ''processes'' = itoa 30" by code_simp+
  show ?thesis using limits_sufficient [OF _ _ _ _ p, of 4] by simp
qed

end
