(* ===== verification/Spec2Isabelle.thy ===== *)
theory Spec2Isabelle
  imports Plan_Rowid Oracle_Reader Pg_Pool Chunk_Session Process_Start Cli_Commands Connection_Tests Engine_Run Worker_Pool Plsql_Convert Extractor_Model Project_Store Migration_Control Ddl_Preview Target_View Settings_Check Updater Http_Server
begin

text \<open>
  A model of existora2pg, a tool that migrates an Oracle schema to PostgreSQL: it reads the metadata of
  the schema, plans one task per table, partition or chunk, keeps one job per task and phase in a SQLite
  file, creates the tables, copies the rows with a pool of workers, adds keys, indexes and constraints,
  sets the sequences and compares row counts. A second part converts PL/SQL text for review, and an HTTP
  server drives migrations for a user interface. The definitions follow the Go sources under \<open>internal/\<close> and
  \<open>pkg/api/\<close> function by function and keep their names; each theory's opening text names its files.

  \<^bold>\<open>Conventions.\<close> \<open>Go_Prelude\<close> holds the part of Go that the program uses. Go's \<open>int\<close> and \<open>int64\<close> are
  \<open>int\<close> with the wrap-around written out (\<open>i64\<close>) where it can matter; strings are byte lists; a map is a HOL map or,
  where its order or its size is used, an association list; a pointer that may be \<open>nil\<close> is an option; an \<open>error\<close>
  result is the left side of a sum or \<open>Some\<close> message, and what cannot go on after a panic is \<open>None\<close>. Floating point
  numbers are bit patterns that are never computed with. Outside systems are arguments: what a query to Oracle
  returns, whether a statement fails on the PostgreSQL server, the clock, Go's float parser. Log lines are left out
  except where the program reads them back.

  \<^bold>\<open>The parts.\<close>
  \<^item> \<open>Schema_Types\<close>, \<open>Ddl_Gen\<close>, \<open>Config_Model\<close>: the metadata records and the type mapping
    (\<open>internal/schema\<close>), the DDL text (\<open>internal/postgres/ddl.go\<close>), the configuration (\<open>internal/config\<close>). Lemmas: quoted
    names can be read back, a mapped number type holds every value of the Oracle type, defaults satisfy validation.
  \<^item> \<open>Table_Filter\<close>, \<open>Extractor_Model\<close>: the table filter with its glob patterns and the metadata
    extraction (\<open>internal/oracle/extractor.go\<close>) over Oracle's dictionary views as lists of rows. Lemmas: which tables,
    columns and constraints the extracted schema has, and what makes it fail.
  \<^item> \<open>Chunk_Where\<close>, \<open>Chunk_Session\<close>, \<open>Oracle_Reader\<close>: chunks, WHERE clauses and queries, the session in which
    \<open>DBMS_PARALLEL_EXECUTE\<close> makes the chunks, and the reading goroutines with their channel (\<open>chunker.go\<close>, \<open>reader.go\<close>).
    Lemmas: rows outside a listing that broke off are not read; a channel closed without an error has delivered the whole
    result, and a copy fed by it that reports success has committed exactly that; when a reader stays blocked.
  \<^item> \<open>Topo_Sort\<close>, \<open>Partition_Prune\<close>, \<open>Plan_Tasks\<close>, \<open>Plan_Build\<close>, \<open>Plan_Resolve\<close>: the planner
    (\<open>internal/migration/plan.go\<close>). \<open>Plan_Coverage\<close> and \<open>Plan_Rowid\<close> show that a resolved plan reads every
    row exactly once, for the hash and for the ROWID strategy, under the documented meaning of \<open>ORA_HASH\<close> and of ROWID
    ranges, and where a plan of two kinds of chunked tables does not.
  \<^item> \<open>Job_Store\<close>: the tables of runs and jobs and every operation on them (\<open>internal/jobstore\<close>), with the
    contract of an update as a locale.
  \<^item> \<open>Pg_Writer\<close>, \<open>Copy_Data\<close>: the writer (\<open>internal/postgres/writer.go\<close>) as lists of statements, and \<open>CopyData\<close>
    with its reader and writer goroutines as a step relation; its lemmas are exactly-once delivery, termination and
    the duplicate after a lost commit reply. \<open>Pg_Pool\<close> has how the pools are opened (\<open>conn.go\<close>) and the pool connections
    of a copy: which copies give their connection back.
  \<^item> \<open>Engine_Jobs\<close>, \<open>Engine_Ddl\<close>, \<open>Engine_Data\<close>, \<open>Engine_Validate\<close>, \<open>Engine_Run\<close>:
    the engine (\<open>internal/migration/engine.go\<close>). A phase takes the job store and the history of statements to new ones;
    the locales \<open>job_pass\<close> and \<open>task_function\<close> are what the phases share. The main theorem says what a run that
    returns no error has done.
  \<^item> \<open>Worker_Pool\<close>: the pool (\<open>worker.go\<close>) as a step relation; all tasks are run, every schedule ends, and a
    cancelled pool reports success. \<open>Goroutines\<close> holds what the models of goroutines share: the induction over schedules
    and, where every step does some work, the bound on their length.
  \<^item> \<open>Go_Regexp\<close>, \<open>Plsql_Patterns\<close>, \<open>Plsql_Naming\<close>, \<open>Plsql_Exprs\<close>, \<open>Plsql_Convert\<close>: the
    converter (\<open>internal/plsql/convert.go\<close>) with a backtracking matcher for the regular expressions it compiles. Lemmas:
    the case conversion changes nothing but letters outside literals and comments, a keyword rewrite replaces whole words.
  \<^item> \<open>Dsn_Mask\<close>, \<open>Project_Store\<close>: the masking of passwords in \<open>pkg/api/types.go\<close> and \<open>internal/cli/helpers.go\<close>,
    the table of projects (\<open>pkg/api/projects.go\<close>) and the project handlers. Lemmas: a masked DSN does not hold the
    password, and a project edited with the masked values it was shown keeps its real ones.
  \<^item> \<open>Progress_Events\<close>, \<open>Broadcaster\<close>: the log handler that turns log records into progress events, with its
    two aggregators and its throttle (\<open>handlers.go\<close>), and the fan-out to subscribers (\<open>progress.go\<close>) as a step relation.
    Lemmas: chunk row counts add up, running events are spaced, what a subscriber has got is in order and without
    repetition, and the schedule in which a send meets a closed channel.
  \<^item> \<open>Job_View\<close>, \<open>Migration_Control\<close>: how jobs are merged into table rows and a run summary, and the handlers that start,
    resume, cancel and reset a migration next to the goroutine that runs it: a step relation over the server's state.
  \<^item> \<open>Schema_View\<close>, \<open>Ddl_Preview\<close>, \<open>Target_View\<close>: the schema response, the DDL preview (compared with what a run
    executes), the status of the target and the row count validation (\<open>internal/validate\<close>).
  \<^item> \<open>Go_Scan\<close>, \<open>Settings_Check\<close>: \<open>fmt.Sscanf\<close> for \<open>%d\<close>, and the checks of PostgreSQL and Oracle settings.
  \<^item> \<open>Updater\<close>: versions, the choice of a release asset, the download, and the replacement of the executable over a
    file system whose operations may fail (\<open>internal/updater\<close>).
  \<^item> \<open>Http_Server\<close>: the routing tables, the CORS middleware and the fallback to the embedded page (\<open>pkg/api/server.go\<close>).
  \<^item> \<open>Connection_Tests\<close>: the connection tests, and \<open>buildEngine\<close>, which joins the handlers to the engine.
  \<^item> \<open>Cli_Commands\<close>, \<open>Process_Start\<close>: the commands (\<open>internal/cli\<close>), what they open, return and print, with the log
    levels; and the start of the executables (\<open>cmd/\<close>). Lemmas: the order of the statements of a dry run, when \<open>validate\<close>
    succeeds, and that the process restarts at most once.

  \<^bold>\<open>Not modelled.\<close> The drivers and SQL engines (a query's answer, or the error of opening, is an argument; statements are
  modelled as text or as what they select); the table definitions of the SQLite file; the HTTP library, JSON encoding and
  static files; flag parsing and the alignment of printed tables; the log writer; the desktop window (\<open>cmd/desktop/main.go\<close>,
  \<open>app.go\<close>), which hands the server to its library; the TypeScript frontend; \<open>configHash\<close>, which nothing calls.

  \<^bold>\<open>Loops.\<close> Structural recursion where the code ranges over a list; a measure for the depth-first search, the
  scanners, the glob matcher and the attempts of a batch; \<open>partial_function (option)\<close> for the page loops, the round-robin and
  the restart of the process, with theorems that they return. The ten rounds of the \<open>DECODE\<close> loop and the retry counts are those of the code.
  No fuel is used. Goroutines are step relations over explicit states, and their theorems hold for every schedule.
\<close>
end
